(* ===== verification/PLC_Prelude.thy ===== *)
theory PLC_Prelude
  imports Main "HOL-Library.Word"
begin

text \<open>
  Shared vocabulary of the development: the C integer types, the errno values, the
  few functions of \<^verbatim>\<open>string.h\<close> and \<^verbatim>\<open>stdio.h\<close> that every component uses, and the
  generic facts on lists and words that the component proofs rest on.

  Conventions that hold in every theory:
  \<^item> an object the C code receives by pointer from a caller that owns it (a table, a ring,
    the runtime) is passed by value and returned updated; the \<open>== NULL\<close> guard on such a
    pointer has no counterpart, because the value is always there;
  \<^item> a pointer that is data (a name, an \<open>ops\<close> table, a function pointer, a configuration
    array, an element of the driver array, an output buffer) is an \<open>option\<close>, with
    \<open>None\<close> for \<open>NULL\<close>, and its guards are modelled;
  \<^item> a C string is the list of its characters before the terminating NUL;
  \<^item> a status code is an \<open>int\<close>.
\<close>

unbundle bit_operations_syntax

section \<open>Machine types\<close>

type_synonym u8 = "8 word"
type_synonym u16 = "16 word"
type_synonym u32 = "32 word"
type_synonym u64 = "64 word"

abbreviation ENOENT :: int where "ENOENT \<equiv> 2"
abbreviation EINVAL :: int where "EINVAL \<equiv> 22"
abbreviation ERANGE :: int where "ERANGE \<equiv> 34"

named_theorems op_defs \<open>definitions of the modelled operations\<close>
named_theorems wf_defs \<open>definitions of the well-formedness invariants\<close>
named_theorems frame_simps \<open>what an operation leaves unchanged\<close>

section \<open>C strings\<close>

text \<open>
  \<open>snprintf(buf, n, "%s", s)\<close> stores at most \<open>n - 1\<close> characters and returns the length
  the whole output would have had. Only calls with \<open>n > 0\<close> occur.
\<close>

definition snprintf :: "nat \<Rightarrow> string \<Rightarrow> string \<times> nat" where
  "snprintf n s = (take (n - 1) s, length s)"

text \<open>The decimal digits \<^verbatim>\<open>printf\<close> writes for an unsigned number.\<close>

fun dec_nat :: "nat \<Rightarrow> string" where
  "dec_nat n = (if n < 10 then [char_of (48 + n)] else dec_nat (n div 10) @ [char_of (48 + n mod 10)])"

declare dec_nat.simps [simp del]

text \<open>The C string a character array holds: everything before the first NUL.\<close>

definition cstr :: "string \<Rightarrow> string" where
  "cstr s = takeWhile (\<lambda>c. c \<noteq> CHR 0x00) s"

lemma snprintf_fits [simp]: "length s < n \<Longrightarrow> snprintf n s = (s, length s)"
  by (simp add: snprintf_def)

lemma length_snprintf: "0 < n \<Longrightarrow> length (fst (snprintf n s)) < n"
  by (simp add: snprintf_def)

lemma cstr_no_nul: "CHR 0x00 \<notin> set s \<Longrightarrow> cstr s = s"
  by (induction s) (auto simp: cstr_def)

section \<open>Lists\<close>

text \<open>\<open>memcpy\<close> of a block to the start of a buffer, and to an offset in it.\<close>

definition overwrite :: "'a list \<Rightarrow> 'a list \<Rightarrow> 'a list" where
  "overwrite bs out = bs @ drop (length bs) out"

definition mem_put :: "nat \<Rightarrow> 'a list \<Rightarrow> 'a list \<Rightarrow> 'a list" where
  "mem_put off bs out = take off out @ bs @ drop (off + length bs) out"

definition mem_get :: "nat \<Rightarrow> nat \<Rightarrow> 'a list \<Rightarrow> 'a list" where
  "mem_get off n xs = take n (drop off xs)"

lemma length_mem_put [simp]:
  "off + length bs \<le> length out \<Longrightarrow> length (mem_put off bs out) = length out"
  by (simp add: mem_put_def)

lemma length_mem_get [simp]: "off + n \<le> length xs \<Longrightarrow> length (mem_get off n xs) = n"
  by (simp add: mem_get_def)

lemma mem_get_put_same:
  "off + length bs \<le> length out \<Longrightarrow> n = length bs \<Longrightarrow> mem_get off n (mem_put off bs out) = bs"
  by (simp add: mem_get_def mem_put_def)

lemma nth_mem_put:
  assumes "off + length bs \<le> length out" "i < length out"
  shows "mem_put off bs out ! i =
    (if off \<le> i \<and> i < off + length bs then bs ! (i - off) else out ! i)"
  using assms by (auto simp: mem_put_def nth_append min_def)

lemma mem_get_put_other:
  assumes "off + length bs \<le> length out" "o2 + n \<le> length out"
    and "o2 + n \<le> off \<or> off + length bs \<le> o2"
  shows "mem_get o2 n (mem_put off bs out) = mem_get o2 n out"
proof (rule nth_equalityI)
  show "length (mem_get o2 n (mem_put off bs out)) = length (mem_get o2 n out)"
    using assms by (simp add: mem_get_def)
next
  fix i assume "i < length (mem_get o2 n (mem_put off bs out))"
  then have "i < n" and "o2 + i < length out"
    using assms by (auto simp: mem_get_def)
  then show "mem_get o2 n (mem_put off bs out) ! i = mem_get o2 n out ! i"
    using assms by (auto simp: mem_get_def nth_mem_put)
qed

lemma nth_update_cases: "xs[i := x] ! j = (if i = j \<and> j < length xs then x else xs ! j)"
  by (cases "i < length xs") (auto simp: nth_list_update list_update_beyond)

lemma set_update_cases: "y \<in> set (xs[i := x]) \<Longrightarrow> y = x \<or> y \<in> set xs"
  using set_update_subset_insert [of xs i x] by blast

section \<open>Words\<close>

lemma unat_of_nat_small: "n < 2 ^ LENGTH('a) \<Longrightarrow> unat (of_nat n :: 'a::len word) = n"
  by (simp add: unat_of_nat take_bit_nat_eq_self)

lemma unat_u32_less: "unat (w :: u32) < 2 ^ 32"
  by (rule less_le_trans [OF unsigned_less]) simp

lemma unat_plus_one:
  fixes w :: "'a::len word"
  assumes "unat w + 1 < 2 ^ LENGTH('a)"
  shows "unat (w + 1) = unat w + 1"
  using assms by (simp add: unat_word_ariths take_bit_nat_eq_self)

end
