(* ===== verification/Device_Desc.thy ===== *)
theory Device_Desc
  imports PLC_Prelude
begin

text \<open>
  Device descriptors: \<^verbatim>\<open>core/device/device_desc.h\<close>, the registry of
  \<^verbatim>\<open>core/device/device_registry.c\<close>, and what \<^verbatim>\<open>offsetof\<close> and \<^verbatim>\<open>sizeof\<close> give for the
  packed PDO structs the descriptor tables are written with.
\<close>

section \<open>Types of \<^verbatim>\<open>device_desc.h\<close>\<close>

text \<open>
  An \<^verbatim>\<open>enum\<close> object of C can hold any integer; the last constructor stands for the values
  the enumeration does not name, so that the \<^verbatim>\<open>default:\<close> branches of the code are branches
  of the model.
\<close>

datatype TagType = TAG_T_BOOL | TAG_T_U8 | TAG_T_U16 | TAG_T_U32 | TAG_T_REAL | TAG_T_OTHER int

datatype TagDir = TAGDIR_IN | TAGDIR_OUT | TAGDIR_OTHER int

record TagDesc =
  td_name :: "string option"
  td_dir :: TagDir
  td_type :: TagType
  td_offset_byte :: u32
  td_bit_index :: u8
  td_iec_alias :: "string option"
  td_comment :: "string option"

text \<open>The functions a descriptor's hooks can point to.\<close>

datatype device_hook = config_hook_EL230 | config_hook_EL400

record DeviceHooks =
  on_init :: "device_hook option"
  on_update :: "device_hook option"
  on_shutdown :: "device_hook option"

record DeviceDesc =
  model :: "string option"
  vendor_id :: u32
  product_code :: u32
  rx_bytes :: u32
  tx_bytes :: u32
  tags :: "TagDesc list option"
  tag_count :: u32
  hooks :: DeviceHooks

text \<open>One row of a descriptor table: the alias and the comment are \<open>NULL\<close> in all of them.\<close>

definition tag_row :: "string \<Rightarrow> TagDir \<Rightarrow> TagType \<Rightarrow> u32 \<Rightarrow> u8 \<Rightarrow> TagDesc" where
  "tag_row n d t off b = \<lparr>td_name = Some n, td_dir = d, td_type = t, td_offset_byte = off,
     td_bit_index = b, td_iec_alias = None, td_comment = None\<rparr>"

section \<open>Packed struct layouts\<close>

text \<open>
  A struct under \<^verbatim>\<open>#pragma pack(push, 1)\<close> is the sequence of its leaf members with their
  sizes; an anonymous union of a byte with its bit-fields is one byte.
\<close>

type_synonym layout = "(string \<times> nat) list"

fun offsetof_from :: "nat \<Rightarrow> layout \<Rightarrow> string \<Rightarrow> nat" where
  "offsetof_from off [] f = off"
| "offsetof_from off ((g, n) # l) f = (if g = f then off else offsetof_from (off + n) l f)"

definition offsetof :: "layout \<Rightarrow> string \<Rightarrow> u32" where
  "offsetof l f = of_nat (offsetof_from 0 l f)"

definition sizeof_layout :: "layout \<Rightarrow> u32" where
  "sizeof_layout l = of_nat (sum_list (map snd l))"

lemma offsetof_from_bound:
  "f \<in> fst ` set l \<Longrightarrow> offsetof_from off l f + the (map_of l f) \<le> off + sum_list (map snd l)"
proof (induction off l f rule: offsetof_from.induct)
  case (2 off g n l f)
  then show ?case by (cases "g = f") (force simp: add.assoc)+
qed simp

section \<open>The registry\<close>

text \<open>
  \<^verbatim>\<open>device_registry_find\<close> walks the array of descriptor pointers and returns the first whose
  model is the one asked for. The array (\<^verbatim>\<open>g_device_descs\<close>) is an argument.
\<close>

fun device_registry_scan :: "DeviceDesc option list \<Rightarrow> string \<Rightarrow> DeviceDesc option" where
  "device_registry_scan [] m = None"
| "device_registry_scan (d # ds) m =
     (case d of
        None \<Rightarrow> device_registry_scan ds m
      | Some desc \<Rightarrow> (if model desc = Some m then Some desc else device_registry_scan ds m))"

definition device_registry_find_in :: "DeviceDesc option list \<Rightarrow> string option \<Rightarrow> DeviceDesc option" where
  "device_registry_find_in descs m = (case m of None \<Rightarrow> None | Some s \<Rightarrow> device_registry_scan descs s)"

lemma device_registry_scan_Some:
  "device_registry_scan ds m = Some d \<Longrightarrow> Some d \<in> set ds \<and> model d = Some m"
  by (induction ds m rule: device_registry_scan.induct) (auto split: option.splits if_splits)

lemma device_registry_scan_None:
  "device_registry_scan ds m = None \<longleftrightarrow> (\<forall>d. Some d \<in> set ds \<longrightarrow> model d \<noteq> Some m)"
  by (induction ds m rule: device_registry_scan.induct) (auto split: option.splits)

end
