(* ===== verification/Tag_Table.thy ===== *)
theory Tag_Table
  imports Device_Desc
begin

text \<open>
  The tag table of \<^verbatim>\<open>core/tag/tag_table.c\<close>: a fixed array of 256 entries with a fill count,
  searched linearly by name; a tag id is an array index plus one and 0 is no tag. The
  locale \<open>tag_directory\<close> is the contract the other components use the table through.
\<close>

section \<open>Data\<close>

datatype TagKind = TAGK_INVALID | TAGK_IO | TAGK_PROC | TAGK_HMI_ALIAS | TAGK_HMI_VAR

record TagIORef =
  io_device_index :: u16
  io_backend_index :: u16
  io_dir :: TagDir
  io_byte_offset :: u32
  io_bit :: u8

text \<open>
  The union \<^verbatim>\<open>ref\<close> with its discriminator \<^verbatim>\<open>kind\<close> is one tagged union: every writer of the
  code sets both together.
\<close>

datatype TagRef =
    REF_NONE
  | REF_IO TagIORef
  | REF_PROC (proc_index: u32)
  | REF_HMI_ALIAS (alias_target: u32) (alias_access: u8)
  | REF_HMI_VAR (var_index: u32) (var_access: u8)

record TagEntry =
  full_name :: "string option"
  te_type :: TagType
  te_ref :: TagRef

definition te_kind :: "TagEntry \<Rightarrow> TagKind" where
  "te_kind e = (case te_ref e of REF_NONE \<Rightarrow> TAGK_INVALID | REF_IO _ \<Rightarrow> TAGK_IO
     | REF_PROC _ \<Rightarrow> TAGK_PROC | REF_HMI_ALIAS _ _ \<Rightarrow> TAGK_HMI_ALIAS
     | REF_HMI_VAR _ _ \<Rightarrow> TAGK_HMI_VAR)"

record TagTable =
  tt_entries :: "TagEntry list"
  tt_count :: u32

definition MAX_TAGS :: u32 where "MAX_TAGS = 256"
definition NAME_STORAGE :: nat where "NAME_STORAGE = 128"

definition zero_entry :: TagEntry where
  "zero_entry = \<lparr>full_name = None, te_type = TAG_T_BOOL, te_ref = REF_NONE\<rparr>"

definition zero_table :: TagTable where
  "zero_table = \<lparr>tt_entries = replicate (unat MAX_TAGS) zero_entry, tt_count = 0\<rparr>"

section \<open>Operations\<close>

definition tag_table_init :: "TagTable \<Rightarrow> int \<times> TagTable" where
  "tag_table_init t = (0, zero_table)"

definition tag_table_deinit :: "TagTable \<Rightarrow> TagTable" where
  "tag_table_deinit t = zero_table"

text \<open>
  The loop both \<^verbatim>\<open>tag_table_add\<close> and \<^verbatim>\<open>tag_table_find_id\<close> run over the entries below the
  count: the index of the first entry that has the name.
\<close>

fun tag_table_scan :: "TagEntry list \<Rightarrow> string \<Rightarrow> nat \<Rightarrow> nat option" where
  "tag_table_scan [] n i = None"
| "tag_table_scan (e # es) n i =
     (if full_name e = Some n then Some i else tag_table_scan es n (Suc i))"

definition live :: "TagTable \<Rightarrow> TagEntry list" where
  "live t = take (unat (tt_count t)) (tt_entries t)"

definition tag_table_add :: "TagTable \<Rightarrow> TagEntry \<Rightarrow> int \<times> TagTable" where
  "tag_table_add t e =
     (case full_name e of
        None \<Rightarrow> (-1, t)
      | Some n \<Rightarrow>
          if n = '''' then (-1, t)
          else if tag_table_scan (live t) n 0 \<noteq> None then (-1, t)
          else if MAX_TAGS \<le> tt_count t then (-1, t)
          else
            let dest = unat (tt_count t);
                (storage, rc) = snprintf NAME_STORAGE n
            in if NAME_STORAGE \<le> rc
               then (-1, t\<lparr>tt_entries := (tt_entries t)[dest := zero_entry]\<rparr>)
               else (0, t\<lparr>tt_entries := (tt_entries t)[dest :=
                           \<lparr>full_name = Some storage, te_type = te_type e, te_ref = te_ref e\<rparr>],
                         tt_count := tt_count t + 1\<rparr>))"

definition tag_table_find_id :: "TagTable \<Rightarrow> string option \<Rightarrow> u32" where
  "tag_table_find_id t name =
     (case name of
        None \<Rightarrow> 0
      | Some n \<Rightarrow> (case tag_table_scan (live t) n 0 of None \<Rightarrow> 0 | Some i \<Rightarrow> of_nat i + 1))"

definition tag_table_get :: "TagTable \<Rightarrow> u32 \<Rightarrow> TagEntry option" where
  "tag_table_get t tid =
     (if tid = 0 \<or> tt_count t < tid then None else Some (tt_entries t ! unat (tid - 1)))"

definition tag_table_count :: "TagTable \<Rightarrow> u32" where
  "tag_table_count t = tt_count t"

section \<open>Invariant\<close>

definition entry_named :: "TagEntry \<Rightarrow> bool" where
  "entry_named e \<longleftrightarrow> (\<exists>n. full_name e = Some n \<and> n \<noteq> '''' \<and> length n < NAME_STORAGE)"

definition table_wf :: "TagTable \<Rightarrow> bool" where
  "table_wf t \<longleftrightarrow> length (tt_entries t) = 256 \<and> unat (tt_count t) \<le> 256
     \<and> (\<forall>e \<in> set (live t). entry_named e) \<and> distinct (map full_name (live t))"

lemmas table_defs = MAX_TAGS_def NAME_STORAGE_def live_def

lemma table_wf_zero: "table_wf zero_table"
  by (simp add: table_wf_def zero_table_def table_defs)

lemma live_zero [simp]: "live zero_table = []"
  by (simp add: zero_table_def live_def)

lemma zero_table_count [simp]: "tt_count zero_table = 0" "tag_table_count zero_table = 0"
  by (simp_all add: zero_table_def tag_table_count_def)

lemma length_live: "table_wf t \<Longrightarrow> length (live t) = unat (tt_count t)"
  by (simp add: table_wf_def live_def)

lemma live_bound: "table_wf t \<Longrightarrow> length (live t) \<le> 256"
  by (simp add: table_wf_def live_def)

section \<open>The scan\<close>

lemma tag_table_scan_None:
  "tag_table_scan es n i = None \<longleftrightarrow> Some n \<notin> full_name ` set es"
  by (induction es n i rule: tag_table_scan.induct) auto

lemma tag_table_scan_Some:
  "tag_table_scan es n i = Some j \<Longrightarrow>
     i \<le> j \<and> j < i + length es \<and> full_name (es ! (j - i)) = Some n"
proof (induction es n i rule: tag_table_scan.induct)
  case (2 e es n i)
  show ?case
  proof (cases "full_name e = Some n")
    case True
    with 2 show ?thesis by simp
  next
    case False
    with 2 have "Suc i \<le> j \<and> j < Suc i + length es \<and> full_name (es ! (j - Suc i)) = Some n"
      by simp
    then show ?thesis by (simp add: nth_Cons')
  qed
qed simp

lemma tag_table_scan_distinct:
  assumes "distinct (map full_name es)" "j < length es" "full_name (es ! j) = Some n"
  shows "tag_table_scan es n 0 = Some j"
proof -
  have "tag_table_scan es n 0 \<noteq> None"
    unfolding tag_table_scan_None using assms nth_mem [of j es] by (metis image_eqI)
  then obtain k where k: "tag_table_scan es n 0 = Some k" by auto
  then have "k < length es" "full_name (es ! k) = Some n"
    using tag_table_scan_Some [OF k] by auto
  with assms have "k = j"
    by (metis length_map nth_eq_iff_index_eq nth_map)
  with k show ?thesis by simp
qed

section \<open>Adding\<close>

definition add_accepts :: "TagTable \<Rightarrow> TagEntry \<Rightarrow> bool" where
  "add_accepts t e \<longleftrightarrow> entry_named e \<and> full_name e \<notin> full_name ` set (live t)
     \<and> length (live t) < 256"

lemma count_less_iff: "table_wf t \<Longrightarrow> tt_count t < MAX_TAGS \<longleftrightarrow> length (live t) < 256"
  by (simp add: length_live word_less_nat_alt MAX_TAGS_def)

lemma tag_table_add_accept:
  assumes "table_wf t" "add_accepts t e"
  shows "tag_table_add t e =
    (0, t\<lparr>tt_entries := (tt_entries t)[unat (tt_count t) := e], tt_count := tt_count t + 1\<rparr>)"
proof -
  obtain n where n: "full_name e = Some n" "n \<noteq> ''''" "length n < NAME_STORAGE"
    using assms(2) by (auto simp: add_accepts_def entry_named_def)
  have "tag_table_scan (live t) n 0 = None"
    using assms(2) n by (simp add: tag_table_scan_None add_accepts_def)
  moreover have "\<not> MAX_TAGS \<le> tt_count t"
    using assms count_less_iff [OF assms(1)] by (simp add: add_accepts_def not_le)
  moreover have rec: "\<lparr>full_name = Some n, te_type = te_type e, te_ref = te_ref e\<rparr> = e"
    using n(1) by (cases e) simp
  ultimately show ?thesis
    using n by (simp add: tag_table_add_def not_le rec del: TagEntry.equality)
qed

lemma tag_table_add_reject:
  assumes "table_wf t" "\<not> add_accepts t e"
  shows "fst (tag_table_add t e) = -1
    \<and> tt_count (snd (tag_table_add t e)) = tt_count t
    \<and> live (snd (tag_table_add t e)) = live t
    \<and> length (tt_entries (snd (tag_table_add t e))) = length (tt_entries t)"
proof -
  have "full_name e = Some n \<Longrightarrow> n \<noteq> '''' \<Longrightarrow> tag_table_scan (live t) n 0 = None
    \<Longrightarrow> \<not> MAX_TAGS \<le> tt_count t \<Longrightarrow> NAME_STORAGE \<le> length n" for n
    using assms by (auto simp: add_accepts_def entry_named_def tag_table_scan_None not_le
        count_less_iff [symmetric])
  then show ?thesis
    by (auto simp: tag_table_add_def snprintf_def live_def split: option.splits)
qed

lemma live_add:
  assumes "table_wf t" "unat (tt_count t) < 256"
  shows "live (t\<lparr>tt_entries := (tt_entries t)[unat (tt_count t) := e], tt_count := tt_count t + 1\<rparr>)
    = live t @ [e]"
proof -
  have "unat (tt_count t + 1) = unat (tt_count t) + 1"
    using assms by (intro unat_plus_one) simp
  then show ?thesis
    using assms by (simp add: live_def table_wf_def take_Suc_conv_app_nth)
qed

lemma tag_table_add_live:
  assumes "table_wf t"
  shows "live (snd (tag_table_add t e)) = (if add_accepts t e then live t @ [e] else live t)"
    and "fst (tag_table_add t e) = (if add_accepts t e then 0 else -1)"
    and "length (tt_entries (snd (tag_table_add t e))) = 256"
proof -
  have "live (snd (tag_table_add t e)) = (if add_accepts t e then live t @ [e] else live t)
    \<and> fst (tag_table_add t e) = (if add_accepts t e then 0 else -1)
    \<and> length (tt_entries (snd (tag_table_add t e))) = 256"
  proof (cases "add_accepts t e")
    case True
    then have "unat (tt_count t) < 256" using assms by (simp add: add_accepts_def length_live)
    with True assms tag_table_add_accept [OF assms True] live_add [OF assms]
    show ?thesis by (simp add: table_wf_def)
  next
    case False
    with assms tag_table_add_reject [OF assms False] show ?thesis by (simp add: table_wf_def)
  qed
  then show "live (snd (tag_table_add t e)) = (if add_accepts t e then live t @ [e] else live t)"
    and "fst (tag_table_add t e) = (if add_accepts t e then 0 else -1)"
    and "length (tt_entries (snd (tag_table_add t e))) = 256" by auto
qed

lemma tag_table_add_wf:
  assumes "table_wf t"
  shows "table_wf (snd (tag_table_add t e))"
proof (cases "add_accepts t e")
  case True
  have "unat (tt_count t + 1) = unat (tt_count t) + 1"
    using assms True by (intro unat_plus_one) (simp add: add_accepts_def length_live)
  with assms True tag_table_add_live [OF assms, of e] tag_table_add_accept [OF assms True]
  show ?thesis
    by (auto simp: table_wf_def add_accepts_def length_live [OF assms])
next
  case False
  with assms tag_table_add_live [OF assms, of e] tag_table_add_reject [OF assms False]
  show ?thesis by (simp add: table_wf_def)
qed

section \<open>Looking up\<close>

lemma of_nat_index: "i < 256 \<Longrightarrow> unat (of_nat i + 1 :: u32) = Suc i"
  by (subst unat_plus_one) (simp_all add: unat_of_nat_small)

lemma tag_table_find_id_hit:
  assumes "table_wf t" "i < length (live t)" "full_name (live t ! i) = Some n"
  shows "tag_table_find_id t (Some n) = of_nat i + 1"
  using assms tag_table_scan_distinct [of "live t" i n]
  by (simp add: tag_table_find_id_def table_wf_def)

lemma tag_table_find_id_miss:
  "Some n \<notin> full_name ` set (live t) \<Longrightarrow> tag_table_find_id t (Some n) = 0"
  by (simp add: tag_table_find_id_def tag_table_scan_None [THEN iffD2])

lemma tag_table_get_live:
  assumes "table_wf t"
  shows "tag_table_get t tid =
    (if 0 < unat tid \<and> unat tid \<le> length (live t) then Some (live t ! (unat tid - 1)) else None)"
proof (cases "tid = 0 \<or> tt_count t < tid")
  case True
  then show ?thesis
    using assms by (auto simp: tag_table_get_def length_live word_less_nat_alt)
next
  case False
  then have pos: "0 < unat tid" and le: "unat tid \<le> unat (tt_count t)"
    by (auto simp: unat_gt_0 word_less_nat_alt)
  have "unat (tid - 1) = unat tid - 1"
    using False by (intro unat_minus_one) simp
  moreover have "live t ! (unat tid - 1) = tt_entries t ! (unat tid - 1)"
    using pos le by (simp add: live_def)
  ultimately show ?thesis
    using False pos le by (simp add: tag_table_get_def length_live [OF assms])
qed

section \<open>The contract of a tag directory\<close>

text \<open>
  What the builder, the binders, the store initialisation and the RPC handler rely on: a
  directory of uniquely named entries that only grows, in which an entry is found by name
  under the position it was added at.
\<close>

locale tag_directory =
  fixes add :: "'t \<Rightarrow> 'e \<Rightarrow> int \<times> 't"
    and find :: "'t \<Rightarrow> string option \<Rightarrow> u32"
    and get :: "'t \<Rightarrow> u32 \<Rightarrow> 'e option"
    and contents :: "'t \<Rightarrow> 'e list"
    and name_of :: "'e \<Rightarrow> string option"
    and inv :: "'t \<Rightarrow> bool"
  assumes bound: "inv t \<Longrightarrow> length (contents t) \<le> 256"
    and distinct_names: "inv t \<Longrightarrow> distinct (map name_of (contents t))"
    and named: "inv t \<Longrightarrow> e \<in> set (contents t) \<Longrightarrow> name_of e \<noteq> None"
    and add_inv: "inv t \<Longrightarrow> inv (snd (add t e))"
    and add_ok: "inv t \<Longrightarrow> add t e = (0, t') \<Longrightarrow> contents t' = contents t @ [e]"
    and add_fail: "inv t \<Longrightarrow> add t e = (rc, t') \<Longrightarrow> rc \<noteq> 0 \<Longrightarrow> contents t' = contents t"
    and find_hit: "inv t \<Longrightarrow> i < length (contents t) \<Longrightarrow> name_of (contents t ! i) = Some n
      \<Longrightarrow> find t (Some n) = of_nat i + 1"
    and find_miss: "inv t \<Longrightarrow> Some n \<notin> name_of ` set (contents t) \<Longrightarrow> find t (Some n) = 0"
    and get_contents: "inv t \<Longrightarrow> get t tid =
      (if 0 < unat tid \<and> unat tid \<le> length (contents t) then Some (contents t ! (unat tid - 1))
       else None)"
begin

lemma find_cases:
  assumes "inv t"
  obtains "find t (Some n) = 0" "Some n \<notin> name_of ` set (contents t)"
  | i where "i < length (contents t)" "name_of (contents t ! i) = Some n"
      "find t (Some n) = of_nat i + 1" "unat (find t (Some n)) = Suc i"
proof (cases "Some n \<in> name_of ` set (contents t)")
  case True
  then obtain i where i: "i < length (contents t)" "name_of (contents t ! i) = Some n"
    by (auto simp: in_set_conv_nth)
  moreover have "find t (Some n) = of_nat i + 1" using find_hit [OF assms i] .
  moreover have "i < 256" using i(1) bound [OF assms] by simp
  ultimately show thesis using that(2) of_nat_index by simp
next
  case False
  then show thesis using that(1) find_miss [OF assms] by simp
qed

lemma find_get:
  assumes "inv t" "find t (Some n) \<noteq> 0"
  shows "\<exists>e. get t (find t (Some n)) = Some e \<and> name_of e = Some n"
  using assms(1)
proof (cases rule: find_cases [where n = n])
  case 1
  with assms show ?thesis by simp
next
  case (2 i)
  then show ?thesis by (simp add: get_contents [OF assms(1)])
qed

lemma get_find:
  assumes "inv t" "get t tid = Some e" "name_of e = Some n"
  shows "find t (Some n) = tid"
proof -
  have *: "0 < unat tid" "unat tid \<le> length (contents t)" "e = contents t ! (unat tid - 1)"
    using assms(2) by (auto simp: get_contents [OF assms(1)] split: if_splits)
  then have "find t (Some n) = of_nat (unat tid - 1) + 1"
    using assms by (intro find_hit) auto
  also have "\<dots> = of_nat (unat tid)"
    using *(1) by (metis Suc_pred' of_nat_Suc add.commute)
  finally show ?thesis by simp
qed

text \<open>Adding keeps every id that was handed out.\<close>

lemma add_contents:
  assumes "inv t" "add t e = (rc, t')"
  obtains "contents t' = contents t" | "contents t' = contents t @ [e]"
  using assms add_ok add_fail by (cases "rc = 0") auto

lemma add_keeps_get:
  assumes "inv t" "get t tid = Some x"
  shows "get (snd (add t e)) tid = Some x"
proof -
  obtain rc t' where a: "add t e = (rc, t')" by fastforce
  have "inv t'" using add_inv [OF assms(1), of e] a by simp
  then show ?thesis
    using assms a by (cases rule: add_contents [OF assms(1) a])
      (auto simp: get_contents nth_append split: if_splits)
qed

lemma add_keeps_find:
  assumes "inv t" "find t (Some n) \<noteq> 0"
  shows "find (snd (add t e)) (Some n) = find t (Some n)"
proof -
  obtain x where "get t (find t (Some n)) = Some x" "name_of x = Some n"
    using find_get [OF assms] by blast
  then show ?thesis
    using get_find add_keeps_get add_inv assms(1) by blast
qed

lemma find_added:
  assumes "inv t" "add t e = (0, t')" "name_of e = Some n"
  shows "find t' (Some n) = of_nat (length (contents t)) + 1"
proof -
  have "inv t'" using add_inv [OF assms(1), of e] assms(2) by simp
  moreover have "contents t' = contents t @ [e]" using add_ok [OF assms(1,2)] .
  ultimately show ?thesis
    using find_hit [of t' "length (contents t)" n] assms(3) by simp
qed

definition add_all :: "'t \<Rightarrow> 'e list \<Rightarrow> 't" where
  "add_all t es = foldl (\<lambda>t e. snd (add t e)) t es"

lemma add_all_inv: "inv t \<Longrightarrow> inv (add_all t es)"
  by (induction es arbitrary: t) (auto simp: add_all_def add_inv)

lemma add_all_keeps_get:
  "inv t \<Longrightarrow> get t tid = Some x \<Longrightarrow> get (add_all t es) tid = Some x"
  by (induction es arbitrary: t) (auto simp: add_all_def add_inv add_keeps_get)

lemma add_all_keeps_find:
  "inv t \<Longrightarrow> find t (Some n) \<noteq> 0 \<Longrightarrow> find (add_all t es) (Some n) = find t (Some n)"
  by (induction es arbitrary: t) (auto simp: add_all_def add_inv add_keeps_find)

end

interpretation tt: tag_directory tag_table_add tag_table_find_id tag_table_get live full_name table_wf
proof unfold_locales
  fix t e n i rc t' tid
  assume wf: "table_wf t"
  show "length (live t) \<le> 256" by (rule live_bound [OF wf])
  show "distinct (map full_name (live t))" using wf by (simp add: table_wf_def)
  show "e \<in> set (live t) \<Longrightarrow> full_name e \<noteq> None"
    using wf by (auto simp: table_wf_def entry_named_def)
  show "table_wf (snd (tag_table_add t e))" by (rule tag_table_add_wf [OF wf])
  show "tag_table_add t e = (0, t') \<Longrightarrow> live t' = live t @ [e]"
    and "tag_table_add t e = (rc, t') \<Longrightarrow> rc \<noteq> 0 \<Longrightarrow> live t' = live t"
    using tag_table_add_live [OF wf, of e] by (auto split: if_splits)
  show "i < length (live t) \<Longrightarrow> full_name (live t ! i) = Some n
      \<Longrightarrow> tag_table_find_id t (Some n) = of_nat i + 1"
    by (rule tag_table_find_id_hit [OF wf])
  show "Some n \<notin> full_name ` set (live t) \<Longrightarrow> tag_table_find_id t (Some n) = 0"
    by (rule tag_table_find_id_miss)
  show "tag_table_get t tid = (if 0 < unat tid \<and> unat tid \<le> length (live t)
      then Some (live t ! (unat tid - 1)) else None)"
    by (rule tag_table_get_live [OF wf])
qed

section \<open>Properties\<close>

text \<open>
  C1. Registering a tag either appends exactly the given entry, or refuses and leaves the
  registered tags as they are; it succeeds precisely when the name is present, non-empty,
  shorter than the 128-byte name slot and not taken, and the table has a free slot. In
  both cases the table stays well formed: 256 slots, every name stored whole, names
  distinct.
\<close>

theorem tag_table_add_contract:
  assumes "table_wf t" "tag_table_add t e = (rc, t')"
  shows "table_wf t'
    \<and> rc = (if (\<exists>n. full_name e = Some n \<and> n \<noteq> [] \<and> length n < 128)
          \<and> full_name e \<notin> set (map full_name (live t)) \<and> unat (tag_table_count t) < 256 then 0 else -1)
    \<and> live t' = (if rc = 0 then live t @ [e] else live t)
    \<and> unat (tag_table_count t') = unat (tag_table_count t) + (if rc = 0 then 1 else 0)"
proof -
  have wf: "table_wf t'" using tag_table_add_wf [OF assms(1), of e] assms(2) by simp
  have rc: "rc = (if add_accepts t e then 0 else -1)"
    and l: "live t' = (if add_accepts t e then live t @ [e] else live t)"
    using tag_table_add_live [OF assms(1), of e] assms(2) by simp_all
  have "rc = (if (\<exists>n. full_name e = Some n \<and> n \<noteq> [] \<and> length n < 128)
          \<and> full_name e \<notin> set (map full_name (live t)) \<and> unat (tag_table_count t) < 256 then 0 else -1)"
    using rc by (auto simp: add_accepts_def entry_named_def NAME_STORAGE_def tag_table_count_def
        length_live [OF assms(1)])
  moreover have "live t' = (if rc = 0 then live t @ [e] else live t)" using rc l by simp
  moreover have "unat (tag_table_count t') = unat (tag_table_count t) + (if rc = 0 then 1 else 0)"
    using length_live [OF wf] length_live [OF assms(1)] rc l
    by (cases "add_accepts t e") (simp_all add: tag_table_count_def)
  ultimately show ?thesis using wf by blast
qed

definition sample_entry :: TagEntry where
  "sample_entry = \<lparr>full_name = Some ''EL230.X15_Out0'', te_type = TAG_T_BOOL, te_ref = REF_PROC 3\<rparr>"

lemma sample_entry_name [simp]: "full_name sample_entry = Some ''EL230.X15_Out0''"
  by (simp add: sample_entry_def)

lemma tag_table_add_contract_witness:
  "fst (tag_table_add zero_table sample_entry) = 0
   \<and> live (snd (tag_table_add zero_table sample_entry)) = [sample_entry]
   \<and> fst (tag_table_add (snd (tag_table_add zero_table sample_entry)) sample_entry) = -1"
proof -
  let ?t = "snd (tag_table_add zero_table sample_entry)"
  note first = tag_table_add_contract [OF table_wf_zero prod.collapse [symmetric], of sample_entry]
  then have "fst (tag_table_add zero_table sample_entry) = 0" and wf: "table_wf ?t" by simp_all
  moreover from this first have "live ?t = [sample_entry]" by simp
  ultimately show ?thesis
    using tag_table_add_contract [OF wf prod.collapse [symmetric], of sample_entry] by simp
qed

text \<open>
  Names and ids are two views of the same tags: a lookup by name returns a non-zero id
  exactly when that id is the one whose entry has the name, and 0 exactly when no tag has
  it.
\<close>

theorem tag_table_find_iff_get:
  assumes "table_wf t"
  shows "(tag_table_find_id t (Some n) = tid \<and> tid \<noteq> 0
      \<longleftrightarrow> (\<exists>e. tag_table_get t tid = Some e \<and> full_name e = Some n))
    \<and> (tag_table_find_id t (Some n) = 0 \<longleftrightarrow> Some n \<notin> set (map full_name (live t)))"
proof
  show "tag_table_find_id t (Some n) = tid \<and> tid \<noteq> 0
      \<longleftrightarrow> (\<exists>e. tag_table_get t tid = Some e \<and> full_name e = Some n)"
  proof
    assume "tag_table_find_id t (Some n) = tid \<and> tid \<noteq> 0"
    then show "\<exists>e. tag_table_get t tid = Some e \<and> full_name e = Some n"
      using tt.find_get [OF assms, of n] by auto
  next
    assume "\<exists>e. tag_table_get t tid = Some e \<and> full_name e = Some n"
    then obtain e where e: "tag_table_get t tid = Some e" "full_name e = Some n" by blast
    then show "tag_table_find_id t (Some n) = tid \<and> tid \<noteq> 0"
      using tt.get_find [OF assms e] by (simp add: tag_table_get_def split: if_splits)
  qed
  show "tag_table_find_id t (Some n) = 0 \<longleftrightarrow> Some n \<notin> set (map full_name (live t))"
    using assms by (cases rule: tt.find_cases [where n = n]) (force simp: in_set_conv_nth)+
qed

lemma tag_table_find_iff_get_witness:
  "tag_table_find_id zero_table (Some ''X15'') = 0 \<and> tag_table_get zero_table 1 = None"
  using tag_table_find_iff_get [OF table_wf_zero, of "''X15''"]
  by (simp add: tag_table_get_def)

text \<open>
  Ids are stable. The tag registered last has the id \<open>count + 1\<close>; whatever is registered
  afterwards, with or without success, its name keeps leading to that id and the id to
  exactly the registered entry.
\<close>

theorem tag_table_id_stable:
  assumes "table_wf t" "tag_table_add t e = (0, t')" "full_name e = Some n"
    and "t'' = foldl (\<lambda>t e. snd (tag_table_add t e)) t' es"
  shows "tag_table_find_id t'' (Some n) = tag_table_count t + 1
    \<and> tag_table_get t'' (tag_table_count t + 1) = Some e"
proof -
  have wf: "table_wf t'" using tag_table_add_wf [OF assms(1), of e] assms(2) by simp
  have id: "tag_table_find_id t' (Some n) = tag_table_count t + 1"
    using tt.find_added [OF assms(1-3)]
    by (simp add: tag_table_count_def length_live [OF assms(1)])
  have lt: "unat (tt_count t) < 256" and l: "live t' = live t @ [e]"
    using tag_table_add_live [OF assms(1), of e] assms(2)
    by (auto simp: add_accepts_def length_live [OF assms(1)] split: if_splits)
  then have u: "unat (tag_table_count t + 1) = Suc (length (live t))"
    using unat_plus_one [of "tt_count t"] by (simp add: tag_table_count_def length_live [OF assms(1)])
  have "tag_table_get t' (tag_table_count t + 1) = Some e"
    using l u by (simp add: tag_table_get_live [OF wf])
  moreover have "tag_table_find_id t' (Some n) \<noteq> 0" using id u by auto
  moreover have t'': "t'' = tt.add_all t' es" using assms(4) by (simp add: tt.add_all_def)
  ultimately show ?thesis
    using tt.add_all_keeps_find [OF wf] tt.add_all_keeps_get [OF wf] id by simp
qed

lemma tag_table_id_stable_witness:
  "tag_table_find_id (foldl (\<lambda>t e. snd (tag_table_add t e))
     (snd (tag_table_add zero_table sample_entry)) [zero_entry, sample_entry]) (Some ''EL230.X15_Out0'') = 1"
proof -
  have "add_accepts zero_table sample_entry"
    by (simp add: add_accepts_def entry_named_def NAME_STORAGE_def)
  then have "tag_table_add zero_table sample_entry = (0, snd (tag_table_add zero_table sample_entry))"
    using tag_table_add_live(2) [OF table_wf_zero, of sample_entry] by (simp add: prod_eq_iff)
  from tag_table_id_stable [OF table_wf_zero this sample_entry_name refl]
  show ?thesis by (simp del: foldl_Cons foldl_Nil)
qed

end
