(* ===== verification/Backend_Iface.thy ===== *)
theory Backend_Iface
  imports Device_Desc
begin

text \<open>
  The interface between the runtime and a fieldbus backend:
  \<^verbatim>\<open>core/backend/backend_iface.h\<close>, the configuration records of
  \<^verbatim>\<open>core/backend/backend_config.h\<close> and \<^verbatim>\<open>app/config/config_static.h\<close>, and the factory
  registry of \<^verbatim>\<open>core/backend/backend_registry.c\<close>. The type variable \<open>'d\<close> is the driver
  implementation behind \<^verbatim>\<open>driver->impl\<close>.
\<close>

section \<open>Configuration records\<close>

datatype BackendType = BACKEND_TYPE_NONE | BACKEND_TYPE_ETHERCAT | BACKEND_TYPE_MODBUS
  | BACKEND_TYPE_OTHER int

record BackendConfig =
  bc_type :: BackendType
  bc_name :: "string option"
  bc_ifname :: "string option"
  bc_cycle_time_us :: u32
  bc_dc_clock :: bool
  bc_period_ns :: u32
  bc_spin_threshold_ns :: u32
  bc_rt_priority :: int
  bc_rt_affinity_cpu :: int
  bc_rt_reserved_cpu :: int
  bc_rt_timer_resolution_ms :: u32
  bc_wkc_warn_threshold :: u32
  bc_wkc_fail_threshold :: u32
  bc_warmup_cycles :: u32
  bc_state_check_period_ms :: u32

record DeviceConfig =
  dc_name :: "string option"
  dc_model :: "string option"
  dc_backend :: "string option"
  dc_expected_position :: u16
  dc_io_addr :: u16
  dc_expected_vendor_id :: u32
  dc_expected_product_code :: u32

section \<open>Drivers\<close>

record BackendStatus =
  bs_in_op :: bool
  bs_fault_latched :: bool
  bs_last_error :: int

text \<open>
  The data functions of a driver return a pointer into a buffer the driver owns. Such a
  pointer is a direction, a device and a buffer number; \<open>buf_load\<close> and \<open>buf_store\<close> of the
  operation table are the memory behind it.
\<close>

datatype buf_addr = InBuf nat nat | OutBuf nat nat

record 'd BackendDriverOps =
  op_init :: "('d \<Rightarrow> int \<times> 'd) option"
  op_bind :: "('d \<Rightarrow> DeviceConfig \<Rightarrow> DeviceDesc \<Rightarrow> int \<times> 'd) option"
  op_finalize :: "('d \<Rightarrow> int \<times> 'd) option"
  op_start :: "('d \<Rightarrow> int \<times> 'd) option"
  op_stop :: "('d \<Rightarrow> int \<times> 'd) option"
  op_process :: "('d \<Rightarrow> int \<times> 'd) option"
  op_get_status :: "('d \<Rightarrow> BackendStatus \<Rightarrow> int \<times> BackendStatus) option"
  op_cycle_begin :: "('d \<Rightarrow> 'd) option"
  op_cycle_end :: "('d \<Rightarrow> 'd) option"
  op_get_input_data :: "('d \<Rightarrow> u16 \<Rightarrow> buf_addr option \<times> u32 \<times> 'd) option"
  op_get_output_data :: "('d \<Rightarrow> u16 \<Rightarrow> buf_addr option \<times> u32 \<times> 'd) option"
  buf_load :: "'d \<Rightarrow> buf_addr \<Rightarrow> u8 list"
  buf_store :: "'d \<Rightarrow> buf_addr \<Rightarrow> u8 list \<Rightarrow> 'd"

record 'd BackendDriver =
  drv_type :: BackendType
  drv_ops :: "'d BackendDriverOps option"
  drv_name :: string
  drv_system_name :: string
  drv_impl :: 'd

definition MAX_BACKENDS :: nat where "MAX_BACKENDS = 4"

section \<open>The factory registry\<close>

record 'd BackendFactoryEntry =
  bf_type :: BackendType
  bf_type_name :: string
  bf_create :: "(BackendConfig \<Rightarrow> nat \<Rightarrow> nat \<Rightarrow> nat \<Rightarrow> 'd BackendDriver option) option"
  bf_destroy :: "('d BackendDriver \<Rightarrow> 'd) option"

fun backend_registry_find_factory ::
  "'d BackendFactoryEntry list \<Rightarrow> BackendType \<Rightarrow> 'd BackendFactoryEntry option" where
  "backend_registry_find_factory [] ty = None"
| "backend_registry_find_factory (f # fs) ty =
     (if bf_type f = ty then Some f else backend_registry_find_factory fs ty)"

definition backend_create ::
  "'d BackendFactoryEntry list \<Rightarrow> BackendConfig option \<Rightarrow> nat \<Rightarrow> nat \<Rightarrow> nat \<Rightarrow> 'd BackendDriver option"
where
  "backend_create factories cfg backend_index max_devices iomap_size_hint =
     (case cfg of
        None \<Rightarrow> None
      | Some c \<Rightarrow>
          if bc_type c = BACKEND_TYPE_NONE then None
          else (case backend_registry_find_factory factories (bc_type c) of
                  None \<Rightarrow> None
                | Some factory \<Rightarrow>
                    (case bf_create factory of
                       None \<Rightarrow> None
                     | Some create \<Rightarrow> create c iomap_size_hint max_devices backend_index)))"

text \<open>
  \<^verbatim>\<open>backend_destroy\<close> stops the driver, then hands it to the factory of its type. The memory
  is gone afterwards; the result is the last state the implementation had.
\<close>

definition backend_destroy :: "'d BackendFactoryEntry list \<Rightarrow> 'd BackendDriver \<Rightarrow> 'd" where
  "backend_destroy factories drv =
     (let impl = (case drv_ops drv of
                    None \<Rightarrow> drv_impl drv
                  | Some ops \<Rightarrow> (case op_stop ops of
                                  None \<Rightarrow> drv_impl drv
                                | Some stop \<Rightarrow> snd (stop (drv_impl drv))));
          drv' = drv\<lparr>drv_impl := impl\<rparr>
      in case backend_registry_find_factory factories (drv_type drv) of
           None \<Rightarrow> impl
         | Some factory \<Rightarrow> (case bf_destroy factory of None \<Rightarrow> impl | Some destroy \<Rightarrow> destroy drv'))"

lemma backend_registry_find_factory_Some:
  "backend_registry_find_factory fs ty = Some f \<Longrightarrow> f \<in> set fs \<and> bf_type f = ty"
  by (induction fs ty rule: backend_registry_find_factory.induct) (auto split: if_splits)

section \<open>The contract of the process image\<close>

text \<open>
  What the tag API relies on when it reads and writes through the pointers a driver hands
  out: the pointer for a device addresses the device's image, its size is the image's
  length, and a store through the output pointer changes that image and nothing else.
  \<open>in_image\<close> and \<open>out_image\<close> are the images the PLC side sees in the current cycle.
\<close>

locale process_image =
  fixes ops :: "'d BackendDriverOps"
    and get_in :: "'d \<Rightarrow> u16 \<Rightarrow> buf_addr option \<times> u32 \<times> 'd"
    and get_out :: "'d \<Rightarrow> u16 \<Rightarrow> buf_addr option \<times> u32 \<times> 'd"
    and in_image :: "'d \<Rightarrow> nat \<Rightarrow> u8 list option"
    and out_image :: "'d \<Rightarrow> nat \<Rightarrow> u8 list option"
    and inv :: "'d \<Rightarrow> bool"
  assumes ops_in: "op_get_input_data ops = Some get_in"
    and ops_out: "op_get_output_data ops = Some get_out"
    and in_None: "inv d \<Longrightarrow> in_image d (unat dev) = None \<Longrightarrow> \<exists>sz. get_in d dev = (None, sz, d)"
    and in_Some: "inv d \<Longrightarrow> in_image d (unat dev) = Some img \<Longrightarrow>
      \<exists>a. get_in d dev = (Some a, of_nat (length img), d) \<and> buf_load ops d a = img"
    and out_None: "inv d \<Longrightarrow> out_image d (unat dev) = None \<Longrightarrow> \<exists>sz. get_out d dev = (None, sz, d)"
    and out_Some: "inv d \<Longrightarrow> out_image d (unat dev) = Some img \<Longrightarrow>
      \<exists>a. get_out d dev = (Some a, of_nat (length img), d) \<and> buf_load ops d a = img"
    and image_len: "inv d \<Longrightarrow> out_image d dv = Some img \<or> in_image d dv = Some img
      \<Longrightarrow> length img < 2 ^ 32"
    and store_out: "inv d \<Longrightarrow> get_out d dev = (Some a, sz, d) \<Longrightarrow> out_image d (unat dev) = Some img
      \<Longrightarrow> length bs = length img \<Longrightarrow>
      out_image (buf_store ops d a bs) = (out_image d)(unat dev \<mapsto> bs)
      \<and> in_image (buf_store ops d a bs) = in_image d \<and> inv (buf_store ops d a bs)"

end
