(* ===== verification/Runtime.thy ===== *)
theory Runtime
  imports Tag_Table Backend_Iface
begin

text \<open>
  The runtime of \<^verbatim>\<open>core/runtime/runtime.c\<close>: the tag table, the process and HMI value
  stores and the backend drivers, with the operations that start, stop and cycle the
  drivers and read their health.
\<close>

section \<open>Values and stores\<close>

text \<open>
  \<^verbatim>\<open>TagValue_u\<close> is a union of at most four bytes; it is the list of those bytes, and a
  member of size \<open>k\<close> is the first \<open>k\<close> of them. The bytes a member does not cover keep what
  was there.
\<close>

type_synonym TagValue = "u8 list"

definition VALUE_SIZE :: nat where "VALUE_SIZE = 4"

record StoreValue =
  sv_type :: TagType
  sv_v :: TagValue

type_synonym ProcValue = StoreValue
type_synonym HmiValue = StoreValue

record Store =
  st_values :: "StoreValue list"
  st_count :: nat

type_synonym ProcessStore = Store
type_synonym HmiStore = Store

definition STORE_SIZE :: nat where "STORE_SIZE = 64"

definition zero_value :: StoreValue where
  "zero_value = \<lparr>sv_type = TAG_T_BOOL, sv_v = replicate VALUE_SIZE 0\<rparr>"

definition zero_store :: Store where
  "zero_store = \<lparr>st_values = replicate STORE_SIZE zero_value, st_count = 0\<rparr>"

datatype StartMode = START_HMI_INIT | START_COLD | START_FACTORY

section \<open>Health levels\<close>

datatype PlcHealthLevel = PLC_HEALTH_OK | PLC_HEALTH_WARN | PLC_HEALTH_FAULT

primrec health_code :: "PlcHealthLevel \<Rightarrow> int" where
  "health_code PLC_HEALTH_OK = 0"
| "health_code PLC_HEALTH_WARN = 1"
| "health_code PLC_HEALTH_FAULT = 2"

lemma health_code_inj: "health_code a = health_code b \<Longrightarrow> a = b"
  by (cases a; cases b) simp_all

instantiation PlcHealthLevel :: linorder
begin

definition less_eq_PlcHealthLevel :: "PlcHealthLevel \<Rightarrow> PlcHealthLevel \<Rightarrow> bool" where
  "a \<le> b \<longleftrightarrow> health_code a \<le> health_code b"

definition less_PlcHealthLevel :: "PlcHealthLevel \<Rightarrow> PlcHealthLevel \<Rightarrow> bool" where
  "a < b \<longleftrightarrow> health_code a < health_code b"

instance
  by standard (auto simp: less_eq_PlcHealthLevel_def less_PlcHealthLevel_def intro: health_code_inj)

end

section \<open>The runtime\<close>

text \<open>
  \<^verbatim>\<open>rt->backends\<close> is either \<open>NULL\<close> or the runtime's own \<^verbatim>\<open>backend_array\<close>, in every assignment
  of the code: the field \<open>backends_set\<close> says which. \<open>rt_uninit\<close> is not memory of the runtime:
  it holds the indeterminate bytes a local \<^verbatim>\<open>TagValue_u\<close> starts with, which no operation
  changes and every theorem takes as given.
\<close>

record 'd Runtime =
  tag_table :: TagTable
  proc_store :: ProcessStore
  hmi_store :: HmiStore
  backends_set :: bool
  backend_count :: nat
  backend_array :: "'d BackendDriver option list"
  rt_uninit :: TagValue

definition runtime_init :: "'d Runtime \<Rightarrow> int \<times> 'd Runtime" where
  "runtime_init rt =
     (let (rc, t) = tag_table_init (tag_table rt) in
      if rc \<noteq> 0 then (-1, rt\<lparr>tag_table := t\<rparr>)
      else (0, rt\<lparr>tag_table := t, proc_store := zero_store, hmi_store := zero_store,
                 backend_array := replicate MAX_BACKENDS None, backends_set := True,
                 backend_count := 0\<rparr>))"

definition runtime_deinit :: "'d Runtime \<Rightarrow> 'd Runtime" where
  "runtime_deinit rt =
     rt\<lparr>tag_table := tag_table_deinit (tag_table rt), proc_store := zero_store,
        hmi_store := zero_store, backend_array := replicate MAX_BACKENDS None,
        backends_set := True, backend_count := 0\<rparr>"

text \<open>A driver operation that may be missing, applied to the driver's implementation.\<close>

definition set_impl :: "'d BackendDriver \<Rightarrow> 'd \<Rightarrow> 'd BackendDriver" where
  "set_impl drv d = drv\<lparr>drv_impl := d\<rparr>"

definition set_driver :: "'d Runtime \<Rightarrow> nat \<Rightarrow> 'd BackendDriver \<Rightarrow> 'd Runtime" where
  "set_driver rt i drv = rt\<lparr>backend_array := (backend_array rt)[i := Some drv]\<rparr>"

definition driver_op :: "('d BackendDriverOps \<Rightarrow> 'f option) \<Rightarrow> 'd BackendDriver \<Rightarrow> 'f option" where
  "driver_op sel drv = Option.bind (drv_ops drv) sel"

section \<open>Starting and stopping\<close>

text \<open>The stop loop of a failed start: indices \<open>k - 1\<close> down to 0.\<close>

primrec stop_down :: "nat \<Rightarrow> 'd Runtime \<Rightarrow> 'd Runtime" where
  "stop_down 0 rt = rt"
| "stop_down (Suc k) rt =
     stop_down k
       (case backend_array rt ! k of
          None \<Rightarrow> rt
        | Some drv \<Rightarrow> (case driver_op op_stop drv of
             None \<Rightarrow> rt
           | Some stop \<Rightarrow> set_driver rt k (set_impl drv (snd (stop (drv_impl drv))))))"

primrec start_loop :: "nat \<Rightarrow> nat \<Rightarrow> nat \<Rightarrow> 'd Runtime \<Rightarrow> int \<times> 'd Runtime" where
  "start_loop 0 i started rt = (0, rt)"
| "start_loop (Suc n) i started rt =
     (case backend_array rt ! i of
        None \<Rightarrow> start_loop n (Suc i) started rt
      | Some drv \<Rightarrow> (case driver_op op_start drv of
           None \<Rightarrow> start_loop n (Suc i) started rt
         | Some start \<Rightarrow>
             let (rc, d) = start (drv_impl drv);
                 rt' = set_driver rt i (set_impl drv d)
             in if rc \<noteq> 0 then (-1, stop_down started rt')
                else start_loop n (Suc i) (Suc started) rt'))"

definition runtime_backends_start :: "'d Runtime \<Rightarrow> int \<times> 'd Runtime" where
  "runtime_backends_start rt =
     (if \<not> backends_set rt then (-1, rt) else start_loop (backend_count rt) 0 0 rt)"

primrec stop_loop :: "nat \<Rightarrow> nat \<Rightarrow> int \<Rightarrow> 'd Runtime \<Rightarrow> int \<times> 'd Runtime" where
  "stop_loop 0 i rc rt = (rc, rt)"
| "stop_loop (Suc n) i rc rt =
     (case backend_array rt ! i of
        None \<Rightarrow> stop_loop n (Suc i) rc rt
      | Some drv \<Rightarrow> (case driver_op op_stop drv of
           None \<Rightarrow> stop_loop n (Suc i) rc rt
         | Some stop \<Rightarrow>
             let (r, d) = stop (drv_impl drv)
             in stop_loop n (Suc i) (if r \<noteq> 0 then -1 else rc) (set_driver rt i (set_impl drv d))))"

definition runtime_backends_stop :: "'d Runtime \<Rightarrow> int \<times> 'd Runtime" where
  "runtime_backends_stop rt =
     (if \<not> backends_set rt then (-1, rt) else stop_loop (backend_count rt) 0 0 rt)"

section \<open>Cycling\<close>

text \<open>The two cycle loops apply one optional operation to every driver.\<close>

primrec cycle_loop ::
  "('d BackendDriverOps \<Rightarrow> ('d \<Rightarrow> 'd) option) \<Rightarrow> nat \<Rightarrow> nat \<Rightarrow> 'd Runtime \<Rightarrow> 'd Runtime"
where
  "cycle_loop sel 0 i rt = rt"
| "cycle_loop sel (Suc n) i rt =
     cycle_loop sel n (Suc i)
       (case backend_array rt ! i of
          None \<Rightarrow> rt
        | Some drv \<Rightarrow> (case driver_op sel drv of
             None \<Rightarrow> rt
           | Some f \<Rightarrow> set_driver rt i (set_impl drv (f (drv_impl drv)))))"

definition runtime_backends_cycle_begin :: "'d Runtime \<Rightarrow> 'd Runtime" where
  "runtime_backends_cycle_begin rt =
     (if \<not> backends_set rt then rt else cycle_loop op_cycle_begin (backend_count rt) 0 rt)"

definition runtime_backends_sync_outputs :: "'d Runtime \<Rightarrow> 'd Runtime" where
  "runtime_backends_sync_outputs rt =
     (if \<not> backends_set rt then rt else cycle_loop op_cycle_end (backend_count rt) 0 rt)"

definition runtime_backends_process_nonrt :: "'d Runtime \<Rightarrow> 'd Runtime" where
  "runtime_backends_process_nonrt rt = rt"

section \<open>Health\<close>

definition initial_status :: BackendStatus where
  "initial_status = \<lparr>bs_in_op = True, bs_fault_latched = False, bs_last_error = 0\<rparr>"

definition driver_status :: "'d BackendDriver \<Rightarrow> BackendStatus" where
  "driver_status drv =
     (case driver_op op_get_status drv of
        None \<Rightarrow> initial_status
      | Some get_status \<Rightarrow> snd (get_status (drv_impl drv) initial_status))"

fun health_loop :: "'d BackendDriver option list \<Rightarrow> PlcHealthLevel \<Rightarrow> PlcHealthLevel" where
  "health_loop [] level = level"
| "health_loop (None # ds) level = health_loop ds level"
| "health_loop (Some drv # ds) level =
     (if bs_fault_latched (driver_status drv) then PLC_HEALTH_FAULT
      else health_loop ds (if \<not> bs_in_op (driver_status drv) then PLC_HEALTH_WARN else level))"

definition runtime_get_health_level :: "'d Runtime \<Rightarrow> PlcHealthLevel" where
  "runtime_get_health_level rt =
     (if \<not> backends_set rt then PLC_HEALTH_OK
      else health_loop (take (backend_count rt) (backend_array rt)) PLC_HEALTH_OK)"

text \<open>The level one driver alone asks for, and the level of a runtime as a maximum.\<close>

definition driver_level :: "'d BackendDriver \<Rightarrow> PlcHealthLevel" where
  "driver_level drv =
     (if bs_fault_latched (driver_status drv) then PLC_HEALTH_FAULT
      else if \<not> bs_in_op (driver_status drv) then PLC_HEALTH_WARN else PLC_HEALTH_OK)"

definition drivers :: "'d Runtime \<Rightarrow> 'd BackendDriver list" where
  "drivers rt = map the (filter (\<lambda>d. d \<noteq> None) (take (backend_count rt) (backend_array rt)))"

lemma health_levels [simp]:
  "PLC_HEALTH_OK \<le> l" "l \<le> PLC_HEALTH_FAULT"
  "max PLC_HEALTH_FAULT l = PLC_HEALTH_FAULT" "max l PLC_HEALTH_FAULT = PLC_HEALTH_FAULT"
  "max PLC_HEALTH_OK l = l" "max l PLC_HEALTH_OK = l"
  by (cases l; simp add: less_eq_PlcHealthLevel_def max_def)+

lemma foldr_max_absorb: "foldr max ls (max a b) = max a (foldr max ls (b :: 'a::linorder))"
  by (induction ls) (simp_all add: max.left_commute)

lemma foldr_max_Max: "foldr max ls (b :: 'a::linorder) = Max (insert b (set ls))"
  by (induction ls) (simp_all add: insert_commute)

definition present :: "'d BackendDriver option list \<Rightarrow> 'd BackendDriver list" where
  "present ds = map the (filter (\<lambda>d. d \<noteq> None) ds)"

lemma present_simps [simp]:
  "present [] = []" "present (None # ds) = present ds" "present (Some d # ds) = d # present ds"
  by (simp_all add: present_def)

lemma health_loop_fold:
  "level \<noteq> PLC_HEALTH_FAULT \<Longrightarrow>
     health_loop ds level = foldr max (map driver_level (present ds)) level"
proof (induction ds level rule: health_loop.induct)
  case (3 drv ds level)
  let ?ls = "map driver_level (present ds)"
  have warn: "max PLC_HEALTH_WARN level = PLC_HEALTH_WARN"
    using 3(2) by (cases level) (auto simp: max_def less_eq_PlcHealthLevel_def)
  have "foldr max ?ls PLC_HEALTH_WARN = max PLC_HEALTH_WARN (foldr max ?ls level)"
    by (subst warn [symmetric]) (rule foldr_max_absorb)
  then show ?case
    using 3 by (simp add: driver_level_def [of drv])
qed auto

lemma drivers_present: "drivers rt = present (take (backend_count rt) (backend_array rt))"
  by (simp add: drivers_def present_def)

section \<open>Well-formed runtimes\<close>

definition store_wf :: "Store \<Rightarrow> bool" where
  "store_wf s \<longleftrightarrow> length (st_values s) = STORE_SIZE \<and> st_count s \<le> STORE_SIZE
     \<and> (\<forall>v \<in> set (st_values s). length (sv_v v) = VALUE_SIZE)"

definition runtime_wf :: "'d Runtime \<Rightarrow> bool" where
  "runtime_wf rt \<longleftrightarrow> table_wf (tag_table rt) \<and> store_wf (proc_store rt) \<and> store_wf (hmi_store rt)
     \<and> length (backend_array rt) = MAX_BACKENDS \<and> backend_count rt \<le> MAX_BACKENDS
     \<and> length (rt_uninit rt) = VALUE_SIZE"

lemma store_wf_zero: "store_wf zero_store"
  by (simp add: store_wf_def zero_store_def zero_value_def)

lemma runtime_init_wf:
  "length (rt_uninit rt) = VALUE_SIZE \<Longrightarrow> runtime_wf (snd (runtime_init rt))"
  by (simp add: runtime_init_def tag_table_init_def runtime_wf_def table_wf_zero store_wf_zero)

lemma set_driver_simps [simp]:
  "tag_table (set_driver rt i d) = tag_table rt" "proc_store (set_driver rt i d) = proc_store rt"
  "hmi_store (set_driver rt i d) = hmi_store rt" "backends_set (set_driver rt i d) = backends_set rt"
  "backend_count (set_driver rt i d) = backend_count rt" "rt_uninit (set_driver rt i d) = rt_uninit rt"
  "backend_array (set_driver rt i d) = (backend_array rt)[i := Some d]"
  by (simp_all add: set_driver_def)

lemma set_impl_simps [simp]:
  "drv_ops (set_impl drv d) = drv_ops drv" "drv_type (set_impl drv d) = drv_type drv"
  "drv_name (set_impl drv d) = drv_name drv" "drv_impl (set_impl drv d) = d"
  "driver_op sel (set_impl drv d) = driver_op sel drv"
  by (simp_all add: set_impl_def driver_op_def)

lemma runtime_wf_set_driver [simp]: "runtime_wf (set_driver rt i d) = runtime_wf rt"
  by (simp add: runtime_wf_def)

text \<open>A loop over the drivers as one map over the array.\<close>

definition map_drivers ::
  "('d BackendDriver \<Rightarrow> 'd BackendDriver) \<Rightarrow> nat \<Rightarrow> nat \<Rightarrow> 'd Runtime \<Rightarrow> 'd Runtime"
where
  "map_drivers f i n rt = rt\<lparr>backend_array :=
     take i (backend_array rt) @ map (map_option f) (take n (drop i (backend_array rt)))
     @ drop (i + n) (backend_array rt)\<rparr>"

definition apply_op :: "('d BackendDriverOps \<Rightarrow> ('d \<Rightarrow> 'd) option) \<Rightarrow> 'd BackendDriver \<Rightarrow> 'd BackendDriver"
where
  "apply_op sel drv = (case driver_op sel drv of None \<Rightarrow> drv | Some f \<Rightarrow> set_impl drv (f (drv_impl drv)))"

lemma map_drivers_Suc:
  assumes "i < length (backend_array rt)"
  shows "map_drivers f i (Suc n) rt =
    map_drivers f (Suc i) n
      (case backend_array rt ! i of None \<Rightarrow> rt | Some d \<Rightarrow> set_driver rt i (f d))"
proof -
  have "drop i (backend_array rt) = backend_array rt ! i # drop (Suc i) (backend_array rt)"
    using assms by (simp add: Cons_nth_drop_Suc)
  moreover have "take (Suc i) (backend_array rt) = take i (backend_array rt) @ [backend_array rt ! i]"
    using assms by (simp add: take_Suc_conv_app_nth)
  ultimately show ?thesis
    using assms
    by (auto simp: map_drivers_def set_driver_def take_Suc_conv_app_nth split: option.split)
qed

lemma cycle_loop_map:
  "i + n \<le> length (backend_array rt) \<Longrightarrow> cycle_loop sel n i rt = map_drivers (apply_op sel) i n rt"
proof (induction n arbitrary: i rt)
  case 0
  then show ?case by (simp add: map_drivers_def)
next
  case (Suc n)
  let ?rt = "case backend_array rt ! i of None \<Rightarrow> rt
    | Some d \<Rightarrow> set_driver rt i (apply_op sel d)"
  have step: "(case backend_array rt ! i of None \<Rightarrow> rt
        | Some drv \<Rightarrow> (case driver_op sel drv of None \<Rightarrow> rt
             | Some f \<Rightarrow> set_driver rt i (set_impl drv (f (drv_impl drv))))) = ?rt"
    by (auto simp: apply_op_def set_driver_def list_update_same_conv Suc.prems
        split: option.split)
       (metis list_update_id Runtime.surjective Runtime.update_convs(6))
  have "length (backend_array ?rt) = length (backend_array rt)"
    by (auto split: option.split)
  with Suc.prems have "cycle_loop sel n (Suc i) ?rt = map_drivers (apply_op sel) (Suc i) n ?rt"
    by (intro Suc.IH) simp
  then show ?case
    using Suc.prems by (simp add: step map_drivers_Suc)
qed

section \<open>Starting and stopping all drivers\<close>

text \<open>A driver operation with a status, missing operations counting as success.\<close>

definition call_rc :: "('d BackendDriverOps \<Rightarrow> ('d \<Rightarrow> int \<times> 'd) option) \<Rightarrow> 'd BackendDriver \<Rightarrow> int" where
  "call_rc sel drv = (case driver_op sel drv of None \<Rightarrow> 0 | Some f \<Rightarrow> fst (f (drv_impl drv)))"

definition call_drv ::
  "('d BackendDriverOps \<Rightarrow> ('d \<Rightarrow> int \<times> 'd) option) \<Rightarrow> 'd BackendDriver \<Rightarrow> 'd BackendDriver"
where
  "call_drv sel drv =
     (case driver_op sel drv of None \<Rightarrow> drv | Some f \<Rightarrow> set_impl drv (snd (f (drv_impl drv))))"

lemma set_driver_id:
  "backend_array rt ! i = Some d \<Longrightarrow> set_driver rt i d = rt"
  using list_update_id [of "backend_array rt" i] by (simp add: set_driver_def)

lemma map_drivers_simps [simp]:
  "tag_table (map_drivers f i n rt) = tag_table rt" "proc_store (map_drivers f i n rt) = proc_store rt"
  "hmi_store (map_drivers f i n rt) = hmi_store rt"
  "backends_set (map_drivers f i n rt) = backends_set rt"
  "backend_count (map_drivers f i n rt) = backend_count rt"
  "rt_uninit (map_drivers f i n rt) = rt_uninit rt"
  "map_drivers f i 0 rt = rt"
  by (simp_all add: map_drivers_def)

lemma length_map_drivers [simp]:
  "i + n \<le> length (backend_array rt)
     \<Longrightarrow> length (backend_array (map_drivers f i n rt)) = length (backend_array rt)"
  by (simp add: map_drivers_def)

lemma nth_map_drivers:
  "i + n \<le> length (backend_array rt) \<Longrightarrow> j < length (backend_array rt) \<Longrightarrow>
     backend_array (map_drivers f i n rt) ! j =
       (if i \<le> j \<and> j < i + n then map_option f (backend_array rt ! j) else backend_array rt ! j)"
  by (auto simp: map_drivers_def nth_append)

text \<open>One step of each loop: the call on the driver in slot \<open>i\<close>.\<close>

definition slot_step ::
  "('d BackendDriver \<Rightarrow> 'd BackendDriver) \<Rightarrow> nat \<Rightarrow> 'd Runtime \<Rightarrow> 'd Runtime"
where
  "slot_step f i rt = (case backend_array rt ! i of None \<Rightarrow> rt | Some d \<Rightarrow> set_driver rt i (f d))"

lemma slot_step_simps [simp]:
  "length (backend_array (slot_step f i rt)) = length (backend_array rt)"
  "backend_count (slot_step f i rt) = backend_count rt"
  "j \<noteq> i \<Longrightarrow> backend_array (slot_step f i rt) ! j = backend_array rt ! j"
  by (simp_all add: slot_step_def split: option.split)

lemma stop_down_Suc: "stop_down (Suc k) rt = stop_down k (slot_step (call_drv op_stop) k rt)"
  by (auto simp: slot_step_def call_drv_def set_driver_id split: option.split)

lemma start_loop_Suc:
  "start_loop (Suc n) i s rt =
     (case backend_array rt ! i of None \<Rightarrow> start_loop n (Suc i) s rt
      | Some d \<Rightarrow> if call_rc op_start d \<noteq> 0 then (-1, stop_down s (slot_step (call_drv op_start) i rt))
          else start_loop n (Suc i) (if driver_op op_start d = None then s else Suc s)
            (slot_step (call_drv op_start) i rt))"
  by (auto simp: slot_step_def call_drv_def call_rc_def set_driver_id Let_def split: option.split prod.split)

lemma stop_loop_Suc:
  "stop_loop (Suc n) i rc rt =
     (case backend_array rt ! i of None \<Rightarrow> stop_loop n (Suc i) rc rt
      | Some d \<Rightarrow> stop_loop n (Suc i) (if call_rc op_stop d \<noteq> 0 then -1 else rc)
          (slot_step (call_drv op_stop) i rt))"
  by (auto simp: slot_step_def call_drv_def call_rc_def set_driver_id split: option.split prod.split)

lemma map_drivers_snoc:
  assumes "k < length (backend_array rt)"
  shows "map_drivers f 0 k (slot_step f k rt) = map_drivers f 0 (Suc k) rt"
  using assms
  by (auto simp: map_drivers_def slot_step_def take_Suc_conv_app_nth set_driver_def
      drop_update_cancel upd_conv_take_nth_drop Cons_nth_drop_Suc [symmetric] split: option.split)

lemma stop_down_map: "k \<le> length (backend_array rt) \<Longrightarrow> stop_down k rt = map_drivers (call_drv op_stop) 0 k rt"
proof (induction k arbitrary: rt)
  case 0
  then show ?case by simp
next
  case (Suc k)
  then show ?case by (simp only: stop_down_Suc) (simp add: map_drivers_snoc)
qed

lemma slot_step_drop [simp]: "i < j \<Longrightarrow> drop j (backend_array (slot_step f i rt)) = drop j (backend_array rt)"
  by (simp add: slot_step_def set_driver_def split: option.split)

lemma map_drivers_step:
  "i < length (backend_array rt) \<Longrightarrow>
     map_drivers f i (Suc n) rt = map_drivers f (Suc i) n (slot_step f i rt)"
  by (simp add: map_drivers_Suc slot_step_def)

lemma slot_step_None: "backend_array rt ! i = None \<Longrightarrow> slot_step f i rt = rt"
  by (simp add: slot_step_def)

definition slots :: "nat \<Rightarrow> nat \<Rightarrow> 'd Runtime \<Rightarrow> 'd BackendDriver list" where
  "slots i n rt = present (take n (drop i (backend_array rt)))"

lemma slots_0 [simp]: "slots i 0 rt = []" by (simp add: slots_def)

lemma slots_Suc:
  "i < length (backend_array rt) \<Longrightarrow> slots i (Suc n) rt =
     (case backend_array rt ! i of None \<Rightarrow> slots (Suc i) n rt | Some d \<Rightarrow> d # slots (Suc i) n rt)"
  by (simp add: slots_def Cons_nth_drop_Suc [symmetric] split: option.split)

lemma slots_slot_step [simp]: "i < j \<Longrightarrow> slots j n (slot_step f i rt) = slots j n rt"
  by (simp add: slots_def)

lemma stop_loop_map:
  "i + n \<le> length (backend_array rt) \<Longrightarrow>
     stop_loop n i rc rt =
       (if \<forall>d \<in> set (slots i n rt). call_rc op_stop d = 0 then rc else -1,
        map_drivers (call_drv op_stop) i n rt)"
proof (induction n arbitrary: i rc rt)
  case (Suc n)
  show ?case
    using Suc.prems Suc.IH [of "Suc i" "slot_step (call_drv op_stop) i rt"]
    by (simp only: stop_loop_Suc)
       (auto simp: slots_Suc map_drivers_step slot_step_None split: option.split)
qed simp

lemma start_loop_ok:
  "i + n \<le> length (backend_array rt) \<Longrightarrow> start_loop n i s rt = (0, rt') \<Longrightarrow>
     (\<forall>d \<in> set (slots i n rt). call_rc op_start d = 0) \<and> rt' = map_drivers (call_drv op_start) i n rt"
proof (induction n arbitrary: i s rt)
  case (Suc n)
  have "i < length (backend_array rt)" using Suc.prems(1) by simp
  with Suc.prems show ?case
    using Suc.IH [of "Suc i" "slot_step (call_drv op_start) i rt"]
    by (simp only: start_loop_Suc)
       (auto simp: slots_Suc map_drivers_step slot_step_None split: option.splits if_splits)
qed simp

lemma start_loop_all_ok:
  "i + n \<le> length (backend_array rt) \<Longrightarrow> \<forall>d \<in> set (slots i n rt). call_rc op_start d = 0 \<Longrightarrow>
     start_loop n i s rt = (0, map_drivers (call_drv op_start) i n rt)"
proof (induction n arbitrary: i s rt)
  case (Suc n)
  have "i < length (backend_array rt)" using Suc.prems(1) by simp
  with Suc.prems show ?case
    using Suc.IH [of "Suc i" "slot_step (call_drv op_start) i rt"]
    by (simp only: start_loop_Suc)
       (auto simp: slots_Suc map_drivers_step slot_step_None split: option.split)
qed simp







text \<open>A driver over a counter, for the witnesses: it refuses to start from state 9.\<close>

definition sample_ops :: "nat BackendDriverOps" where
  "sample_ops = \<lparr>op_init = None, op_bind = None, op_finalize = None,
     op_start = Some (\<lambda>d. (if d = 9 then -5 else 0, d + 1)), op_stop = Some (\<lambda>d. (0, d + 10)),
     op_process = None,
     op_get_status = Some (\<lambda>d st. (0, st\<lparr>bs_in_op := d \<noteq> 3, bs_fault_latched := d = 9\<rparr>)),
     op_cycle_begin = Some (\<lambda>d. d + 100), op_cycle_end = Some (\<lambda>d. d + 200),
     op_get_input_data = None, op_get_output_data = None,
     buf_load = (\<lambda>d a. []), buf_store = (\<lambda>d a bs. d)\<rparr>"

definition sample_driver :: "nat \<Rightarrow> nat BackendDriver" where
  "sample_driver d = \<lparr>drv_type = BACKEND_TYPE_ETHERCAT, drv_ops = Some sample_ops,
     drv_name = ''ethercat'', drv_system_name = ''ethercat0'', drv_impl = d\<rparr>"

definition sample_rt :: "nat BackendDriver option list \<Rightarrow> nat \<Rightarrow> nat Runtime" where
  "sample_rt ds n = \<lparr>tag_table = zero_table, proc_store = zero_store, hmi_store = zero_store,
     backends_set = True, backend_count = n, backend_array = ds, rt_uninit = replicate VALUE_SIZE 0\<rparr>"

lemma sample_rt_simps [simp]:
  "backends_set (sample_rt ds n)" "backend_count (sample_rt ds n) = n"
  "backend_array (sample_rt ds n) = ds"
  "drivers (sample_rt ds n) = present (take n ds)"
  by (simp_all add: sample_rt_def drivers_present)

lemma sample_rt_wf: "length ds = 4 \<Longrightarrow> n \<le> 4 \<Longrightarrow> runtime_wf (sample_rt ds n)"
  by (simp add: runtime_wf_def sample_rt_def table_wf_zero store_wf_zero MAX_BACKENDS_def)

lemma map_drivers_sample:
  "map_drivers f i n (sample_rt ds k) =
     sample_rt (take i ds @ map (map_option f) (take n (drop i ds)) @ drop (i + n) ds) k"
  by (simp add: map_drivers_def sample_rt_def)

lemma sample_driver_eval:
  "drv_impl (sample_driver d) = d"
  "set_impl (sample_driver d) e = sample_driver e"
  "driver_level (sample_driver d) =
     (if d = 9 then PLC_HEALTH_FAULT else if d = 3 then PLC_HEALTH_WARN else PLC_HEALTH_OK)"
  "driver_op op_start (sample_driver d) \<noteq> None"
  "call_rc op_start (sample_driver d) = (if d = 9 then -5 else 0)"
  "call_drv op_start (sample_driver d) = sample_driver (d + 1)"
  "call_rc op_stop (sample_driver d) = 0" "call_drv op_stop (sample_driver d) = sample_driver (d + 10)"
  "apply_op op_cycle_begin (sample_driver d) = sample_driver (d + 100)"
  "apply_op op_cycle_end (sample_driver d) = sample_driver (d + 200)"
  by (simp_all add: sample_driver_def sample_ops_def set_impl_def driver_op_def call_rc_def call_drv_def
      apply_op_def driver_level_def driver_status_def initial_status_def)

section \<open>Properties\<close>

text \<open>
  The health level of the system is the worst level any of its drivers asks for, a
  latched fault counting as FAULT and a driver that is not in its operational state as
  WARN; without drivers it is OK. The early return of the loop does not change that.
\<close>

theorem runtime_health_is_worst:
  assumes "backends_set rt"
  shows "runtime_get_health_level rt = Max (insert PLC_HEALTH_OK (driver_level ` set (drivers rt)))"
  using assms health_loop_fold [of PLC_HEALTH_OK "take (backend_count rt) (backend_array rt)"]
  by (simp add: runtime_get_health_level_def drivers_present foldr_max_Max)

lemma runtime_health_is_worst_witness:
  "runtime_get_health_level (sample_rt [Some (sample_driver 3), None, Some (sample_driver 1), None] 3)
     = PLC_HEALTH_WARN"
  using runtime_health_is_worst [of "sample_rt [Some (sample_driver 3), None, Some (sample_driver 1), None] 3"]
  by (simp add: sample_driver_eval eval_nat_numeral)

text \<open>
  Starting the backends reports success exactly when the start operation of every
  driver that has one succeeds, and then each has been called exactly once and nothing
  else has changed.
\<close>

theorem runtime_backends_start_success:
  assumes "runtime_wf rt" "backends_set rt"
  shows "(fst (runtime_backends_start rt) = 0 \<longleftrightarrow> (\<forall>d \<in> set (drivers rt). call_rc op_start d = 0))
    \<and> (fst (runtime_backends_start rt) = 0 \<longrightarrow>
        snd (runtime_backends_start rt) = map_drivers (call_drv op_start) 0 (backend_count rt) rt)"
proof -
  have len: "0 + backend_count rt \<le> length (backend_array rt)"
    using assms(1) by (simp add: runtime_wf_def)
  have dr: "slots 0 (backend_count rt) rt = drivers rt" by (simp add: slots_def drivers_present)
  show ?thesis
    using start_loop_ok [OF len, of 0 "snd (runtime_backends_start rt)"]
      start_loop_all_ok [OF len, of 0] assms(2)
    by (auto simp: runtime_backends_start_def dr prod_eq_iff)
qed

lemma runtime_backends_start_success_witness:
  "fst (runtime_backends_start (sample_rt [Some (sample_driver 1), None, Some (sample_driver 4), None] 3)) = 0
   \<and> backend_array (snd (runtime_backends_start
        (sample_rt [Some (sample_driver 1), None, Some (sample_driver 4), None] 3))) =
      [Some (sample_driver 2), None, Some (sample_driver 5), None]"
  using runtime_backends_start_success [OF sample_rt_wf,
      of "[Some (sample_driver 1), None, Some (sample_driver 4), None]" 3]
  by (simp add: sample_driver_eval map_drivers_def eval_nat_numeral)



text \<open>
  Stopping reaches every driver: each driver with a stop operation is stopped once,
  even after another one has failed to stop, and the status is 0 exactly when all of them
  succeeded.
\<close>

theorem runtime_backends_stop_all:
  assumes "runtime_wf rt" "backends_set rt"
  shows "runtime_backends_stop rt =
    (if \<forall>d \<in> set (drivers rt). call_rc op_stop d = 0 then 0 else -1,
     map_drivers (call_drv op_stop) 0 (backend_count rt) rt)"
proof -
  have "0 + backend_count rt \<le> length (backend_array rt)"
    using assms(1) by (simp add: runtime_wf_def)
  from stop_loop_map [OF this, of 0] show ?thesis
    using assms(2) by (simp add: runtime_backends_stop_def slots_def drivers_present)
qed

lemma runtime_backends_stop_all_witness:
  "runtime_backends_stop (sample_rt [Some (sample_driver 1), None, Some (sample_driver 4), None] 3) =
     (0, sample_rt [Some (sample_driver 11), None, Some (sample_driver 14), None] 3)"
  using runtime_backends_stop_all [OF sample_rt_wf,
      of "[Some (sample_driver 1), None, Some (sample_driver 4), None]" 3]
  by (simp add: sample_driver_eval map_drivers_sample eval_nat_numeral)

text \<open>
  At the two ends of a cycle every driver's hook runs once: the inputs are latched in
  all drivers, the outputs published in all drivers, and nothing else of the runtime
  changes.
\<close>

theorem runtime_backends_cycle_hooks:
  assumes "runtime_wf rt" "backends_set rt"
  shows "runtime_backends_cycle_begin rt = map_drivers (apply_op op_cycle_begin) 0 (backend_count rt) rt
    \<and> runtime_backends_sync_outputs rt = map_drivers (apply_op op_cycle_end) 0 (backend_count rt) rt"
  using assms
  by (simp add: runtime_backends_cycle_begin_def runtime_backends_sync_outputs_def cycle_loop_map
      runtime_wf_def)

lemma runtime_backends_cycle_hooks_witness:
  "runtime_backends_cycle_begin (sample_rt [Some (sample_driver 1), None, None, None] 2) =
     sample_rt [Some (sample_driver 101), None, None, None] 2"
  using runtime_backends_cycle_hooks [OF sample_rt_wf, of "[Some (sample_driver 1), None, None, None]" 2]
  by (simp add: sample_driver_eval map_drivers_sample eval_nat_numeral)

text \<open>
  The roll-back of a failed start counts started drivers but indexes slots. With an
  empty slot (or a driver without a start operation) in front, the last driver that was
  started is left running when a later one fails.
\<close>

theorem runtime_backends_start_leaves_running:
  assumes "runtime_wf rt" "backends_set rt" "backend_count rt = 3"
    and "backend_array rt ! 0 = None" "backend_array rt ! 1 = Some a" "backend_array rt ! 2 = Some b"
    and "driver_op op_start a \<noteq> None" "call_rc op_start a = 0" "call_rc op_start b \<noteq> 0"
  shows "fst (runtime_backends_start rt) = -1
    \<and> backend_array (snd (runtime_backends_start rt)) ! 1 = Some (call_drv op_start a)"
proof -
  have len: "length (backend_array rt) = 4"
    using assms(1) by (simp add: runtime_wf_def MAX_BACKENDS_def)
  let ?rt1 = "slot_step (call_drv op_start) 1 rt"
  obtain f where "driver_op op_start a = Some f" using assms(7) by blast
  then have "runtime_backends_start rt = (-1, stop_down 1 (slot_step (call_drv op_start) 2 ?rt1))"
    using assms(2-) start_loop_Suc [of 2 0 0 rt] start_loop_Suc [of 1 1 0 rt]
      start_loop_Suc [of 0 2 1 ?rt1]
    by (simp add: runtime_backends_start_def numeral_3_eq_3 numeral_2_eq_2 del: start_loop.simps)
  moreover have "stop_down 1 (slot_step (call_drv op_start) 2 ?rt1) =
      map_drivers (call_drv op_stop) 0 1 (slot_step (call_drv op_start) 2 ?rt1)"
    using len by (intro stop_down_map) simp
  moreover have "backend_array (slot_step (call_drv op_start) 2 ?rt1) ! 1 = Some (call_drv op_start a)"
    using assms(5) len by (simp add: slot_step_def split: option.split)
  ultimately show ?thesis
    using len by (simp add: nth_map_drivers)
qed

lemma runtime_backends_start_leaves_running_witness:
  "backend_array (snd (runtime_backends_start
      (sample_rt [None, Some (sample_driver 1), Some (sample_driver 9), None] 3))) ! 1 =
    Some (sample_driver 2)"
  using runtime_backends_start_leaves_running [OF sample_rt_wf,
      of "[None, Some (sample_driver 1), Some (sample_driver 9), None]" 3
         "sample_driver 1" "sample_driver 9"]
  by (simp add: sample_driver_eval numeral_2_eq_2 del: not_None_eq)

end
