(* ===== verification/Tag_Api.thy ===== *)
theory Tag_Api
  imports Runtime
begin

text \<open>
  Reading and writing tags by id: \<^verbatim>\<open>core/tag/tag_api.c\<close>. Aliases are resolved first, then
  the value is read from or written to the process store, the HMI store, or the process
  image of the backend the tag belongs to. Buffers are lists of bytes; a value of \<open>k\<close> bytes
  is little-endian.
\<close>

unbundle bit_operations_syntax

section \<open>Bytes of machine words\<close>

definition u16_bytes :: "u16 \<Rightarrow> u8 list" where
  "u16_bytes w = [ucast w, ucast (drop_bit 8 w)]"

definition u32_bytes :: "u32 \<Rightarrow> u8 list" where
  "u32_bytes w = [ucast w, ucast (drop_bit 8 w), ucast (drop_bit 16 w), ucast (drop_bit 24 w)]"

definition bytes_u16 :: "u8 list \<Rightarrow> u16" where
  "bytes_u16 bs = (ucast (bs ! 0) OR push_bit 8 (ucast (bs ! 1)))"

definition bytes_u32 :: "u8 list \<Rightarrow> u32" where
  "bytes_u32 bs = (ucast (bs ! 0) OR push_bit 8 (ucast (bs ! 1)) OR push_bit 16 (ucast (bs ! 2))
     OR push_bit 24 (ucast (bs ! 3)))"

definition bool_byte :: "bool \<Rightarrow> u8" where
  "bool_byte b = (if b then 1 else 0)"

lemma length_bytes [simp]: "length (u16_bytes w) = 2" "length (u32_bytes v) = 4"
  by (simp_all add: u16_bytes_def u32_bytes_def)

lemma bytes_u16_inverse [simp]: "bytes_u16 (u16_bytes w) = w"
  by (rule bit_word_eqI) (auto simp: bytes_u16_def u16_bytes_def bit_simps)

lemma bytes_u32_inverse [simp]: "bytes_u32 (u32_bytes w) = w"
proof (rule bit_word_eqI)
  fix n :: nat
  assume "n < LENGTH(32)"
  then consider "n < 8" | "8 \<le> n" "n < 16" | "16 \<le> n" "n < 24" | "24 \<le> n" "n < 32"
    by fastforce
  then show "bit (bytes_u32 (u32_bytes w)) n = bit w n"
    by cases (auto simp: bytes_u32_def u32_bytes_def bit_simps)
qed

section \<open>Resolving a tag\<close>

function resolve_entry :: "'d Runtime \<Rightarrow> u32 \<Rightarrow> bool \<Rightarrow> nat \<Rightarrow> TagEntry option" where
  "resolve_entry rt tid for_write depth =
     (if depth > 4 then None
      else case tag_table_get (tag_table rt) tid of
             None \<Rightarrow> None
           | Some entry \<Rightarrow>
               (case te_ref entry of
                  REF_HMI_ALIAS target access \<Rightarrow>
                    if for_write \<and> access = 0 then None
                    else if target = 0 then None
                    else resolve_entry rt target for_write (depth + 1)
                | REF_HMI_VAR index access \<Rightarrow>
                    if for_write \<and> access = 0 then None else Some entry
                | _ \<Rightarrow> Some entry))"
  by pat_completeness auto
termination
  by (relation "measure (\<lambda>(_, _, _, depth). 5 - depth)") auto

declare resolve_entry.simps [simp del]

definition tag_type_size :: "TagType \<Rightarrow> nat" where
  "tag_type_size ty = (case ty of TAG_T_BOOL \<Rightarrow> 1 | TAG_T_U8 \<Rightarrow> 1 | TAG_T_U16 \<Rightarrow> 2
     | TAG_T_U32 \<Rightarrow> 4 | TAG_T_REAL \<Rightarrow> 4 | TAG_T_OTHER _ \<Rightarrow> 0)"

section \<open>Store values\<close>

text \<open>A pointer to a slot of a store is the slot's index.\<close>

definition get_proc_value :: "'d Runtime \<Rightarrow> TagEntry \<Rightarrow> nat option" where
  "get_proc_value rt entry =
     (case te_ref entry of
        REF_PROC index \<Rightarrow>
          if st_count (proc_store rt) \<le> unat index then None
          else if sv_type (st_values (proc_store rt) ! unat index) \<noteq> te_type entry then None
          else Some (unat index)
      | _ \<Rightarrow> None)"

definition get_hmi_value :: "'d Runtime \<Rightarrow> TagEntry \<Rightarrow> nat option" where
  "get_hmi_value rt entry =
     (case te_ref entry of
        REF_HMI_VAR index access \<Rightarrow>
          if st_count (hmi_store rt) \<le> unat index then None
          else if sv_type (st_values (hmi_store rt) ! unat index) \<noteq> te_type entry then None
          else Some (unat index)
      | _ \<Rightarrow> None)"

definition store_get :: "Store \<Rightarrow> nat \<Rightarrow> TagValue" where
  "store_get s i = sv_v (st_values s ! i)"

definition store_put :: "Store \<Rightarrow> nat \<Rightarrow> TagValue \<Rightarrow> Store" where
  "store_put s i v = s\<lparr>st_values := (st_values s)[i := (st_values s ! i)\<lparr>sv_v := v\<rparr>]\<rparr>"

section \<open>The process image of a tag\<close>

text \<open>
  The base pointer for reading, its size, and the runtime afterwards (a driver may repair
  its buffer index while it answers).
\<close>

definition call_data ::
  "'d Runtime \<Rightarrow> nat \<Rightarrow> 'd BackendDriver \<Rightarrow> ('d \<Rightarrow> u16 \<Rightarrow> buf_addr option \<times> u32 \<times> 'd) \<Rightarrow> u16
     \<Rightarrow> buf_addr option \<times> u32 \<times> 'd Runtime"
where
  "call_data rt i drv f dev =
     (let (base, sz, d) = f (drv_impl drv) dev in (base, sz, set_driver rt i (set_impl drv d)))"

definition get_io_read_base :: "'d Runtime \<Rightarrow> TagEntry \<Rightarrow> buf_addr option \<times> u32 \<times> 'd Runtime" where
  "get_io_read_base rt entry =
     (case te_ref entry of
        REF_IO io \<Rightarrow>
          if \<not> backends_set rt \<or> backend_count rt \<le> unat (io_backend_index io) then (None, 0, rt)
          else
            (case backend_array rt ! unat (io_backend_index io) of
               None \<Rightarrow> (None, 0, rt)
             | Some drv \<Rightarrow>
                 (case drv_ops drv of
                    None \<Rightarrow> (None, 0, rt)
                  | Some ops \<Rightarrow>
                      if io_dir io = TAGDIR_IN
                      then (case op_get_input_data ops of
                              None \<Rightarrow> (None, 0, rt)
                            | Some f \<Rightarrow> call_data rt (unat (io_backend_index io)) drv f (io_device_index io))
                      else (case op_get_output_data ops of
                              None \<Rightarrow> (None, 0, rt)
                            | Some f \<Rightarrow> call_data rt (unat (io_backend_index io)) drv f (io_device_index io))))
      | _ \<Rightarrow> (None, 0, rt))"

definition get_io_write_base :: "'d Runtime \<Rightarrow> TagEntry \<Rightarrow> buf_addr option \<times> u32 \<times> 'd Runtime" where
  "get_io_write_base rt entry =
     (case te_ref entry of
        REF_IO io \<Rightarrow>
          if io_dir io \<noteq> TAGDIR_OUT then (None, 0, rt)
          else if \<not> backends_set rt \<or> backend_count rt \<le> unat (io_backend_index io) then (None, 0, rt)
          else
            (case backend_array rt ! unat (io_backend_index io) of
               None \<Rightarrow> (None, 0, rt)
             | Some drv \<Rightarrow>
                 (case driver_op op_get_output_data drv of
                    None \<Rightarrow> (None, 0, rt)
                  | Some f \<Rightarrow> call_data rt (unat (io_backend_index io)) drv f (io_device_index io)))
      | _ \<Rightarrow> (None, 0, rt))"

text \<open>Memory behind a pointer that backend \<open>i\<close> handed out.\<close>

definition image_load :: "'d Runtime \<Rightarrow> nat \<Rightarrow> buf_addr \<Rightarrow> u8 list" where
  "image_load rt i a =
     (case backend_array rt ! i of
        None \<Rightarrow> []
      | Some drv \<Rightarrow> (case drv_ops drv of None \<Rightarrow> [] | Some ops \<Rightarrow> buf_load ops (drv_impl drv) a))"

definition image_store :: "'d Runtime \<Rightarrow> nat \<Rightarrow> buf_addr \<Rightarrow> u8 list \<Rightarrow> 'd Runtime" where
  "image_store rt i a bs =
     (case backend_array rt ! i of
        None \<Rightarrow> rt
      | Some drv \<Rightarrow> (case drv_ops drv of
           None \<Rightarrow> rt
         | Some ops \<Rightarrow> set_driver rt i (set_impl drv (buf_store ops (drv_impl drv) a bs))))"

text \<open>
  The value part of \<^verbatim>\<open>read_io_value\<close>: what is taken from an image of the given size.
  \<^verbatim>\<open>byte_offset + sizeof(..)\<close> is a 64-bit \<^verbatim>\<open>size_t\<close> sum, which does not wrap.
\<close>

definition peek_io :: "TagType \<Rightarrow> TagIORef \<Rightarrow> u8 list \<Rightarrow> u32 \<Rightarrow> TagValue \<Rightarrow> int \<times> TagValue" where
  "peek_io ty io base sz v =
     (let off = unat (io_byte_offset io) in
      case ty of
        TAG_T_BOOL \<Rightarrow>
          if 8 \<le> io_bit io \<or> sz \<le> io_byte_offset io then (- ERANGE, v)
          else (0, overwrite [bool_byte (drop_bit (unat (io_bit io)) (base ! off) AND 1 \<noteq> 0)] v)
      | TAG_T_U8 \<Rightarrow>
          if off + 1 > unat sz then (- ERANGE, v) else (0, overwrite [base ! off] v)
      | TAG_T_U16 \<Rightarrow>
          if off + 2 > unat sz then (- ERANGE, v) else (0, overwrite (mem_get off 2 base) v)
      | TAG_T_U32 \<Rightarrow>
          if off + 4 > unat sz then (- ERANGE, v) else (0, overwrite (mem_get off 4 base) v)
      | TAG_T_REAL \<Rightarrow>
          if off + 4 > unat sz then (- ERANGE, v) else (0, overwrite (mem_get off 4 base) v)
      | TAG_T_OTHER _ \<Rightarrow> (- EINVAL, v))"

text \<open>The value part of \<^verbatim>\<open>write_io_value\<close>: the image after the write.\<close>

definition poke_io :: "TagType \<Rightarrow> TagIORef \<Rightarrow> u8 list \<Rightarrow> u32 \<Rightarrow> TagValue \<Rightarrow> int \<times> u8 list" where
  "poke_io ty io base sz v =
     (let off = unat (io_byte_offset io) in
      case ty of
        TAG_T_BOOL \<Rightarrow>
          if 8 \<le> io_bit io \<or> sz \<le> io_byte_offset io then (- ERANGE, base)
          else
            let m = push_bit (unat (io_bit io)) 1 in
            (0, base[off := (if v ! 0 \<noteq> 0 then base ! off OR m else base ! off AND NOT m)])
      | TAG_T_U8 \<Rightarrow>
          if off + 1 > unat sz then (- ERANGE, base) else (0, base[off := v ! 0])
      | TAG_T_U16 \<Rightarrow>
          if off + 2 > unat sz then (- ERANGE, base) else (0, mem_put off (take 2 v) base)
      | TAG_T_U32 \<Rightarrow>
          if off + 4 > unat sz then (- ERANGE, base) else (0, mem_put off (take 4 v) base)
      | TAG_T_REAL \<Rightarrow>
          if off + 4 > unat sz then (- ERANGE, base) else (0, mem_put off (take 4 v) base)
      | TAG_T_OTHER _ \<Rightarrow> (- EINVAL, base))"

definition entry_io :: "TagEntry \<Rightarrow> TagIORef option" where
  "entry_io e = (case te_ref e of REF_IO io \<Rightarrow> Some io | _ \<Rightarrow> None)"

definition read_io_value :: "'d Runtime \<Rightarrow> TagEntry \<Rightarrow> TagValue \<Rightarrow> int \<times> TagValue \<times> 'd Runtime" where
  "read_io_value rt entry v =
     (case get_io_read_base rt entry of
        (None, sz, rt') \<Rightarrow> (- EINVAL, v, rt')
      | (Some a, sz, rt') \<Rightarrow>
          (case entry_io entry of
             None \<Rightarrow> (- EINVAL, v, rt')
           | Some io \<Rightarrow>
               let base = image_load rt' (unat (io_backend_index io)) a;
                   (rc, v') = peek_io (te_type entry) io base sz v
               in (rc, v', rt')))"

definition write_io_value :: "'d Runtime \<Rightarrow> TagEntry \<Rightarrow> TagValue \<Rightarrow> int \<times> 'd Runtime" where
  "write_io_value rt entry v =
     (case get_io_write_base rt entry of
        (None, sz, rt') \<Rightarrow> (- EINVAL, rt')
      | (Some a, sz, rt') \<Rightarrow>
          (case entry_io entry of
             None \<Rightarrow> (- EINVAL, rt')
           | Some io \<Rightarrow>
               let i = unat (io_backend_index io);
                   (rc, base') = poke_io (te_type entry) io (image_load rt' i a) sz v
               in (rc, if rc = 0 then image_store rt' i a base' else rt')))"

section \<open>The public functions\<close>

text \<open>
  The caller's buffer is \<open>None\<close> for \<open>NULL\<close>, or its bytes; its stated size \<open>out_sz\<close> is a
  separate argument. The result is the status, the buffer and the runtime.
\<close>

definition tag_read ::
  "'d Runtime \<Rightarrow> u32 \<Rightarrow> u8 list option \<Rightarrow> nat \<Rightarrow> int \<times> u8 list option \<times> 'd Runtime"
where
  "tag_read rt tid out out_sz =
     (case out of
        None \<Rightarrow> (- EINVAL, None, rt)
      | Some buf \<Rightarrow>
         (case resolve_entry rt tid False 0 of
            None \<Rightarrow> (- EINVAL, out, rt)
          | Some entry \<Rightarrow>
              let type_size = tag_type_size (te_type entry) in
              if type_size = 0 then (- EINVAL, out, rt)
              else if out_sz < type_size then (- ERANGE, out, rt)
              else
                (case te_kind entry of
                   TAGK_PROC \<Rightarrow>
                     (case get_proc_value rt entry of
                        None \<Rightarrow> (- EINVAL, out, rt)
                      | Some i \<Rightarrow>
                          (0, Some (overwrite (take type_size (store_get (proc_store rt) i)) buf), rt))
                 | TAGK_HMI_VAR \<Rightarrow>
                     (case get_hmi_value rt entry of
                        None \<Rightarrow> (- EINVAL, out, rt)
                      | Some i \<Rightarrow>
                          (0, Some (overwrite (take type_size (store_get (hmi_store rt) i)) buf), rt))
                 | TAGK_IO \<Rightarrow>
                     (let (rc, v, rt') = read_io_value rt entry (rt_uninit rt) in
                      if rc \<noteq> 0 then (rc, out, rt')
                      else (0, Some (overwrite (take type_size v) buf), rt'))
                 | _ \<Rightarrow> (- EINVAL, out, rt))))"

definition tag_write :: "'d Runtime \<Rightarrow> u32 \<Rightarrow> u8 list option \<Rightarrow> nat \<Rightarrow> int \<times> 'd Runtime" where
  "tag_write rt tid inp in_sz =
     (case inp of
        None \<Rightarrow> (- EINVAL, rt)
      | Some buf \<Rightarrow>
         (case resolve_entry rt tid True 0 of
            None \<Rightarrow> (- EINVAL, rt)
          | Some entry \<Rightarrow>
              let type_size = tag_type_size (te_type entry) in
              if type_size = 0 then (- EINVAL, rt)
              else if in_sz < type_size then (- ERANGE, rt)
              else
                let v = overwrite (take type_size buf) (rt_uninit rt) in
                (case te_kind entry of
                   TAGK_PROC \<Rightarrow>
                     (case get_proc_value rt entry of
                        None \<Rightarrow> (- EINVAL, rt)
                      | Some i \<Rightarrow> (0, rt\<lparr>proc_store := store_put (proc_store rt) i v\<rparr>))
                 | TAGK_HMI_VAR \<Rightarrow>
                     (case get_hmi_value rt entry of
                        None \<Rightarrow> (- EINVAL, rt)
                      | Some i \<Rightarrow> (0, rt\<lparr>hmi_store := store_put (hmi_store rt) i v\<rparr>))
                 | TAGK_IO \<Rightarrow> write_io_value rt entry v
                 | _ \<Rightarrow> (- EINVAL, rt))))"

text \<open>
  The typed variants pass the object representation of their value. Reading a \<^verbatim>\<open>bool\<close>
  object tests its byte; a \<^verbatim>\<open>float\<close> is its 32-bit pattern.
\<close>

definition tag_read_bool :: "'d Runtime \<Rightarrow> u32 \<Rightarrow> bool \<Rightarrow> int \<times> bool \<times> 'd Runtime" where
  "tag_read_bool rt tid out =
     (let (rc, bs, rt') = tag_read rt tid (Some [bool_byte out]) 1 in (rc, the bs ! 0 \<noteq> 0, rt'))"

definition tag_write_bool :: "'d Runtime \<Rightarrow> u32 \<Rightarrow> bool \<Rightarrow> int \<times> 'd Runtime" where
  "tag_write_bool rt tid v = tag_write rt tid (Some [bool_byte v]) 1"

definition tag_read_u8 :: "'d Runtime \<Rightarrow> u32 \<Rightarrow> u8 \<Rightarrow> int \<times> u8 \<times> 'd Runtime" where
  "tag_read_u8 rt tid out =
     (let (rc, bs, rt') = tag_read rt tid (Some [out]) 1 in (rc, the bs ! 0, rt'))"

definition tag_write_u8 :: "'d Runtime \<Rightarrow> u32 \<Rightarrow> u8 \<Rightarrow> int \<times> 'd Runtime" where
  "tag_write_u8 rt tid v = tag_write rt tid (Some [v]) 1"

definition tag_read_u16 :: "'d Runtime \<Rightarrow> u32 \<Rightarrow> u16 \<Rightarrow> int \<times> u16 \<times> 'd Runtime" where
  "tag_read_u16 rt tid out =
     (let (rc, bs, rt') = tag_read rt tid (Some (u16_bytes out)) 2 in (rc, bytes_u16 (the bs), rt'))"

definition tag_write_u16 :: "'d Runtime \<Rightarrow> u32 \<Rightarrow> u16 \<Rightarrow> int \<times> 'd Runtime" where
  "tag_write_u16 rt tid v = tag_write rt tid (Some (u16_bytes v)) 2"

definition tag_read_u32 :: "'d Runtime \<Rightarrow> u32 \<Rightarrow> u32 \<Rightarrow> int \<times> u32 \<times> 'd Runtime" where
  "tag_read_u32 rt tid out =
     (let (rc, bs, rt') = tag_read rt tid (Some (u32_bytes out)) 4 in (rc, bytes_u32 (the bs), rt'))"

definition tag_write_u32 :: "'d Runtime \<Rightarrow> u32 \<Rightarrow> u32 \<Rightarrow> int \<times> 'd Runtime" where
  "tag_write_u32 rt tid v = tag_write rt tid (Some (u32_bytes v)) 4"

definition tag_read_real :: "'d Runtime \<Rightarrow> u32 \<Rightarrow> u32 \<Rightarrow> int \<times> u32 \<times> 'd Runtime" where
  "tag_read_real rt tid out =
     (let (rc, bs, rt') = tag_read rt tid (Some (u32_bytes out)) 4 in (rc, bytes_u32 (the bs), rt'))"

definition tag_write_real :: "'d Runtime \<Rightarrow> u32 \<Rightarrow> u32 \<Rightarrow> int \<times> 'd Runtime" where
  "tag_write_real rt tid v = tag_write rt tid (Some (u32_bytes v)) 4"

lemmas tag_api_defs = tag_read_bool_def tag_write_bool_def tag_read_u8_def tag_write_u8_def
  tag_read_u16_def tag_write_u16_def tag_read_u32_def tag_write_u32_def
  tag_read_real_def tag_write_real_def

end
