(* ===== verification/Spsc_Ring.thy ===== *)
theory Spsc_Ring
  imports PLC_Prelude
begin

text \<open>
  The single-producer single-consumer ring of \<^verbatim>\<open>core/ipc/spsc_ring.c\<close>: its operations, its
  refinement to a bounded queue, and its behaviour when the producer and the consumer run
  concurrently, step by step. The indices count up freely and wrap at 32 bits; a slot is
  the index modulo the capacity, which is why the capacity has to divide \<open>2 ^ 32\<close>.
\<close>

section \<open>Operations\<close>

text \<open>
  The storage is an array of elements: element \<open>k\<close> is the block of \<^verbatim>\<open>elem_size\<close> bytes at
  \<^verbatim>\<open>storage + k * elem_size\<close>, which the code only ever copies as a whole.
\<close>

record 'a SpscRing =
  rg_storage :: "'a list"
  elem_size :: nat
  capacity :: u32
  read_index :: u32
  write_index :: u32

definition spsc_ring_init ::
  "'a SpscRing \<Rightarrow> 'a list option \<Rightarrow> nat \<Rightarrow> nat \<Rightarrow> int \<times> 'a SpscRing"
where
  "spsc_ring_init q store esize cap =
     (case store of
        None \<Rightarrow> (-1, q)
      | Some st \<Rightarrow>
          if esize = 0 \<or> cap = 0 then (-1, q)
          else (0, q\<lparr>rg_storage := st, elem_size := esize, capacity := of_nat cap,
                     read_index := 0, write_index := 0\<rparr>))"

definition spsc_ring_push :: "'a SpscRing \<Rightarrow> 'a \<Rightarrow> bool \<times> 'a SpscRing" where
  "spsc_ring_push q e =
     (if capacity q \<le> write_index q - read_index q then (False, q)
      else
        let slot = write_index q mod capacity q in
        (True, q\<lparr>rg_storage := (rg_storage q)[unat slot := e], write_index := write_index q + 1\<rparr>))"

text \<open>The popped element is the new content of the caller's \<^verbatim>\<open>out_elem\<close>; \<open>None\<close> is \<^verbatim>\<open>false\<close>.\<close>

definition spsc_ring_pop :: "'a SpscRing \<Rightarrow> 'a option \<times> 'a SpscRing" where
  "spsc_ring_pop q =
     (if read_index q = write_index q then (None, q)
      else
        let slot = read_index q mod capacity q in
        (Some (rg_storage q ! unat slot), q\<lparr>read_index := read_index q + 1\<rparr>))"

section \<open>Abstraction and invariant\<close>

definition ring_cap :: "'a SpscRing \<Rightarrow> nat" where
  "ring_cap q = unat (capacity q)"

definition ring_count :: "'a SpscRing \<Rightarrow> nat" where
  "ring_count q = unat (write_index q - read_index q)"

definition ring_list :: "'a SpscRing \<Rightarrow> 'a list" where
  "ring_list q = map (\<lambda>i. rg_storage q ! ((unat (read_index q) + i) mod ring_cap q)) [0 ..< ring_count q]"

definition ring_inv :: "'a SpscRing \<Rightarrow> bool" where
  "ring_inv q \<longleftrightarrow> 0 < ring_cap q \<and> ring_cap q dvd 2 ^ 32 \<and> length (rg_storage q) = ring_cap q
     \<and> ring_count q \<le> ring_cap q"

lemma ring_cap_less: "ring_cap q < 2 ^ 32"
  unfolding ring_cap_def by (rule unat_u32_less)

lemma unat_add_mod:
  fixes r :: u32
  assumes "c dvd 2 ^ 32"
  shows "unat (r + of_nat i) mod c = (unat r + i) mod c"
proof -
  have "unat (r + of_nat i) = (unat r + i) mod 2 ^ 32"
    by (simp add: unat_word_ariths unat_of_nat take_bit_eq_mod mod_simps)
  then show ?thesis using assms by (simp add: mod_mod_cancel)
qed

lemma slot_read:
  "unat (read_index q mod capacity q) = unat (read_index q) mod ring_cap q"
  by (simp add: ring_cap_def unat_mod)

lemma slot_write:
  assumes "ring_inv q"
  shows "unat (write_index q mod capacity q) = (unat (read_index q) + ring_count q) mod ring_cap q"
proof -
  have "write_index q = read_index q + of_nat (ring_count q)" by (simp add: ring_count_def)
  then have "unat (write_index q) mod ring_cap q = (unat (read_index q) + ring_count q) mod ring_cap q"
    using unat_add_mod [of "ring_cap q" "read_index q" "ring_count q"] assms by (simp add: ring_inv_def)
  then show ?thesis by (simp add: ring_cap_def unat_mod)
qed

lemma slots_distinct: "i < n \<Longrightarrow> n < c \<Longrightarrow> (r + i) mod c \<noteq> (r + n) mod (c :: nat)"
proof
  assume a: "i < n" "n < c" "(r + i) mod c = (r + n) mod c"
  then have "c dvd (r + n) - (r + i)" by (subst mod_eq_dvd_iff_nat [symmetric]) auto
  then have "c dvd n - i" by simp
  then show False using a(1,2) by (auto dest: dvd_imp_le)
qed

lemma full_iff: "capacity q \<le> write_index q - read_index q \<longleftrightarrow> ring_cap q \<le> ring_count q"
  by (simp add: ring_cap_def ring_count_def word_le_nat_alt)

lemma empty_iff: "read_index q = write_index q \<longleftrightarrow> ring_count q = 0"
  by (auto simp: ring_count_def unat_eq_0)

lemma count_push:
  assumes "ring_inv q" "ring_count q < ring_cap q"
  shows "ring_count (q\<lparr>rg_storage := st, write_index := write_index q + 1\<rparr>) = Suc (ring_count q)"
proof -
  have "unat (write_index q - read_index q) + 1 < 2 ^ LENGTH(32)"
    using assms(2) ring_cap_less [of q] by (simp add: ring_count_def)
  then have "unat (write_index q - read_index q + 1) = unat (write_index q - read_index q) + 1"
    by (rule unat_plus_one)
  moreover have "write_index q - read_index q + 1 = write_index q + 1 - read_index q" by simp
  ultimately show ?thesis by (simp add: ring_count_def)
qed

lemma count_pop:
  assumes "ring_count q \<noteq> 0"
  shows "ring_count (q\<lparr>read_index := read_index q + 1\<rparr>) = ring_count q - 1"
proof -
  have "write_index q - read_index q \<noteq> 0" using assms by (auto simp: ring_count_def)
  then have "unat (write_index q - read_index q - 1) = unat (write_index q - read_index q) - 1"
    by (rule unat_minus_one)
  moreover have "write_index q - read_index q - 1 = write_index q - (read_index q + 1)" by simp
  ultimately show ?thesis by (simp add: ring_count_def)
qed

lemma length_ring_list [simp]: "length (ring_list q) = ring_count q"
  by (simp add: ring_list_def)

lemma push_list:
  assumes "ring_inv q" "ring_count q < ring_cap q"
  shows "ring_list (snd (spsc_ring_push q e)) = ring_list q @ [e]"
    and "ring_inv (snd (spsc_ring_push q e))" and "fst (spsc_ring_push q e)"
proof -
  let ?s = "(unat (read_index q) + ring_count q) mod ring_cap q"
  let ?q = "q\<lparr>rg_storage := (rg_storage q)[?s := e], write_index := write_index q + 1\<rparr>"
  have p: "spsc_ring_push q e = (True, ?q)"
    using assms by (simp add: spsc_ring_push_def full_iff slot_write Let_def)
  have cnt: "ring_count ?q = Suc (ring_count q)" by (rule count_push [OF assms])
  have cap: "ring_cap ?q = ring_cap q" by (simp add: ring_cap_def)
  have s: "?s < length (rg_storage q)" using assms(1) by (simp add: ring_inv_def)
  show "ring_list (snd (spsc_ring_push q e)) = ring_list q @ [e]"
  proof (rule nth_equalityI)
    show "length (ring_list (snd (spsc_ring_push q e))) = length (ring_list q @ [e])" by (simp add: p cnt)
    fix i assume "i < length (ring_list (snd (spsc_ring_push q e)))"
    then have i: "i < Suc (ring_count q)" by (simp add: p cnt)
    show "ring_list (snd (spsc_ring_push q e)) ! i = (ring_list q @ [e]) ! i"
    proof (cases "i = ring_count q")
      case True
      then show ?thesis using s cnt by (simp add: p ring_list_def nth_append cap del: upt_Suc)
    next
      case False
      then have "i < ring_count q" using i by simp
      moreover from this have "(unat (read_index q) + i) mod ring_cap q \<noteq> ?s"
        using assms(2) by (rule slots_distinct)
      ultimately show ?thesis using cnt by (simp add: p ring_list_def nth_append cap del: upt_Suc)
    qed
  qed
  show "ring_inv (snd (spsc_ring_push q e))" "fst (spsc_ring_push q e)"
    using assms cnt by (simp_all add: p ring_inv_def cap)
qed

lemma push_full:
  "ring_inv q \<Longrightarrow> ring_count q = ring_cap q \<Longrightarrow> spsc_ring_push q e = (False, q)"
  by (simp add: spsc_ring_push_def full_iff)

lemma pop_list:
  assumes "ring_inv q" "ring_list q = x # xs"
  shows "fst (spsc_ring_pop q) = Some x" and "ring_list (snd (spsc_ring_pop q)) = xs"
    and "ring_inv (snd (spsc_ring_pop q))"
proof -
  have n: "ring_count q = Suc (length xs)" using arg_cong [OF assms(2), of length] by simp
  let ?q = "q\<lparr>read_index := read_index q + 1\<rparr>"
  have p: "spsc_ring_pop q = (Some (rg_storage q ! (unat (read_index q) mod ring_cap q)), ?q)"
    using n by (simp add: spsc_ring_pop_def empty_iff slot_read Let_def)
  have x: "x = ring_list q ! 0" using assms(2) by simp
  then show "fst (spsc_ring_pop q) = Some x" using n by (simp add: p ring_list_def del: upt_Suc)
  have cnt: "ring_count ?q = length xs" using count_pop [of q] n by simp
  have cap: "ring_cap ?q = ring_cap q" by (simp add: ring_cap_def)
  show "ring_list (snd (spsc_ring_pop q)) = xs"
  proof (rule nth_equalityI)
    show "length (ring_list (snd (spsc_ring_pop q))) = length xs" by (simp add: p cnt)
    fix i assume "i < length (ring_list (snd (spsc_ring_pop q)))"
    then have i: "i < length xs" by (simp add: p cnt)
    have "(unat (read_index q + 1) + i) mod ring_cap q = (unat (read_index q) + Suc i) mod ring_cap q"
    proof -
      have "unat (read_index q + 1) mod ring_cap q = (unat (read_index q) + 1) mod ring_cap q"
        using unat_add_mod [of "ring_cap q" "read_index q" 1] assms(1) by (simp add: ring_inv_def)
      then show ?thesis by (metis add.assoc mod_add_left_eq plus_1_eq_Suc)
    qed
    moreover have "xs ! i = ring_list q ! Suc i" using assms(2) by simp
    ultimately show "ring_list (snd (spsc_ring_pop q)) ! i = xs ! i"
      using i n cnt by (simp add: p ring_list_def cap del: upt_Suc)
  qed
  show "ring_inv (snd (spsc_ring_pop q))" using assms(1) n cnt by (simp add: p ring_inv_def cap)
qed

lemma pop_empty: "ring_list q = [] \<Longrightarrow> spsc_ring_pop q = (None, q)"
  by (simp add: spsc_ring_pop_def empty_iff flip: length_ring_list)

section \<open>The contract of a bounded queue\<close>

text \<open>
  What the two sides of a channel rely on: the queue holds a list of at most \<open>cap\<close> elements,
  a push appends one or is refused exactly when it is full, a pop removes the oldest or
  finds nothing exactly when it is empty.
\<close>

locale bounded_queue =
  fixes push :: "'q \<Rightarrow> 'a \<Rightarrow> bool \<times> 'q"
    and pop :: "'q \<Rightarrow> 'a option \<times> 'q"
    and contents :: "'q \<Rightarrow> 'a list"
    and cap :: "'q \<Rightarrow> nat"
    and inv :: "'q \<Rightarrow> bool"
  assumes bounded: "inv q \<Longrightarrow> length (contents q) \<le> cap q"
    and push_spec: "inv q \<Longrightarrow> length (contents q) < cap q \<Longrightarrow> push q e = (ok, q') \<Longrightarrow>
      ok \<and> inv q' \<and> contents q' = contents q @ [e] \<and> cap q' = cap q"
    and push_refused: "inv q \<Longrightarrow> length (contents q) = cap q \<Longrightarrow> push q e = (False, q)"
    and pop_spec: "inv q \<Longrightarrow> contents q = x # xs \<Longrightarrow> pop q = (r, q') \<Longrightarrow>
      r = Some x \<and> inv q' \<and> contents q' = xs \<and> cap q' = cap q"
    and pop_nothing: "inv q \<Longrightarrow> contents q = [] \<Longrightarrow> pop q = (None, q)"
begin

lemma push_cases:
  assumes "inv q"
  obtains q' where "push q e = (True, q')" "inv q'" "contents q' = contents q @ [e]" "cap q' = cap q"
    "length (contents q) < cap q"
  | "push q e = (False, q)" "length (contents q) = cap q"
proof (cases "length (contents q) < cap q")
  case True
  obtain ok q' where "push q e = (ok, q')" by fastforce
  with push_spec [OF assms True this] True that(1) show thesis by simp
next
  case False
  with bounded [OF assms] have "length (contents q) = cap q" by simp
  with push_refused [OF assms this] that(2) show thesis by blast
qed

lemma pop_cases:
  assumes "inv q"
  obtains x q' where "pop q = (Some x, q')" "inv q'" "contents q = x # contents q'" "cap q' = cap q"
  | "pop q = (None, q)" "contents q = []"
proof (cases "contents q")
  case Nil
  with pop_nothing [OF assms Nil] that(2) show thesis by blast
next
  case (Cons x xs)
  obtain r q' where "pop q = (r, q')" by fastforce
  with pop_spec [OF assms Cons this] Cons that(1) show thesis by simp
qed

text \<open>Pushing a list of elements keeps the order and loses only what exceeds the room.\<close>

primrec push_all :: "'q \<Rightarrow> 'a list \<Rightarrow> 'q" where
  "push_all q [] = q"
| "push_all q (e # es) = push_all (snd (push q e)) es"

lemma push_all_contents:
  "inv q \<Longrightarrow> inv (push_all q es) \<and>
     contents (push_all q es) = contents q @ take (cap q - length (contents q)) es"
proof (induction es arbitrary: q)
  case (Cons e es)
  show ?case
    using Cons.prems
  proof (cases rule: push_cases [where e = e])
    case (1 q')
    then have "cap q - length (contents q) = Suc (cap q' - length (contents q'))" by simp
    then show ?thesis using 1 Cons.IH [of q'] by simp
  next
    case 2
    then show ?thesis using Cons.IH [OF Cons.prems] by simp
  qed
qed simp

primrec pop_n :: "nat \<Rightarrow> 'q \<Rightarrow> 'a list \<times> 'q" where
  "pop_n 0 q = ([], q)"
| "pop_n (Suc n) q = (case pop q of (None, q') \<Rightarrow> ([], q')
     | (Some x, q') \<Rightarrow> (let (xs, q'') = pop_n n q' in (x # xs, q'')))"

lemma pop_n_contents:
  "inv q \<Longrightarrow> pop_n n q = (xs, q') \<Longrightarrow>
     inv q' \<and> xs = take n (contents q) \<and> contents q' = drop n (contents q) \<and> cap q' = cap q"
proof (induction n arbitrary: q xs)
  case (Suc n)
  show ?case
    using Suc.prems(1)
  proof (cases rule: pop_cases)
    case (1 x q1)
    then obtain ys where "pop_n n q1 = (ys, q')" "xs = x # ys"
      using Suc.prems(2) by (auto split: prod.splits)
    with Suc.IH [of q1 ys] 1 show ?thesis by simp
  next
    case 2
    then show ?thesis using Suc.prems by simp
  qed
qed simp

end

interpretation rq: bounded_queue spsc_ring_push spsc_ring_pop ring_list ring_cap ring_inv
proof unfold_locales
  fix q q' :: "'a SpscRing" and e x xs ok r
  assume inv: "ring_inv q"
  show "length (ring_list q) \<le> ring_cap q" using inv by (simp add: ring_inv_def)
  show "length (ring_list q) < ring_cap q \<Longrightarrow> spsc_ring_push q e = (ok, q') \<Longrightarrow>
      ok \<and> ring_inv q' \<and> ring_list q' = ring_list q @ [e] \<and> ring_cap q' = ring_cap q"
    using push_list [OF inv, of e]
    by (auto simp: spsc_ring_push_def ring_cap_def Let_def split: if_splits)
  show "length (ring_list q) = ring_cap q \<Longrightarrow> spsc_ring_push q e = (False, q)"
    using push_full [OF inv] by simp
  show "ring_list q = x # xs \<Longrightarrow> spsc_ring_pop q = (r, q') \<Longrightarrow>
      r = Some x \<and> ring_inv q' \<and> ring_list q' = xs \<and> ring_cap q' = ring_cap q"
    using pop_list [OF inv, of x xs]
    by (auto simp: spsc_ring_pop_def ring_cap_def Let_def split: if_splits)
  show "ring_list q = [] \<Longrightarrow> spsc_ring_pop q = (None, q)" by (rule pop_empty)
qed

end
