(* ===== verification/C_Stdlib.thy ===== *)
theory C_Stdlib
  imports PLC_Prelude
begin

text \<open>
  The functions of \<^verbatim>\<open>ctype.h\<close>, \<^verbatim>\<open>stdlib.h\<close> and \<^verbatim>\<open>stdio.h\<close> the text interfaces call, in
  the \<^verbatim>\<open>C\<close> locale: character classes, \<^verbatim>\<open>strtoul\<close> with base 0, \<^verbatim>\<open>strtof\<close>, and the formats
  \<^verbatim>\<open>%u\<close> and \<^verbatim>\<open>%f\<close>. A \<^verbatim>\<open>float\<close> is its IEEE binary32 pattern. Facts about printing a number
  and parsing it back close the theory.
\<close>

section \<open>Characters\<close>

definition isspace :: "char \<Rightarrow> bool" where
  "isspace c \<longleftrightarrow> (of_char c :: nat) = 32 \<or> (9 \<le> (of_char c :: nat) \<and> (of_char c :: nat) \<le> 13)"

definition tolower :: "char \<Rightarrow> char" where
  "tolower c = (let n = of_char c :: nat in if 65 \<le> n \<and> n \<le> 90 then char_of (n + 32) else c)"

definition digit_val :: "char \<Rightarrow> nat option" where
  "digit_val c = (let n = of_char (tolower c) :: nat in
     if 48 \<le> n \<and> n \<le> 57 then Some (n - 48)
     else if 97 \<le> n \<and> n \<le> 122 then Some (n - 87) else None)"

definition is_digit :: "nat \<Rightarrow> char \<Rightarrow> bool" where
  "is_digit base c = (case digit_val c of None \<Rightarrow> False | Some d \<Rightarrow> d < base)"

definition digits_val :: "nat \<Rightarrow> string \<Rightarrow> nat" where
  "digits_val base ds = foldl (\<lambda>a c. base * a + the (digit_val c)) 0 ds"

definition take_sign :: "string \<Rightarrow> bool \<times> string" where
  "take_sign s = (case s of [] \<Rightarrow> (False, []) | c # cs \<Rightarrow>
     if c = CHR ''-'' then (True, cs) else if c = CHR ''+'' then (False, cs) else (False, s))"

definition starts_nocase :: "string \<Rightarrow> string \<Rightarrow> bool" where
  "starts_nocase p s \<longleftrightarrow> map tolower (take (length p) s) = p"

section \<open>\<^verbatim>\<open>strtoul(s, &endp, 0)\<close>\<close>

text \<open>
  The value, for an \<^verbatim>\<open>unsigned long\<close> of \<open>w\<close> bits, and the rest of the input at \<^verbatim>\<open>*endp\<close>.
  Without a digit the rest is the whole input and the value 0; too large a number saturates;
  a minus sign negates modulo \<open>2 ^ w\<close>.
\<close>

definition strtoul_base :: "string \<Rightarrow> nat \<times> string" where
  "strtoul_base s =
     (if starts_nocase ''0x'' s \<and> drop 2 s \<noteq> [] \<and> is_digit 16 (s ! 2) then (16, drop 2 s)
      else if s \<noteq> [] \<and> hd s = CHR ''0'' then (8, s) else (10, s))"

definition strtoul :: "nat \<Rightarrow> string \<Rightarrow> nat \<times> string" where
  "strtoul w s =
     (let (neg, s2) = take_sign (dropWhile isspace s);
          (base, s3) = strtoul_base s2;
          ds = takeWhile (is_digit base) s3;
          v = digits_val base ds
      in if ds = [] then (0, s)
         else (if 2 ^ w \<le> v then 2 ^ w - 1 else if neg then (2 ^ w - v) mod 2 ^ w else v,
               drop (length ds) s3))"

section \<open>\<^verbatim>\<open>strtof\<close>\<close>

definition round_div :: "nat \<Rightarrow> nat \<Rightarrow> nat" where
  "round_div a b = (let q = a div b; r = a mod b in
     if b < 2 * r \<or> (2 * r = b \<and> odd q) then q + 1 else q)"

fun bit_len :: "nat \<Rightarrow> nat" where
  "bit_len n = (if n = 0 then 0 else Suc (bit_len (n div 2)))"

declare bit_len.simps [simp del]

text \<open>
  The magnitude bits of \<open>p / q\<close> rounded to nearest, ties to even: \<open>t\<close> is the exponent of the
  last mantissa bit, at least that of the subnormals; a result past the largest finite number
  is infinity.
\<close>

definition float_of_ratio :: "nat \<Rightarrow> nat \<Rightarrow> nat" where
  "float_of_ratio p q =
     (if p = 0 then 0
      else
        let k0 = int (bit_len p) - int (bit_len q);
            k = (if (if 0 \<le> k0 then q * 2 ^ nat k0 \<le> p else q \<le> p * 2 ^ nat (- k0)) then k0 else k0 - 1);
            t = max (k - 23) (- 149);
            m = (if 0 \<le> t then round_div p (q * 2 ^ nat t) else round_div (p * 2 ^ nat (- t)) q)
        in min (nat (t + 149) * 2 ^ 23 + m) (255 * 2 ^ 23))"

text \<open>
  \<open>take_exp\<close> reads an optional exponent after one of the given letters; \<open>scaled\<close> is
  \<open>m * b ^ e\<close> as a ratio.
\<close>

definition take_exp :: "char \<Rightarrow> string \<Rightarrow> int \<times> string" where
  "take_exp letter s =
     (if s \<noteq> [] \<and> tolower (hd s) = letter then
        let (neg, r) = take_sign (tl s); ds = takeWhile (is_digit 10) r in
        if ds = [] then (0, s)
        else ((if neg then - 1 else 1) * int (digits_val 10 ds), drop (length ds) r)
      else (0, s))"

definition scaled :: "nat \<Rightarrow> nat \<Rightarrow> int \<Rightarrow> nat" where
  "scaled m b e = (if 0 \<le> e then float_of_ratio (m * b ^ nat e) 1 else float_of_ratio m (b ^ nat (- e)))"

definition take_point :: "nat \<Rightarrow> string \<Rightarrow> string \<times> string \<times> string" where
  "take_point base s =
     (let i = takeWhile (is_digit base) s; r = drop (length i) s in
      if r \<noteq> [] \<and> hd r = CHR ''.'' then
        let f = takeWhile (is_digit base) (tl r) in
        if i = [] \<and> f = [] then ([], [], s) else (i, f, drop (length f) (tl r))
      else (i, [], r))"

definition strtof_hex :: "string \<Rightarrow> nat \<times> string" where
  "strtof_hex s =
     (let (i, f, r) = take_point 16 s; (e, r') = take_exp CHR ''p'' r in
      (scaled (digits_val 16 (i @ f)) 2 (e - 4 * int (length f)), r'))"

definition strtof_dec :: "string \<Rightarrow> (nat \<times> string) option" where
  "strtof_dec s =
     (let (i, f, r) = take_point 10 s; (e, r') = take_exp CHR ''e'' r in
      if i = [] \<and> f = [] then None
      else Some (scaled (digits_val 10 (i @ f)) 10 (e - int (length f)), r'))"

definition strtof_nan :: "string \<Rightarrow> string" where
  "strtof_nan r =
     (if r \<noteq> [] \<and> hd r = CHR ''('' then
        let r' = dropWhile (\<lambda>c. is_digit 36 c \<or> c = CHR ''_'') (tl r) in
        if r' \<noteq> [] \<and> hd r' = CHR '')'' then tl r' else r
      else r)"

definition strtof :: "string \<Rightarrow> u32 \<times> string" where
  "strtof s =
     (let (neg, s2) = take_sign (dropWhile isspace s);
          signed = (\<lambda>m. of_nat (if neg then m + 2 ^ 31 else m)) in
      if starts_nocase ''infinity'' s2 then (signed (255 * 2 ^ 23), drop 8 s2)
      else if starts_nocase ''inf'' s2 then (signed (255 * 2 ^ 23), drop 3 s2)
      else if starts_nocase ''nan'' s2 then (signed (511 * 2 ^ 22), strtof_nan (drop 3 s2))
      else if starts_nocase ''0x'' s2
         \<and> (case take_point 16 (drop 2 s2) of (i, f, r) \<Rightarrow> i \<noteq> [] \<or> f \<noteq> [])
      then (let (m, r) = strtof_hex (drop 2 s2) in (signed m, r))
      else (case strtof_dec s2 of None \<Rightarrow> (0, s) | Some (m, r) \<Rightarrow> (signed m, r)))"

section \<open>\<^verbatim>\<open>printf("%f")\<close>\<close>

definition six_digits :: "nat \<Rightarrow> string" where
  "six_digits n = map (\<lambda>k. char_of (48 + n div 10 ^ k mod 10)) [5, 4, 3, 2, 1, 0]"

text \<open>The exact value times \<open>10 ^ 6\<close>, rounded to nearest with ties to even, with six decimals.\<close>

definition fmt_f :: "u32 \<Rightarrow> string" where
  "fmt_f w =
     (let n = unat w mod 2 ^ 31; e = n div 2 ^ 23; m = n mod 2 ^ 23;
          mant = (if e = 0 then m else m + 2 ^ 23); ex = max e 1;
          sc = (if 150 \<le> ex then mant * 10 ^ 6 * 2 ^ (ex - 150) else round_div (mant * 10 ^ 6) (2 ^ (150 - ex)))
      in (if bit w 31 then ''-'' else '''') @
         (if e = 255 then if m = 0 then ''inf'' else ''nan''
          else dec_nat (sc div 10 ^ 6) @ ''.'' @ six_digits (sc mod 10 ^ 6)))"

section \<open>Printing a number and parsing it\<close>

lemma dec_digit: "(d::nat) < 10 \<Longrightarrow> digit_val (char_of (48 + d)) = Some d"
  by (simp add: digit_val_def tolower_def Let_def)


lemma is_digit_dec: "(d::nat) < 10 \<Longrightarrow> is_digit 10 (char_of (48 + d))"
  by (simp add: is_digit_def dec_digit)

lemma digits_val_snoc [simp]: "digits_val b (ds @ [c]) = b * digits_val b ds + the (digit_val c)"
  by (simp add: digits_val_def)

lemma dec_nat_digits: "\<forall>c\<in>set (dec_nat n). is_digit 10 c"
proof (induction n rule: dec_nat.induct)
  case (1 n)
  then show ?case by (cases "n < 10") (simp_all add: dec_nat.simps [of n] is_digit_dec)
qed

lemma dec_nat_val [simp]: "digits_val 10 (dec_nat n) = n"
proof (induction n rule: dec_nat.induct)
  case (1 n)
  then show ?case
    by (cases "n < 10") (simp_all add: dec_nat.simps [of n] dec_digit, simp add: digits_val_def dec_digit)
qed

lemma dec_nat_nonempty [simp]: "dec_nat n \<noteq> []"
  by (simp add: dec_nat.simps [of n])

text \<open>The first digit of a positive number is not 0.\<close>

lemma dec_nat_hd: "0 < n \<Longrightarrow> \<exists>d::nat. 0 < d \<and> d < 10 \<and> hd (dec_nat n) = char_of (48 + d)"
proof (induction n rule: dec_nat.induct)
  case (1 n)
  then show ?case by (cases "n < 10") (auto simp: dec_nat.simps [of n])
qed

lemma dec_nat_zero [simp]: "dec_nat 0 = ''0''"
  by code_simp

lemma digit_char:
  assumes "is_digit 10 c"
  shows "\<not> isspace c" "c \<noteq> CHR ''-''" "c \<noteq> CHR ''+''"
proof -
  have "48 \<le> (of_char (tolower c) :: nat) \<and> (of_char (tolower c) :: nat) \<le> 57"
    using assms by (auto simp: is_digit_def digit_val_def Let_def split: if_splits)
  then have "48 \<le> (of_char c :: nat) \<and> (of_char c :: nat) \<le> 90"
    by (auto simp: tolower_def Let_def split: if_splits)
  then show "\<not> isspace c" "c \<noteq> CHR ''-''" "c \<noteq> CHR ''+''" by (auto simp: isspace_def)
qed

theorem strtoul_dec:
  assumes "n < 2 ^ w"
  shows "strtoul w (dec_nat n) = (n, [])"
proof -
  obtain c cs where s: "dec_nat n = c # cs" by (cases "dec_nat n") auto
  have "is_digit 10 c" using dec_nat_digits [of n] by (simp add: s)
  then have sg: "take_sign (dropWhile isspace (dec_nat n)) = (False, dec_nat n)"
    by (simp add: s digit_char take_sign_def)
  show ?thesis
  proof (cases "n = 0")
    case True
    then show ?thesis
      using assms sg by (simp add: strtoul_def strtoul_base_def starts_nocase_def digits_val_def
          is_digit_def digit_val_def tolower_def Let_def)
  next
    case False
    then obtain d :: nat where d: "0 < d" "d < 10" "c = char_of (48 + d)" using dec_nat_hd [of n] s by auto
    then have n: "(of_char c :: nat) = 48 + d" by simp
    then have "(of_char c :: nat) \<noteq> of_char CHR ''0''" using d(1) by simp
    moreover have "tolower c = c" using n d(2) by (simp add: tolower_def)
    ultimately have c0: "c \<noteq> CHR ''0''" "tolower c \<noteq> CHR ''0''" by auto
    then have "strtoul_base (dec_nat n) = (10, dec_nat n)"
      by (simp add: strtoul_base_def starts_nocase_def s)
    moreover have tw: "takeWhile (is_digit 10) (dec_nat n) = dec_nat n" using dec_nat_digits by simp
    ultimately show ?thesis using assms sg by (simp add: strtoul_def Let_def tw)
  qed
qed

lemma dec_nat_length: "n < 10 ^ Suc k \<Longrightarrow> length (dec_nat n) \<le> Suc k"
proof (induction k arbitrary: n)
  case 0
  then show ?case by (simp add: dec_nat.simps [of n])
next
  case (Suc k)
  then have "n div 10 < 10 ^ Suc k" by (simp add: less_mult_imp_div_less mult.commute)
  then show ?case using Suc.IH [of "n div 10"] by (simp add: dec_nat.simps [of n])
qed

end
