(* ===== verification/Tag_Rpc.thy ===== *)
theory Tag_Rpc
  imports Tag_Api Spsc_Ring C_Stdlib
begin

text \<open>
  Remote access to tags: the channel of \<^verbatim>\<open>core/ipc/tag_rpc.c\<close> (a ring of requests and a ring
  of responses) and its PLC side, \<^verbatim>\<open>core/ipc/tag_rpc_plc.c\<close>, which serves a bounded number of
  requests per cycle. A parameter \<open>w\<close> is the width of \<^verbatim>\<open>unsigned long\<close>: 64 on the POSIX
  targets, 32 on Windows.
\<close>

section \<open>The channel\<close>

datatype TagRpcOp = TAGRPC_READ | TAGRPC_WRITE | TAGRPC_OTHER int

record TagRpcRequest =
  rq_id :: u32
  rq_op :: TagRpcOp
  rq_name :: string
  rq_value :: string

record TagRpcResponse =
  rs_id :: u32
  rs_status :: int
  rs_type :: string
  rs_value :: string
  rs_msg :: string

record TagRpcChannel =
  req_q :: "TagRpcRequest SpscRing"
  rsp_q :: "TagRpcResponse SpscRing"

definition TAG_RPC_CAPACITY :: nat where "TAG_RPC_CAPACITY = 64"
definition TAGRPC_NAME_MAX :: nat where "TAGRPC_NAME_MAX = 64"
definition TAGRPC_VALUE_MAX :: nat where "TAGRPC_VALUE_MAX = 64"
definition TAGRPC_ERRMSG_MAX :: nat where "TAGRPC_ERRMSG_MAX = 64"
definition TAGRPC_TYPE_MAX :: nat where "TAGRPC_TYPE_MAX = 16"

text \<open>
  \<open>memset(ch, 0, ..)\<close> clears the rings; the two static arrays that become their storage are
  arguments. The sizes are those of the two structures.
\<close>

definition zero_ring :: "'a SpscRing" where
  "zero_ring = \<lparr>rg_storage = [], elem_size = 0, capacity = 0, read_index = 0, write_index = 0\<rparr>"

definition tag_rpc_init ::
  "TagRpcRequest list \<Rightarrow> TagRpcResponse list \<Rightarrow> TagRpcChannel \<Rightarrow> int \<times> TagRpcChannel"
where
  "tag_rpc_init req_storage rsp_storage ch =
     (let ch1 = \<lparr>req_q = zero_ring, rsp_q = zero_ring\<rparr>;
          (rc, rq) = spsc_ring_init (req_q ch1) (Some req_storage)
             (4 + 4 + TAGRPC_NAME_MAX + TAGRPC_VALUE_MAX) TAG_RPC_CAPACITY;
          ch2 = ch1\<lparr>req_q := rq\<rparr>
      in if rc \<noteq> 0 then (-1, ch2)
         else
           let (rc2, sq) = spsc_ring_init (rsp_q ch2) (Some rsp_storage)
                 (4 + 4 + TAGRPC_TYPE_MAX + TAGRPC_VALUE_MAX + TAGRPC_ERRMSG_MAX) TAG_RPC_CAPACITY;
               ch3 = ch2\<lparr>rsp_q := sq\<rparr>
           in if rc2 \<noteq> 0 then (-1, ch3) else (0, ch3))"

definition tag_rpc_send_request :: "TagRpcChannel \<Rightarrow> TagRpcRequest \<Rightarrow> bool \<times> TagRpcChannel" where
  "tag_rpc_send_request ch req = (let (ok, q) = spsc_ring_push (req_q ch) req in (ok, ch\<lparr>req_q := q\<rparr>))"

definition tag_rpc_recv_request :: "TagRpcChannel \<Rightarrow> TagRpcRequest option \<times> TagRpcChannel" where
  "tag_rpc_recv_request ch = (let (r, q) = spsc_ring_pop (req_q ch) in (r, ch\<lparr>req_q := q\<rparr>))"

definition tag_rpc_send_response :: "TagRpcChannel \<Rightarrow> TagRpcResponse \<Rightarrow> bool \<times> TagRpcChannel" where
  "tag_rpc_send_response ch rsp = (let (ok, q) = spsc_ring_push (rsp_q ch) rsp in (ok, ch\<lparr>rsp_q := q\<rparr>))"

definition tag_rpc_recv_response :: "TagRpcChannel \<Rightarrow> TagRpcResponse option \<times> TagRpcChannel" where
  "tag_rpc_recv_response ch = (let (r, q) = spsc_ring_pop (rsp_q ch) in (r, ch\<lparr>rsp_q := q\<rparr>))"

section \<open>Text of a value\<close>

definition tag_type_to_string :: "TagType \<Rightarrow> string" where
  "tag_type_to_string ty = (case ty of TAG_T_BOOL \<Rightarrow> ''BOOL'' | TAG_T_U8 \<Rightarrow> ''U8'' | TAG_T_U16 \<Rightarrow> ''U16''
     | TAG_T_U32 \<Rightarrow> ''U32'' | TAG_T_REAL \<Rightarrow> ''REAL'' | TAG_T_OTHER _ \<Rightarrow> ''UNKNOWN'')"

fun str_eq_nocase :: "string \<Rightarrow> string \<Rightarrow> bool" where
  "str_eq_nocase (a # as) (b # bs) = (if tolower a \<noteq> tolower b then False else str_eq_nocase as bs)"
| "str_eq_nocase as bs = (as = [] \<and> bs = [])"

definition parse_bool_value :: "string \<Rightarrow> int \<times> bool option" where
  "parse_bool_value v =
     (if v = ''0'' then (0, Some False)
      else if v = ''1'' then (0, Some True)
      else if str_eq_nocase v ''true'' then (0, Some True)
      else if str_eq_nocase v ''false'' then (0, Some False)
      else (- EINVAL, None))"

section \<open>Serving one request\<close>

definition zero_response :: TagRpcResponse where
  "zero_response = \<lparr>rs_id = 0, rs_status = 0, rs_type = [], rs_value = [], rs_msg = []\<rparr>"

definition set_error_response :: "u32 \<Rightarrow> int \<Rightarrow> string option \<Rightarrow> TagRpcResponse" where
  "set_error_response rid status msg =
     (let rsp = zero_response\<lparr>rs_id := rid, rs_status := status\<rparr> in
      case msg of None \<Rightarrow> rsp | Some m \<Rightarrow> rsp\<lparr>rs_msg := fst (snprintf TAGRPC_ERRMSG_MAX m)\<rparr>)"

definition read_answer :: "TagRpcResponse \<Rightarrow> TagType \<Rightarrow> string \<Rightarrow> TagRpcResponse" where
  "read_answer rsp ty text =
     rsp\<lparr>rs_type := fst (snprintf TAGRPC_TYPE_MAX (tag_type_to_string ty)),
         rs_value := fst (snprintf TAGRPC_VALUE_MAX text)\<rparr>"

definition handle_read ::
  "'d Runtime \<Rightarrow> TagEntry \<Rightarrow> u32 \<Rightarrow> u32 \<Rightarrow> TagRpcResponse \<times> 'd Runtime"
where
  "handle_read rt entry req_id tid =
     (let rsp = zero_response\<lparr>rs_id := req_id\<rparr>; ty = te_type entry;
          (rc, rsp', rt') =
            (case ty of
               TAG_T_BOOL \<Rightarrow>
                 (let (rc, v, r) = tag_read_bool rt tid False in
                  (rc, if rc = 0 then read_answer rsp ty (if v then ''1'' else ''0'') else rsp, r))
             | TAG_T_U8 \<Rightarrow>
                 (let (rc, v, r) = tag_read_u8 rt tid 0 in
                  (rc, if rc = 0 then read_answer rsp ty (dec_nat (unat v)) else rsp, r))
             | TAG_T_U16 \<Rightarrow>
                 (let (rc, v, r) = tag_read_u16 rt tid 0 in
                  (rc, if rc = 0 then read_answer rsp ty (dec_nat (unat v)) else rsp, r))
             | TAG_T_U32 \<Rightarrow>
                 (let (rc, v, r) = tag_read_u32 rt tid 0 in
                  (rc, if rc = 0 then read_answer rsp ty (dec_nat (unat v)) else rsp, r))
             | TAG_T_REAL \<Rightarrow>
                 (let (rc, v, r) = tag_read_real rt tid 0 in
                  (rc, if rc = 0 then read_answer rsp ty (fmt_f v) else rsp, r))
             | TAG_T_OTHER _ \<Rightarrow> (- EINVAL, rsp, rt))
      in if rc \<noteq> 0 then (set_error_response req_id rc (Some ''read_failed''), rt')
         else (rsp', rt'))"

definition handle_write ::
  "nat \<Rightarrow> 'd Runtime \<Rightarrow> TagEntry \<Rightarrow> u32 \<Rightarrow> u32 \<Rightarrow> string \<Rightarrow> TagRpcResponse \<times> 'd Runtime"
where
  "handle_write w rt entry req_id tid text =
     (let rsp = zero_response\<lparr>rs_id := req_id\<rparr>;
          (rc, rt') =
            (case te_type entry of
               TAG_T_BOOL \<Rightarrow>
                 (case parse_bool_value text of
                    (rc, None) \<Rightarrow> (rc, rt)
                  | (rc, Some v) \<Rightarrow> tag_write_bool rt tid v)
             | TAG_T_U8 \<Rightarrow>
                 (let (v, rest) = strtoul w text in
                  if rest \<noteq> [] then (- EINVAL, rt)
                  else if v > 0xFF then (- ERANGE, rt)
                  else tag_write_u8 rt tid (of_nat v))
             | TAG_T_U16 \<Rightarrow>
                 (let (v, rest) = strtoul w text in
                  if rest \<noteq> [] then (- EINVAL, rt)
                  else if v > 0xFFFF then (- ERANGE, rt)
                  else tag_write_u16 rt tid (of_nat v))
             | TAG_T_U32 \<Rightarrow>
                 (let (v, rest) = strtoul w text in
                  if rest \<noteq> [] then (- EINVAL, rt)
                  else tag_write_u32 rt tid (of_nat v))
             | TAG_T_REAL \<Rightarrow>
                 (let (v, rest) = strtof text in
                  if rest \<noteq> [] then (- EINVAL, rt)
                  else tag_write_real rt tid v)
             | TAG_T_OTHER _ \<Rightarrow> (- EINVAL, rt))
      in if rc \<noteq> 0 then (set_error_response req_id rc (Some ''write_failed''), rt')
         else (rsp, rt'))"

text \<open>The body of the loop for one request: the response it sends and the runtime after it.\<close>

definition rpc_serve :: "nat \<Rightarrow> TagRpcRequest \<Rightarrow> 'd Runtime \<Rightarrow> TagRpcResponse \<times> 'd Runtime" where
  "rpc_serve w req rt =
     (let tid = tag_table_find_id (tag_table rt) (Some (rq_name req)) in
      if tid = 0 then (set_error_response (rq_id req) (- ENOENT) (Some ''tag_not_found''), rt)
      else
        case tag_table_get (tag_table rt) tid of
          None \<Rightarrow> (set_error_response (rq_id req) (- ENOENT) (Some ''tag_not_found''), rt)
        | Some entry \<Rightarrow>
            if rq_op req = TAGRPC_READ then handle_read rt entry (rq_id req) tid
            else if rq_op req = TAGRPC_WRITE then handle_write w rt entry (rq_id req) tid (rq_value req)
            else (set_error_response (rq_id req) (- EINVAL) (Some ''bad_op''), rt))"

section \<open>The poll loop\<close>

text \<open>The argument is the number of iterations left, \<open>max_per_cycle - handled\<close>.\<close>

primrec rpc_poll_loop ::
  "nat \<Rightarrow> nat \<Rightarrow> TagRpcChannel \<Rightarrow> 'd Runtime \<Rightarrow> TagRpcChannel \<times> 'd Runtime"
where
  "rpc_poll_loop w 0 ch rt = (ch, rt)"
| "rpc_poll_loop w (Suc n) ch rt =
     (case tag_rpc_recv_request ch of
        (None, ch1) \<Rightarrow> (ch1, rt)
      | (Some req, ch1) \<Rightarrow>
          let (rsp, rt1) = rpc_serve w req rt;
              (ok, ch2) = tag_rpc_send_response ch1 rsp
          in rpc_poll_loop w n ch2 rt1)"

definition tag_rpc_plc_poll ::
  "nat \<Rightarrow> TagRpcChannel \<Rightarrow> 'd Runtime \<Rightarrow> u32 \<Rightarrow> TagRpcChannel \<times> 'd Runtime"
where
  "tag_rpc_plc_poll w ch rt max_per_cycle = rpc_poll_loop w (unat max_per_cycle) ch rt"

end
