(* ===== verification/Tag_Tcp.thy ===== *)
theory Tag_Tcp
  imports Tag_Rpc "HOL-Library.Monad_Syntax"
begin

text \<open>
  The text service of \<^verbatim>\<open>services/tcp/tag_tcp_server.c\<close>: lines \<open>READ name\<close> and
  \<open>WRITE name value\<close>, each turned into a request on the channel and answered with one line.
  The thread runs against an environment: what the sockets return, when it is asked to stop,
  and what the PLC does to the channel meanwhile.
\<close>

section \<open>Text\<close>

definition skip_ws :: "string \<Rightarrow> string" where
  "skip_ws s = dropWhile isspace s"

text \<open>
  \<open>parse_token\<close> returns its \<^verbatim>\<open>bool\<close>, the new content of \<^verbatim>\<open>out\<close> when it wrote one, and the
  cursor. A token longer than the buffer is cut but consumed whole.
\<close>

definition parse_token :: "string \<Rightarrow> nat \<Rightarrow> bool \<times> string option \<times> string" where
  "parse_token cursor out_len =
     (if out_len = 0 then (False, None, cursor)
      else
        let p = skip_ws cursor in
        if p = [] then (False, None, cursor)
        else
          let tok = takeWhile (\<lambda>c. \<not> isspace c) p; out = take (out_len - 1) tok in
          (0 < length out, Some out, drop (length tok) p))"

definition dec_int :: "int \<Rightarrow> string" where
  "dec_int i = (if i < 0 then ''-'' @ dec_nat (nat (- i)) else dec_nat (nat i))"

definition NL :: string where "NL = [CHR 0x0A]"

definition format_response :: "TagRpcResponse \<Rightarrow> nat \<Rightarrow> string" where
  "format_response rsp out_len =
     fst (snprintf out_len
       (if rs_status rsp = 0 then
          if rs_type rsp \<noteq> [] \<and> rs_value rsp \<noteq> []
          then ''OK '' @ rs_type rsp @ '' '' @ rs_value rsp @ NL
          else ''OK'' @ NL
        else if rs_msg rsp = [] then ''ERR '' @ dec_int (rs_status rsp) @ '' error'' @ NL
        else ''ERR '' @ dec_int (rs_status rsp) @ '' '' @ rs_msg rsp @ NL))"

definition TAG_TCP_MAX_LINE :: nat where "TAG_TCP_MAX_LINE = 512"

section \<open>The environment and the server\<close>

text \<open>
  Each observation of the environment is numbered by a clock \<open>k\<close>: the stop flag, the next
  results of the sockets, and the effect of the PLC thread on the channel and on its own
  state since the observation before. Only the head of what the PLC pops and the tail of
  what it pushes concern the server, so its effect is a function of the channel.
\<close>

record 'e TcpEnv =
  en_stop :: "nat \<Rightarrow> bool"
  en_plc :: "nat \<Rightarrow> TagRpcChannel \<times> 'e \<Rightarrow> TagRpcChannel \<times> 'e"
  en_sock_init :: int
  en_listen :: int
  en_accept :: "nat \<Rightarrow> int"
  en_recv :: "nat \<Rightarrow> int \<times> string"
  en_send :: "nat \<Rightarrow> int"

text \<open>
  The server: \<open>sv_client\<close> and \<open>sv_server\<close> are the \<^verbatim>\<open>valid\<close> flags of its sockets, \<open>sv_next_id\<close>
  the static counter, \<open>sv_line\<close> the line read so far, \<open>sv_out\<close> a log of what was sent.
\<close>

record 'e TagTcpServer =
  sv_ch :: TagRpcChannel
  sv_env :: 'e
  sv_clock :: nat
  sv_next_id :: u32
  sv_server :: bool
  sv_client :: bool
  sv_line :: string
  sv_out :: "string list"

definition close_client :: "'e TagTcpServer \<Rightarrow> 'e TagTcpServer" where
  "close_client s = (if \<not> sv_client s then s else s\<lparr>sv_client := False\<rparr>)"

section \<open>One request\<close>

text \<open>
  The wait for the response with the given id. It polls for ever when neither a stop nor the
  response comes.
\<close>

partial_function (option) tcp_await ::
  "'e TcpEnv \<Rightarrow> u32 \<Rightarrow> nat \<Rightarrow> 'e TagTcpServer \<Rightarrow> (string \<times> 'e TagTcpServer) option"
where
  "tcp_await env rid out_len s =
     (let k = sv_clock s; s0 = s\<lparr>sv_clock := k + 1\<rparr> in
      if en_stop env k then Some (fst (snprintf out_len (''ERR -3 stopping'' @ NL)), s0)
      else
        let (ch, e) = en_plc env k (sv_ch s0, sv_env s0); (r, ch') = tag_rpc_recv_response ch;
            s1 = s0\<lparr>sv_ch := ch', sv_env := e\<rparr>
        in case r of
             Some rsp \<Rightarrow>
               if rs_id rsp = rid then Some (format_response rsp out_len, s1)
               else tcp_await env rid out_len s1
           | None \<Rightarrow> tcp_await env rid out_len s1)"

definition bad_cmd :: "nat \<Rightarrow> string" where
  "bad_cmd out_len = fst (snprintf out_len (''ERR -1 bad_cmd'' @ NL))"

text \<open>The request a line stands for: everything in \<open>handle_request\<close> before the id is taken.\<close>

definition parse_line :: "string \<Rightarrow> (TagRpcOp \<times> string \<times> string) option" where
  "parse_line line =
     (case parse_token line 16 of
        (False, _, _) \<Rightarrow> None
      | (True, cmd, c1) \<Rightarrow>
          if the cmd = ''READ'' then
            (case parse_token c1 TAGRPC_NAME_MAX of
               (False, _, _) \<Rightarrow> None
             | (True, name, _) \<Rightarrow> Some (TAGRPC_READ, the name, []))
          else if the cmd = ''WRITE'' then
            (case parse_token c1 TAGRPC_NAME_MAX of
               (False, _, _) \<Rightarrow> None
             | (True, name, c2) \<Rightarrow>
                 (case parse_token c2 TAGRPC_VALUE_MAX of
                    (False, _, _) \<Rightarrow> None
                  | (True, value, _) \<Rightarrow> Some (TAGRPC_WRITE, the name, the value)))
          else None)"

definition handle_request ::
  "'e TcpEnv \<Rightarrow> string \<Rightarrow> nat \<Rightarrow> 'e TagTcpServer \<Rightarrow> (string \<times> 'e TagTcpServer) option"
where
  "handle_request env line out_len s =
     (case parse_line line of
        None \<Rightarrow> Some (bad_cmd out_len, s)
      | Some (op, name, value) \<Rightarrow>
          let req = \<lparr>rq_id = sv_next_id s, rq_op = op,
                rq_name = fst (snprintf TAGRPC_NAME_MAX name),
                rq_value = (if op = TAGRPC_WRITE then fst (snprintf TAGRPC_VALUE_MAX value) else [])\<rparr>;
              s1 = s\<lparr>sv_next_id := sv_next_id s + 1\<rparr>;
              (ok, ch) = tag_rpc_send_request (sv_ch s1) req;
              s2 = s1\<lparr>sv_ch := ch\<rparr>
          in if \<not> ok then Some (fst (snprintf out_len (''ERR -2 queue_full'' @ NL)), s2)
             else tcp_await env (rq_id req) out_len s2)"

section \<open>Lines\<close>

text \<open>
  One received character. The result says whether the connection is still open; it is not
  when the answer could not be sent, and then the rest of the received block is dropped.
\<close>

definition tcp_char :: "'e TcpEnv \<Rightarrow> char \<Rightarrow> 'e TagTcpServer \<Rightarrow> (bool \<times> 'e TagTcpServer) option" where
  "tcp_char env c s =
     (if c = CHR 0x0A then
        do {
          (response, s1) \<leftarrow> handle_request env (cstr (sv_line s)) TAG_TCP_MAX_LINE s;
          let k = sv_clock s1;
          let s2 = s1\<lparr>sv_clock := k + 1\<rparr>;
          if en_send env k \<noteq> 0 then Some (False, (close_client s2)\<lparr>sv_line := []\<rparr>)
          else Some (True, s2\<lparr>sv_line := [], sv_out := sv_out s2 @ [response]\<rparr>)
        }
      else if c = CHR 0x0D then Some (True, s)
      else if length (sv_line s) + 1 < TAG_TCP_MAX_LINE then Some (True, s\<lparr>sv_line := sv_line s @ [c]\<rparr>)
      else Some (True, s))"

primrec tcp_chars :: "'e TcpEnv \<Rightarrow> string \<Rightarrow> 'e TagTcpServer \<Rightarrow> (bool \<times> 'e TagTcpServer) option" where
  "tcp_chars env [] s = Some (True, s)"
| "tcp_chars env (c # cs) s =
     do { (go, s1) \<leftarrow> tcp_char env c s; if go then tcp_chars env cs s1 else Some (False, s1) }"

section \<open>The thread\<close>

definition banner :: string where "banner = ''OK PLCMASTER TAGRPC/1.0'' @ NL"

text \<open>
  One turn of the main loop: \<open>(False, s)\<close> when the stop flag was seen. \<open>tcp_accept\<close> is its
  first half, which says whether a client is connected.
\<close>

definition tcp_accept :: "'e TcpEnv \<Rightarrow> 'e TagTcpServer \<Rightarrow> bool \<times> 'e TagTcpServer" where
  "tcp_accept env s =
     (if sv_client s then (True, s)
      else
        let k = sv_clock s; s1 = s\<lparr>sv_clock := k + 1\<rparr> in
        if en_accept env k \<noteq> 0 then (False, s1)
        else
          let s2 = s1\<lparr>sv_client := True, sv_clock := k + 2\<rparr> in
          if en_send env (k + 1) \<noteq> 0 then (False, (close_client s2)\<lparr>sv_line := []\<rparr>)
          else (True, s2\<lparr>sv_line := [], sv_out := sv_out s2 @ [banner]\<rparr>))"

definition tcp_turn :: "'e TcpEnv \<Rightarrow> 'e TagTcpServer \<Rightarrow> (bool \<times> 'e TagTcpServer) option" where
  "tcp_turn env s =
     (let k = sv_clock s; s0 = s\<lparr>sv_clock := k + 1\<rparr> in
      if en_stop env k then Some (False, s0)
      else
        case tcp_accept env s0 of
          (False, s1) \<Rightarrow> Some (True, s1)
        | (True, s1) \<Rightarrow>
            (case en_recv env (sv_clock s1) of (rc, bytes) \<Rightarrow>
               let s2 = s1\<lparr>sv_clock := sv_clock s1 + 1\<rparr> in
               if rc \<le> 0 then Some (True, (close_client s2)\<lparr>sv_line := []\<rparr>)
               else do { (go, s3) \<leftarrow> tcp_chars env (take TAG_TCP_MAX_LINE bytes) s2; Some (True, s3) }))"

partial_function (option) tcp_loop :: "'e TcpEnv \<Rightarrow> 'e TagTcpServer \<Rightarrow> 'e TagTcpServer option" where
  "tcp_loop env s = do { (go, s1) \<leftarrow> tcp_turn env s; if go then tcp_loop env s1 else Some s1 }"

definition tag_tcp_server_thread :: "'e TcpEnv \<Rightarrow> 'e TagTcpServer \<Rightarrow> 'e TagTcpServer option" where
  "tag_tcp_server_thread env s =
     (if en_sock_init env \<noteq> 0 then Some s
      else if en_listen env \<noteq> 0 then Some (s\<lparr>sv_server := False\<rparr>)
      else do { s1 \<leftarrow> tcp_loop env (s\<lparr>sv_server := True, sv_line := []\<rparr>);
                Some ((close_client s1)\<lparr>sv_server := False\<rparr>) })"

end
