(* ===== verification/Tag_Access.thy ===== *)
theory Tag_Access
  imports Tag_Api
begin

text \<open>
  What the tag API guarantees: resolution of aliases, the laws of reading and writing one
  value in a process image, and, for runtimes whose drivers keep the process-image
  contract, that a read returns the last write, that a write touches nothing else and that
  a failed call changes nothing.
\<close>

unbundle bit_operations_syntax

section \<open>Resolution\<close>

lemmas resolve_splits = if_splits option.splits TagRef.splits

lemma resolve_entry_cong:
  "tag_table rt' = tag_table rt \<Longrightarrow> resolve_entry rt' tid w d = resolve_entry rt tid w d"
proof (induction rt tid w d rule: resolve_entry.induct)
  case (1 rt tid w d)
  then show ?case
    by (subst (1 2) resolve_entry.simps) (simp split: option.split TagRef.split)
qed

lemma resolve_entry_read: "resolve_entry rt tid True d = Some e \<Longrightarrow> resolve_entry rt tid False d = Some e"
proof (induction rt tid True d rule: resolve_entry.induct)
  case (1 rt tid d)
  show ?case
    using 1(2) 1(1)
    by (auto simp: resolve_entry.simps [of rt tid True d] resolve_entry.simps [of rt tid False d]
        split: resolve_splits)
qed

lemma resolve_entry_kind: "resolve_entry rt tid w d = Some e \<Longrightarrow> te_kind e \<noteq> TAGK_HMI_ALIAS"
proof (induction rt tid w d rule: resolve_entry.induct)
  case (1 rt tid w d)
  show ?case
    using 1(2) 1(1)
    by (fastforce simp: resolve_entry.simps [of rt tid w d] te_kind_def split: resolve_splits)
qed

lemma resolve_entry_live:
  assumes "table_wf (tag_table rt)"
  shows "resolve_entry rt tid w d = Some e \<Longrightarrow> e \<in> set (live (tag_table rt))"
  using assms
proof (induction rt tid w d rule: resolve_entry.induct)
  case (1 rt tid w d)
  have mem: "tag_table_get (tag_table rt) tid = Some x \<Longrightarrow> x \<in> set (live (tag_table rt))" for x
    using 1(3) by (auto simp: tag_table_get_live split: if_splits)
  show ?case
    using 1(2,3) 1(1) mem
    by (auto simp: resolve_entry.simps [of rt tid w d] split: resolve_splits)
qed

section \<open>One value in one image\<close>

definition io_fits :: "TagType \<Rightarrow> TagIORef \<Rightarrow> u32 \<Rightarrow> bool" where
  "io_fits ty io sz = (case ty of
       TAG_T_BOOL \<Rightarrow> io_bit io < 8 \<and> io_byte_offset io < sz
     | TAG_T_OTHER _ \<Rightarrow> False
     | _ \<Rightarrow> unat (io_byte_offset io) + tag_type_size ty \<le> unat sz)"

text \<open>The bits of the image a value occupies, bit \<open>k\<close> of byte \<open>i\<close> being number \<open>8 i + k\<close>.\<close>

definition io_bits :: "TagType \<Rightarrow> TagIORef \<Rightarrow> nat set" where
  "io_bits ty io = (case ty of
       TAG_T_BOOL \<Rightarrow> {8 * unat (io_byte_offset io) + unat (io_bit io)}
     | _ \<Rightarrow> {8 * unat (io_byte_offset io) ..< 8 * (unat (io_byte_offset io) + tag_type_size ty)})"

text \<open>The bytes a later read of the value gives back.\<close>

definition io_value :: "TagType \<Rightarrow> TagValue \<Rightarrow> TagValue" where
  "io_value ty v = (case ty of TAG_T_BOOL \<Rightarrow> [bool_byte (v ! 0 \<noteq> 0)]
     | _ \<Rightarrow> take (tag_type_size ty) v)"

lemma bit_test: "(drop_bit n (x :: 'a::len word) AND 1 \<noteq> 0) = bit x n"
  by (simp add: and_one_eq bit_iff_odd_drop_bit odd_iff_mod_2_eq_one)

lemmas io_defs = peek_io_def poke_io_def io_fits_def io_bits_def io_value_def tag_type_size_def

lemma peek_io_rc:
  "fst (peek_io ty io base sz v) = (if io_fits ty io sz then 0
     else case ty of TAG_T_OTHER _ \<Rightarrow> - EINVAL | _ \<Rightarrow> - ERANGE)"
  by (auto simp: io_defs Let_def not_le not_less split: TagType.split)

lemma poke_io_rc:
  "fst (poke_io ty io base sz v) = (if io_fits ty io sz then 0
     else case ty of TAG_T_OTHER _ \<Rightarrow> - EINVAL | _ \<Rightarrow> - ERANGE)"
  by (auto simp: io_defs Let_def not_le not_less split: TagType.split)

lemma poke_io_length:
  "unat sz = length base \<Longrightarrow> length v = VALUE_SIZE \<Longrightarrow>
     length (snd (poke_io ty io base sz v)) = length base"
  by (auto simp: io_defs Let_def VALUE_SIZE_def split: TagType.split)

lemma io_fits_bound:
  "io_fits ty io sz \<Longrightarrow> unat (io_byte_offset io) + tag_type_size ty \<le> unat sz"
  by (auto simp: io_defs word_less_nat_alt split: TagType.splits)

lemma peek_poke_io:
  assumes "io_fits ty io sz" "unat sz = length base" "length v = VALUE_SIZE"
  shows "peek_io ty io (snd (poke_io ty io base sz v)) sz w = (0, overwrite (io_value ty v) w)"
proof -
  let ?off = "unat (io_byte_offset io)"
  have "?off + tag_type_size ty \<le> length base"
    using io_fits_bound [OF assms(1)] assms(2) by simp
  then show ?thesis
    using assms
    by (auto simp: io_defs VALUE_SIZE_def Let_def bit_test word_less_nat_alt word_le_nat_alt
        mem_get_put_same take_Suc_conv_app_nth bool_byte_def bit_simps split: TagType.splits)
qed

text \<open>A write changes the bits of its own value only, and a read depends on those only.\<close>

lemma poke_io_other_bits:
  assumes "io_fits ty io sz" "unat sz = length base" "length v = VALUE_SIZE"
    and "i < length base" "k < 8" "8 * i + k \<notin> io_bits ty io"
  shows "bit (snd (poke_io ty io base sz v) ! i) k = bit (base ! i) k"
proof -
  let ?off = "unat (io_byte_offset io)"
  have b: "?off + tag_type_size ty \<le> length base"
    using io_fits_bound [OF assms(1)] assms(2) by simp
  show ?thesis
    using assms b
    by (auto simp: io_defs VALUE_SIZE_def Let_def not_le not_less word_less_nat_alt
        nth_mem_put nth_list_update bit_simps split: TagType.splits)
qed

lemma byte_eqI: "(\<And>k. k < 8 \<Longrightarrow> bit (a :: u8) k = bit b k) \<Longrightarrow> a = b"
  by (rule bit_word_eqI) simp

lemma peek_io_same_bits:
  assumes "io_fits ty io sz" "unat sz = length base" "length base' = length base"
    and eq: "\<And>i k. i < length base \<Longrightarrow> k < 8 \<Longrightarrow> 8 * i + k \<in> io_bits ty io
      \<Longrightarrow> bit (base' ! i) k = bit (base ! i) k"
  shows "peek_io ty io base' sz w = peek_io ty io base sz w"
proof (cases "ty = TAG_T_BOOL")
  case True
  with assms have "io_bit io < 8" "unat (io_byte_offset io) < length base"
    by (auto simp: io_fits_def word_less_nat_alt)
  moreover from this(1) have "unat (io_bit io) < 8" by (simp add: word_less_nat_alt)
  ultimately show ?thesis
    using True eq [of "unat (io_byte_offset io)" "unat (io_bit io)"]
    by (simp add: peek_io_def bit_test io_bits_def)
next
  case False
  let ?off = "unat (io_byte_offset io)" and ?n = "tag_type_size ty"
  have b: "?off + ?n \<le> length base"
    using io_fits_bound [OF assms(1)] assms(2) by simp
  have byte: "base' ! (?off + j) = base ! (?off + j)" if "j < ?n" for j
    using that b False by (intro byte_eqI eq) (auto simp: io_bits_def split: TagType.splits)
  have "mem_get ?off ?n base' = mem_get ?off ?n base"
    using b assms(3) by (auto simp: mem_get_def intro!: nth_equalityI byte)
  moreover have "?n = 1 \<Longrightarrow> base' ! ?off = base ! ?off"
    using byte [of 0] by simp
  ultimately show ?thesis
    using False by (auto simp: peek_io_def tag_type_size_def Let_def split: TagType.splits)
qed

lemma peek_poke_io_other:
  assumes "io_fits ty io sz" "unat sz = length base" "length v = VALUE_SIZE"
    and "io_bits ty io \<inter> io_bits ty2 io2 = {}"
  shows "peek_io ty2 io2 (snd (poke_io ty io base sz v)) sz w = peek_io ty2 io2 base sz w"
proof (cases "io_fits ty2 io2 sz")
  case True
  show ?thesis
    using True assms(2)
  proof (rule peek_io_same_bits)
    show "length (snd (poke_io ty io base sz v)) = length base"
      by (rule poke_io_length [OF assms(2,3)])
    fix i k assume "i < length base" "k < 8" "8 * i + k \<in> io_bits ty2 io2"
    with assms show "bit (snd (poke_io ty io base sz v) ! i) k = bit (base ! i) k"
      by (intro poke_io_other_bits) auto
  qed
next
  case False
  then show ?thesis
    by (auto simp: peek_io_def io_fits_def tag_type_size_def Let_def not_le not_less
        split: TagType.splits)
qed

section \<open>Runtimes whose drivers keep the contract\<close>

lemma set_driver_same: "backend_array rt ! i = Some drv \<Longrightarrow> set_driver rt i (set_impl drv (drv_impl drv)) = rt"
proof -
  assume a: "backend_array rt ! i = Some drv"
  have "set_impl drv (drv_impl drv) = drv" by (simp add: set_impl_def)
  then show ?thesis using list_update_id [of "backend_array rt" i] a by (simp add: set_driver_def)
qed

text \<open>
  The storage a resolved entry stands for. The cells of a process image are its bits, under
  the backend and the device.
\<close>

datatype cell = ProcCell nat | HmiCell nat | InBit nat nat nat | OutBit nat nat nat

definition entry_cells :: "TagEntry \<Rightarrow> cell set" where
  "entry_cells e = (case te_ref e of
       REF_PROC i \<Rightarrow> {ProcCell (unat i)}
     | REF_HMI_VAR i _ \<Rightarrow> {HmiCell (unat i)}
     | REF_IO io \<Rightarrow> (if io_dir io = TAGDIR_IN then InBit else OutBit)
          (unat (io_backend_index io)) (unat (io_device_index io)) ` io_bits (te_type e) io
     | _ \<Rightarrow> {})"

text \<open>The bytes a read returns after a write of \<open>buf\<close>: a \<^verbatim>\<open>bool\<close> of an image is normalised.\<close>

definition stored_bytes :: "TagEntry \<Rightarrow> u8 list \<Rightarrow> u8 list" where
  "stored_bytes e buf =
     (if te_kind e = TAGK_IO then io_value (te_type e) (take (tag_type_size (te_type e)) buf)
      else take (tag_type_size (te_type e)) buf)"

lemma store_put_get:
  "store_get (store_put s i v) j = (if i = j \<and> j < length (st_values s) then v else store_get s j)"
  by (simp add: store_get_def store_put_def nth_update_cases)

lemma store_put_simps [simp]:
  "st_count (store_put s i v) = st_count s"
  "length (st_values (store_put s i v)) = length (st_values s)"
  "sv_type (st_values (store_put s i v) ! j) = sv_type (st_values s ! j)"
  by (simp_all add: store_put_def nth_update_cases)

lemma store_put_wf:
  "store_wf s \<Longrightarrow> length v = VALUE_SIZE \<Longrightarrow> store_wf (store_put s i v)"
  by (auto simp: store_wf_def store_put_def dest!: set_update_cases)

lemma store_get_len: "store_wf s \<Longrightarrow> i < st_count s \<Longrightarrow> length (store_get s i) = VALUE_SIZE"
  by (simp add: store_wf_def store_get_def)

context process_image
begin

definition rt_ok :: "'d Runtime \<Rightarrow> bool" where
  "rt_ok rt \<longleftrightarrow> runtime_wf rt \<and> (\<forall>i drv. i < backend_count rt \<longrightarrow> backend_array rt ! i = Some drv
     \<longrightarrow> drv_ops drv = Some ops \<and> inv (drv_impl drv))"

definition tag_image :: "'d Runtime \<Rightarrow> TagIORef \<Rightarrow> u8 list option" where
  "tag_image rt io =
     (if \<not> backends_set rt \<or> backend_count rt \<le> unat (io_backend_index io) then None
      else (case backend_array rt ! unat (io_backend_index io) of
              None \<Rightarrow> None
            | Some drv \<Rightarrow> (if io_dir io = TAGDIR_IN then in_image else out_image)
                 (drv_impl drv) (unat (io_device_index io))))"

lemma tag_image_driver:
  assumes "rt_ok rt" "tag_image rt io = Some img"
  obtains drv where "backend_array rt ! unat (io_backend_index io) = Some drv" "backends_set rt"
    "unat (io_backend_index io) < backend_count rt" "drv_ops drv = Some ops" "inv (drv_impl drv)"
    "(if io_dir io = TAGDIR_IN then in_image else out_image) (drv_impl drv)
       (unat (io_device_index io)) = Some img"
  using assms by (auto simp: tag_image_def rt_ok_def not_le split: if_splits option.splits)

lemma tag_image_len: "rt_ok rt \<Longrightarrow> tag_image rt io = Some img \<Longrightarrow> unat (of_nat (length img) :: u32) = length img"
  by (elim tag_image_driver; assumption?) (auto split: if_splits intro!: unat_of_nat_small dest: image_len)

lemma read_base_None:
  assumes "rt_ok rt" "te_ref e = REF_IO io" "tag_image rt io = None"
  shows "\<exists>sz. get_io_read_base rt e = (None, sz, rt)"
proof (cases "backends_set rt \<and> unat (io_backend_index io) < backend_count rt
    \<and> backend_array rt ! unat (io_backend_index io) \<noteq> None")
  case True
  then obtain drv where d: "backend_array rt ! unat (io_backend_index io) = Some drv" by auto
  with True assms(1) have "drv_ops drv = Some ops" "inv (drv_impl drv)" by (auto simp: rt_ok_def)
  with True d assms in_None [of "drv_impl drv" "io_device_index io"]
    out_None [of "drv_impl drv" "io_device_index io"]
  show ?thesis
    by (auto simp: get_io_read_base_def tag_image_def call_data_def ops_in ops_out
        set_driver_same split: if_splits)
next
  case False
  then show ?thesis
    using assms(2) by (auto simp: get_io_read_base_def not_less split: option.splits)
qed

lemma read_base_Some:
  assumes "rt_ok rt" "te_ref e = REF_IO io" "tag_image rt io = Some img"
  shows "\<exists>a. get_io_read_base rt e = (Some a, of_nat (length img), rt)
    \<and> image_load rt (unat (io_backend_index io)) a = img"
  using assms(1,3)
proof (cases rule: tag_image_driver)
  case (1 drv)
  with assms(2) in_Some [of "drv_impl drv" "io_device_index io" img]
    out_Some [of "drv_impl drv" "io_device_index io" img]
  show ?thesis
    by (auto simp: get_io_read_base_def call_data_def ops_in ops_out set_driver_same image_load_def
        split: if_splits)
qed

lemma write_base_Some:
  assumes "rt_ok rt" "te_ref e = REF_IO io" "tag_image rt io = Some img" "io_dir io = TAGDIR_OUT"
  shows "\<exists>a. get_io_write_base rt e = (Some a, of_nat (length img), rt)
    \<and> image_load rt (unat (io_backend_index io)) a = img
    \<and> (\<forall>bs. length bs = length img \<longrightarrow>
         rt_ok (image_store rt (unat (io_backend_index io)) a bs)
         \<and> (\<forall>io2. tag_image (image_store rt (unat (io_backend_index io)) a bs) io2 =
              (if io_dir io2 \<noteq> TAGDIR_IN \<and> unat (io_backend_index io2) = unat (io_backend_index io)
                  \<and> unat (io_device_index io2) = unat (io_device_index io)
               then Some bs else tag_image rt io2)))"
  using assms(1,3)
proof (cases rule: tag_image_driver)
  case (1 drv)
  let ?i = "unat (io_backend_index io)" and ?d = "unat (io_device_index io)"
  have img: "out_image (drv_impl drv) ?d = Some img" using 1 assms(4) by simp
  obtain a where a: "get_out (drv_impl drv) (io_device_index io) = (Some a, of_nat (length img), drv_impl drv)"
    "buf_load ops (drv_impl drv) a = img"
    using out_Some [OF 1(5) img] by blast
  have base: "get_io_write_base rt e = (Some a, of_nat (length img), rt)"
    using 1 a assms(2,4)
    by (simp add: get_io_write_base_def driver_op_def call_data_def ops_out set_driver_same)
  have len: "?i < length (backend_array rt)" using 1 assms(1) by (simp add: rt_ok_def runtime_wf_def)
  have "rt_ok (image_store rt ?i a bs) \<and> (\<forall>io2. tag_image (image_store rt ?i a bs) io2 =
       (if io_dir io2 \<noteq> TAGDIR_IN \<and> unat (io_backend_index io2) = ?i \<and> unat (io_device_index io2) = ?d
        then Some bs else tag_image rt io2))" if "length bs = length img" for bs
  proof -
    have st: "out_image (buf_store ops (drv_impl drv) a bs) = (out_image (drv_impl drv))(?d \<mapsto> bs)"
      "in_image (buf_store ops (drv_impl drv) a bs) = in_image (drv_impl drv)"
      "inv (buf_store ops (drv_impl drv) a bs)"
      using store_out [OF 1(5) a(1) img that] by auto
    have eq: "image_store rt ?i a bs = set_driver rt ?i (set_impl drv (buf_store ops (drv_impl drv) a bs))"
      using 1 by (simp add: image_store_def)
    show ?thesis
      using assms(1) 1 st len
      by (auto simp: eq rt_ok_def tag_image_def nth_list_update)
  qed
  with base a 1 show ?thesis by (auto simp: image_load_def)
qed

lemma write_base_None:
  assumes "rt_ok rt" "te_ref e = REF_IO io" "tag_image rt io = None \<or> io_dir io \<noteq> TAGDIR_OUT"
  shows "\<exists>sz. get_io_write_base rt e = (None, sz, rt)"
proof (cases "io_dir io = TAGDIR_OUT \<and> backends_set rt \<and> unat (io_backend_index io) < backend_count rt
    \<and> backend_array rt ! unat (io_backend_index io) \<noteq> None")
  case True
  then obtain drv where d: "backend_array rt ! unat (io_backend_index io) = Some drv" by auto
  with True assms(1) have "drv_ops drv = Some ops" "inv (drv_impl drv)" by (auto simp: rt_ok_def)
  with True d assms out_None [of "drv_impl drv" "io_device_index io"]
  show ?thesis
    by (auto simp: get_io_write_base_def tag_image_def call_data_def ops_out driver_op_def
        set_driver_same)
next
  case False
  then show ?thesis
    using assms(2) by (auto simp: get_io_write_base_def not_less split: option.splits)
qed

text \<open>What a read of a resolved entry yields, and what a write does to the runtime.\<close>

definition entry_read :: "'d Runtime \<Rightarrow> TagEntry \<Rightarrow> int \<times> u8 list" where
  "entry_read rt e = (case te_ref e of
       REF_PROC _ \<Rightarrow> (case get_proc_value rt e of None \<Rightarrow> (- EINVAL, [])
          | Some i \<Rightarrow> (0, take (tag_type_size (te_type e)) (store_get (proc_store rt) i)))
     | REF_HMI_VAR _ _ \<Rightarrow> (case get_hmi_value rt e of None \<Rightarrow> (- EINVAL, [])
          | Some i \<Rightarrow> (0, take (tag_type_size (te_type e)) (store_get (hmi_store rt) i)))
     | REF_IO io \<Rightarrow> (case tag_image rt io of None \<Rightarrow> (- EINVAL, [])
          | Some img \<Rightarrow> (let (rc, v) = peek_io (te_type e) io img (of_nat (length img)) (rt_uninit rt)
                       in (rc, take (tag_type_size (te_type e)) v)))
     | _ \<Rightarrow> (- EINVAL, []))"

lemma read_io_value_eq:
  assumes "rt_ok rt" "te_ref e = REF_IO io"
  shows "read_io_value rt e v = (case tag_image rt io of None \<Rightarrow> (- EINVAL, v, rt)
    | Some img \<Rightarrow> (let (rc, v') = peek_io (te_type e) io img (of_nat (length img)) v in (rc, v', rt)))"
  using read_base_None [OF assms] read_base_Some [OF assms] assms(2)
  by (cases "tag_image rt io") (auto simp: read_io_value_def entry_io_def)

theorem tag_read_eq:
  assumes "rt_ok rt"
  shows "tag_read rt tid (Some out) m = (case resolve_entry rt tid False 0 of
      None \<Rightarrow> (- EINVAL, Some out, rt)
    | Some e \<Rightarrow>
        if tag_type_size (te_type e) = 0 then (- EINVAL, Some out, rt)
        else if m < tag_type_size (te_type e) then (- ERANGE, Some out, rt)
        else (let (rc, bs) = entry_read rt e
              in (rc, Some (if rc = 0 then overwrite bs out else out), rt)))"
  by (auto simp: tag_read_def entry_read_def te_kind_def Let_def read_io_value_eq [OF assms]
      split: option.split TagRef.split prod.split)

lemma tag_read_unchanged: "rt_ok rt \<Longrightarrow> snd (snd (tag_read rt tid out m)) = rt"
proof (cases out)
  case None
  then show ?thesis by (simp add: tag_read_def)
next
  case (Some buf)
  moreover assume "rt_ok rt"
  ultimately show ?thesis by (simp add: tag_read_eq split: option.split prod.split)
qed

text \<open>The runtime after a successful write, read back through any entry.\<close>

lemma write_io_value_ok:
  assumes "rt_ok rt" "te_ref e = REF_IO io" "length v = VALUE_SIZE"
    and "write_io_value rt e v = (0, rt')"
  obtains img where "tag_image rt io = Some img" "io_dir io = TAGDIR_OUT"
    "io_fits (te_type e) io (of_nat (length img))" "rt_ok rt'"
    "\<And>io2. tag_image rt' io2 =
        (if io_dir io2 \<noteq> TAGDIR_IN \<and> unat (io_backend_index io2) = unat (io_backend_index io)
            \<and> unat (io_device_index io2) = unat (io_device_index io)
         then Some (snd (poke_io (te_type e) io img (of_nat (length img)) v)) else tag_image rt io2)"
    "tag_table rt' = tag_table rt" "proc_store rt' = proc_store rt" "hmi_store rt' = hmi_store rt"
    "rt_uninit rt' = rt_uninit rt"
proof -
  obtain img where img: "tag_image rt io = Some img" "io_dir io = TAGDIR_OUT"
    using assms write_base_None [OF assms(1,2)]
    by (cases "tag_image rt io = None \<or> io_dir io \<noteq> TAGDIR_OUT") (auto simp: write_io_value_def)
  let ?i = "unat (io_backend_index io)" and ?sz = "of_nat (length img) :: u32"
  obtain a where a: "get_io_write_base rt e = (Some a, ?sz, rt)" "image_load rt ?i a = img"
    "\<And>bs. length bs = length img \<Longrightarrow> rt_ok (image_store rt ?i a bs)
         \<and> (\<forall>io2. tag_image (image_store rt ?i a bs) io2 =
              (if io_dir io2 \<noteq> TAGDIR_IN \<and> unat (io_backend_index io2) = ?i
                  \<and> unat (io_device_index io2) = unat (io_device_index io)
               then Some bs else tag_image rt io2))"
    using write_base_Some [OF assms(1,2) img] by blast
  let ?p = "poke_io (te_type e) io img ?sz v"
  have rc: "fst ?p = 0" and rt': "rt' = image_store rt ?i a (snd ?p)"
    using assms(2,4) a by (auto simp: write_io_value_def entry_io_def Let_def split: prod.splits if_splits)
  have fits: "io_fits (te_type e) io ?sz"
    using rc by (auto simp: poke_io_rc split: if_splits TagType.splits)
  have len: "length (snd ?p) = length img"
    using tag_image_len [OF assms(1) img(1)] assms(3) by (intro poke_io_length) auto
  show thesis
    using img fits a(3) [OF len] rt'
    by (intro that) (auto simp: image_store_def split: option.split)
qed

lemma tag_type_size_le: "tag_type_size ty \<le> VALUE_SIZE"
  by (simp add: tag_type_size_def VALUE_SIZE_def split: TagType.split)

lemma get_value_Some:
  "get_proc_value rt e = Some i \<Longrightarrow> \<exists>j. te_ref e = REF_PROC j \<and> i = unat j \<and> i < st_count (proc_store rt)"
  "get_hmi_value rt e = Some i \<Longrightarrow> \<exists>j a. te_ref e = REF_HMI_VAR j a \<and> i = unat j \<and> i < st_count (hmi_store rt)"
  by (auto simp: get_proc_value_def get_hmi_value_def split: TagRef.splits if_splits)

lemma store_update_simps [simp]:
  "tag_image (rt\<lparr>proc_store := p\<rparr>) io = tag_image rt io"
  "tag_image (rt\<lparr>hmi_store := p\<rparr>) io = tag_image rt io"
  by (simp_all add: tag_image_def)

lemma rt_ok_store:
  assumes "rt_ok rt" "length v = VALUE_SIZE"
  shows "rt_ok (rt\<lparr>proc_store := store_put (proc_store rt) i v\<rparr>)"
    and "rt_ok (rt\<lparr>hmi_store := store_put (hmi_store rt) i v\<rparr>)"
  using assms by (auto simp: rt_ok_def runtime_wf_def store_put_wf)

text \<open>A write to the process store, to the HMI store, and to an image, seen through any entry.\<close>

lemma proc_put_read:
  assumes "rt_ok rt" "get_proc_value rt e = Some i" "length v = VALUE_SIZE"
  defines "rt' \<equiv> rt\<lparr>proc_store := store_put (proc_store rt) i v\<rparr>"
  shows "entry_read rt' e = (0, take (tag_type_size (te_type e)) v)"
    and "entry_cells e2 \<inter> entry_cells e = {} \<Longrightarrow> entry_read rt' e2 = entry_read rt e2"
proof -
  obtain j where j: "te_ref e = REF_PROC j" "i = unat j" "i < st_count (proc_store rt)"
    using get_value_Some(1) [OF assms(2)] by blast
  have len: "i < length (st_values (proc_store rt))"
    using j(3) assms(1) by (auto simp: rt_ok_def runtime_wf_def store_wf_def)
  have gp: "get_proc_value rt' x = get_proc_value rt x" "get_hmi_value rt' x = get_hmi_value rt x" for x
    by (auto simp: rt'_def get_proc_value_def get_hmi_value_def split: TagRef.split)
  show "entry_read rt' e = (0, take (tag_type_size (te_type e)) v)"
    using j len assms(2) gp(1) [of e] by (simp add: entry_read_def rt'_def store_put_get)
  show "entry_read rt' e2 = entry_read rt e2" if d: "entry_cells e2 \<inter> entry_cells e = {}"
  proof -
    have "store_get (proc_store rt') k = store_get (proc_store rt) k"
      if "get_proc_value rt e2 = Some k" for k
      using d j get_value_Some(1) [OF that] by (auto simp: rt'_def store_put_get entry_cells_def)
    then show ?thesis
      using gp [of e2] by (auto simp: entry_read_def rt'_def split: TagRef.split option.split)
  qed
qed

lemma hmi_put_read:
  assumes "rt_ok rt" "get_hmi_value rt e = Some i" "length v = VALUE_SIZE"
  defines "rt' \<equiv> rt\<lparr>hmi_store := store_put (hmi_store rt) i v\<rparr>"
  shows "entry_read rt' e = (0, take (tag_type_size (te_type e)) v)"
    and "entry_cells e2 \<inter> entry_cells e = {} \<Longrightarrow> entry_read rt' e2 = entry_read rt e2"
proof -
  obtain j a where j: "te_ref e = REF_HMI_VAR j a" "i = unat j" "i < st_count (hmi_store rt)"
    using get_value_Some(2) [OF assms(2)] by blast
  have len: "i < length (st_values (hmi_store rt))"
    using j(3) assms(1) by (auto simp: rt_ok_def runtime_wf_def store_wf_def)
  have gp: "get_proc_value rt' x = get_proc_value rt x" "get_hmi_value rt' x = get_hmi_value rt x" for x
    by (auto simp: rt'_def get_proc_value_def get_hmi_value_def split: TagRef.split)
  show "entry_read rt' e = (0, take (tag_type_size (te_type e)) v)"
    using j len assms(2) gp(2) [of e] by (simp add: entry_read_def rt'_def store_put_get)
  show "entry_read rt' e2 = entry_read rt e2" if d: "entry_cells e2 \<inter> entry_cells e = {}"
  proof -
    have "store_get (hmi_store rt') k = store_get (hmi_store rt) k"
      if "get_hmi_value rt e2 = Some k" for k
      using d j get_value_Some(2) [OF that] by (auto simp: rt'_def store_put_get entry_cells_def)
    then show ?thesis
      using gp [of e2] by (auto simp: entry_read_def rt'_def split: TagRef.split option.split)
  qed
qed

lemma io_put_read:
  assumes "rt_ok rt" "te_ref e = REF_IO io" "length v = VALUE_SIZE" "write_io_value rt e v = (0, rt')"
  shows "entry_read rt' e = (0, io_value (te_type e) v)"
    and "entry_cells e2 \<inter> entry_cells e = {} \<Longrightarrow> entry_read rt' e2 = entry_read rt e2"
proof -
  obtain img where img: "tag_image rt io = Some img" "io_dir io = TAGDIR_OUT"
    "io_fits (te_type e) io (of_nat (length img))"
    "\<And>io2. tag_image rt' io2 =
        (if io_dir io2 \<noteq> TAGDIR_IN \<and> unat (io_backend_index io2) = unat (io_backend_index io)
            \<and> unat (io_device_index io2) = unat (io_device_index io)
         then Some (snd (poke_io (te_type e) io img (of_nat (length img)) v)) else tag_image rt io2)"
    "proc_store rt' = proc_store rt" "hmi_store rt' = hmi_store rt" "rt_uninit rt' = rt_uninit rt"
    by (rule write_io_value_ok [OF assms]) blast
  let ?p = "snd (poke_io (te_type e) io img (of_nat (length img)) v)"
  have sz: "unat (of_nat (length img) :: u32) = length img" by (rule tag_image_len [OF assms(1) img(1)])
  have len: "length ?p = length img" by (rule poke_io_length [OF sz assms(3)])
  have "length (io_value (te_type e) v) = tag_type_size (te_type e)"
    using img(3) assms(3) by (auto simp: io_defs VALUE_SIZE_def split: TagType.splits)
  then show "entry_read rt' e = (0, io_value (te_type e) v)"
    using peek_poke_io [OF img(3) sz assms(3), of "rt_uninit rt"] img(2,7) assms(2) len
    by (simp add: entry_read_def img(4) overwrite_def)
  have gp: "get_proc_value rt' x = get_proc_value rt x" "get_hmi_value rt' x = get_hmi_value rt x" for x
    by (auto simp: img(5,6) get_proc_value_def get_hmi_value_def split: TagRef.split)
  show "entry_read rt' e2 = entry_read rt e2" if d: "entry_cells e2 \<inter> entry_cells e = {}"
  proof (cases "te_ref e2")
    case (REF_IO io2)
    show ?thesis
    proof (cases "io_dir io2 \<noteq> TAGDIR_IN \<and> unat (io_backend_index io2) = unat (io_backend_index io)
            \<and> unat (io_device_index io2) = unat (io_device_index io)")
      case True
      then have "io_bits (te_type e) io \<inter> io_bits (te_type e2) io2 = {}"
        using d REF_IO assms(2) img(2) by (auto simp: entry_cells_def)
      moreover have "io_device_index io2 = io_device_index io" "io_backend_index io2 = io_backend_index io"
        using True by (simp_all add: word_unat_eq_iff)
      then have "tag_image rt io2 = Some img"
        using True img(1,2) by (auto simp: tag_image_def Let_def split: if_splits option.splits)
      ultimately show ?thesis
        using True REF_IO peek_poke_io_other [OF img(3) sz assms(3), of "te_type e2" io2] len
        by (simp add: entry_read_def img(4,7))
    next
      case False
      then have "tag_image rt' io2 = tag_image rt io2" by (auto simp: img(4))
      then show ?thesis using REF_IO by (simp add: entry_read_def img(7) split: option.split)
    qed
  qed (use gp [of e2] img(5,6) in \<open>auto simp: entry_read_def split: option.split\<close>)
qed

lemma tag_write_ok:
  assumes "rt_ok rt" "tag_write rt tid (Some buf) n = (0, rt')" "n \<le> length buf"
  obtains e where "resolve_entry rt tid True 0 = Some e" "tag_type_size (te_type e) \<noteq> 0"
    "tag_type_size (te_type e) \<le> n" "rt_ok rt'" "tag_table rt' = tag_table rt"
    "entry_read rt' e = (0, stored_bytes e buf)"
    "\<And>e2. entry_cells e2 \<inter> entry_cells e = {} \<Longrightarrow> entry_read rt' e2 = entry_read rt e2"
proof -
  obtain e where e: "resolve_entry rt tid True 0 = Some e"
    using assms(2) by (auto simp: tag_write_def split: option.splits)
  let ?n = "tag_type_size (te_type e)"
  let ?v = "overwrite (take ?n buf) (rt_uninit rt)"
  have n: "?n \<noteq> 0" "?n \<le> n"
    using assms(2) e by (auto simp: tag_write_def Let_def split: if_splits)
  have v: "length ?v = VALUE_SIZE"
    using n assms(1,3) tag_type_size_le [of "te_type e"]
    by (simp add: overwrite_def rt_ok_def runtime_wf_def)
  have take_v: "take ?n ?v = take ?n buf" using n assms(3) by (simp add: overwrite_def)
  have val: "io_value (te_type e) ?v = io_value (te_type e) (take ?n buf)"
    using n assms(3) take_v by (cases "te_type e") (auto simp: io_value_def overwrite_def nth_append
        tag_type_size_def)
  consider (proc) i where "get_proc_value rt e = Some i" "te_kind e = TAGK_PROC"
      "rt' = rt\<lparr>proc_store := store_put (proc_store rt) i ?v\<rparr>"
    | (hmi) i where "get_hmi_value rt e = Some i" "te_kind e = TAGK_HMI_VAR"
      "rt' = rt\<lparr>hmi_store := store_put (hmi_store rt) i ?v\<rparr>"
    | (io) io where "te_ref e = REF_IO io" "te_kind e = TAGK_IO" "write_io_value rt e ?v = (0, rt')"
    using assms(2) e n
    by (cases "te_ref e") (auto simp: tag_write_def te_kind_def Let_def split: option.splits if_splits)
  then show thesis
  proof cases
    case proc
    with e n v take_v show thesis
      by (intro that) (auto simp: rt_ok_store assms(1) proc_put_read stored_bytes_def)
  next
    case hmi
    with e n v take_v show thesis
      by (intro that) (auto simp: rt_ok_store assms(1) hmi_put_read stored_bytes_def)
  next
    case io
    note r = io_put_read [OF assms(1) io(1) v io(3)]
    have "rt_ok rt'" "tag_table rt' = tag_table rt"
      by (rule write_io_value_ok [OF assms(1) io(1) v io(3)]; assumption)+
    with e n r val io show thesis
      by (intro that) (auto simp: stored_bytes_def)
  qed
qed

lemma tag_write_fail:
  assumes "rt_ok rt" "tag_write rt tid inp n = (rc, rt')" "rc \<noteq> 0"
  shows "rt' = rt"
proof -
  have "write_io_value rt e v = (rc, rt') \<Longrightarrow> te_ref e = REF_IO io \<Longrightarrow> rt' = rt" for e v io
    using write_base_None [OF assms(1), of e io] write_base_Some [OF assms(1), of e io] assms(3)
    by (cases "tag_image rt io = None \<or> io_dir io \<noteq> TAGDIR_OUT")
       (auto simp: write_io_value_def Let_def split: option.splits prod.splits if_splits)
  then show ?thesis
    using assms(2,3)
    by (auto simp: tag_write_def Let_def te_kind_def split: option.splits if_splits TagRef.splits)
qed

end

end
