(* ===== verification/Device_L230.thy ===== *)
theory Device_L230
  imports Device_Desc
begin

text \<open>
  The L230 descriptor: the packed PDO structs of \<^verbatim>\<open>devices/l230/l230_desc.h\<close> as
  layouts, and the tag table and descriptor of \<^verbatim>\<open>devices/l230/l230_desc.c\<close>, row by row.
\<close>

definition L230_RX_PDO :: layout where
  "L230_RX_PDO = [
     (''L230_DO_Byte0'', 1), (''L230_DO_Byte1'', 1), (''X21_CPU_Pt1_Ctrl'', 4),
     (''X22_CPU_Pt2_Ctrl'', 4), (''X23_CPU_VC1_Ctrl'', 4)]"

definition L230_TX_PDO :: layout where
  "L230_TX_PDO = [
     (''L230_DI_Byte0'', 1), (''L230_DI_Byte1'', 1), (''X21_CPU_Pt1.Pt_Value'', 4),
     (''X21_CPU_Pt1.Pt_State'', 4), (''X22_CPU_Pt2.Pt_Value'', 4),
     (''X22_CPU_Pt2.Pt_State'', 4), (''X23_CPU_VC1.VC_Value'', 4),
     (''X23_CPU_VC1.VC_State'', 4), (''slaveinfo.ProductCode'', 4),
     (''slaveinfo.SerialNumber'', 4), (''slaveinfo.HW_Version'', 4),
     (''slaveinfo.FW_Version'', 4), (''slaveinfo.AliasAddress'', 2),
     (''L230Info.L230_SerialNumber'', 4), (''L230Info.L230_HW_Version'', 4),
     (''L230Info.L230_FW_Version'', 4), (''L230Info.L230_State'', 4)]"

definition L230_TAGS :: "TagDesc list" where
  "L230_TAGS = [
     tag_row ''X30_2_In0'' TAGDIR_IN TAG_T_BOOL (offsetof L230_TX_PDO ''L230_DI_Byte0'') 0,
     tag_row ''X30_4_In1'' TAGDIR_IN TAG_T_BOOL (offsetof L230_TX_PDO ''L230_DI_Byte0'') 1,
     tag_row ''X30_6_In2'' TAGDIR_IN TAG_T_BOOL (offsetof L230_TX_PDO ''L230_DI_Byte0'') 2,
     tag_row ''X30_8_In3'' TAGDIR_IN TAG_T_BOOL (offsetof L230_TX_PDO ''L230_DI_Byte0'') 3,
     tag_row ''X30_11_In4'' TAGDIR_IN TAG_T_BOOL (offsetof L230_TX_PDO ''L230_DI_Byte0'') 4,
     tag_row ''X30_13_In5'' TAGDIR_IN TAG_T_BOOL (offsetof L230_TX_PDO ''L230_DI_Byte0'') 5,
     tag_row ''X30_19_In6'' TAGDIR_IN TAG_T_BOOL (offsetof L230_TX_PDO ''L230_DI_Byte0'') 6,
     tag_row ''X30_21_In7'' TAGDIR_IN TAG_T_BOOL (offsetof L230_TX_PDO ''L230_DI_Byte0'') 7,
     tag_row ''X55_In0'' TAGDIR_IN TAG_T_BOOL (offsetof L230_TX_PDO ''L230_DI_Byte1'') 0,
     tag_row ''X21_CPU_Pt1.Pt_Value'' TAGDIR_IN TAG_T_REAL (offsetof L230_TX_PDO ''X21_CPU_Pt1.Pt_Value'') 0,
     tag_row ''X21_CPU_Pt1.Pt_State'' TAGDIR_IN TAG_T_U32 (offsetof L230_TX_PDO ''X21_CPU_Pt1.Pt_State'') 0,
     tag_row ''X22_CPU_Pt2.Pt_Value'' TAGDIR_IN TAG_T_REAL (offsetof L230_TX_PDO ''X22_CPU_Pt2.Pt_Value'') 0,
     tag_row ''X22_CPU_Pt2.Pt_State'' TAGDIR_IN TAG_T_U32 (offsetof L230_TX_PDO ''X22_CPU_Pt2.Pt_State'') 0,
     tag_row ''X23_CPU_VC1.VC_Value'' TAGDIR_IN TAG_T_REAL (offsetof L230_TX_PDO ''X23_CPU_VC1.VC_Value'') 0,
     tag_row ''X23_CPU_VC1.VC_State'' TAGDIR_IN TAG_T_U32 (offsetof L230_TX_PDO ''X23_CPU_VC1.VC_State'') 0,
     tag_row ''X15_Out0'' TAGDIR_OUT TAG_T_BOOL (offsetof L230_RX_PDO ''L230_DO_Byte0'') 0,
     tag_row ''X12_Out1'' TAGDIR_OUT TAG_T_BOOL (offsetof L230_RX_PDO ''L230_DO_Byte0'') 1,
     tag_row ''X13_Out2'' TAGDIR_OUT TAG_T_BOOL (offsetof L230_RX_PDO ''L230_DO_Byte0'') 2,
     tag_row ''X3_Out3'' TAGDIR_OUT TAG_T_BOOL (offsetof L230_RX_PDO ''L230_DO_Byte0'') 3,
     tag_row ''X4_Out4'' TAGDIR_OUT TAG_T_BOOL (offsetof L230_RX_PDO ''L230_DO_Byte0'') 4,
     tag_row ''X14_Out5'' TAGDIR_OUT TAG_T_BOOL (offsetof L230_RX_PDO ''L230_DO_Byte0'') 5,
     tag_row ''X1_Out6'' TAGDIR_OUT TAG_T_BOOL (offsetof L230_RX_PDO ''L230_DO_Byte0'') 6,
     tag_row ''X11_Out0'' TAGDIR_OUT TAG_T_BOOL (offsetof L230_RX_PDO ''L230_DO_Byte1'') 0,
     tag_row ''X10_Out1'' TAGDIR_OUT TAG_T_BOOL (offsetof L230_RX_PDO ''L230_DO_Byte1'') 1,
     tag_row ''X5_Out2'' TAGDIR_OUT TAG_T_BOOL (offsetof L230_RX_PDO ''L230_DO_Byte1'') 2,
     tag_row ''X6_Out3'' TAGDIR_OUT TAG_T_BOOL (offsetof L230_RX_PDO ''L230_DO_Byte1'') 3,
     tag_row ''X7_Out4'' TAGDIR_OUT TAG_T_BOOL (offsetof L230_RX_PDO ''L230_DO_Byte1'') 4,
     tag_row ''X8_Out5'' TAGDIR_OUT TAG_T_BOOL (offsetof L230_RX_PDO ''L230_DO_Byte1'') 5,
     tag_row ''X9_Out6'' TAGDIR_OUT TAG_T_BOOL (offsetof L230_RX_PDO ''L230_DO_Byte1'') 6,
     tag_row ''X8a_Out7'' TAGDIR_OUT TAG_T_BOOL (offsetof L230_RX_PDO ''L230_DO_Byte1'') 7,
     tag_row ''X21_CPU_Pt1_Ctrl'' TAGDIR_OUT TAG_T_U32 (offsetof L230_RX_PDO ''X21_CPU_Pt1_Ctrl'') 0,
     tag_row ''X22_CPU_Pt2_Ctrl'' TAGDIR_OUT TAG_T_U32 (offsetof L230_RX_PDO ''X22_CPU_Pt2_Ctrl'') 0,
     tag_row ''X23_CPU_VC1_Ctrl'' TAGDIR_OUT TAG_T_U32 (offsetof L230_RX_PDO ''X23_CPU_VC1_Ctrl'') 0,
     tag_row ''AliasAddress'' TAGDIR_IN TAG_T_U16 (offsetof L230_TX_PDO ''slaveinfo.AliasAddress'') 0]"

definition DEVICE_DESC_L230 :: DeviceDesc where
  "DEVICE_DESC_L230 = \<lparr>model = Some ''L230 DAIO Micro'', vendor_id = 0x47535953,
     product_code = 0x3213335, rx_bytes = sizeof_layout L230_RX_PDO,
     tx_bytes = sizeof_layout L230_TX_PDO, tags = Some L230_TAGS,
     tag_count = of_nat (length L230_TAGS),
     hooks = \<lparr>on_init = Some config_hook_EL230, on_update = None, on_shutdown = None\<rparr>\<rparr>"

definition l230_get_model_identifier :: "string option" where
  "l230_get_model_identifier = model DEVICE_DESC_L230"

end
