(* ===== verification/Device_L400.thy ===== *)
theory Device_L400
  imports Device_Desc
begin

text \<open>
  The L400 descriptor: the packed PDO structs of \<^verbatim>\<open>devices/l400/l400_desc.h\<close> as
  layouts, and the tag table and descriptor of \<^verbatim>\<open>devices/l400/l400_desc.c\<close>, row by row.
\<close>

definition L400_RX_PDO :: layout where
  "L400_RX_PDO = [
     (''L400_DO_Byte0'', 1), (''L400_DO_Byte1'', 1), (''L400_DO_Byte2'', 1),
     (''L400_DO_Byte3'', 1), (''X3_Out0_Out7'', 1), (''X21_CPU_Pt1_Ctrl'', 4),
     (''X22_CPU_Pt2_Ctrl'', 4), (''X23_CPU_VC1_Ctrl'', 4), (''X31_DAIO_Pt1_Ctrl'', 4),
     (''X32_DAIO_Pt2_Ctrl'', 4), (''X33_DAIO_Pt3_Ctrl'', 4), (''X34_DAIO_Pt4_Ctrl'', 4),
     (''X35_DAIO_Pt5_Ctrl'', 4), (''X36_DAIO_Pt6_Ctrl'', 4), (''X37_DAIO_Pt7_Ctrl'', 4),
     (''X38_DAIO_Pt8_Ctrl'', 4), (''X41_1_DAIO_VC1_Ctrl'', 4),
     (''X41_3_DAIO_VC2_Ctrl'', 4), (''X40_1_DAIO_VC3_Ctrl'', 4),
     (''X40_3_DAIO_VC4_Ctrl'', 4), (''X40_5_DAIO_VC5_Ctrl'', 4),
     (''X40_7_DAIO_VC6_Ctrl'', 4), (''X42_1_DAIO_AC1_Ctrl'', 4),
     (''X42_3_DAIO_AC2_Ctrl'', 4), (''X5_1_DAIO_Aout1_Value'', 4),
     (''X5_3_DAIO_Aout2_Value'', 4), (''X5_5_DAIO_Aout3_Value'', 4),
     (''X5_7_DAIO_Aout4_Value'', 4), (''X6_1_DAIO_Aout5_Value'', 4),
     (''X6_3_DAIO_Aout6_Value'', 4)]"

definition L400_TX_PDO :: layout where
  "L400_TX_PDO = [
     (''L400_DI_Byte0'', 1), (''L400_DI_Byte1'', 1), (''L400_DI_Byte2'', 1),
     (''X1_In0_In7'', 1), (''X21_CPU_Pt1.Pt_Value'', 4), (''X21_CPU_Pt1.Pt_State'', 4),
     (''X22_CPU_Pt2.Pt_Value'', 4), (''X22_CPU_Pt2.Pt_State'', 4),
     (''X23_CPU_VC1.VC_Value'', 4), (''X23_CPU_VC1.VC_State'', 4),
     (''X31_DAIO_Pt1.Pt_Value'', 4), (''X31_DAIO_Pt1.Pt_State'', 4),
     (''X32_DAIO_Pt2.Pt_Value'', 4), (''X32_DAIO_Pt2.Pt_State'', 4),
     (''X33_DAIO_Pt3.Pt_Value'', 4), (''X33_DAIO_Pt3.Pt_State'', 4),
     (''X34_DAIO_Pt4.Pt_Value'', 4), (''X34_DAIO_Pt4.Pt_State'', 4),
     (''X35_DAIO_Pt5.Pt_Value'', 4), (''X35_DAIO_Pt5.Pt_State'', 4),
     (''X36_DAIO_Pt6.Pt_Value'', 4), (''X36_DAIO_Pt6.Pt_State'', 4),
     (''X37_DAIO_Pt7.Pt_Value'', 4), (''X37_DAIO_Pt7.Pt_State'', 4),
     (''X38_DAIO_Pt8.Pt_Value'', 4), (''X38_DAIO_Pt8.Pt_State'', 4),
     (''X41_1_DAIO_VC1.VC_Value'', 4), (''X41_1_DAIO_VC1.VC_State'', 4),
     (''X41_3_DAIO_VC2.VC_Value'', 4), (''X41_3_DAIO_VC2.VC_State'', 4),
     (''X40_1_DAIO_VC3.VC_Value'', 4), (''X40_1_DAIO_VC3.VC_State'', 4),
     (''X40_3_DAIO_VC4.VC_Value'', 4), (''X40_3_DAIO_VC4.VC_State'', 4),
     (''X40_5_DAIO_VC5.VC_Value'', 4), (''X40_5_DAIO_VC5.VC_State'', 4),
     (''X40_7_DAIO_VC6.VC_Value'', 4), (''X40_7_DAIO_VC6.VC_State'', 4),
     (''X42_1_DAIO_AC1.VC_Value'', 4), (''X42_1_DAIO_AC1.VC_State'', 4),
     (''X42_3_DAIO_AC2.VC_Value'', 4), (''X42_3_DAIO_AC2.VC_State'', 4),
     (''L400_X1_Drehfeld'', 4), (''slaveinfo.ProductCode'', 4),
     (''slaveinfo.SerialNumber'', 4), (''slaveinfo.HW_Version'', 4),
     (''slaveinfo.FW_Version'', 4), (''slaveinfo.AliasAddress'', 2),
     (''L400Info.L400_SerialNumber'', 4), (''L400Info.L400_HW_Version'', 4),
     (''L400Info.L400_FW_Version'', 4), (''L400Info.L400_State'', 4)]"

definition L400_TAGS_IN :: "TagDesc list" where
  "L400_TAGS_IN = [
     tag_row ''X31_In0'' TAGDIR_IN TAG_T_BOOL (offsetof L400_TX_PDO ''L400_DI_Byte0'') 0,
     tag_row ''X32_In1'' TAGDIR_IN TAG_T_BOOL (offsetof L400_TX_PDO ''L400_DI_Byte0'') 1,
     tag_row ''X33_In2'' TAGDIR_IN TAG_T_BOOL (offsetof L400_TX_PDO ''L400_DI_Byte0'') 2,
     tag_row ''X34_In3'' TAGDIR_IN TAG_T_BOOL (offsetof L400_TX_PDO ''L400_DI_Byte0'') 3,
     tag_row ''X75_1_In4'' TAGDIR_IN TAG_T_BOOL (offsetof L400_TX_PDO ''L400_DI_Byte0'') 4,
     tag_row ''X75_3_In5'' TAGDIR_IN TAG_T_BOOL (offsetof L400_TX_PDO ''L400_DI_Byte0'') 5,
     tag_row ''X75_5_In6'' TAGDIR_IN TAG_T_BOOL (offsetof L400_TX_PDO ''L400_DI_Byte0'') 6,
     tag_row ''X75_7_In7'' TAGDIR_IN TAG_T_BOOL (offsetof L400_TX_PDO ''L400_DI_Byte0'') 7,
     tag_row ''X39_In0'' TAGDIR_IN TAG_T_BOOL (offsetof L400_TX_PDO ''L400_DI_Byte1'') 0,
     tag_row ''X42_In1'' TAGDIR_IN TAG_T_BOOL (offsetof L400_TX_PDO ''L400_DI_Byte1'') 1,
     tag_row ''X41_In2'' TAGDIR_IN TAG_T_BOOL (offsetof L400_TX_PDO ''L400_DI_Byte1'') 2,
     tag_row ''X44_In3'' TAGDIR_IN TAG_T_BOOL (offsetof L400_TX_PDO ''L400_DI_Byte1'') 3,
     tag_row ''X38_In4'' TAGDIR_IN TAG_T_BOOL (offsetof L400_TX_PDO ''L400_DI_Byte1'') 4,
     tag_row ''X37_In5'' TAGDIR_IN TAG_T_BOOL (offsetof L400_TX_PDO ''L400_DI_Byte1'') 5,
     tag_row ''X36_In6'' TAGDIR_IN TAG_T_BOOL (offsetof L400_TX_PDO ''L400_DI_Byte1'') 6,
     tag_row ''X35_In7'' TAGDIR_IN TAG_T_BOOL (offsetof L400_TX_PDO ''L400_DI_Byte1'') 7,
     tag_row ''X55_In0'' TAGDIR_IN TAG_T_BOOL (offsetof L400_TX_PDO ''L400_DI_Byte2'') 0,
     tag_row ''X1_In0'' TAGDIR_IN TAG_T_BOOL (offsetof L400_TX_PDO ''X1_In0_In7'') 0,
     tag_row ''X1_In1'' TAGDIR_IN TAG_T_BOOL (offsetof L400_TX_PDO ''X1_In0_In7'') 1,
     tag_row ''X1_In2'' TAGDIR_IN TAG_T_BOOL (offsetof L400_TX_PDO ''X1_In0_In7'') 2,
     tag_row ''X1_In3'' TAGDIR_IN TAG_T_BOOL (offsetof L400_TX_PDO ''X1_In0_In7'') 3,
     tag_row ''X1_In4'' TAGDIR_IN TAG_T_BOOL (offsetof L400_TX_PDO ''X1_In0_In7'') 4,
     tag_row ''X1_In5'' TAGDIR_IN TAG_T_BOOL (offsetof L400_TX_PDO ''X1_In0_In7'') 5,
     tag_row ''X1_In6'' TAGDIR_IN TAG_T_BOOL (offsetof L400_TX_PDO ''X1_In0_In7'') 6,
     tag_row ''X1_In7'' TAGDIR_IN TAG_T_BOOL (offsetof L400_TX_PDO ''X1_In0_In7'') 7,
     tag_row ''X21_CPU_Pt1.Pt_Value'' TAGDIR_IN TAG_T_REAL (offsetof L400_TX_PDO ''X21_CPU_Pt1.Pt_Value'') 0,
     tag_row ''X21_CPU_Pt1.Pt_State'' TAGDIR_IN TAG_T_U32 (offsetof L400_TX_PDO ''X21_CPU_Pt1.Pt_State'') 0,
     tag_row ''X22_CPU_Pt2.Pt_Value'' TAGDIR_IN TAG_T_REAL (offsetof L400_TX_PDO ''X22_CPU_Pt2.Pt_Value'') 0,
     tag_row ''X22_CPU_Pt2.Pt_State'' TAGDIR_IN TAG_T_U32 (offsetof L400_TX_PDO ''X22_CPU_Pt2.Pt_State'') 0,
     tag_row ''X23_CPU_VC1.VC_Value'' TAGDIR_IN TAG_T_REAL (offsetof L400_TX_PDO ''X23_CPU_VC1.VC_Value'') 0,
     tag_row ''X23_CPU_VC1.VC_State'' TAGDIR_IN TAG_T_U32 (offsetof L400_TX_PDO ''X23_CPU_VC1.VC_State'') 0,
     tag_row ''X31_DAIO_Pt1.Pt_Value'' TAGDIR_IN TAG_T_REAL (offsetof L400_TX_PDO ''X31_DAIO_Pt1.Pt_Value'') 0,
     tag_row ''X31_DAIO_Pt1.Pt_State'' TAGDIR_IN TAG_T_U32 (offsetof L400_TX_PDO ''X31_DAIO_Pt1.Pt_State'') 0,
     tag_row ''X32_DAIO_Pt2.Pt_Value'' TAGDIR_IN TAG_T_REAL (offsetof L400_TX_PDO ''X32_DAIO_Pt2.Pt_Value'') 0,
     tag_row ''X32_DAIO_Pt2.Pt_State'' TAGDIR_IN TAG_T_U32 (offsetof L400_TX_PDO ''X32_DAIO_Pt2.Pt_State'') 0,
     tag_row ''X33_DAIO_Pt3.Pt_Value'' TAGDIR_IN TAG_T_REAL (offsetof L400_TX_PDO ''X33_DAIO_Pt3.Pt_Value'') 0,
     tag_row ''X33_DAIO_Pt3.Pt_State'' TAGDIR_IN TAG_T_U32 (offsetof L400_TX_PDO ''X33_DAIO_Pt3.Pt_State'') 0,
     tag_row ''X34_DAIO_Pt4.Pt_Value'' TAGDIR_IN TAG_T_REAL (offsetof L400_TX_PDO ''X34_DAIO_Pt4.Pt_Value'') 0,
     tag_row ''X34_DAIO_Pt4.Pt_State'' TAGDIR_IN TAG_T_U32 (offsetof L400_TX_PDO ''X34_DAIO_Pt4.Pt_State'') 0,
     tag_row ''X35_DAIO_Pt5.Pt_Value'' TAGDIR_IN TAG_T_REAL (offsetof L400_TX_PDO ''X35_DAIO_Pt5.Pt_Value'') 0,
     tag_row ''X35_DAIO_Pt5.Pt_State'' TAGDIR_IN TAG_T_U32 (offsetof L400_TX_PDO ''X35_DAIO_Pt5.Pt_State'') 0,
     tag_row ''X36_DAIO_Pt6.Pt_Value'' TAGDIR_IN TAG_T_REAL (offsetof L400_TX_PDO ''X36_DAIO_Pt6.Pt_Value'') 0,
     tag_row ''X36_DAIO_Pt6.Pt_State'' TAGDIR_IN TAG_T_U32 (offsetof L400_TX_PDO ''X36_DAIO_Pt6.Pt_State'') 0,
     tag_row ''X37_DAIO_Pt7.Pt_Value'' TAGDIR_IN TAG_T_REAL (offsetof L400_TX_PDO ''X37_DAIO_Pt7.Pt_Value'') 0,
     tag_row ''X37_DAIO_Pt7.Pt_State'' TAGDIR_IN TAG_T_U32 (offsetof L400_TX_PDO ''X37_DAIO_Pt7.Pt_State'') 0,
     tag_row ''X38_DAIO_Pt8.Pt_Value'' TAGDIR_IN TAG_T_REAL (offsetof L400_TX_PDO ''X38_DAIO_Pt8.Pt_Value'') 0,
     tag_row ''X38_DAIO_Pt8.Pt_State'' TAGDIR_IN TAG_T_U32 (offsetof L400_TX_PDO ''X38_DAIO_Pt8.Pt_State'') 0,
     tag_row ''X41_1_DAIO_VC1.VC_Value'' TAGDIR_IN TAG_T_REAL (offsetof L400_TX_PDO ''X41_1_DAIO_VC1.VC_Value'') 0,
     tag_row ''X41_1_DAIO_VC1.VC_State'' TAGDIR_IN TAG_T_U32 (offsetof L400_TX_PDO ''X41_1_DAIO_VC1.VC_State'') 0,
     tag_row ''X41_3_DAIO_VC2.VC_Value'' TAGDIR_IN TAG_T_REAL (offsetof L400_TX_PDO ''X41_3_DAIO_VC2.VC_Value'') 0,
     tag_row ''X41_3_DAIO_VC2.VC_State'' TAGDIR_IN TAG_T_U32 (offsetof L400_TX_PDO ''X41_3_DAIO_VC2.VC_State'') 0,
     tag_row ''X40_1_DAIO_VC3.VC_Value'' TAGDIR_IN TAG_T_REAL (offsetof L400_TX_PDO ''X40_1_DAIO_VC3.VC_Value'') 0,
     tag_row ''X40_1_DAIO_VC3.VC_State'' TAGDIR_IN TAG_T_U32 (offsetof L400_TX_PDO ''X40_1_DAIO_VC3.VC_State'') 0,
     tag_row ''X40_3_DAIO_VC4.VC_Value'' TAGDIR_IN TAG_T_REAL (offsetof L400_TX_PDO ''X40_3_DAIO_VC4.VC_Value'') 0,
     tag_row ''X40_3_DAIO_VC4.VC_State'' TAGDIR_IN TAG_T_U32 (offsetof L400_TX_PDO ''X40_3_DAIO_VC4.VC_State'') 0,
     tag_row ''X40_5_DAIO_VC5.VC_Value'' TAGDIR_IN TAG_T_REAL (offsetof L400_TX_PDO ''X40_5_DAIO_VC5.VC_Value'') 0,
     tag_row ''X40_5_DAIO_VC5.VC_State'' TAGDIR_IN TAG_T_U32 (offsetof L400_TX_PDO ''X40_5_DAIO_VC5.VC_State'') 0,
     tag_row ''X40_7_DAIO_VC6.VC_Value'' TAGDIR_IN TAG_T_REAL (offsetof L400_TX_PDO ''X40_7_DAIO_VC6.VC_Value'') 0,
     tag_row ''X40_7_DAIO_VC6.VC_State'' TAGDIR_IN TAG_T_U32 (offsetof L400_TX_PDO ''X40_7_DAIO_VC6.VC_State'') 0,
     tag_row ''X42_1_DAIO_AC1.VC_Value'' TAGDIR_IN TAG_T_REAL (offsetof L400_TX_PDO ''X42_1_DAIO_AC1.VC_Value'') 0,
     tag_row ''X42_1_DAIO_AC1.VC_State'' TAGDIR_IN TAG_T_U32 (offsetof L400_TX_PDO ''X42_1_DAIO_AC1.VC_State'') 0,
     tag_row ''X42_3_DAIO_AC2.VC_Value'' TAGDIR_IN TAG_T_REAL (offsetof L400_TX_PDO ''X42_3_DAIO_AC2.VC_Value'') 0,
     tag_row ''X42_3_DAIO_AC2.VC_State'' TAGDIR_IN TAG_T_U32 (offsetof L400_TX_PDO ''X42_3_DAIO_AC2.VC_State'') 0,
     tag_row ''L400_X1_Drehfeld'' TAGDIR_IN TAG_T_U32 (offsetof L400_TX_PDO ''L400_X1_Drehfeld'') 0,
     tag_row ''slaveinfo.ProductCode'' TAGDIR_IN TAG_T_U32 (offsetof L400_TX_PDO ''slaveinfo.ProductCode'') 0,
     tag_row ''slaveinfo.SerialNumber'' TAGDIR_IN TAG_T_U32 (offsetof L400_TX_PDO ''slaveinfo.SerialNumber'') 0,
     tag_row ''slaveinfo.HW_Version'' TAGDIR_IN TAG_T_U32 (offsetof L400_TX_PDO ''slaveinfo.HW_Version'') 0,
     tag_row ''slaveinfo.FW_Version'' TAGDIR_IN TAG_T_U32 (offsetof L400_TX_PDO ''slaveinfo.FW_Version'') 0,
     tag_row ''slaveinfo.AliasAddress'' TAGDIR_IN TAG_T_U16 (offsetof L400_TX_PDO ''slaveinfo.AliasAddress'') 0,
     tag_row ''L400Info.L400_SerialNumber'' TAGDIR_IN TAG_T_U32 (offsetof L400_TX_PDO ''L400Info.L400_SerialNumber'') 0,
     tag_row ''L400Info.L400_HW_Version'' TAGDIR_IN TAG_T_U32 (offsetof L400_TX_PDO ''L400Info.L400_HW_Version'') 0,
     tag_row ''L400Info.L400_FW_Version'' TAGDIR_IN TAG_T_U32 (offsetof L400_TX_PDO ''L400Info.L400_FW_Version'') 0,
     tag_row ''L400Info.L400_State'' TAGDIR_IN TAG_T_U32 (offsetof L400_TX_PDO ''L400Info.L400_State'') 0]"

definition L400_TAGS_OUT :: "TagDesc list" where
  "L400_TAGS_OUT = [
     tag_row ''X14_Out0'' TAGDIR_OUT TAG_T_BOOL (offsetof L400_RX_PDO ''L400_DO_Byte0'') 0,
     tag_row ''X15_Out1'' TAGDIR_OUT TAG_T_BOOL (offsetof L400_RX_PDO ''L400_DO_Byte0'') 1,
     tag_row ''X16A_Out2'' TAGDIR_OUT TAG_T_BOOL (offsetof L400_RX_PDO ''L400_DO_Byte0'') 2,
     tag_row ''X17_Out3'' TAGDIR_OUT TAG_T_BOOL (offsetof L400_RX_PDO ''L400_DO_Byte0'') 3,
     tag_row ''X18_Out4'' TAGDIR_OUT TAG_T_BOOL (offsetof L400_RX_PDO ''L400_DO_Byte0'') 4,
     tag_row ''X19_Out5'' TAGDIR_OUT TAG_T_BOOL (offsetof L400_RX_PDO ''L400_DO_Byte0'') 5,
     tag_row ''X20_Out6'' TAGDIR_OUT TAG_T_BOOL (offsetof L400_RX_PDO ''L400_DO_Byte0'') 6,
     tag_row ''X21_Out7'' TAGDIR_OUT TAG_T_BOOL (offsetof L400_RX_PDO ''L400_DO_Byte0'') 7,
     tag_row ''X49_Out0'' TAGDIR_OUT TAG_T_BOOL (offsetof L400_RX_PDO ''L400_DO_Byte1'') 0,
     tag_row ''X48_Out1'' TAGDIR_OUT TAG_T_BOOL (offsetof L400_RX_PDO ''L400_DO_Byte1'') 1,
     tag_row ''X8_Out2'' TAGDIR_OUT TAG_T_BOOL (offsetof L400_RX_PDO ''L400_DO_Byte1'') 2,
     tag_row ''X9_Out3'' TAGDIR_OUT TAG_T_BOOL (offsetof L400_RX_PDO ''L400_DO_Byte1'') 3,
     tag_row ''X10_Out4'' TAGDIR_OUT TAG_T_BOOL (offsetof L400_RX_PDO ''L400_DO_Byte1'') 4,
     tag_row ''X11_Out5'' TAGDIR_OUT TAG_T_BOOL (offsetof L400_RX_PDO ''L400_DO_Byte1'') 5,
     tag_row ''X12_Out6'' TAGDIR_OUT TAG_T_BOOL (offsetof L400_RX_PDO ''L400_DO_Byte1'') 6,
     tag_row ''X13_Out7'' TAGDIR_OUT TAG_T_BOOL (offsetof L400_RX_PDO ''L400_DO_Byte1'') 7,
     tag_row ''X22_Out0'' TAGDIR_OUT TAG_T_BOOL (offsetof L400_RX_PDO ''L400_DO_Byte2'') 0,
     tag_row ''X24_Out1'' TAGDIR_OUT TAG_T_BOOL (offsetof L400_RX_PDO ''L400_DO_Byte2'') 1,
     tag_row ''X23_Out2'' TAGDIR_OUT TAG_T_BOOL (offsetof L400_RX_PDO ''L400_DO_Byte2'') 2,
     tag_row ''X46_Out3'' TAGDIR_OUT TAG_T_BOOL (offsetof L400_RX_PDO ''L400_DO_Byte2'') 3,
     tag_row ''X53_Out4'' TAGDIR_OUT TAG_T_BOOL (offsetof L400_RX_PDO ''L400_DO_Byte2'') 4,
     tag_row ''X54_Out5'' TAGDIR_OUT TAG_T_BOOL (offsetof L400_RX_PDO ''L400_DO_Byte2'') 5,
     tag_row ''X16B_Out6'' TAGDIR_OUT TAG_T_BOOL (offsetof L400_RX_PDO ''L400_DO_Byte2'') 6,
     tag_row ''X76_1_Out0'' TAGDIR_OUT TAG_T_BOOL (offsetof L400_RX_PDO ''L400_DO_Byte3'') 0,
     tag_row ''X76_3_Out1'' TAGDIR_OUT TAG_T_BOOL (offsetof L400_RX_PDO ''L400_DO_Byte3'') 1,
     tag_row ''X76_5_Out2'' TAGDIR_OUT TAG_T_BOOL (offsetof L400_RX_PDO ''L400_DO_Byte3'') 2,
     tag_row ''X76_7_Out3'' TAGDIR_OUT TAG_T_BOOL (offsetof L400_RX_PDO ''L400_DO_Byte3'') 3,
     tag_row ''X3_Out0'' TAGDIR_OUT TAG_T_BOOL (offsetof L400_RX_PDO ''X3_Out0_Out7'') 0,
     tag_row ''X3_Out1'' TAGDIR_OUT TAG_T_BOOL (offsetof L400_RX_PDO ''X3_Out0_Out7'') 1,
     tag_row ''X3_Out2'' TAGDIR_OUT TAG_T_BOOL (offsetof L400_RX_PDO ''X3_Out0_Out7'') 2,
     tag_row ''X3_Out3'' TAGDIR_OUT TAG_T_BOOL (offsetof L400_RX_PDO ''X3_Out0_Out7'') 3,
     tag_row ''X3_Out4'' TAGDIR_OUT TAG_T_BOOL (offsetof L400_RX_PDO ''X3_Out0_Out7'') 4,
     tag_row ''X3_Out5'' TAGDIR_OUT TAG_T_BOOL (offsetof L400_RX_PDO ''X3_Out0_Out7'') 5,
     tag_row ''X3_Out6'' TAGDIR_OUT TAG_T_BOOL (offsetof L400_RX_PDO ''X3_Out0_Out7'') 6,
     tag_row ''X3_Out7'' TAGDIR_OUT TAG_T_BOOL (offsetof L400_RX_PDO ''X3_Out0_Out7'') 7,
     tag_row ''X21_CPU_Pt1_Ctrl'' TAGDIR_OUT TAG_T_U32 (offsetof L400_RX_PDO ''X21_CPU_Pt1_Ctrl'') 0,
     tag_row ''X22_CPU_Pt2_Ctrl'' TAGDIR_OUT TAG_T_U32 (offsetof L400_RX_PDO ''X22_CPU_Pt2_Ctrl'') 0,
     tag_row ''X23_CPU_VC1_Ctrl'' TAGDIR_OUT TAG_T_U32 (offsetof L400_RX_PDO ''X23_CPU_VC1_Ctrl'') 0,
     tag_row ''X31_DAIO_Pt1_Ctrl'' TAGDIR_OUT TAG_T_U32 (offsetof L400_RX_PDO ''X31_DAIO_Pt1_Ctrl'') 0,
     tag_row ''X32_DAIO_Pt2_Ctrl'' TAGDIR_OUT TAG_T_U32 (offsetof L400_RX_PDO ''X32_DAIO_Pt2_Ctrl'') 0,
     tag_row ''X33_DAIO_Pt3_Ctrl'' TAGDIR_OUT TAG_T_U32 (offsetof L400_RX_PDO ''X33_DAIO_Pt3_Ctrl'') 0,
     tag_row ''X34_DAIO_Pt4_Ctrl'' TAGDIR_OUT TAG_T_U32 (offsetof L400_RX_PDO ''X34_DAIO_Pt4_Ctrl'') 0,
     tag_row ''X35_DAIO_Pt5_Ctrl'' TAGDIR_OUT TAG_T_U32 (offsetof L400_RX_PDO ''X35_DAIO_Pt5_Ctrl'') 0,
     tag_row ''X36_DAIO_Pt6_Ctrl'' TAGDIR_OUT TAG_T_U32 (offsetof L400_RX_PDO ''X36_DAIO_Pt6_Ctrl'') 0,
     tag_row ''X37_DAIO_Pt7_Ctrl'' TAGDIR_OUT TAG_T_U32 (offsetof L400_RX_PDO ''X37_DAIO_Pt7_Ctrl'') 0,
     tag_row ''X38_DAIO_Pt8_Ctrl'' TAGDIR_OUT TAG_T_U32 (offsetof L400_RX_PDO ''X38_DAIO_Pt8_Ctrl'') 0,
     tag_row ''X41_1_DAIO_VC1_Ctrl'' TAGDIR_OUT TAG_T_U32 (offsetof L400_RX_PDO ''X41_1_DAIO_VC1_Ctrl'') 0,
     tag_row ''X41_3_DAIO_VC2_Ctrl'' TAGDIR_OUT TAG_T_U32 (offsetof L400_RX_PDO ''X41_3_DAIO_VC2_Ctrl'') 0,
     tag_row ''X40_1_DAIO_VC3_Ctrl'' TAGDIR_OUT TAG_T_U32 (offsetof L400_RX_PDO ''X40_1_DAIO_VC3_Ctrl'') 0,
     tag_row ''X40_3_DAIO_VC4_Ctrl'' TAGDIR_OUT TAG_T_U32 (offsetof L400_RX_PDO ''X40_3_DAIO_VC4_Ctrl'') 0,
     tag_row ''X40_5_DAIO_VC5_Ctrl'' TAGDIR_OUT TAG_T_U32 (offsetof L400_RX_PDO ''X40_5_DAIO_VC5_Ctrl'') 0,
     tag_row ''X40_7_DAIO_VC6_Ctrl'' TAGDIR_OUT TAG_T_U32 (offsetof L400_RX_PDO ''X40_7_DAIO_VC6_Ctrl'') 0,
     tag_row ''X42_1_DAIO_AC1_Ctrl'' TAGDIR_OUT TAG_T_U32 (offsetof L400_RX_PDO ''X42_1_DAIO_AC1_Ctrl'') 0,
     tag_row ''X42_3_DAIO_AC2_Ctrl'' TAGDIR_OUT TAG_T_U32 (offsetof L400_RX_PDO ''X42_3_DAIO_AC2_Ctrl'') 0,
     tag_row ''X5_1_DAIO_Aout1_Value'' TAGDIR_OUT TAG_T_U32 (offsetof L400_RX_PDO ''X5_1_DAIO_Aout1_Value'') 0,
     tag_row ''X5_3_DAIO_Aout2_Value'' TAGDIR_OUT TAG_T_U32 (offsetof L400_RX_PDO ''X5_3_DAIO_Aout2_Value'') 0,
     tag_row ''X5_5_DAIO_Aout3_Value'' TAGDIR_OUT TAG_T_U32 (offsetof L400_RX_PDO ''X5_5_DAIO_Aout3_Value'') 0,
     tag_row ''X5_7_DAIO_Aout4_Value'' TAGDIR_OUT TAG_T_U32 (offsetof L400_RX_PDO ''X5_7_DAIO_Aout4_Value'') 0,
     tag_row ''X6_1_DAIO_Aout5_Value'' TAGDIR_OUT TAG_T_U32 (offsetof L400_RX_PDO ''X6_1_DAIO_Aout5_Value'') 0,
     tag_row ''X6_3_DAIO_Aout6_Value'' TAGDIR_OUT TAG_T_U32 (offsetof L400_RX_PDO ''X6_3_DAIO_Aout6_Value'') 0]"

definition L400_TAGS :: "TagDesc list" where
  "L400_TAGS = L400_TAGS_IN @ L400_TAGS_OUT"

definition DEVICE_DESC_L400 :: DeviceDesc where
  "DEVICE_DESC_L400 = \<lparr>model = Some ''L400 DAIO MAXI'', vendor_id = 0x47535953,
     product_code = 0x3213329, rx_bytes = sizeof_layout L400_RX_PDO,
     tx_bytes = sizeof_layout L400_TX_PDO, tags = Some L400_TAGS,
     tag_count = of_nat (length L400_TAGS),
     hooks = \<lparr>on_init = Some config_hook_EL400, on_update = None, on_shutdown = None\<rparr>\<rparr>"

definition l400_get_model_identifier :: "string option" where
  "l400_get_model_identifier = model DEVICE_DESC_L400"

end
