(* ===== verification/Ec_Soem.thy ===== *)
theory Ec_Soem
  imports Device_L230 Device_L400
begin

text \<open>
  The EtherCAT master as the backend sees it. SOEM is a third-party library: its functions
  are the fields of the parameter record \<open>soem\<close>, and of its context only the members the
  code reads or writes are spelled out, the rest being the type variable \<open>'x\<close>. The
  functions of \<^verbatim>\<open>backends/ethercat/ec_soem_lifecycle.c\<close> and the two configuration hooks of
  the device descriptors are defined over them.
\<close>

section \<open>The SOEM context\<close>

record sync_manager =
  StartAddr :: u16
  SMflags :: u32

text \<open>
  \<^verbatim>\<open>inputs\<close> and \<^verbatim>\<open>outputs\<close> point into the process image SOEM was given; they are offsets
  into it.
\<close>

record ec_slave =
  sl_state :: u16
  sl_inputs :: "nat option"
  sl_outputs :: "nat option"
  sl_Ibytes :: u32
  sl_Obytes :: u32
  sl_eep_man :: u32
  sl_eep_id :: u32
  sl_SM :: "sync_manager list"
  sl_PO2SOconfig :: "device_hook option"

record 'x ecx_context =
  slavecount :: int
  slavelist :: "ec_slave list"
  outputsWKC :: u16
  inputsWKC :: u16
  ctx_rest :: 'x

text \<open>
  The library functions. Those that exchange process data take the process image and, when
  they receive, return it; a call on slave 0 addresses the whole network.
\<close>

record 'x soem =
  ecx_init :: "'x ecx_context \<Rightarrow> string \<Rightarrow> int \<times> 'x ecx_context"
  ecx_config_init :: "'x ecx_context \<Rightarrow> int \<times> 'x ecx_context"
  ecx_config_map_group :: "'x ecx_context \<Rightarrow> u8 list \<Rightarrow> int \<times> 'x ecx_context \<times> u8 list"
  ecx_writestate :: "'x ecx_context \<Rightarrow> 'x ecx_context"
  ecx_statecheck :: "'x ecx_context \<Rightarrow> int \<Rightarrow> int \<times> 'x ecx_context"
  ecx_readstate :: "'x ecx_context \<Rightarrow> 'x ecx_context"
  ecx_send_processdata :: "'x ecx_context \<Rightarrow> u8 list option \<Rightarrow> 'x ecx_context"
  ecx_receive_processdata :: "'x ecx_context \<Rightarrow> u8 list option \<Rightarrow> int \<times> 'x ecx_context \<times> u8 list option"
  ecx_configdc :: "'x ecx_context \<Rightarrow> 'x ecx_context"
  ecx_close :: "'x ecx_context \<Rightarrow> 'x ecx_context"
  zero_context :: "'x ecx_context"

abbreviation EC_STATE_NONE :: int where "EC_STATE_NONE \<equiv> 0"
abbreviation EC_STATE_INIT :: int where "EC_STATE_INIT \<equiv> 1"
abbreviation EC_STATE_SAFE_OP :: int where "EC_STATE_SAFE_OP \<equiv> 4"
abbreviation EC_STATE_OPERATIONAL :: int where "EC_STATE_OPERATIONAL \<equiv> 8"

definition set_slave :: "'x ecx_context \<Rightarrow> nat \<Rightarrow> (ec_slave \<Rightarrow> ec_slave) \<Rightarrow> 'x ecx_context" where
  "set_slave ctx i f = ctx\<lparr>slavelist := (slavelist ctx)[i := f (slavelist ctx ! i)]\<rparr>"

lemma set_slave_simps [simp]:
  "slavecount (set_slave ctx i f) = slavecount ctx"
  "length (slavelist (set_slave ctx i f)) = length (slavelist ctx)"
  "outputsWKC (set_slave ctx i f) = outputsWKC ctx" "inputsWKC (set_slave ctx i f) = inputsWKC ctx"
  by (simp_all add: set_slave_def)

section \<open>The configuration hooks of the devices\<close>

text \<open>
  The two hooks have the same body; the unused local \<^verbatim>\<open>new_timeout\<close> has no counterpart.
\<close>

definition set_sm :: "nat \<Rightarrow> u16 \<Rightarrow> u32 \<Rightarrow> ec_slave \<Rightarrow> ec_slave" where
  "set_sm k addr flags sl =
     sl\<lparr>sl_SM := (sl_SM sl)[k := \<lparr>StartAddr = addr, SMflags = flags\<rparr>]\<rparr>"

definition run_config_hook_EL230 :: "'x ecx_context \<Rightarrow> u16 \<Rightarrow> 'x ecx_context" where
  "run_config_hook_EL230 ctx slave =
     set_slave ctx (unat slave) (\<lambda>sl. set_sm 3 0x1300 0x20 (set_sm 2 0x1100 0x64 sl))"

definition run_config_hook_EL400 :: "'x ecx_context \<Rightarrow> u16 \<Rightarrow> 'x ecx_context" where
  "run_config_hook_EL400 ctx slave =
     set_slave ctx (unat slave) (\<lambda>sl. set_sm 3 0x1300 0x20 (set_sm 2 0x1100 0x64 sl))"

section \<open>Lifecycle helpers\<close>

text \<open>
  \<^verbatim>\<open>ec_soem_print_available_adapters\<close> only prints; sleeping and printing have no effect on
  the state.
\<close>

definition ec_soem_context_init ::
  "'x soem \<Rightarrow> 'x ecx_context \<Rightarrow> string \<Rightarrow> int \<times> 'x ecx_context"
where
  "ec_soem_context_init S ctx ifname =
     (let (rc, ctx') = ecx_init S ctx ifname in (if rc = 0 then -1 else 0, ctx'))"

definition ec_soem_scan_slaves :: "'x soem \<Rightarrow> 'x ecx_context \<Rightarrow> int \<times> 'x ecx_context" where
  "ec_soem_scan_slaves S ctx = ecx_config_init S ctx"

text \<open>
  The result is the status, the context, the process image and, when it was computed, the
  expected working counter (an \<open>int\<close> sum cast to 16 bits).
\<close>

definition ec_soem_configure_iomap_group0 ::
  "'x soem \<Rightarrow> 'x ecx_context \<Rightarrow> u8 list option \<Rightarrow> nat \<Rightarrow>
     int \<times> 'x ecx_context \<times> u8 list option \<times> u16 option"
where
  "ec_soem_configure_iomap_group0 S ctx iomap iomap_size =
     (case iomap of
        None \<Rightarrow> (-1, ctx, iomap, None)
      | Some m \<Rightarrow>
          if iomap_size = 0 then (-1, ctx, iomap, None)
          else
            let (used, ctx', m') = ecx_config_map_group S ctx m in
            if used \<le> 0 \<or> int iomap_size < used then (-1, ctx', Some m', None)
            else (used, ctx', Some m',
                  Some (of_int (uint (outputsWKC ctx') * 2 + uint (inputsWKC ctx')))))"

text \<open>The retry loop of \<^verbatim>\<open>ec_soem_request_safe_op\<close>.\<close>

primrec safe_op_loop :: "'x soem \<Rightarrow> nat \<Rightarrow> 'x ecx_context \<Rightarrow> int \<times> 'x ecx_context" where
  "safe_op_loop S 0 ctx = (-1, ctx)"
| "safe_op_loop S (Suc n) ctx =
     (let (state, ctx') = ecx_statecheck S ctx EC_STATE_SAFE_OP in
      if state = EC_STATE_SAFE_OP then (0, ctx') else safe_op_loop S n ctx')"

definition ec_soem_request_safe_op :: "'x soem \<Rightarrow> 'x ecx_context \<Rightarrow> int \<times> 'x ecx_context" where
  "ec_soem_request_safe_op S ctx =
     safe_op_loop S 10 (ecx_writestate S (set_slave ctx 0 (\<lambda>sl. sl\<lparr>sl_state := of_int EC_STATE_SAFE_OP\<rparr>)))"

text \<open>
  The loop of \<^verbatim>\<open>ec_soem_request_op\<close> exchanges process data before each check. The warning it
  prints for a low working counter does not change the result.
\<close>

primrec op_loop ::
  "'x soem \<Rightarrow> nat \<Rightarrow> 'x ecx_context \<Rightarrow> u8 list option \<Rightarrow> int \<times> 'x ecx_context \<times> u8 list option"
where
  "op_loop S 0 ctx m = (-1, ctx, m)"
| "op_loop S (Suc n) ctx m =
     (let ctx1 = ecx_send_processdata S ctx m;
          (wkc, ctx2, m') = ecx_receive_processdata S ctx1 m;
          (state, ctx3) = ecx_statecheck S ctx2 EC_STATE_OPERATIONAL
      in if state = EC_STATE_OPERATIONAL then (0, ctx3, m') else op_loop S n ctx3 m')"

definition ec_soem_request_op ::
  "'x soem \<Rightarrow> 'x ecx_context \<Rightarrow> u8 list option \<Rightarrow> u16 \<Rightarrow> int \<times> 'x ecx_context \<times> u8 list option"
where
  "ec_soem_request_op S ctx m expected_wkc =
     op_loop S 20 (ecx_writestate S (set_slave ctx 0 (\<lambda>sl. sl\<lparr>sl_state := of_int EC_STATE_OPERATIONAL\<rparr>))) m"

definition ec_soem_close :: "'x soem \<Rightarrow> 'x ecx_context \<Rightarrow> 'x ecx_context" where
  "ec_soem_close S ctx =
     (let ctx' = (if slavecount ctx > 0
                  then ecx_writestate S (set_slave ctx 0 (\<lambda>sl. sl\<lparr>sl_state := of_int EC_STATE_INIT\<rparr>))
                  else ctx);
          closed = ecx_close S ctx'
      in zero_context S)"

end
