(* ===== verification/Ec_Backend.thy ===== *)
theory Ec_Backend
  imports Ec_Soem Backend_Iface
begin

text \<open>
  The EtherCAT driver of \<^verbatim>\<open>backends/ethercat/ec_backend.c\<close>: its state, its life cycle, the
  double-buffered process image and the cycle of its real-time thread. What the platform
  decides (memory, threads, clocks) is in the parameter record \<open>platform\<close>.
\<close>

section \<open>State\<close>

text \<open>
  The two buffers of a direction are a list of two optional byte arrays; \<open>soem_inputs\<close> and
  \<open>soem_outputs\<close> are offsets into \<open>iomap\<close>.
\<close>

record EthercatDevice =
  ed_cfg :: "DeviceConfig option"
  ed_desc :: "DeviceDesc option"
  slave_index :: u16
  soem_inputs :: "nat option"
  soem_outputs :: "nat option"
  in_buffers :: "u8 list option list"
  out_buffers :: "u8 list option list"
  in_size :: u32
  out_size :: u32

record RtParams =
  rp_realtime :: bool
  rp_priority :: int
  rp_affinity_cpu :: int
  rp_timer_resolution_ms :: u32
  rp_stack_size :: nat

text \<open>
  The embedded \<^verbatim>\<open>BackendDriver_t base\<close> is not repeated here: \<^verbatim>\<open>base.impl\<close> points back to this
  state, so the driver is the \<open>BackendDriver\<close> record around it.
\<close>

record 'x EthercatDriver =
  ctx :: "'x ecx_context"
  ifname :: string
  dc_clock :: bool
  cycle_time_us :: u32
  rt_cycle_us :: u32
  iomap :: "u8 list option"
  iomap_size :: nat
  expected_wkc :: u16
  devices :: "EthercatDevice list"
  device_count :: nat
  device_capacity :: nat
  perf_freq :: u64
  rt_params :: RtParams
  period_ns :: u64
  spin_threshold_ns :: u32
  rt_should_run :: bool
  rt_is_running :: bool
  last_wkc :: int
  fault_latched :: int
  ec_state :: int
  dowkccheck :: u32
  wkc_warn_threshold :: u32
  wkc_fail_threshold :: u32
  warmup_cycles :: u32
  state_check_period_cycles :: u32
  state_check_period_ms :: u32
  state_check_cycle_ctr :: u32
  active_in_buffer_idx :: int
  active_out_buffer_idx :: int
  rt_out_buffer_idx :: int
  plc_in_buffer_idx :: int
  in_op :: bool
  rt_cycle_count :: u64
  rt_overruns :: u64
  rt_jitter_current_ns :: u64
  rt_jitter_min_ns :: u64
  rt_jitter_max_ns :: u64

text \<open>
  The platform: whether the \<open>k\<close>-th allocation of a call succeeds, the result of creating
  the real-time thread, the frequency of the performance counter and what an allocated
  but unwritten driver structure reads as after it was zeroed.
\<close>

record platform =
  pf_alloc :: "nat \<Rightarrow> bool"
  pf_thread_create :: int
  pf_perf_freq :: u64

definition EC_MAX_IFNAME_LEN :: nat where "EC_MAX_IFNAME_LEN = 63"
definition EC_DEFAULT_PERIOD_NS :: u64 where "EC_DEFAULT_PERIOD_NS = 1000000"
definition EC_DEFAULT_SPIN_THRESHOLD_NS :: u32 where "EC_DEFAULT_SPIN_THRESHOLD_NS = 50000"
definition EC_DEFAULT_WKC_WARN_THRESHOLD :: u32 where "EC_DEFAULT_WKC_WARN_THRESHOLD = 2"
definition EC_DEFAULT_WKC_FAIL_THRESHOLD :: u32 where "EC_DEFAULT_WKC_FAIL_THRESHOLD = 10"
definition EC_DEFAULT_WARMUP_CYCLES :: u32 where "EC_DEFAULT_WARMUP_CYCLES = 20"
definition EC_DEFAULT_STATE_CHECK_PERIOD_MS :: u32 where "EC_DEFAULT_STATE_CHECK_PERIOD_MS = 200"

definition zero_device :: EthercatDevice where
  "zero_device = \<lparr>ed_cfg = None, ed_desc = None, slave_index = 0, soem_inputs = None,
     soem_outputs = None, in_buffers = [None, None], out_buffers = [None, None],
     in_size = 0, out_size = 0\<rparr>"

definition zero_rt_params :: RtParams where
  "zero_rt_params = \<lparr>rp_realtime = False, rp_priority = 0, rp_affinity_cpu = 0,
     rp_timer_resolution_ms = 0, rp_stack_size = 0\<rparr>"

definition zero_driver :: "'x soem \<Rightarrow> 'x EthercatDriver" where
  "zero_driver S = \<lparr>ctx = zero_context S, ifname = [], dc_clock = False, cycle_time_us = 0,
     rt_cycle_us = 0, iomap = None, iomap_size = 0, expected_wkc = 0, devices = [],
     device_count = 0, device_capacity = 0, perf_freq = 0, rt_params = zero_rt_params,
     period_ns = 0, spin_threshold_ns = 0, rt_should_run = False, rt_is_running = False,
     last_wkc = 0, fault_latched = 0, ec_state = 0, dowkccheck = 0, wkc_warn_threshold = 0,
     wkc_fail_threshold = 0, warmup_cycles = 0, state_check_period_cycles = 0,
     state_check_period_ms = 0, state_check_cycle_ctr = 0, active_in_buffer_idx = 0,
     active_out_buffer_idx = 0, rt_out_buffer_idx = 0, plc_in_buffer_idx = 0, in_op = False,
     rt_cycle_count = 0, rt_overruns = 0, rt_jitter_current_ns = 0, rt_jitter_min_ns = 0,
     rt_jitter_max_ns = 0\<rparr>"

section \<open>Creation and destruction\<close>

definition free_device_buffers :: "EthercatDevice \<Rightarrow> EthercatDevice" where
  "free_device_buffers dev =
     dev\<lparr>in_buffers := [None, None], out_buffers := [None, None], in_size := 0, out_size := 0\<rparr>"

definition free_driver_resources :: "'x soem \<Rightarrow> 'x EthercatDriver \<Rightarrow> 'x EthercatDriver" where
  "free_driver_resources S impl =
     impl\<lparr>ctx := ec_soem_close S (ctx impl), iomap := None, iomap_size := 0,
          devices := [], device_capacity := 0, device_count := 0\<rparr>"

text \<open>The settings \<^verbatim>\<open>ethercat_backend_create\<close> derives from the configuration.\<close>

definition ec_period_ns :: "BackendConfig \<Rightarrow> u64" where
  "ec_period_ns cfg =
     (if bc_period_ns cfg \<noteq> 0 then ucast (bc_period_ns cfg)
      else if bc_cycle_time_us cfg \<noteq> 0 then ucast (bc_cycle_time_us cfg) * 1000
      else EC_DEFAULT_PERIOD_NS)"

definition ec_rt_params :: "BackendConfig \<Rightarrow> RtParams" where
  "ec_rt_params cfg =
     (let prio = (if bc_rt_priority cfg < -1 \<or> bc_rt_priority cfg > 2 then 1 else bc_rt_priority cfg);
          aff1 = (if bc_rt_affinity_cpu cfg < 0 \<and> bc_rt_reserved_cpu cfg \<ge> 0
                  then bc_rt_reserved_cpu cfg else bc_rt_affinity_cpu cfg);
          aff2 = (if aff1 < 0 then -1 else aff1)
      in \<lparr>rp_realtime = True, rp_priority = prio, rp_affinity_cpu = aff2,
          rp_timer_resolution_ms =
            (if bc_rt_timer_resolution_ms cfg \<noteq> 0 then bc_rt_timer_resolution_ms cfg else 1),
          rp_stack_size = 0\<rparr>)"

definition or_default :: "u32 \<Rightarrow> u32 \<Rightarrow> u32" where
  "or_default v d = (if v \<noteq> 0 then v else d)"

definition ec_state_check_cycles :: "u32 \<Rightarrow> u64 \<Rightarrow> u32" where
  "ec_state_check_cycles ms period =
     (let cycles = (ucast ms * 1000000 :: u64) div period
      in ucast (if cycles = 0 then 1 else cycles))"

definition ec_configure :: "BackendConfig \<Rightarrow> nat \<Rightarrow> string \<Rightarrow> 'x EthercatDriver \<Rightarrow> 'x EthercatDriver" where
  "ec_configure cfg iomap_sz ifn impl =
     (let period = ec_period_ns cfg;
          check_ms = or_default (bc_state_check_period_ms cfg) EC_DEFAULT_STATE_CHECK_PERIOD_MS
      in impl\<lparr>ifname := fst (snprintf 64 ifn),
          period_ns := period,
          cycle_time_us := (if bc_cycle_time_us cfg \<noteq> 0 then bc_cycle_time_us cfg
                            else ucast (period div 1000)),
          rt_cycle_us := ucast (period div 1000),
          spin_threshold_ns := or_default (bc_spin_threshold_ns cfg) EC_DEFAULT_SPIN_THRESHOLD_NS,
          rt_params := ec_rt_params cfg,
          dc_clock := bc_dc_clock cfg,
          iomap_size := iomap_sz,
          perf_freq := 0,
          wkc_warn_threshold := or_default (bc_wkc_warn_threshold cfg) EC_DEFAULT_WKC_WARN_THRESHOLD,
          wkc_fail_threshold := or_default (bc_wkc_fail_threshold cfg) EC_DEFAULT_WKC_FAIL_THRESHOLD,
          warmup_cycles := or_default (bc_warmup_cycles cfg) EC_DEFAULT_WARMUP_CYCLES,
          state_check_period_ms := check_ms,
          state_check_period_cycles := ec_state_check_cycles check_ms period,
          dowkccheck := 0, state_check_cycle_ctr := 0, in_op := False\<rparr>)"

text \<open>
  The driver starts zeroed, except for its two allocations; allocation 0 is the driver, 1
  its device array. The driver is freed on every failure, hence the result is \<open>None\<close>.
\<close>

definition ethercat_create_impl ::
  "'x soem \<Rightarrow> platform \<Rightarrow> BackendConfig \<Rightarrow> nat \<Rightarrow> nat \<Rightarrow> 'x EthercatDriver option"
where
  "ethercat_create_impl S P cfg iomap_sz max_devices =
     (case bc_ifname cfg of
        None \<Rightarrow> None
      | Some ifn \<Rightarrow>
          if \<not> pf_alloc P 0 then None
          else if \<not> pf_alloc P 1 then None
          else if length ifn > EC_MAX_IFNAME_LEN then None
          else
            let impl = ec_configure cfg iomap_sz ifn
                  ((zero_driver S)\<lparr>devices := replicate max_devices zero_device,
                                   device_capacity := max_devices\<rparr>);
                (rc, ctx') = ec_soem_context_init S (ctx impl) (ifname impl)
            in if rc \<noteq> 0 then None else Some (impl\<lparr>ctx := ctx'\<rparr>))"

text \<open>\<^verbatim>\<open>ethercat_backend_destroy\<close>: the last state before the memory is released.\<close>

definition ethercat_backend_destroy :: "'x soem \<Rightarrow> 'x EthercatDriver \<Rightarrow> 'x EthercatDriver" where
  "ethercat_backend_destroy S impl = (let freed = free_driver_resources S impl in zero_driver S)"

section \<open>Initialisation, binding, mapping\<close>

definition ethercat_init :: "'x soem \<Rightarrow> platform \<Rightarrow> 'x EthercatDriver \<Rightarrow> int \<times> 'x EthercatDriver" where
  "ethercat_init S P impl =
     (let (slave_count, ctx') = ec_soem_scan_slaves S (ctx impl);
          impl1 = impl\<lparr>perf_freq := pf_perf_freq P, ctx := ctx'\<rparr>
      in if slave_count \<le> 0 then (-1, impl1)
         else
           let sz = (if iomap_size impl1 \<noteq> 0 then iomap_size impl1 else 4096);
               impl2 = impl1\<lparr>iomap_size := sz\<rparr>
           in if \<not> pf_alloc P 0 then (-1, impl2\<lparr>iomap := None\<rparr>)
              else (0, impl2\<lparr>iomap := Some (replicate sz 0)\<rparr>))"

definition bound_devices :: "'x EthercatDriver \<Rightarrow> EthercatDevice list" where
  "bound_devices impl = take (device_count impl) (devices impl)"

definition ethercat_bind_device ::
  "'x EthercatDriver \<Rightarrow> DeviceConfig \<Rightarrow> DeviceDesc \<Rightarrow> int \<times> 'x EthercatDriver"
where
  "ethercat_bind_device impl cfg desc =
     (if device_capacity impl \<le> device_count impl then (-1, impl)
      else
        let pos = dc_expected_position cfg in
        if pos = 0 \<or> (slavecount (ctx impl) > 0 \<and> uint pos > slavecount (ctx impl)) then (-1, impl)
        else if \<exists>dev \<in> set (bound_devices impl). slave_index dev = pos then (-1, impl)
        else
          (0, impl\<lparr>devices := (devices impl)[device_count impl :=
                      zero_device\<lparr>ed_cfg := Some cfg, ed_desc := Some desc, slave_index := pos\<rparr>],
                   device_count := device_count impl + 1,
                   ctx := set_slave (ctx impl) (unat pos)
                            (\<lambda>sl. sl\<lparr>sl_PO2SOconfig := on_init (hooks desc)\<rparr>)\<rparr>))"

text \<open>
  One device of \<^verbatim>\<open>ethercat_finalize_mapping\<close>: the device afterwards and whether the loop goes
  on. Allocations \<open>4 i\<close> to \<open>4 i + 3\<close> are those of device \<open>i\<close>.
\<close>

definition calloc :: "platform \<Rightarrow> nat \<Rightarrow> u32 \<Rightarrow> u8 list option" where
  "calloc P k n = (if pf_alloc P k then Some (replicate (unat n) 0) else None)"

definition finalize_device ::
  "platform \<Rightarrow> 'x ecx_context \<Rightarrow> nat \<Rightarrow> EthercatDevice \<Rightarrow> bool \<times> EthercatDevice"
where
  "finalize_device P c i dev =
     (if slave_index dev = 0 \<or> uint (slave_index dev) > slavecount c then (False, dev)
      else
        let sl = slavelist c ! unat (slave_index dev);
            dev1 = dev\<lparr>soem_inputs := sl_inputs sl, soem_outputs := sl_outputs sl\<rparr>;
            cfg = the (ed_cfg dev); desc = the (ed_desc dev);
            expected_vendor = or_default (dc_expected_vendor_id cfg) (vendor_id desc);
            expected_product = or_default (dc_expected_product_code cfg) (product_code desc)
        in if expected_vendor \<noteq> 0 \<and> sl_eep_man sl \<noteq> expected_vendor then (False, dev1)
           else if expected_product \<noteq> 0 \<and> sl_eep_id sl \<noteq> expected_product then (False, dev1)
           else if sl_Ibytes sl < tx_bytes desc \<or> sl_Obytes sl < rx_bytes desc then (False, dev1)
           else
             let ib = [calloc P (4 * i) (tx_bytes desc), calloc P (4 * i + 1) (tx_bytes desc)];
                 ob = [calloc P (4 * i + 2) (rx_bytes desc), calloc P (4 * i + 3) (rx_bytes desc)]
             in (None \<notin> set ib \<and> None \<notin> set ob,
                 dev1\<lparr>in_size := tx_bytes desc, out_size := rx_bytes desc,
                      in_buffers := ib, out_buffers := ob\<rparr>))"

fun finalize_loop ::
  "platform \<Rightarrow> 'x ecx_context \<Rightarrow> nat \<Rightarrow> EthercatDevice list \<Rightarrow> bool \<times> EthercatDevice list"
where
  "finalize_loop P c i [] = (True, [])"
| "finalize_loop P c i (dev # devs) =
     (let (ok, dev') = finalize_device P c i dev in
      if \<not> ok then (False, dev' # devs)
      else let (ok', devs') = finalize_loop P c (Suc i) devs in (ok', dev' # devs'))"

definition set_bound :: "'x EthercatDriver \<Rightarrow> EthercatDevice list \<Rightarrow> 'x EthercatDriver" where
  "set_bound impl devs = impl\<lparr>devices := devs @ drop (device_count impl) (devices impl)\<rparr>"

definition finalize_error :: "'x EthercatDriver \<Rightarrow> int \<times> 'x EthercatDriver" where
  "finalize_error impl = (-1, set_bound impl (map free_device_buffers (bound_devices impl)))"

definition reset_cycle_state :: "'x EthercatDriver \<Rightarrow> 'x EthercatDriver" where
  "reset_cycle_state impl =
     impl\<lparr>active_in_buffer_idx := 0, active_out_buffer_idx := 1, rt_out_buffer_idx := 0,
          plc_in_buffer_idx := 0, last_wkc := 0, fault_latched := 0, ec_state := EC_STATE_NONE,
          rt_should_run := False, rt_is_running := False, rt_cycle_count := 0, rt_overruns := 0,
          rt_jitter_current_ns := 0, rt_jitter_min_ns := - 1, rt_jitter_max_ns := 0,
          rt_cycle_us := ucast (period_ns impl div 1000)\<rparr>"

text \<open>The part after the loop: fresh cycle state, distributed clocks, SAFE-OP.\<close>

definition finalize_safe_op :: "'x soem \<Rightarrow> 'x EthercatDriver \<Rightarrow> int \<times> 'x EthercatDriver" where
  "finalize_safe_op S impl2 =
     (let impl3 = reset_cycle_state impl2;
          impl4 = (if dc_clock impl3 then impl3\<lparr>ctx := ecx_configdc S (ctx impl3)\<rparr> else impl3);
          (rc, ctx5) = ec_soem_request_safe_op S (ctx impl4);
          impl5 = impl4\<lparr>ctx := ctx5\<rparr>
      in if rc \<noteq> 0 then finalize_error impl5
         else (0, impl5\<lparr>ec_state := EC_STATE_SAFE_OP\<rparr>))"

definition ethercat_finalize_mapping ::
  "'x soem \<Rightarrow> platform \<Rightarrow> 'x EthercatDriver \<Rightarrow> int \<times> 'x EthercatDriver"
where
  "ethercat_finalize_mapping S P impl =
     (if iomap impl = None then (-1, impl)
      else
        let (used, ctx1, m1, wkc) =
              ec_soem_configure_iomap_group0 S (ctx impl) (iomap impl) (iomap_size impl);
            impl1 = impl\<lparr>ctx := ctx1, iomap := m1,
                         expected_wkc := (case wkc of None \<Rightarrow> expected_wkc impl | Some w \<Rightarrow> w)\<rparr>
        in if used \<le> 0 then (-1, impl1)
           else
             let (ok, devs) = finalize_loop P (ctx impl1) 0 (bound_devices impl1);
                 impl2 = set_bound impl1 devs
             in if \<not> ok then finalize_error impl2 else finalize_safe_op S impl2)"

section \<open>Copying between the buffers and the process image\<close>

definition map_bound :: "(EthercatDevice \<Rightarrow> EthercatDevice) \<Rightarrow> 'x EthercatDriver \<Rightarrow> 'x EthercatDriver" where
  "map_bound f impl = set_bound impl (map f (bound_devices impl))"

text \<open>\<^verbatim>\<open>memset\<close> and \<^verbatim>\<open>memcpy\<close> on the process image; \<open>NULL\<close> is never written to.\<close>

definition iomap_put :: "nat \<Rightarrow> u8 list \<Rightarrow> u8 list option \<Rightarrow> u8 list option" where
  "iomap_put off bs m = map_option (mem_put off bs) m"

definition device_out_bytes :: "nat \<Rightarrow> bool \<Rightarrow> EthercatDevice \<Rightarrow> u8 list" where
  "device_out_bytes out_idx zero_outputs dev =
     (if zero_outputs then replicate (unat (out_size dev)) 0
      else case out_buffers dev ! out_idx of
             None \<Rightarrow> replicate (unat (out_size dev)) 0
           | Some b \<Rightarrow> take (unat (out_size dev)) b)"

fun copy_out_loop :: "EthercatDevice list \<Rightarrow> nat \<Rightarrow> bool \<Rightarrow> u8 list option \<Rightarrow> u8 list option" where
  "copy_out_loop [] out_idx z m = m"
| "copy_out_loop (dev # devs) out_idx z m =
     copy_out_loop devs out_idx z
       (case soem_outputs dev of
          None \<Rightarrow> m
        | Some off \<Rightarrow> if 0 < out_size dev then iomap_put off (device_out_bytes out_idx z dev) m else m)"

definition ethercat_copy_out_to_iomap :: "'x EthercatDriver \<Rightarrow> nat \<Rightarrow> bool \<Rightarrow> 'x EthercatDriver" where
  "ethercat_copy_out_to_iomap impl out_idx zero_outputs =
     impl\<lparr>iomap := copy_out_loop (bound_devices impl) out_idx zero_outputs (iomap impl)\<rparr>"

definition copy_in_device :: "u8 list \<Rightarrow> nat \<Rightarrow> EthercatDevice \<Rightarrow> EthercatDevice" where
  "copy_in_device m next_in dev =
     (case (soem_inputs dev, in_buffers dev ! next_in) of
        (Some off, Some b) \<Rightarrow>
          if 0 < in_size dev
          then dev\<lparr>in_buffers := (in_buffers dev)[next_in := Some (overwrite (mem_get off (unat (in_size dev)) m) b)]\<rparr>
          else dev
      | _ \<Rightarrow> dev)"

definition ethercat_copy_iomap_to_in :: "'x EthercatDriver \<Rightarrow> nat \<Rightarrow> 'x EthercatDriver" where
  "ethercat_copy_iomap_to_in impl next_in =
     (case iomap impl of None \<Rightarrow> impl | Some m \<Rightarrow> map_bound (copy_in_device m next_in) impl)"

definition copy_out_buffer :: "nat \<Rightarrow> nat \<Rightarrow> EthercatDevice \<Rightarrow> EthercatDevice" where
  "copy_out_buffer src dst dev =
     (case (out_buffers dev ! src, out_buffers dev ! dst) of
        (Some s, Some d) \<Rightarrow>
          if 0 < out_size dev
          then dev\<lparr>out_buffers := (out_buffers dev)[dst := Some (overwrite (take (unat (out_size dev)) s) d)]\<rparr>
          else dev
      | _ \<Rightarrow> dev)"

definition ethercat_copy_out_buffers :: "'x EthercatDriver \<Rightarrow> nat \<Rightarrow> nat \<Rightarrow> 'x EthercatDriver" where
  "ethercat_copy_out_buffers impl src_idx dst_idx =
     (if src_idx = dst_idx then impl else map_bound (copy_out_buffer src_idx dst_idx) impl)"

text \<open>
  The value a buffer index has after a load: the value is repaired when it is neither 0 nor
  1. Callers store the result back.
\<close>

definition ethercat_load_buffer_index :: "int \<Rightarrow> nat \<Rightarrow> int" where
  "ethercat_load_buffer_index idx fallback = (if idx < 0 \<or> idx > 1 then int fallback else idx)"

definition zero_out_device :: "EthercatDevice \<Rightarrow> EthercatDevice" where
  "zero_out_device dev =
     (if out_size dev = 0 then dev
      else dev\<lparr>out_buffers := map (map_option (overwrite (replicate (unat (out_size dev)) 0))) (out_buffers dev)\<rparr>)"

fun zero_iomap_loop :: "EthercatDevice list \<Rightarrow> u8 list option \<Rightarrow> u8 list option" where
  "zero_iomap_loop [] m = m"
| "zero_iomap_loop (dev # devs) m =
     zero_iomap_loop devs
       (case soem_outputs dev of
          None \<Rightarrow> m
        | Some off \<Rightarrow> if out_size dev = 0 then m else iomap_put off (replicate (unat (out_size dev)) 0) m)"

definition ethercat_zero_output_buffers :: "'x EthercatDriver \<Rightarrow> 'x EthercatDriver" where
  "ethercat_zero_output_buffers impl =
     (map_bound zero_out_device impl)\<lparr>iomap := zero_iomap_loop (bound_devices impl) (iomap impl)\<rparr>"

section \<open>The cycle of the real-time thread\<close>

text \<open>One exchange with the network.\<close>

definition ec_exchange :: "'x soem \<Rightarrow> 'x EthercatDriver \<Rightarrow> int \<times> 'x EthercatDriver" where
  "ec_exchange S impl =
     (let ctx1 = ecx_send_processdata S (ctx impl) (iomap impl);
          (wkc, ctx2, m) = ecx_receive_processdata S ctx1 (iomap impl)
      in (wkc, impl\<lparr>ctx := ctx2, iomap := m\<rparr>))"

text \<open>The locals of \<^verbatim>\<open>ethercat_rt_thread\<close> that live across its cycles.\<close>

record rt_locals =
  rl_expected_wkc :: int
  rl_warn_threshold :: u32
  rl_fail_threshold :: u32
  rl_cycle_count :: u64
  rl_deadline :: u64

definition rt_thread_enter :: "u64 \<Rightarrow> 'x EthercatDriver \<Rightarrow> rt_locals \<times> 'x EthercatDriver" where
  "rt_thread_enter now impl =
     (\<lparr>rl_expected_wkc = uint (expected_wkc impl),
       rl_warn_threshold = or_default (wkc_warn_threshold impl) EC_DEFAULT_WKC_WARN_THRESHOLD,
       rl_fail_threshold = or_default (wkc_fail_threshold impl) EC_DEFAULT_WKC_FAIL_THRESHOLD,
       rl_cycle_count = 0, rl_deadline = now + period_ns impl\<rparr>,
      impl\<lparr>rt_is_running := True\<rparr>)"

text \<open>
  The phases of one cycle, in the order of the loop body: outputs to the image, exchange,
  inputs from the image, supervision, timing.
\<close>

definition rt_load_out :: "'x EthercatDriver \<Rightarrow> nat \<times> bool \<times> 'x EthercatDriver" where
  "rt_load_out impl =
     (let out_idx = ethercat_load_buffer_index (rt_out_buffer_idx impl) 0
      in (nat out_idx, fault_latched impl \<noteq> 0, impl\<lparr>rt_out_buffer_idx := out_idx\<rparr>))"

definition rt_outputs :: "'x EthercatDriver \<Rightarrow> 'x EthercatDriver" where
  "rt_outputs impl =
     (let (out_idx, zero_outputs, impl1) = rt_load_out impl
      in ethercat_copy_out_to_iomap impl1 out_idx zero_outputs)"

definition rt_state_check :: "'x soem \<Rightarrow> 'x EthercatDriver \<Rightarrow> 'x EthercatDriver" where
  "rt_state_check S impl =
     (let ctr = state_check_cycle_ctr impl + 1 in
      if state_check_period_cycles impl \<le> ctr
      then let c = ecx_readstate S (ctx impl)
           in impl\<lparr>state_check_cycle_ctr := 0, ctx := c, ec_state := uint (sl_state (slavelist c ! 0))\<rparr>
      else impl\<lparr>state_check_cycle_ctr := ctr\<rparr>)"

definition rt_inputs :: "'x EthercatDriver \<Rightarrow> 'x EthercatDriver" where
  "rt_inputs impl =
     (let cur_in = ethercat_load_buffer_index (active_in_buffer_idx impl) 0;
          next_in = 1 - cur_in;
          impl1 = ethercat_copy_iomap_to_in (impl\<lparr>active_in_buffer_idx := cur_in\<rparr>) (nat next_in)
      in impl1\<lparr>active_in_buffer_idx := next_in\<rparr>)"

definition rt_bad_cycle :: "rt_locals \<Rightarrow> int \<Rightarrow> 'x EthercatDriver \<Rightarrow> bool" where
  "rt_bad_cycle loc wkc impl =
     (if rl_cycle_count loc < ucast (warmup_cycles impl) then False
      else (rl_expected_wkc loc > 0 \<and> wkc < rl_expected_wkc loc)
           \<or> ec_state impl \<noteq> EC_STATE_OPERATIONAL)"

definition rt_supervise :: "rt_locals \<Rightarrow> int \<Rightarrow> 'x EthercatDriver \<Rightarrow> 'x EthercatDriver" where
  "rt_supervise loc wkc impl =
     (let impl1 = impl\<lparr>dowkccheck :=
            (if rt_bad_cycle loc wkc impl
             then (if dowkccheck impl < - 1 then dowkccheck impl + 1 else dowkccheck impl)
             else 0)\<rparr>;
          impl2 = (if rl_fail_threshold loc \<le> dowkccheck impl1
                   then (if fault_latched impl1 = 0
                         then ethercat_zero_output_buffers (impl1\<lparr>fault_latched := 1\<rparr>)
                         else impl1\<lparr>fault_latched := 1\<rparr>)
                   else impl1)
      in impl2\<lparr>in_op := ec_state impl = EC_STATE_OPERATIONAL \<and> dowkccheck impl2 < rl_warn_threshold loc\<rparr>)"

definition rt_timing :: "u64 \<Rightarrow> rt_locals \<Rightarrow> 'x EthercatDriver \<Rightarrow> rt_locals \<times> 'x EthercatDriver" where
  "rt_timing now loc impl =
     (let delta = sint (now - rl_deadline loc);
          jitter_abs = of_int (if delta \<ge> 0 then delta else - delta);
          lateness = (if delta > 0 then of_int delta else 0 :: u64);
          impl1 = impl\<lparr>rt_jitter_current_ns := jitter_abs,
                       rt_jitter_min_ns := (if jitter_abs < rt_jitter_min_ns impl then jitter_abs
                                            else rt_jitter_min_ns impl),
                       rt_jitter_max_ns := (if jitter_abs > rt_jitter_max_ns impl then jitter_abs
                                            else rt_jitter_max_ns impl),
                       rt_overruns := (if lateness > 0 then rt_overruns impl + 1 else rt_overruns impl),
                       rt_cycle_count := rt_cycle_count impl + 1\<rparr>;
          deadline = (if now > rl_deadline loc + period_ns impl * 5 then now + period_ns impl
                      else rl_deadline loc + period_ns impl)
      in (loc\<lparr>rl_deadline := deadline, rl_cycle_count := rl_cycle_count loc + 1\<rparr>, impl1))"

text \<open>One pass of the loop; \<open>now\<close> is the clock after the sleep.\<close>

definition rt_cycle :: "'x soem \<Rightarrow> u64 \<Rightarrow> rt_locals \<times> 'x EthercatDriver \<Rightarrow> rt_locals \<times> 'x EthercatDriver" where
  "rt_cycle S now = (\<lambda>(loc, impl).
     let impl1 = rt_outputs impl;
         (wkc, impl2) = ec_exchange S impl1;
         impl3 = rt_state_check S (impl2\<lparr>last_wkc := wkc\<rparr>);
         impl4 = rt_inputs impl3;
         impl5 = rt_supervise loc wkc impl4
     in rt_timing now loc impl5)"

text \<open>What follows the loop, and the thread running over a list of clock values.\<close>

definition rt_thread_exit :: "'x soem \<Rightarrow> 'x EthercatDriver \<Rightarrow> 'x EthercatDriver" where
  "rt_thread_exit S impl =
     (let impl1 = ethercat_copy_out_to_iomap (ethercat_zero_output_buffers impl) 0 True;
          (wkc, impl2) = ec_exchange S impl1
      in impl2\<lparr>rt_is_running := False\<rparr>)"

fun rt_cycles :: "'x soem \<Rightarrow> u64 list \<Rightarrow> rt_locals \<times> 'x EthercatDriver \<Rightarrow> rt_locals \<times> 'x EthercatDriver" where
  "rt_cycles S [] st = st"
| "rt_cycles S (now # nows) st = (if rt_should_run (snd st) then rt_cycles S nows (rt_cycle S now st) else st)"

section \<open>Starting and stopping\<close>

text \<open>
  The thread that \<^verbatim>\<open>ethercat_start\<close> creates runs concurrently; its body is the section above.
\<close>

definition ethercat_start :: "'x soem \<Rightarrow> platform \<Rightarrow> 'x EthercatDriver \<Rightarrow> int \<times> 'x EthercatDriver" where
  "ethercat_start S P impl =
     (case iomap impl of
        None \<Rightarrow> (-1, impl)
      | Some m \<Rightarrow>
          let impl1 = ethercat_zero_output_buffers (impl\<lparr>iomap := Some (overwrite (replicate (iomap_size impl) 0) m)\<rparr>);
              (w1, impl2) = ec_exchange S impl1;
              (w2, impl3) = ec_exchange S impl2;
              (wkc, impl4) = ec_exchange S impl3;
              impl5 = impl4\<lparr>last_wkc := wkc\<rparr>;
              (rc, ctx', m') = ec_soem_request_op S (ctx impl5) (iomap impl5) (expected_wkc impl5);
              impl6 = impl5\<lparr>ctx := ctx', iomap := m'\<rparr>
          in if rc \<noteq> 0 then (-1, impl6)
             else
               let impl7 = impl6\<lparr>ec_state := EC_STATE_OPERATIONAL, dowkccheck := 0,
                     state_check_cycle_ctr := 0, in_op := True, fault_latched := 0,
                     rt_should_run := True, rt_is_running := False, rt_cycle_count := 0,
                     rt_overruns := 0, rt_jitter_current_ns := 0, rt_jitter_min_ns := - 1,
                     rt_jitter_max_ns := 0\<rparr>
               in if pf_thread_create P \<noteq> 0
                  then (-1, impl7\<lparr>in_op := False, rt_should_run := False\<rparr>)
                  else (0, impl7))"

text \<open>
  \<^verbatim>\<open>ethercat_stop\<close> joins the thread when it has announced itself; here the thread is between
  two cycles at that moment, so what the join waits for is the exit part of its body.
\<close>

definition ethercat_stop :: "'x soem \<Rightarrow> 'x EthercatDriver \<Rightarrow> int \<times> 'x EthercatDriver" where
  "ethercat_stop S impl =
     (let impl1 = impl\<lparr>rt_should_run := False\<rparr>;
          impl2 = (if rt_is_running impl1 then rt_thread_exit S impl1 else impl1);
          impl3 = ethercat_copy_out_to_iomap (ethercat_zero_output_buffers impl2) 0 True;
          (wkc, impl4) = ec_exchange S impl3;
          (rc, ctx') = ec_soem_request_safe_op S (ctx impl4);
          impl5 = impl4\<lparr>ctx := ctx'\<rparr>
      in if rc \<noteq> 0 then (-1, impl5\<lparr>in_op := False, ec_state := EC_STATE_NONE\<rparr>)
         else (0, impl5\<lparr>in_op := False, ec_state := EC_STATE_SAFE_OP\<rparr>))"

definition ethercat_process :: "'x EthercatDriver \<Rightarrow> int \<times> 'x EthercatDriver" where
  "ethercat_process impl = (0, impl)"

section \<open>The PLC side of a cycle\<close>

definition ethercat_cycle_begin :: "'x EthercatDriver \<Rightarrow> 'x EthercatDriver" where
  "ethercat_cycle_begin impl =
     (let in_idx = ethercat_load_buffer_index (active_in_buffer_idx impl) 0;
          rt_out_idx = ethercat_load_buffer_index (rt_out_buffer_idx impl) 0;
          plc_out_idx = ethercat_load_buffer_index (active_out_buffer_idx impl) 1;
          impl1 = impl\<lparr>active_in_buffer_idx := in_idx, plc_in_buffer_idx := in_idx,
                       rt_out_buffer_idx := rt_out_idx, active_out_buffer_idx := plc_out_idx\<rparr>
      in ethercat_copy_out_buffers impl1 (nat rt_out_idx) (nat plc_out_idx))"

definition ethercat_cycle_end :: "'x EthercatDriver \<Rightarrow> 'x EthercatDriver" where
  "ethercat_cycle_end impl =
     (let plc_out = ethercat_load_buffer_index (active_out_buffer_idx impl) 1;
          prev = rt_out_buffer_idx impl;
          prev_rt = (if prev < 0 \<or> prev > 1 then (if plc_out = 0 then 1 else 0) else prev)
      in impl\<lparr>rt_out_buffer_idx := plc_out, active_out_buffer_idx := prev_rt\<rparr>)"

definition buffer_addr :: "(nat \<Rightarrow> nat \<Rightarrow> buf_addr) \<Rightarrow> nat \<Rightarrow> nat \<Rightarrow> u8 list option list \<Rightarrow> buf_addr option" where
  "buffer_addr mk dev k bufs = (case bufs ! k of None \<Rightarrow> None | Some b \<Rightarrow> Some (mk dev k))"

definition ethercat_get_input_data ::
  "'x EthercatDriver \<Rightarrow> u16 \<Rightarrow> buf_addr option \<times> u32 \<times> 'x EthercatDriver"
where
  "ethercat_get_input_data impl device_index =
     (if device_count impl \<le> unat device_index then (None, 0, impl)
      else
        let dev = devices impl ! unat device_index;
            impl1 = (if plc_in_buffer_idx impl < 0 \<or> plc_in_buffer_idx impl > 1
                     then let i = ethercat_load_buffer_index (active_in_buffer_idx impl) 0
                          in impl\<lparr>active_in_buffer_idx := i, plc_in_buffer_idx := i\<rparr>
                     else impl);
            idx = nat (plc_in_buffer_idx impl1)
        in (buffer_addr InBuf (unat device_index) idx (in_buffers dev), in_size dev, impl1))"

definition ethercat_get_output_data ::
  "'x EthercatDriver \<Rightarrow> u16 \<Rightarrow> buf_addr option \<times> u32 \<times> 'x EthercatDriver"
where
  "ethercat_get_output_data impl device_index =
     (if device_count impl \<le> unat device_index then (None, 0, impl)
      else
        let dev = devices impl ! unat device_index;
            i = ethercat_load_buffer_index (active_out_buffer_idx impl) 1;
            impl1 = impl\<lparr>active_out_buffer_idx := i\<rparr>
        in (buffer_addr OutBuf (unat device_index) (nat i) (out_buffers dev), out_size dev, impl1))"

definition ethercat_get_status :: "'x EthercatDriver \<Rightarrow> BackendStatus \<Rightarrow> int \<times> BackendStatus" where
  "ethercat_get_status impl out =
     (0, out\<lparr>bs_in_op := in_op impl, bs_fault_latched := fault_latched impl \<noteq> 0,
             bs_last_error := ec_state impl\<rparr>)"

section \<open>The driver\<close>

text \<open>The memory behind the pointers the two data functions return.\<close>

definition ec_buf_load :: "'x EthercatDriver \<Rightarrow> buf_addr \<Rightarrow> u8 list" where
  "ec_buf_load impl a =
     (case a of InBuf i k \<Rightarrow> the (in_buffers (devices impl ! i) ! k)
              | OutBuf i k \<Rightarrow> the (out_buffers (devices impl ! i) ! k))"

definition ec_buf_store :: "'x EthercatDriver \<Rightarrow> buf_addr \<Rightarrow> u8 list \<Rightarrow> 'x EthercatDriver" where
  "ec_buf_store impl a bs =
     (case a of
        InBuf i k \<Rightarrow> impl\<lparr>devices := (devices impl)[i := (devices impl ! i)
           \<lparr>in_buffers := (in_buffers (devices impl ! i))[k := Some bs]\<rparr>]\<rparr>
      | OutBuf i k \<Rightarrow> impl\<lparr>devices := (devices impl)[i := (devices impl ! i)
           \<lparr>out_buffers := (out_buffers (devices impl ! i))[k := Some bs]\<rparr>]\<rparr>)"

definition g_ec_ops :: "'x soem \<Rightarrow> platform \<Rightarrow> 'x EthercatDriver BackendDriverOps" where
  "g_ec_ops S P = \<lparr>
     op_init = Some (ethercat_init S P), op_bind = Some ethercat_bind_device,
     op_finalize = Some (ethercat_finalize_mapping S P),
     op_start = Some (ethercat_start S P), op_stop = Some (ethercat_stop S),
     op_process = Some ethercat_process, op_get_status = Some ethercat_get_status,
     op_cycle_begin = Some ethercat_cycle_begin, op_cycle_end = Some ethercat_cycle_end,
     op_get_input_data = Some ethercat_get_input_data,
     op_get_output_data = Some ethercat_get_output_data,
     buf_load = ec_buf_load, buf_store = ec_buf_store\<rparr>"

definition ethercat_backend_create ::
  "'x soem \<Rightarrow> platform \<Rightarrow> BackendConfig \<Rightarrow> nat \<Rightarrow> nat \<Rightarrow> nat \<Rightarrow> 'x EthercatDriver BackendDriver option"
where
  "ethercat_backend_create S P cfg iomap_sz max_devices backend_index =
     map_option (\<lambda>impl. \<lparr>drv_type = BACKEND_TYPE_ETHERCAT, drv_ops = Some (g_ec_ops S P),
         drv_name = (case bc_name cfg of None \<Rightarrow> [] | Some n \<Rightarrow> fst (snprintf 16 n)),
         drv_system_name = fst (snprintf 16 (''ec'' @ dec_nat backend_index)),
         drv_impl = impl\<rparr>)
       (ethercat_create_impl S P cfg iomap_sz max_devices)"

end
