(* ===== verification/Ec_Image.thy ===== *)
theory Ec_Image
  imports Ec_Backend Tag_Access
begin

text \<open>
  The double-buffered process image of the EtherCAT driver: the invariant that keeps the
  buffer the PLC stages its outputs in apart from the one the real-time thread sends, its
  preservation by every operation, and the interpretation of the process-image contract.
\<close>

section \<open>Invariant\<close>

definition dev_ok :: "EthercatDevice \<Rightarrow> bool" where
  "dev_ok dev \<longleftrightarrow> length (in_buffers dev) = 2 \<and> length (out_buffers dev) = 2
     \<and> (\<forall>b. Some b \<in> set (in_buffers dev) \<longrightarrow> length b = unat (in_size dev))
     \<and> (\<forall>b. Some b \<in> set (out_buffers dev) \<longrightarrow> length b = unat (out_size dev))"

definition idx_ok :: "'x EthercatDriver \<Rightarrow> bool" where
  "idx_ok impl \<longleftrightarrow> active_in_buffer_idx impl \<in> {0, 1} \<and> plc_in_buffer_idx impl \<in> {0, 1}
     \<and> active_out_buffer_idx impl \<in> {0, 1} \<and> rt_out_buffer_idx impl = 1 - active_out_buffer_idx impl"

definition ec_inv :: "'x EthercatDriver \<Rightarrow> bool" where
  "ec_inv impl \<longleftrightarrow> device_count impl \<le> length (devices impl)
     \<and> (\<forall>dev \<in> set (bound_devices impl). dev_ok dev) \<and> idx_ok impl"

text \<open>
  The offsets SOEM assigned lie in the process image; the output regions of two devices do
  not overlap.
\<close>

definition dev_mapped :: "nat \<Rightarrow> EthercatDevice \<Rightarrow> bool" where
  "dev_mapped n dev \<longleftrightarrow>
     (\<forall>off. soem_inputs dev = Some off \<longrightarrow> off + unat (in_size dev) \<le> n)
     \<and> (\<forall>off. soem_outputs dev = Some off \<longrightarrow> off + unat (out_size dev) \<le> n)"

definition ec_mapped :: "'x EthercatDriver \<Rightarrow> bool" where
  "ec_mapped impl \<longleftrightarrow> (\<forall>m. iomap impl = Some m \<longrightarrow> (\<forall>dev \<in> set (bound_devices impl). dev_mapped (length m) dev))"

lemma ec_index_simps [simp]:
  "idx_ok impl \<Longrightarrow> ethercat_load_buffer_index (active_in_buffer_idx impl) k = active_in_buffer_idx impl"
  "idx_ok impl \<Longrightarrow> ethercat_load_buffer_index (active_out_buffer_idx impl) k = active_out_buffer_idx impl"
  "idx_ok impl \<Longrightarrow> ethercat_load_buffer_index (rt_out_buffer_idx impl) k = rt_out_buffer_idx impl"
  by (auto simp: idx_ok_def ethercat_load_buffer_index_def)

lemma load_buffer_index_01: "k \<le> 1 \<Longrightarrow> ethercat_load_buffer_index i k \<in> {0, 1}"
  by (auto simp: ethercat_load_buffer_index_def)

text \<open>A map over the bound devices keeps the invariant when it does for one device.\<close>

lemma bound_devices_set_bound [simp]:
  "length devs = device_count impl \<Longrightarrow> bound_devices (set_bound impl devs) = devs"
  by (simp add: bound_devices_def set_bound_def)

lemma bound_devices_map_bound [simp]:
  "device_count impl \<le> length (devices impl) \<Longrightarrow> bound_devices (map_bound f impl) = map f (bound_devices impl)"
  by (simp add: map_bound_def bound_devices_def set_bound_def)

lemma map_bound_simps [simp]:
  "device_count (map_bound f impl) = device_count impl"
  "device_count impl \<le> length (devices impl) \<Longrightarrow> length (devices (map_bound f impl)) = length (devices impl)"
  "idx_ok (map_bound f impl) = idx_ok impl"
  "active_in_buffer_idx (map_bound f impl) = active_in_buffer_idx impl"
  "active_out_buffer_idx (map_bound f impl) = active_out_buffer_idx impl"
  "plc_in_buffer_idx (map_bound f impl) = plc_in_buffer_idx impl"
  "rt_out_buffer_idx (map_bound f impl) = rt_out_buffer_idx impl"
  "iomap (map_bound f impl) = iomap impl" "ctx (map_bound f impl) = ctx impl"
  "fault_latched (map_bound f impl) = fault_latched impl"
  "in_op (map_bound f impl) = in_op impl" "ec_state (map_bound f impl) = ec_state impl"
  "dowkccheck (map_bound f impl) = dowkccheck impl"
  by (simp_all add: map_bound_def set_bound_def idx_ok_def bound_devices_def)

lemma nth_map_bound:
  "device_count impl \<le> length (devices impl) \<Longrightarrow> i < device_count impl
     \<Longrightarrow> devices (map_bound f impl) ! i = f (devices impl ! i)"
  by (simp add: map_bound_def set_bound_def bound_devices_def nth_append)

lemma bound_nth:
  "i < device_count impl \<Longrightarrow> device_count impl \<le> length (devices impl)
     \<Longrightarrow> devices impl ! i \<in> set (bound_devices impl)"
  by (auto simp: bound_devices_def in_set_conv_nth)

lemma ec_inv_map_bound:
  "ec_inv impl \<Longrightarrow> (\<And>dev. dev \<in> set (bound_devices impl) \<Longrightarrow> dev_ok dev \<Longrightarrow> dev_ok (f dev))
     \<Longrightarrow> ec_inv (map_bound f impl)"
  by (auto simp: ec_inv_def)

lemma overwrite_length [simp]: "length bs \<le> length xs \<Longrightarrow> length (overwrite bs xs) = length xs"
  by (simp add: overwrite_def)

lemma dev_ok_buffer:
  assumes "dev_ok dev" "k \<le> 1"
  shows "in_buffers dev ! k = Some b \<Longrightarrow> length b = unat (in_size dev)"
    and "out_buffers dev ! k = Some b \<Longrightarrow> length b = unat (out_size dev)"
  using assms nth_mem [of k "in_buffers dev"] nth_mem [of k "out_buffers dev"]
  by (auto simp: dev_ok_def)

lemma dev_ok_copy_in:
  assumes "dev_ok dev" "dev_mapped (length m) dev" "k \<le> 1"
  shows "dev_ok (copy_in_device m k dev)"
proof (cases "soem_inputs dev")
  case (Some off)
  then have "length (mem_get off (unat (in_size dev)) m) = unat (in_size dev)"
    using assms(2) by (simp add: dev_mapped_def)
  then show ?thesis
    using Some assms(1) dev_ok_buffer(1) [OF assms(1,3)]
    by (cases "in_buffers dev ! k")
       (auto simp: copy_in_device_def dev_ok_def dest!: set_update_cases)
qed (use assms(1) in \<open>simp add: copy_in_device_def\<close>)

lemma dev_ok_copy_out:
  assumes "dev_ok dev" "i \<le> 1" "j \<le> 1"
  shows "dev_ok (copy_out_buffer i j dev)"
  using assms dev_ok_buffer(2) [OF assms(1,2)] dev_ok_buffer(2) [OF assms(1,3)]
  by (cases "out_buffers dev ! i"; cases "out_buffers dev ! j")
     (auto simp: copy_out_buffer_def dev_ok_def dest!: set_update_cases)

lemma dev_ok_map_out:
  assumes "dev_ok dev" "\<And>b. length b = unat (out_size dev) \<Longrightarrow> length (f b) = unat (out_size dev)"
  shows "dev_ok (dev\<lparr>out_buffers := map (map_option f) (out_buffers dev)\<rparr>)"
proof -
  have "length b = unat (out_size dev)" if "Some b \<in> set (map (map_option f) (out_buffers dev))" for b
  proof -
    have "Some b \<in> map_option f ` set (out_buffers dev)" using that by simp
    then obtain x where x: "x \<in> set (out_buffers dev)" "map_option f x = Some b" by (elim imageE) simp
    from x(2) obtain c where "x = Some c" "b = f c" by (cases x) simp_all
    then show ?thesis using x(1) assms by (simp add: dev_ok_def)
  qed
  then show ?thesis using assms(1) by (simp add: dev_ok_def)
qed

lemma dev_ok_zero_out: "dev_ok dev \<Longrightarrow> dev_ok (zero_out_device dev)"
  by (simp add: zero_out_device_def dev_ok_map_out)

lemma dev_ok_free: "dev_ok (free_device_buffers dev)"
  by (auto simp: free_device_buffers_def dev_ok_def)

section \<open>The operations of a cycle keep the invariant\<close>

lemma idx_ok_cases:
  assumes "idx_ok impl"
  obtains "active_out_buffer_idx impl = 0" "rt_out_buffer_idx impl = 1"
  | "active_out_buffer_idx impl = 1" "rt_out_buffer_idx impl = 0"
  using assms by (auto simp: idx_ok_def)

lemma ec_inv_cong:
  "devices impl' = devices impl \<Longrightarrow> device_count impl' = device_count impl \<Longrightarrow> idx_ok impl'
     \<Longrightarrow> ec_inv impl \<Longrightarrow> ec_inv impl'"
  by (simp add: ec_inv_def bound_devices_def)

lemma ec_inv_idx: "ec_inv impl \<Longrightarrow> idx_ok impl" by (simp add: ec_inv_def)

lemma ec_inv_dev: "ec_inv impl \<Longrightarrow> i < device_count impl \<Longrightarrow> dev_ok (devices impl ! i)"
  using bound_nth by (auto simp: ec_inv_def)

lemma ec_inv_copy_out:
  "ec_inv impl \<Longrightarrow> i \<le> 1 \<Longrightarrow> j \<le> 1 \<Longrightarrow> ec_inv (ethercat_copy_out_buffers impl i j)"
  by (simp add: ethercat_copy_out_buffers_def ec_inv_map_bound dev_ok_copy_out)

lemma ec_inv_cycle_begin:
  assumes "ec_inv impl"
  shows "ec_inv (ethercat_cycle_begin impl)"
proof -
  let ?a = "active_out_buffer_idx impl" and ?r = "rt_out_buffer_idx impl"
  have i: "idx_ok impl" using assms by (rule ec_inv_idx)
  have "ec_inv (impl\<lparr>plc_in_buffer_idx := active_in_buffer_idx impl\<rparr>)"
    by (rule ec_inv_cong [OF _ _ _ assms]) (use i in \<open>auto simp: idx_ok_def\<close>)
  moreover have "nat ?a \<le> 1" "nat ?r \<le> 1" using i by (auto simp: idx_ok_def)
  ultimately show ?thesis
    using i by (simp add: ethercat_cycle_begin_def Let_def ec_inv_copy_out)
qed

lemma ec_inv_cycle_end:
  assumes "ec_inv impl"
  shows "ec_inv (ethercat_cycle_end impl)"
proof (rule ec_inv_cong [OF _ _ _ assms])
  show "idx_ok (ethercat_cycle_end impl)"
    by (rule idx_ok_cases [OF ec_inv_idx [OF assms]])
       (use ec_inv_idx [OF assms] in
         \<open>simp_all add: ethercat_cycle_end_def idx_ok_def ethercat_load_buffer_index_def\<close>)
qed (simp_all add: ethercat_cycle_end_def Let_def)

lemma get_input_idx [simp]: "idx_ok impl \<Longrightarrow> ethercat_get_input_data impl dev =
   (if device_count impl \<le> unat dev then (None, 0, impl)
    else (buffer_addr InBuf (unat dev) (nat (plc_in_buffer_idx impl)) (in_buffers (devices impl ! unat dev)),
          in_size (devices impl ! unat dev), impl))"
proof -
  assume "idx_ok impl"
  then have "\<not> (plc_in_buffer_idx impl < 0 \<or> plc_in_buffer_idx impl > 1)" by (auto simp: idx_ok_def)
  then show ?thesis by (simp only: ethercat_get_input_data_def Let_def if_False)
qed

lemma get_output_idx [simp]: "idx_ok impl \<Longrightarrow> ethercat_get_output_data impl dev =
   (if device_count impl \<le> unat dev then (None, 0, impl)
    else (buffer_addr OutBuf (unat dev) (nat (active_out_buffer_idx impl)) (out_buffers (devices impl ! unat dev)),
          out_size (devices impl ! unat dev), impl))"
  by (simp add: ethercat_get_output_data_def Let_def)

section \<open>The process image the PLC sees\<close>

definition ec_in_image :: "'x EthercatDriver \<Rightarrow> nat \<Rightarrow> u8 list option" where
  "ec_in_image impl i = (if i < device_count impl
     then in_buffers (devices impl ! i) ! nat (plc_in_buffer_idx impl) else None)"

definition ec_out_image :: "'x EthercatDriver \<Rightarrow> nat \<Rightarrow> u8 list option" where
  "ec_out_image impl i = (if i < device_count impl
     then out_buffers (devices impl ! i) ! nat (active_out_buffer_idx impl) else None)"

text \<open>What the real-time thread sends for a device while no fault is latched.\<close>

definition ec_rt_image :: "'x EthercatDriver \<Rightarrow> nat \<Rightarrow> u8 list option" where
  "ec_rt_image impl i = (if i < device_count impl
     then out_buffers (devices impl ! i) ! nat (rt_out_buffer_idx impl) else None)"

lemma ec_image_len:
  assumes "ec_inv impl"
  shows "ec_in_image impl i = Some b \<Longrightarrow> length b = unat (in_size (devices impl ! i))"
    and "ec_out_image impl i = Some b \<Longrightarrow> length b = unat (out_size (devices impl ! i))"
    and "ec_rt_image impl i = Some b \<Longrightarrow> length b = unat (out_size (devices impl ! i))"
proof -
  have k: "nat (plc_in_buffer_idx impl) \<le> 1" "nat (active_out_buffer_idx impl) \<le> 1"
      "nat (rt_out_buffer_idx impl) \<le> 1"
    using ec_inv_idx [OF assms] by (auto simp: idx_ok_def)
  note d = dev_ok_buffer [OF ec_inv_dev [OF assms, of i]]
  show "ec_in_image impl i = Some b \<Longrightarrow> length b = unat (in_size (devices impl ! i))"
    using d(1) k(1) by (simp add: ec_in_image_def split: if_splits)
  show "ec_out_image impl i = Some b \<Longrightarrow> length b = unat (out_size (devices impl ! i))"
    using d(2) k(2) by (simp add: ec_out_image_def split: if_splits)
  show "ec_rt_image impl i = Some b \<Longrightarrow> length b = unat (out_size (devices impl ! i))"
    using d(2) k(3) by (simp add: ec_rt_image_def split: if_splits)
qed

text \<open>A store through the output pointer.\<close>

lemma ec_store_out:
  assumes inv: "ec_inv impl" and i: "i < device_count impl" and k: "k = nat (active_out_buffer_idx impl)"
    and len: "length bs = unat (out_size (devices impl ! i))"
  shows "ec_out_image (ec_buf_store impl (OutBuf i k) bs) = (ec_out_image impl)(i \<mapsto> bs)"
    and "ec_in_image (ec_buf_store impl (OutBuf i k) bs) = ec_in_image impl"
    and "ec_rt_image (ec_buf_store impl (OutBuf i k) bs) = ec_rt_image impl"
    and "ec_inv (ec_buf_store impl (OutBuf i k) bs)"
proof -
  let ?dev = "devices impl ! i"
  let ?dev' = "?dev\<lparr>out_buffers := (out_buffers ?dev)[k := Some bs]\<rparr>"
  have st: "ec_buf_store impl (OutBuf i k) bs = impl\<lparr>devices := (devices impl)[i := ?dev']\<rparr>"
    by (simp add: ec_buf_store_def)
  have idx: "idx_ok impl" by (rule ec_inv_idx [OF inv])
  have kb: "k \<le> 1" and kr: "k \<noteq> nat (rt_out_buffer_idx impl)" using idx k by (auto simp: idx_ok_def)
  have dk: "dev_ok ?dev" by (rule ec_inv_dev [OF inv i])
  have cnt: "device_count impl \<le> length (devices impl)" using inv by (simp add: ec_inv_def)
  have "length (out_buffers ?dev) = 2" using dk by (simp add: dev_ok_def)
  then have dk': "dev_ok ?dev'"
    using dk len by (auto simp: dev_ok_def dest!: set_update_cases)
  show "ec_out_image (ec_buf_store impl (OutBuf i k) bs) = (ec_out_image impl)(i \<mapsto> bs)"
    using i cnt kb dk by (auto simp: st ec_out_image_def fun_eq_iff nth_list_update dev_ok_def k [symmetric])
  show "ec_in_image (ec_buf_store impl (OutBuf i k) bs) = ec_in_image impl"
    using i cnt by (auto simp: st ec_in_image_def fun_eq_iff nth_list_update)
  show "ec_rt_image (ec_buf_store impl (OutBuf i k) bs) = ec_rt_image impl"
    using i cnt kr by (auto simp: st ec_rt_image_def fun_eq_iff nth_list_update)
  show "ec_inv (ec_buf_store impl (OutBuf i k) bs)"
    using inv dk' idx i
    by (auto simp: st ec_inv_def bound_devices_def take_update_swap idx_ok_def dest!: set_update_cases)
qed

interpretation ec: process_image "g_ec_ops S P" ethercat_get_input_data ethercat_get_output_data
  ec_in_image ec_out_image ec_inv for S P
proof unfold_locales
  fix d :: "'a EthercatDriver" and dev :: u16 and img bs :: "u8 list" and a sz dv
  show "op_get_input_data (g_ec_ops S P) = Some ethercat_get_input_data"
    and "op_get_output_data (g_ec_ops S P) = Some ethercat_get_output_data"
    by (simp_all add: g_ec_ops_def)
  assume inv: "ec_inv d"
  note idx = ec_inv_idx [OF inv]
  show "ec_in_image d (unat dev) = None \<Longrightarrow> \<exists>sz. ethercat_get_input_data d dev = (None, sz, d)"
    and "ec_out_image d (unat dev) = None \<Longrightarrow> \<exists>sz. ethercat_get_output_data d dev = (None, sz, d)"
    using idx by (auto simp: ec_in_image_def ec_out_image_def buffer_addr_def)
  show "ec_in_image d (unat dev) = Some img \<Longrightarrow> \<exists>a. ethercat_get_input_data d dev =
      (Some a, of_nat (length img), d) \<and> buf_load (g_ec_ops S P) d a = img"
    using idx ec_image_len(1) [OF inv, of "unat dev" img]
    by (auto simp: ec_in_image_def buffer_addr_def g_ec_ops_def ec_buf_load_def split: if_splits)
  show "ec_out_image d (unat dev) = Some img \<Longrightarrow> \<exists>a. ethercat_get_output_data d dev =
      (Some a, of_nat (length img), d) \<and> buf_load (g_ec_ops S P) d a = img"
    using idx ec_image_len(2) [OF inv, of "unat dev" img]
    by (auto simp: ec_out_image_def buffer_addr_def g_ec_ops_def ec_buf_load_def split: if_splits)
  show "ec_out_image d dv = Some img \<or> ec_in_image d dv = Some img \<Longrightarrow> length img < 2 ^ 32"
    using ec_image_len(1,2) [OF inv, of dv img] unat_u32_less by metis
  assume a: "ethercat_get_output_data d dev = (Some a, sz, d)" "ec_out_image d (unat dev) = Some img"
    "length bs = length img"
  then have "a = OutBuf (unat dev) (nat (active_out_buffer_idx d))" "unat dev < device_count d"
    using idx by (auto simp: buffer_addr_def split: if_splits option.splits)
  then show "ec_out_image (buf_store (g_ec_ops S P) d a bs) = (ec_out_image d)(unat dev \<mapsto> bs)
      \<and> ec_in_image (buf_store (g_ec_ops S P) d a bs) = ec_in_image d
      \<and> ec_inv (buf_store (g_ec_ops S P) d a bs)"
    using ec_store_out [OF inv _ refl, of "unat dev" bs] ec_image_len(2) [OF inv a(2)] a(3)
    by (simp add: g_ec_ops_def)
qed

end
