(* ===== verification/Ec_Cycle.thy ===== *)
theory Ec_Cycle
  imports Ec_Image
begin

text \<open>
  What the EtherCAT driver guarantees from cycle to cycle: outputs reach the network as the
  PLC staged them, inputs reach the PLC as they were received, a fault is latched exactly
  by a run of bad cycles and then forces the outputs to zero, and the invariant of the
  buffers survives every operation.
\<close>

section \<open>What each phase leaves alone\<close>

lemma map_bound_eq:
  "map_bound f impl = impl\<lparr>devices := map f (bound_devices impl) @ drop (device_count impl) (devices impl)\<rparr>"
  by (simp add: map_bound_def set_bound_def)

lemma copy_out_to_iomap_simps [simp]:
  "devices (ethercat_copy_out_to_iomap impl k z) = devices impl"
  "device_count (ethercat_copy_out_to_iomap impl k z) = device_count impl"
  "bound_devices (ethercat_copy_out_to_iomap impl k z) = bound_devices impl"
  "idx_ok (ethercat_copy_out_to_iomap impl k z) = idx_ok impl"
  "fault_latched (ethercat_copy_out_to_iomap impl k z) = fault_latched impl"
  "dowkccheck (ethercat_copy_out_to_iomap impl k z) = dowkccheck impl"
  "rt_should_run (ethercat_copy_out_to_iomap impl k z) = rt_should_run impl"
  "active_in_buffer_idx (ethercat_copy_out_to_iomap impl k z) = active_in_buffer_idx impl"
  "plc_in_buffer_idx (ethercat_copy_out_to_iomap impl k z) = plc_in_buffer_idx impl"
  "active_out_buffer_idx (ethercat_copy_out_to_iomap impl k z) = active_out_buffer_idx impl"
  "rt_out_buffer_idx (ethercat_copy_out_to_iomap impl k z) = rt_out_buffer_idx impl"
  by (simp_all add: ethercat_copy_out_to_iomap_def bound_devices_def idx_ok_def)

lemma rt_outputs_eq:
  "idx_ok impl \<Longrightarrow> rt_outputs impl =
     ethercat_copy_out_to_iomap impl (nat (rt_out_buffer_idx impl)) (fault_latched impl \<noteq> 0)"
  by (simp add: rt_outputs_def rt_load_out_def)

lemma ec_exchange_simps [simp]:
  "devices (snd (ec_exchange S impl)) = devices impl"
  "device_count (snd (ec_exchange S impl)) = device_count impl"
  "bound_devices (snd (ec_exchange S impl)) = bound_devices impl"
  "idx_ok (snd (ec_exchange S impl)) = idx_ok impl"
  "fault_latched (snd (ec_exchange S impl)) = fault_latched impl"
  "dowkccheck (snd (ec_exchange S impl)) = dowkccheck impl"
  "rt_should_run (snd (ec_exchange S impl)) = rt_should_run impl"
  "active_in_buffer_idx (snd (ec_exchange S impl)) = active_in_buffer_idx impl"
  "plc_in_buffer_idx (snd (ec_exchange S impl)) = plc_in_buffer_idx impl"
  "active_out_buffer_idx (snd (ec_exchange S impl)) = active_out_buffer_idx impl"
  "rt_out_buffer_idx (snd (ec_exchange S impl)) = rt_out_buffer_idx impl"
  by (simp_all add: ec_exchange_def bound_devices_def idx_ok_def split: prod.split)

lemma rt_state_check_simps [simp]:
  "devices (rt_state_check S impl) = devices impl"
  "device_count (rt_state_check S impl) = device_count impl"
  "bound_devices (rt_state_check S impl) = bound_devices impl"
  "idx_ok (rt_state_check S impl) = idx_ok impl"
  "fault_latched (rt_state_check S impl) = fault_latched impl"
  "dowkccheck (rt_state_check S impl) = dowkccheck impl"
  "rt_should_run (rt_state_check S impl) = rt_should_run impl"
  "iomap (rt_state_check S impl) = iomap impl"
  "active_in_buffer_idx (rt_state_check S impl) = active_in_buffer_idx impl"
  "plc_in_buffer_idx (rt_state_check S impl) = plc_in_buffer_idx impl"
  "active_out_buffer_idx (rt_state_check S impl) = active_out_buffer_idx impl"
  "rt_out_buffer_idx (rt_state_check S impl) = rt_out_buffer_idx impl"
  by (simp_all add: rt_state_check_def bound_devices_def idx_ok_def Let_def)

lemma copy_iomap_to_in_simps [simp]:
  "device_count (ethercat_copy_iomap_to_in impl k) = device_count impl"
  "idx_ok (ethercat_copy_iomap_to_in impl k) = idx_ok impl"
  "fault_latched (ethercat_copy_iomap_to_in impl k) = fault_latched impl"
  "dowkccheck (ethercat_copy_iomap_to_in impl k) = dowkccheck impl"
  "rt_should_run (ethercat_copy_iomap_to_in impl k) = rt_should_run impl"
  "iomap (ethercat_copy_iomap_to_in impl k) = iomap impl"
  "active_in_buffer_idx (ethercat_copy_iomap_to_in impl k) = active_in_buffer_idx impl"
  "plc_in_buffer_idx (ethercat_copy_iomap_to_in impl k) = plc_in_buffer_idx impl"
  "active_out_buffer_idx (ethercat_copy_iomap_to_in impl k) = active_out_buffer_idx impl"
  "rt_out_buffer_idx (ethercat_copy_iomap_to_in impl k) = rt_out_buffer_idx impl"
  by (simp_all add: ethercat_copy_iomap_to_in_def map_bound_eq idx_ok_def split: option.split)

lemma rt_inputs_eq:
  "idx_ok impl \<Longrightarrow> rt_inputs impl =
     (ethercat_copy_iomap_to_in impl (nat (1 - active_in_buffer_idx impl)))
       \<lparr>active_in_buffer_idx := 1 - active_in_buffer_idx impl\<rparr>"
  by (simp add: rt_inputs_def Let_def)

lemma zero_output_buffers_simps [simp]:
  "device_count (ethercat_zero_output_buffers impl) = device_count impl"
  "idx_ok (ethercat_zero_output_buffers impl) = idx_ok impl"
  "fault_latched (ethercat_zero_output_buffers impl) = fault_latched impl"
  "dowkccheck (ethercat_zero_output_buffers impl) = dowkccheck impl"
  "rt_should_run (ethercat_zero_output_buffers impl) = rt_should_run impl"
  "active_in_buffer_idx (ethercat_zero_output_buffers impl) = active_in_buffer_idx impl"
  "plc_in_buffer_idx (ethercat_zero_output_buffers impl) = plc_in_buffer_idx impl"
  "active_out_buffer_idx (ethercat_zero_output_buffers impl) = active_out_buffer_idx impl"
  "rt_out_buffer_idx (ethercat_zero_output_buffers impl) = rt_out_buffer_idx impl"
  by (simp_all add: ethercat_zero_output_buffers_def map_bound_eq idx_ok_def)

lemma rt_timing_simps [simp]:
  "devices (snd (rt_timing now loc impl)) = devices impl"
  "device_count (snd (rt_timing now loc impl)) = device_count impl"
  "bound_devices (snd (rt_timing now loc impl)) = bound_devices impl"
  "idx_ok (snd (rt_timing now loc impl)) = idx_ok impl"
  "fault_latched (snd (rt_timing now loc impl)) = fault_latched impl"
  "dowkccheck (snd (rt_timing now loc impl)) = dowkccheck impl"
  "rt_should_run (snd (rt_timing now loc impl)) = rt_should_run impl"
  "iomap (snd (rt_timing now loc impl)) = iomap impl"
  "plc_in_buffer_idx (snd (rt_timing now loc impl)) = plc_in_buffer_idx impl"
  "active_in_buffer_idx (snd (rt_timing now loc impl)) = active_in_buffer_idx impl"
  "active_out_buffer_idx (snd (rt_timing now loc impl)) = active_out_buffer_idx impl"
  "rt_out_buffer_idx (snd (rt_timing now loc impl)) = rt_out_buffer_idx impl"
  "rl_fail_threshold (fst (rt_timing now loc impl)) = rl_fail_threshold loc"
  "rl_expected_wkc (fst (rt_timing now loc impl)) = rl_expected_wkc loc"
  by (simp_all add: rt_timing_def Let_def bound_devices_def idx_ok_def)

section \<open>The process image in memory\<close>

lemma iomap_put_Some [simp]: "iomap_put off bs (Some m) = Some (mem_put off bs m)"
  by (simp add: iomap_put_def)

definition out_region :: "EthercatDevice \<Rightarrow> nat set" where
  "out_region dev = (case soem_outputs dev of None \<Rightarrow> {} | Some off \<Rightarrow> {off ..< off + unat (out_size dev)})"

text \<open>The output regions of two devices do not overlap.\<close>

fun regions_apart :: "EthercatDevice list \<Rightarrow> bool" where
  "regions_apart [] = True"
| "regions_apart (d # ds) = ((\<forall>e \<in> set ds. out_region e \<inter> out_region d = {}) \<and> regions_apart ds)"

lemma length_device_out_bytes:
  assumes "dev_ok dev" "k \<le> 1"
  shows "length (device_out_bytes k z dev) = unat (out_size dev)"
  using dev_ok_buffer(2) [OF assms] by (auto simp: device_out_bytes_def split: option.split)

text \<open>Both loops over the output regions are one loop that stores \<open>f dev\<close> for each device.\<close>

fun put_loop :: "(EthercatDevice \<Rightarrow> u8 list) \<Rightarrow> EthercatDevice list \<Rightarrow> u8 list \<Rightarrow> u8 list" where
  "put_loop f [] m = m"
| "put_loop f (dev # devs) m =
     put_loop f devs (case soem_outputs dev of None \<Rightarrow> m | Some off \<Rightarrow> mem_put off (f dev) m)"

lemma mem_put_Nil [simp]: "mem_put off [] m = m"
  by (simp add: mem_put_def)

lemma copy_out_loop_put:
  assumes "\<forall>dev \<in> set devs. dev_ok dev" "k \<le> 1"
  shows "copy_out_loop devs k z (Some m) = Some (put_loop (device_out_bytes k z) devs m)"
  using assms
proof (induction devs arbitrary: m)
  case (Cons dev devs)
  then have "out_size dev = 0 \<Longrightarrow> device_out_bytes k z dev = []"
    using length_device_out_bytes [of dev k z] by simp
  with Cons show ?case
    by (auto split: option.split simp: word_gt_0)
qed simp

lemma zero_iomap_loop_put:
  "zero_iomap_loop devs (Some m) = Some (put_loop (\<lambda>dev. replicate (unat (out_size dev)) 0) devs m)"
  by (induction devs arbitrary: m) (auto split: option.split)

lemma length_put_loop:
  assumes "\<forall>dev \<in> set devs. dev_mapped (length m) dev \<and> length (f dev) = unat (out_size dev)"
  shows "length (put_loop f devs m) = length m"
  using assms
proof (induction devs arbitrary: m)
  case (Cons dev devs)
  then have "length (case soem_outputs dev of None \<Rightarrow> m | Some off \<Rightarrow> mem_put off (f dev) m) = length m"
    by (auto simp: dev_mapped_def split: option.split)
  with Cons show ?case by simp
qed simp

lemma nth_put_loop_other:
  assumes "\<forall>dev \<in> set devs. dev_mapped (length m) dev \<and> length (f dev) = unat (out_size dev)"
    and "i < length m" "\<forall>dev \<in> set devs. i \<notin> out_region dev"
  shows "put_loop f devs m ! i = m ! i"
  using assms
proof (induction devs arbitrary: m)
  case (Cons dev devs)
  let ?m = "case soem_outputs dev of None \<Rightarrow> m | Some off \<Rightarrow> mem_put off (f dev) m"
  have "length ?m = length m" and "?m ! i = m ! i"
    using Cons.prems by (auto simp: dev_mapped_def out_region_def nth_mem_put split: option.splits)
  with Cons show ?case by simp
qed simp

lemma mem_get_put_loop:
  assumes "\<forall>dev \<in> set devs. dev_mapped (length m) dev \<and> length (f dev) = unat (out_size dev)"
    and "regions_apart devs" "dev \<in> set devs" "soem_outputs dev = Some off"
  shows "mem_get off (unat (out_size dev)) (put_loop f devs m) = f dev"
  using assms
proof (induction devs arbitrary: m)
  case (Cons d devs)
  let ?m = "case soem_outputs d of None \<Rightarrow> m | Some off \<Rightarrow> mem_put off (f d) m"
  have len: "length ?m = length m"
    using Cons.prems(1) by (auto simp: dev_mapped_def split: option.split)
  have mp: "\<forall>dev \<in> set devs. dev_mapped (length ?m) dev \<and> length (f dev) = unat (out_size dev)"
    using Cons.prems(1) len by simp
  have ra: "regions_apart devs"
    using Cons.prems(2) by simp
  show ?case
  proof (cases "dev \<in> set devs")
    case True
    from Cons.IH [OF mp ra True Cons.prems(4)] show ?thesis by simp
  next
    case False
    then have d: "dev = d" using Cons.prems(3) by simp
    have apart: "out_region e \<inter> out_region d = {}" if "e \<in> set devs" for e
      using that Cons.prems(2) d by simp
    have l: "off + unat (out_size d) \<le> length m" "length (f d) = unat (out_size d)"
      using Cons.prems(1,4) d by (auto simp: dev_mapped_def)
    have m: "?m = mem_put off (f d) m" using Cons.prems(4) d by simp
    have "mem_get off (unat (out_size d)) (put_loop f devs ?m) = mem_get off (unat (out_size d)) ?m"
    proof (rule nth_equalityI)
      show "length (mem_get off (unat (out_size d)) (put_loop f devs ?m)) = length (mem_get off (unat (out_size d)) ?m)"
        using length_put_loop [OF mp] by (simp add: mem_get_def)
      fix i assume "i < length (mem_get off (unat (out_size d)) (put_loop f devs ?m))"
      then have i: "i < unat (out_size d)" using l len length_put_loop [OF mp] by (simp add: mem_get_def)
      then have "off + i \<in> out_region d" using Cons.prems(4) d by (simp add: out_region_def)
      then have "put_loop f devs ?m ! (off + i) = ?m ! (off + i)"
        using apart i l len by (intro nth_put_loop_other [OF mp]) auto
      then show "mem_get off (unat (out_size d)) (put_loop f devs ?m) ! i = mem_get off (unat (out_size d)) ?m ! i"
        using i l len length_put_loop [OF mp] by (simp add: mem_get_def)
    qed
    then show ?thesis using m l d by (simp add: mem_get_put_same)
  qed
qed simp

section \<open>The invariant through a real-time cycle\<close>

lemma dev_fields_copy_in [simp]:
  "out_buffers (copy_in_device m k dev) = out_buffers dev" "out_size (copy_in_device m k dev) = out_size dev"
  "in_size (copy_in_device m k dev) = in_size dev" "soem_outputs (copy_in_device m k dev) = soem_outputs dev"
  "soem_inputs (copy_in_device m k dev) = soem_inputs dev"
  by (simp_all add: copy_in_device_def split: option.split)

lemma dev_fields_zero_out [simp]:
  "in_buffers (zero_out_device dev) = in_buffers dev" "out_size (zero_out_device dev) = out_size dev"
  "in_size (zero_out_device dev) = in_size dev" "soem_outputs (zero_out_device dev) = soem_outputs dev"
  "soem_inputs (zero_out_device dev) = soem_inputs dev"
  by (simp_all add: zero_out_device_def)

lemma ec_inv_rt_inputs:
  assumes inv: "ec_inv impl" and mp: "ec_mapped impl"
  shows "ec_inv (rt_inputs impl)"
proof -
  have idx: "idx_ok impl" by (rule ec_inv_idx [OF inv])
  then have k: "nat (1 - active_in_buffer_idx impl) \<le> 1" by (auto simp: idx_ok_def)
  have "ec_inv (ethercat_copy_iomap_to_in impl (nat (1 - active_in_buffer_idx impl)))"
  proof (cases "iomap impl")
    case (Some m)
    then show ?thesis
      using mp k by (simp add: ethercat_copy_iomap_to_in_def)
        (rule ec_inv_map_bound [OF inv], simp add: dev_ok_copy_in ec_mapped_def)
  qed (use inv in \<open>simp add: ethercat_copy_iomap_to_in_def\<close>)
  then show ?thesis
    unfolding rt_inputs_eq [OF idx]
    by (rule ec_inv_cong [rotated 3]) (use idx in \<open>auto simp: idx_ok_def\<close>)
qed

lemma ec_inv_zero_out: "ec_inv impl \<Longrightarrow> ec_inv (ethercat_zero_output_buffers impl)"
  using ec_inv_map_bound [of impl zero_out_device, OF _ dev_ok_zero_out]
  by (simp add: ethercat_zero_output_buffers_def ec_inv_def bound_devices_def idx_ok_def)

lemma rt_supervise_cases:
  "rt_supervise loc wkc impl =
     (let d = (if rt_bad_cycle loc wkc impl
               then (if dowkccheck impl < - 1 then dowkccheck impl + 1 else dowkccheck impl) else 0);
          latch = rl_fail_threshold loc \<le> d;
          impl1 = impl\<lparr>dowkccheck := d, fault_latched := (if latch then 1 else fault_latched impl)\<rparr>
      in (if latch \<and> fault_latched impl = 0 then ethercat_zero_output_buffers impl1 else impl1)
           \<lparr>in_op := ec_state impl = EC_STATE_OPERATIONAL \<and> d < rl_warn_threshold loc\<rparr>)"
  by (simp add: rt_supervise_def Let_def)

lemma ec_inv_rt_supervise: "ec_inv impl \<Longrightarrow> ec_inv (rt_supervise loc wkc impl)"
  using ec_inv_zero_out [of "impl\<lparr>dowkccheck := d, fault_latched := f\<rparr>" for d f]
  by (auto simp: rt_supervise_cases Let_def ec_inv_def bound_devices_def idx_ok_def)

lemma ec_inv_frame:
  "devices impl' = devices impl \<Longrightarrow> device_count impl' = device_count impl \<Longrightarrow> idx_ok impl' = idx_ok impl
     \<Longrightarrow> ec_inv impl' = ec_inv impl"
  by (simp add: ec_inv_def bound_devices_def)

text \<open>
  The documented behaviour of the library calls on the process image: they fill it in place,
  so it neither appears, disappears nor changes its size.
\<close>

definition same_size :: "u8 list option \<Rightarrow> u8 list option \<Rightarrow> bool" where
  "same_size m m' \<longleftrightarrow> map_option length m' = map_option length m"

definition soem_image_ok :: "'x soem \<Rightarrow> bool" where
  "soem_image_ok S \<longleftrightarrow> (\<forall>c m. same_size m (snd (snd (ecx_receive_processdata S c m))))
     \<and> (\<forall>c m. length (snd (snd (ecx_config_map_group S c m))) = length m)"

lemma ec_mapped_cong:
  "same_size (iomap impl) (iomap impl') \<Longrightarrow>
     (\<And>n. (\<forall>dev \<in> set (bound_devices impl'). dev_mapped n dev) = (\<forall>dev \<in> set (bound_devices impl). dev_mapped n dev))
     \<Longrightarrow> ec_mapped impl' = ec_mapped impl"
  by (cases "iomap impl"; cases "iomap impl'") (simp_all add: ec_mapped_def same_size_def)

lemma same_size_exchange:
  "soem_image_ok S \<Longrightarrow> same_size (iomap impl) (iomap (snd (ec_exchange S impl)))"
  by (simp add: soem_image_ok_def ec_exchange_def split: prod.split) (metis snd_conv)

lemma same_size_copy_out:
  assumes "ec_inv impl" "ec_mapped impl" "k \<le> 1"
  shows "same_size (iomap impl) (iomap (ethercat_copy_out_to_iomap impl k z))"
proof (cases "iomap impl")
  case None
  have "copy_out_loop devs k z None = None" for devs
    by (induction devs) (auto simp: iomap_put_def split: option.split)
  then show ?thesis using None by (simp add: same_size_def ethercat_copy_out_to_iomap_def)
next
  case (Some m)
  have "\<forall>dev \<in> set (bound_devices impl). dev_ok dev" using assms(1) by (simp add: ec_inv_def)
  moreover have "length (put_loop (device_out_bytes k z) (bound_devices impl) m) = length m"
    using assms Some by (intro length_put_loop) (auto simp: ec_mapped_def ec_inv_def length_device_out_bytes)
  ultimately show ?thesis
    using Some assms(3) by (simp add: same_size_def ethercat_copy_out_to_iomap_def copy_out_loop_put)
qed

lemma same_size_zero_out:
  assumes "ec_mapped impl"
  shows "same_size (iomap impl) (iomap (ethercat_zero_output_buffers impl))"
proof (cases "iomap impl")
  case None
  have "zero_iomap_loop devs None = None" for devs
    by (induction devs) (auto simp: iomap_put_def split: option.split)
  then show ?thesis using None by (simp add: same_size_def ethercat_zero_output_buffers_def)
next
  case (Some m)
  have "length (put_loop (\<lambda>dev. replicate (unat (out_size dev)) 0) (bound_devices impl) m) = length m"
    using assms Some by (intro length_put_loop) (auto simp: ec_mapped_def)
  then show ?thesis
    using Some by (simp add: same_size_def ethercat_zero_output_buffers_def zero_iomap_loop_put)
qed

lemma same_size_trans: "same_size a b \<Longrightarrow> same_size b c \<Longrightarrow> same_size a c"
  and same_size_refl [simp]: "same_size a a"
  by (simp_all add: same_size_def)

definition same_layout :: "'x EthercatDriver \<Rightarrow> 'x EthercatDriver \<Rightarrow> bool" where
  "same_layout impl impl' \<longleftrightarrow> same_size (iomap impl) (iomap impl')
     \<and> map (\<lambda>d. (soem_inputs d, soem_outputs d, in_size d, out_size d)) (bound_devices impl') =
       map (\<lambda>d. (soem_inputs d, soem_outputs d, in_size d, out_size d)) (bound_devices impl)"

lemma same_layout_trans: "same_layout a b \<Longrightarrow> same_layout b c \<Longrightarrow> same_layout a c"
  by (auto simp: same_layout_def intro: same_size_trans)

lemma same_layout_mapped:
  assumes "same_layout impl impl'" "ec_mapped impl"
  shows "ec_mapped impl'"
proof -
  let ?f = "\<lambda>d. (soem_inputs d, soem_outputs d, in_size d, out_size d)"
  let ?P = "\<lambda>n (i, oo, is, os). (\<forall>off. i = Some off \<longrightarrow> off + unat is \<le> n)
     \<and> (\<forall>off. oo = Some off \<longrightarrow> off + unat (os :: u32) \<le> n)"
  have *: "(\<forall>dev \<in> set ds. dev_mapped n dev) = (\<forall>x \<in> set (map ?f ds). ?P n x)" for ds n
    by (simp add: dev_mapped_def)
  show ?thesis
    using assms ec_mapped_cong [of impl impl'] unfolding same_layout_def * by simp
qed

lemma same_layout_phases:
  assumes inv: "ec_inv impl" and mp: "ec_mapped impl"
  shows "same_layout impl (rt_outputs impl)"
    and "soem_image_ok S \<Longrightarrow> same_layout impl (snd (ec_exchange S impl))"
    and "same_layout impl (rt_state_check S impl)"
    and "same_layout impl (rt_inputs impl)"
    and "same_layout impl (ethercat_zero_output_buffers impl)"
    and "same_layout impl (rt_supervise loc wkc impl)"
    and "same_layout impl (snd (rt_timing now loc impl))"
proof -
  have idx: "idx_ok impl" by (rule ec_inv_idx [OF inv])
  have cnt: "device_count impl \<le> length (devices impl)" using inv by (simp add: ec_inv_def)
  have "nat (rt_out_buffer_idx impl) \<le> 1" using idx by (auto simp: idx_ok_def)
  then show "same_layout impl (rt_outputs impl)"
    using same_size_copy_out [OF inv mp] idx by (simp add: same_layout_def rt_outputs_eq)
  show "same_layout impl (snd (ec_exchange S impl))" if "soem_image_ok S"
    using that by (simp add: same_layout_def same_size_exchange)
  show "same_layout impl (rt_state_check S impl)" "same_layout impl (snd (rt_timing now loc impl))"
    by (simp_all add: same_layout_def)
  show "same_layout impl (rt_inputs impl)"
    using cnt idx
    by (simp add: same_layout_def rt_inputs_eq ethercat_copy_iomap_to_in_def bound_devices_def
        map_bound_eq split: option.split)
  show z: "same_layout impl (ethercat_zero_output_buffers impl)"
    using cnt same_size_zero_out [OF mp]
    by (simp add: same_layout_def ethercat_zero_output_buffers_def bound_devices_def map_bound_eq)
  have "same_layout impl (impl1\<lparr>in_op := b\<rparr>)"
    if "same_layout impl impl1" for impl1 b
    using that by (simp add: same_layout_def bound_devices_def)
  moreover have "same_layout impl (ethercat_zero_output_buffers (impl\<lparr>dowkccheck := d, fault_latched := f\<rparr>))" for d f
    using z by (simp add: same_layout_def ethercat_zero_output_buffers_def bound_devices_def map_bound_eq)
  moreover have "same_layout impl (impl\<lparr>dowkccheck := d, fault_latched := f\<rparr>)" for d f
    by (simp add: same_layout_def bound_devices_def)
  ultimately show "same_layout impl (rt_supervise loc wkc impl)"
    by (simp add: rt_supervise_cases Let_def)
qed

text \<open>The states a cycle passes through, each of them well formed.\<close>

definition rt_before_supervise :: "'x soem \<Rightarrow> 'x EthercatDriver \<Rightarrow> int \<times> 'x EthercatDriver" where
  "rt_before_supervise S impl =
     (let (wkc, impl2) = ec_exchange S (rt_outputs impl)
      in (wkc, rt_inputs (rt_state_check S (impl2\<lparr>last_wkc := wkc\<rparr>))))"

lemma rt_cycle_eq:
  "rt_cycle S now (loc, impl) =
     (let (wkc, impl4) = rt_before_supervise S impl in rt_timing now loc (rt_supervise loc wkc impl4))"
  by (simp add: rt_cycle_def rt_before_supervise_def Let_def split: prod.split)

definition ec_ok :: "'x EthercatDriver \<Rightarrow> bool" where
  "ec_ok impl \<longleftrightarrow> ec_inv impl \<and> ec_mapped impl"

lemma last_wkc_frame [simp]:
  "ec_inv (impl\<lparr>last_wkc := w\<rparr>) = ec_inv impl" "ec_mapped (impl\<lparr>last_wkc := w\<rparr>) = ec_mapped impl"
  "same_layout i1 (impl\<lparr>last_wkc := w\<rparr>) = same_layout i1 impl"
  "same_layout (impl\<lparr>last_wkc := w\<rparr>) i2 = same_layout impl i2"
  by (simp_all add: ec_inv_def ec_mapped_def same_layout_def bound_devices_def idx_ok_def)

lemma ec_inv_phases [simp]:
  "ec_inv impl \<Longrightarrow> ec_inv (rt_outputs impl)"
  "ec_inv (snd (ec_exchange S impl)) = ec_inv impl"
  "ec_inv (rt_state_check S impl) = ec_inv impl"
  "ec_inv (snd (rt_timing now loc impl)) = ec_inv impl"
  by (simp_all add: rt_outputs_eq ec_inv_idx ec_inv_frame ec_inv_def)

lemma ec_ok_layout: "ec_ok impl \<Longrightarrow> same_layout impl impl' \<Longrightarrow> ec_inv impl' \<Longrightarrow> ec_ok impl'"
  using same_layout_mapped [of impl impl'] by (simp add: ec_ok_def)

lemma rt_before_supervise_ok:
  assumes ok: "ec_ok impl" and S: "soem_image_ok S"
  shows "ec_ok (snd (rt_before_supervise S impl)) \<and> same_layout impl (snd (rt_before_supervise S impl))"
proof -
  let ?i1 = "rt_outputs impl" let ?i2 = "snd (ec_exchange S ?i1)"
  let ?i3 = "rt_state_check S (?i2\<lparr>last_wkc := fst (ec_exchange S ?i1)\<rparr>)"
  have io: "ec_inv impl" "ec_mapped impl" using ok by (auto simp: ec_ok_def)
  have 1: "same_layout impl ?i1" by (rule same_layout_phases(1) [OF io])
  have ok1: "ec_ok ?i1" by (rule ec_ok_layout [OF ok 1]) (simp add: io)
  then have io1: "ec_inv ?i1" "ec_mapped ?i1" by (auto simp: ec_ok_def)
  have 2: "same_layout ?i1 ?i2" by (rule same_layout_phases(2) [OF io1 S])
  have ok2: "ec_ok ?i2" by (rule ec_ok_layout [OF ok1 2]) (simp add: io1)
  then have io2: "ec_inv (?i2\<lparr>last_wkc := w\<rparr>)" "ec_mapped (?i2\<lparr>last_wkc := w\<rparr>)" for w
    by (auto simp: ec_ok_def)
  have 3: "same_layout ?i2 ?i3" using same_layout_phases(3) [OF io2] by simp
  have ok3: "ec_ok ?i3" by (rule ec_ok_layout [OF ok2 3]) (use io2 in simp)
  then have io3: "ec_inv ?i3" "ec_mapped ?i3" by (auto simp: ec_ok_def)
  have 4: "same_layout ?i3 (rt_inputs ?i3)" by (rule same_layout_phases(4) [OF io3])
  have "ec_ok (rt_inputs ?i3)" by (rule ec_ok_layout [OF ok3 4 ec_inv_rt_inputs [OF io3]])
  moreover have "same_layout impl (rt_inputs ?i3)"
    by (rule same_layout_trans [OF 1 same_layout_trans [OF 2 same_layout_trans [OF 3 4]]])
  ultimately have "ec_ok (rt_inputs ?i3) \<and> same_layout impl (rt_inputs ?i3)" ..
  then show ?thesis by (simp add: rt_before_supervise_def case_prod_unfold Let_def)
qed

lemma rt_cycle_ok:
  assumes "ec_ok impl" "soem_image_ok S"
  shows "ec_ok (snd (rt_cycle S now (loc, impl)))"
proof -
  obtain wkc i4 where i4: "rt_before_supervise S impl = (wkc, i4)" by fastforce
  then have ok: "ec_ok i4" using rt_before_supervise_ok [OF assms] by simp
  then have io: "ec_inv i4" "ec_mapped i4" by (auto simp: ec_ok_def)
  have 5: "ec_ok (rt_supervise loc wkc i4)"
    using ec_ok_layout [OF ok same_layout_phases(6) [OF io]] ec_inv_rt_supervise [OF io(1)] .
  then have "ec_ok (snd (rt_timing now loc (rt_supervise loc wkc i4)))"
    using ec_ok_layout [OF 5 same_layout_phases(7)] by (simp add: ec_ok_def)
  then show ?thesis by (simp add: rt_cycle_eq i4)
qed

section \<open>Outputs\<close>

lemma put_loop_regions:
  assumes ok: "ec_ok impl" and m: "iomap impl = Some m"
    and ra: "regions_apart (bound_devices impl)" and i: "i < device_count impl"
    and off: "soem_outputs (devices impl ! i) = Some off"
    and f: "\<forall>dev \<in> set (bound_devices impl). length (f dev) = unat (out_size dev)"
  shows "mem_get off (unat (out_size (devices impl ! i))) (put_loop f (bound_devices impl) m)
    = f (devices impl ! i)"
proof -
  have "devices impl ! i \<in> set (bound_devices impl)"
    using ok i by (intro bound_nth) (auto simp: ec_ok_def ec_inv_def)
  then show ?thesis
    using ok m f off by (intro mem_get_put_loop [OF _ ra]) (auto simp: ec_ok_def ec_mapped_def)
qed

lemma rt_outputs_region:
  assumes ok: "ec_ok impl" and m: "iomap impl = Some m"
    and ra: "regions_apart (bound_devices impl)" and i: "i < device_count impl"
    and off: "soem_outputs (devices impl ! i) = Some off"
  shows "mem_get off (unat (out_size (devices impl ! i))) (the (iomap (rt_outputs impl))) =
    (if fault_latched impl \<noteq> 0 then replicate (unat (out_size (devices impl ! i))) 0
     else case ec_rt_image impl i of None \<Rightarrow> replicate (unat (out_size (devices impl ! i))) 0 | Some b \<Rightarrow> b)"
proof -
  let ?k = "nat (rt_out_buffer_idx impl)" and ?z = "fault_latched impl \<noteq> 0"
  have inv: "ec_inv impl" using ok by (simp add: ec_ok_def)
  then have idx: "idx_ok impl" by (rule ec_inv_idx)
  then have k: "?k \<le> 1" by (auto simp: idx_ok_def)
  have devs: "\<forall>dev \<in> set (bound_devices impl). dev_ok dev" using inv by (simp add: ec_inv_def)
  have "iomap (rt_outputs impl) = Some (put_loop (device_out_bytes ?k ?z) (bound_devices impl) m)"
    using idx m copy_out_loop_put [OF devs k]
    by (simp add: rt_outputs_eq ethercat_copy_out_to_iomap_def)
  moreover have "mem_get off (unat (out_size (devices impl ! i)))
      (put_loop (device_out_bytes ?k ?z) (bound_devices impl) m) = device_out_bytes ?k ?z (devices impl ! i)"
    using devs k by (intro put_loop_regions [OF ok m ra i off]) (simp add: length_device_out_bytes)
  moreover have "out_buffers (devices impl ! i) ! ?k = Some b \<Longrightarrow> length b = unat (out_size (devices impl ! i))" for b
    using dev_ok_buffer(2) [OF ec_inv_dev [OF inv i] k] .
  ultimately show ?thesis
    using i by (auto simp: device_out_bytes_def ec_rt_image_def split: option.split)
qed

lemma cycle_end_simps [simp]:
  "devices (ethercat_cycle_end impl) = devices impl"
  "device_count (ethercat_cycle_end impl) = device_count impl"
  "iomap (ethercat_cycle_end impl) = iomap impl"
  "fault_latched (ethercat_cycle_end impl) = fault_latched impl"
  "bound_devices (ethercat_cycle_end impl) = bound_devices impl"
  by (simp_all add: ethercat_cycle_end_def Let_def bound_devices_def)

lemma cycle_end_images:
  assumes "ec_inv impl"
  shows "ec_rt_image (ethercat_cycle_end impl) = ec_out_image impl"
    and "ec_out_image (ethercat_cycle_end impl) = ec_rt_image impl"
proof -
  have idx: "idx_ok impl" by (rule ec_inv_idx [OF assms])
  have "rt_out_buffer_idx (ethercat_cycle_end impl) = active_out_buffer_idx impl"
    "active_out_buffer_idx (ethercat_cycle_end impl) = rt_out_buffer_idx impl"
    using idx by (auto simp: ethercat_cycle_end_def Let_def idx_ok_def ethercat_load_buffer_index_def)
  then show "ec_rt_image (ethercat_cycle_end impl) = ec_out_image impl"
    "ec_out_image (ethercat_cycle_end impl) = ec_rt_image impl"
    by (auto simp: ec_rt_image_def ec_out_image_def)
qed

lemma ec_ok_cycle_end: "ec_ok impl \<Longrightarrow> ec_ok (ethercat_cycle_end impl)"
  by (simp add: ec_ok_def ec_inv_cycle_end ec_mapped_def)

text \<open>All buffers are allocated, as after a successful \<^verbatim>\<open>ethercat_finalize_mapping\<close>.\<close>

definition ec_ready :: "'x EthercatDriver \<Rightarrow> bool" where
  "ec_ready impl \<longleftrightarrow> ec_ok impl \<and> iomap impl \<noteq> None
     \<and> (\<forall>dev \<in> set (bound_devices impl). None \<notin> set (in_buffers dev) \<and> None \<notin> set (out_buffers dev))"

lemma ec_ready_buffer:
  assumes "ec_ready impl" "i < device_count impl" "k \<le> 1"
  obtains a b where "in_buffers (devices impl ! i) ! k = Some a" "out_buffers (devices impl ! i) ! k = Some b"
    "length a = unat (in_size (devices impl ! i))" "length b = unat (out_size (devices impl ! i))"
proof -
  let ?dev = "devices impl ! i"
  have inv: "ec_inv impl" using assms(1) by (simp add: ec_ready_def ec_ok_def)
  have ok: "dev_ok ?dev" by (rule ec_inv_dev [OF inv assms(2)])
  have "?dev \<in> set (bound_devices impl)" using assms(2) inv by (intro bound_nth) (auto simp: ec_inv_def)
  then have "None \<notin> set (in_buffers ?dev)" "None \<notin> set (out_buffers ?dev)"
    using assms(1) by (auto simp: ec_ready_def)
  moreover have "k < length (in_buffers ?dev)" "k < length (out_buffers ?dev)"
    using ok assms(3) by (auto simp: dev_ok_def)
  ultimately have "in_buffers ?dev ! k \<noteq> None" "out_buffers ?dev ! k \<noteq> None"
    by (metis nth_mem)+
  then show thesis using that dev_ok_buffer [OF ok assms(3)] by blast
qed

lemma cycle_begin_images:
  assumes ready: "ec_ready impl" and i: "i < device_count impl"
  shows "ec_out_image (ethercat_cycle_begin impl) i = ec_rt_image impl i"
    and "ec_rt_image (ethercat_cycle_begin impl) i = ec_rt_image impl i"
    and "ec_in_image (ethercat_cycle_begin impl) i =
      in_buffers (devices impl ! i) ! nat (active_in_buffer_idx impl)"
proof -
  have inv: "ec_inv impl" using ready by (simp add: ec_ready_def ec_ok_def)
  have idx: "idx_ok impl" by (rule ec_inv_idx [OF inv])
  let ?a = "nat (active_out_buffer_idx impl)" and ?r = "nat (rt_out_buffer_idx impl)"
  have k: "?a \<le> 1" "?r \<le> 1" "?a \<noteq> ?r" using idx by (auto simp: idx_ok_def)
  obtain a where a: "out_buffers (devices impl ! i) ! ?a = Some a" "length a = unat (out_size (devices impl ! i))"
    by (rule ec_ready_buffer [OF ready i k(1)]) blast
  obtain b where b: "out_buffers (devices impl ! i) ! ?r = Some b" "length b = unat (out_size (devices impl ! i))"
    by (rule ec_ready_buffer [OF ready i k(2)]) blast
  have cnt: "device_count impl \<le> length (devices impl)" using inv by (simp add: ec_inv_def)
  have len: "length (out_buffers (devices impl ! i)) = 2" using ec_inv_dev [OF inv i] by (simp add: dev_ok_def)
  have eq: "ethercat_cycle_begin impl =
      map_bound (copy_out_buffer ?r ?a) (impl\<lparr>plc_in_buffer_idx := active_in_buffer_idx impl\<rparr>)"
    using idx k by (simp add: ethercat_cycle_begin_def Let_def ethercat_copy_out_buffers_def)
  have dev: "devices (ethercat_cycle_begin impl) ! i = copy_out_buffer ?r ?a (devices impl ! i)"
    unfolding eq using i cnt by (subst nth_map_bound) simp_all
  have "copy_out_buffer ?r ?a (devices impl ! i) =
      (devices impl ! i)\<lparr>out_buffers := (out_buffers (devices impl ! i))[?a := Some b]\<rparr>"
    using a b by (auto simp: copy_out_buffer_def overwrite_def word_gt_0)
      (metis a(1) list_update_id EthercatDevice.surjective EthercatDevice.update_convs(7))
  then show "ec_out_image (ethercat_cycle_begin impl) i = ec_rt_image impl i"
    and "ec_rt_image (ethercat_cycle_begin impl) i = ec_rt_image impl i"
    and "ec_in_image (ethercat_cycle_begin impl) i =
      in_buffers (devices impl ! i) ! nat (active_in_buffer_idx impl)"
    using dev i b k len
    by (simp_all add: ec_out_image_def ec_rt_image_def ec_in_image_def eq)
qed

section \<open>Inputs\<close>

lemma rt_outputs_simps [simp]:
  "idx_ok impl \<Longrightarrow> devices (rt_outputs impl) = devices impl"
  "idx_ok impl \<Longrightarrow> device_count (rt_outputs impl) = device_count impl"
  "idx_ok impl \<Longrightarrow> active_in_buffer_idx (rt_outputs impl) = active_in_buffer_idx impl"
  "idx_ok impl \<Longrightarrow> plc_in_buffer_idx (rt_outputs impl) = plc_in_buffer_idx impl"
  "idx_ok impl \<Longrightarrow> active_out_buffer_idx (rt_outputs impl) = active_out_buffer_idx impl"
  "idx_ok impl \<Longrightarrow> rt_out_buffer_idx (rt_outputs impl) = rt_out_buffer_idx impl"
  "idx_ok impl \<Longrightarrow> idx_ok (rt_outputs impl)"
  "idx_ok impl \<Longrightarrow> fault_latched (rt_outputs impl) = fault_latched impl"
  "idx_ok impl \<Longrightarrow> dowkccheck (rt_outputs impl) = dowkccheck impl"
  "idx_ok impl \<Longrightarrow> rt_should_run (rt_outputs impl) = rt_should_run impl"
  by (simp_all add: rt_outputs_eq)

lemma rt_inputs_buffers:
  assumes inv: "ec_inv impl" and i: "i < device_count impl" and m: "iomap impl = Some m" and k: "k \<le> 1"
    and off: "soem_inputs (devices impl ! i) = Some off"
    and b: "in_buffers (devices impl ! i) ! nat (1 - active_in_buffer_idx impl) = Some b"
    and mp: "off + unat (in_size (devices impl ! i)) \<le> length m"
  shows "in_buffers (devices (rt_inputs impl) ! i) ! k =
    (if k = nat (1 - active_in_buffer_idx impl) then Some (mem_get off (unat (in_size (devices impl ! i))) m)
     else in_buffers (devices impl ! i) ! k)"
proof -
  let ?n = "nat (1 - active_in_buffer_idx impl)" and ?dev = "devices impl ! i"
  have idx: "idx_ok impl" by (rule ec_inv_idx [OF inv])
  then have n: "?n \<le> 1" by (auto simp: idx_ok_def)
  have ok: "dev_ok ?dev" by (rule ec_inv_dev [OF inv i])
  have "devices (rt_inputs impl) ! i = copy_in_device m ?n ?dev"
    using idx i inv by (simp add: rt_inputs_eq m ethercat_copy_iomap_to_in_def nth_map_bound ec_inv_def)
  moreover have "length b = unat (in_size ?dev)" by (rule dev_ok_buffer(1) [OF ok n b])
  moreover have "length (in_buffers ?dev) = 2" using ok by (simp add: dev_ok_def)
  ultimately show ?thesis
    using off b k n mp
    by (auto simp: copy_in_device_def overwrite_def nth_list_update word_gt_0 mem_get_def)
qed

lemma rt_supervise_in_buffers:
  "ec_inv impl \<Longrightarrow> i < device_count impl \<Longrightarrow>
     in_buffers (devices (rt_supervise loc wkc impl) ! i) = in_buffers (devices impl ! i)"
  by (simp add: rt_supervise_cases Let_def ethercat_zero_output_buffers_def map_bound_eq bound_devices_def
      ec_inv_def nth_append)

lemma rt_supervise_simps [simp]:
  "device_count (rt_supervise loc wkc impl) = device_count impl"
  "active_in_buffer_idx (rt_supervise loc wkc impl) = active_in_buffer_idx impl"
  "plc_in_buffer_idx (rt_supervise loc wkc impl) = plc_in_buffer_idx impl"
  "active_out_buffer_idx (rt_supervise loc wkc impl) = active_out_buffer_idx impl"
  "rt_out_buffer_idx (rt_supervise loc wkc impl) = rt_out_buffer_idx impl"
  "rt_should_run (rt_supervise loc wkc impl) = rt_should_run impl"
  by (simp_all add: rt_supervise_cases Let_def)

lemma rt_inputs_simps [simp]:
  "idx_ok impl \<Longrightarrow> device_count (rt_inputs impl) = device_count impl"
  "idx_ok impl \<Longrightarrow> active_in_buffer_idx (rt_inputs impl) = 1 - active_in_buffer_idx impl"
  "idx_ok impl \<Longrightarrow> plc_in_buffer_idx (rt_inputs impl) = plc_in_buffer_idx impl"
  "idx_ok impl \<Longrightarrow> active_out_buffer_idx (rt_inputs impl) = active_out_buffer_idx impl"
  "idx_ok impl \<Longrightarrow> rt_out_buffer_idx (rt_inputs impl) = rt_out_buffer_idx impl"
  "idx_ok impl \<Longrightarrow> fault_latched (rt_inputs impl) = fault_latched impl"
  "idx_ok impl \<Longrightarrow> dowkccheck (rt_inputs impl) = dowkccheck impl"
  "idx_ok impl \<Longrightarrow> rt_should_run (rt_inputs impl) = rt_should_run impl"
  by (simp_all add: rt_inputs_eq)

text \<open>The image as the network left it in this cycle.\<close>

definition ec_received :: "'x soem \<Rightarrow> 'x EthercatDriver \<Rightarrow> u8 list" where
  "ec_received S impl = the (iomap (snd (ec_exchange S (rt_outputs impl))))"

lemma rt_cycle_inputs:
  assumes ok: "ec_ok impl" and S: "soem_image_ok S" and io: "iomap impl \<noteq> None"
    and i: "i < device_count impl" and off: "soem_inputs (devices impl ! i) = Some off"
    and b: "in_buffers (devices impl ! i) ! nat (1 - active_in_buffer_idx impl) = Some b"
    and k: "k \<le> 1" and impl': "impl' = snd (rt_cycle S now (loc, impl))"
  shows "in_buffers (devices impl' ! i) ! k =
      (if k = nat (1 - active_in_buffer_idx impl)
       then Some (mem_get off (unat (in_size (devices impl ! i))) (ec_received S impl))
       else in_buffers (devices impl ! i) ! k)"
    and "active_in_buffer_idx impl' = 1 - active_in_buffer_idx impl"
    and "plc_in_buffer_idx impl' = plc_in_buffer_idx impl"
    and "device_count impl' = device_count impl"
proof -
  have inv: "ec_inv impl" and mp: "ec_mapped impl" using ok by (auto simp: ec_ok_def)
  have idx: "idx_ok impl" by (rule ec_inv_idx [OF inv])
  let ?i1 = "rt_outputs impl"
  obtain wkc i2 where i2: "ec_exchange S ?i1 = (wkc, i2)" by fastforce
  define i3 where "i3 = rt_state_check S (i2\<lparr>last_wkc := wkc\<rparr>)"
  have f2: "devices i2 = devices impl" "device_count i2 = device_count impl"
    "active_in_buffer_idx i2 = active_in_buffer_idx impl" "plc_in_buffer_idx i2 = plc_in_buffer_idx impl"
    "idx_ok i2" "ec_inv i2"
    using ec_exchange_simps [of S ?i1] ec_inv_phases(2) [of S ?i1] ec_inv_phases(1) [OF inv] idx i2 by simp_all
  then have f3: "devices i3 = devices impl" "device_count i3 = device_count impl"
    "active_in_buffer_idx i3 = active_in_buffer_idx impl" "plc_in_buffer_idx i3 = plc_in_buffer_idx impl"
    "idx_ok i3" "ec_inv i3" "iomap i3 = iomap i2"
    by (simp_all add: i3_def idx_ok_def)
  have "same_size (iomap ?i1) (iomap i2)" using same_size_exchange [OF S, of ?i1] i2 by simp
  moreover have "same_size (iomap impl) (iomap ?i1)"
    using same_layout_phases(1) [OF inv mp] by (simp add: same_layout_def)
  ultimately have sz: "same_size (iomap impl) (iomap i2)" using same_size_trans by blast
  then obtain m where m: "iomap i2 = Some m" "m = ec_received S impl"
    using io i2 by (cases "iomap i2") (auto simp: same_size_def ec_received_def)
  have "off + unat (in_size (devices impl ! i)) \<le> length m"
    using mp sz m i off inv bound_nth [of i impl]
    by (cases "iomap impl") (auto simp: ec_mapped_def dev_mapped_def same_size_def ec_inv_def)
  then have r: "in_buffers (devices (rt_inputs i3) ! i) ! k =
      (if k = nat (1 - active_in_buffer_idx impl)
       then Some (mem_get off (unat (in_size (devices impl ! i))) m) else in_buffers (devices impl ! i) ! k)"
    using rt_inputs_buffers [OF f3(6), of i m k off b] f3 i k off b m by simp
  have c: "impl' = snd (rt_timing now loc (rt_supervise loc wkc (rt_inputs i3)))"
    by (simp add: impl' rt_cycle_def i2 i3_def)
  have "ec_inv (rt_inputs i3)"
  proof (rule ec_inv_rt_inputs [OF f3(6)])
    show "ec_mapped i3"
      using mp sz f3 by (intro iffD2 [OF ec_mapped_cong, of impl i3]) (simp_all add: bound_devices_def)
  qed
  then show "in_buffers (devices impl' ! i) ! k =
      (if k = nat (1 - active_in_buffer_idx impl)
       then Some (mem_get off (unat (in_size (devices impl ! i))) (ec_received S impl))
       else in_buffers (devices impl ! i) ! k)"
    using r f3 i m(2) by (simp add: c rt_supervise_in_buffers)
  show "active_in_buffer_idx impl' = 1 - active_in_buffer_idx impl"
    "plc_in_buffer_idx impl' = plc_in_buffer_idx impl" "device_count impl' = device_count impl"
    using f3 by (simp_all add: c)
qed

lemma rt_cycle_layout:
  assumes "ec_ok impl" "soem_image_ok S"
  shows "same_layout impl (snd (rt_cycle S now (loc, impl)))"
proof -
  obtain wkc i4 where i4: "rt_before_supervise S impl = (wkc, i4)" by fastforce
  then have 4: "ec_ok i4" "same_layout impl i4" using rt_before_supervise_ok [OF assms] by simp_all
  then have io: "ec_inv i4" "ec_mapped i4" by (auto simp: ec_ok_def)
  have 5: "same_layout i4 (rt_supervise loc wkc i4)" by (rule same_layout_phases(6) [OF io])
  then have "ec_mapped (rt_supervise loc wkc i4)" using io(2) same_layout_mapped by blast
  then have "same_layout (rt_supervise loc wkc i4) (snd (rt_timing now loc (rt_supervise loc wkc i4)))"
    by (intro same_layout_phases(7)) (simp_all add: ec_inv_rt_supervise [OF io(1)])
  then show ?thesis
    using same_layout_trans [OF 4(2) same_layout_trans [OF 5]] by (simp add: rt_cycle_eq i4)
qed

lemma same_layout_nth:
  assumes "same_layout impl impl'" "device_count impl' = device_count impl" "i < device_count impl"
    and "ec_inv impl" "ec_inv impl'"
  shows "soem_inputs (devices impl' ! i) = soem_inputs (devices impl ! i)"
    and "soem_outputs (devices impl' ! i) = soem_outputs (devices impl ! i)"
    and "in_size (devices impl' ! i) = in_size (devices impl ! i)"
    and "out_size (devices impl' ! i) = out_size (devices impl ! i)"
proof -
  let ?f = "\<lambda>d. (soem_inputs d, soem_outputs d, in_size d, out_size d)"
  have len: "length (bound_devices impl') = device_count impl" "length (bound_devices impl) = device_count impl"
    using assms by (auto simp: bound_devices_def ec_inv_def)
  have "map ?f (bound_devices impl') = map ?f (bound_devices impl)"
    using assms(1) by (simp add: same_layout_def)
  then have "map ?f (bound_devices impl') ! i = map ?f (bound_devices impl) ! i" by simp
  then have "?f (bound_devices impl' ! i) = ?f (bound_devices impl ! i)" using len assms(3) by simp
  then show "soem_inputs (devices impl' ! i) = soem_inputs (devices impl ! i)"
    "soem_outputs (devices impl' ! i) = soem_outputs (devices impl ! i)"
    "in_size (devices impl' ! i) = in_size (devices impl ! i)"
    "out_size (devices impl' ! i) = out_size (devices impl ! i)"
    using assms(2,3) by (simp_all add: bound_devices_def)
qed

section \<open>Supervision\<close>

lemma rt_supervise_dow:
  "dowkccheck (rt_supervise loc wkc impl) =
     (if rt_bad_cycle loc wkc impl
      then (if dowkccheck impl < - 1 then dowkccheck impl + 1 else dowkccheck impl) else 0)"
  "fault_latched (rt_supervise loc wkc impl) =
     (if rl_fail_threshold loc \<le> dowkccheck (rt_supervise loc wkc impl) then 1 else fault_latched impl)"
  by (simp_all add: rt_supervise_cases Let_def)

text \<open>Whether a cycle counts as bad, over the states a run of the thread goes through.\<close>

definition rt_cycle_bad :: "'x soem \<Rightarrow> rt_locals \<times> 'x EthercatDriver \<Rightarrow> bool" where
  "rt_cycle_bad S st = (let (wkc, impl4) = rt_before_supervise S (snd st) in rt_bad_cycle (fst st) wkc impl4)"

fun rt_bad_flags :: "'x soem \<Rightarrow> u64 list \<Rightarrow> rt_locals \<times> 'x EthercatDriver \<Rightarrow> bool list" where
  "rt_bad_flags S [] st = []"
| "rt_bad_flags S (now # nows) st = rt_cycle_bad S st # rt_bad_flags S nows (rt_cycle S now st)"

lemma rt_before_supervise_frame:
  assumes "idx_ok impl"
  shows "dowkccheck (snd (rt_before_supervise S impl)) = dowkccheck impl"
    and "fault_latched (snd (rt_before_supervise S impl)) = fault_latched impl"
    and "rt_should_run (snd (rt_before_supervise S impl)) = rt_should_run impl"
proof -
  obtain wkc i2 where i2: "ec_exchange S (rt_outputs impl) = (wkc, i2)" by fastforce
  have f2: "idx_ok i2" "dowkccheck i2 = dowkccheck impl" "fault_latched i2 = fault_latched impl"
      "rt_should_run i2 = rt_should_run impl"
    using ec_exchange_simps [of S "rt_outputs impl"] assms i2 by simp_all
  then have "idx_ok (i2\<lparr>last_wkc := wkc\<rparr>)" by (simp add: idx_ok_def)
  with f2 show "dowkccheck (snd (rt_before_supervise S impl)) = dowkccheck impl"
    "fault_latched (snd (rt_before_supervise S impl)) = fault_latched impl"
    "rt_should_run (snd (rt_before_supervise S impl)) = rt_should_run impl"
    by (simp_all add: rt_before_supervise_def i2)
qed

lemma rt_cycle_counts:
  assumes "idx_ok (snd st)"
  shows "dowkccheck (snd (rt_cycle S now st)) =
      (if rt_cycle_bad S st
       then (if dowkccheck (snd st) < - 1 then dowkccheck (snd st) + 1 else dowkccheck (snd st)) else 0)"
    and "fault_latched (snd (rt_cycle S now st)) =
      (if rl_fail_threshold (fst st) \<le> dowkccheck (snd (rt_cycle S now st)) then 1 else fault_latched (snd st))"
    and "rt_should_run (snd (rt_cycle S now st)) = rt_should_run (snd st)"
    and "rl_fail_threshold (fst (rt_cycle S now st)) = rl_fail_threshold (fst st)"
proof -
  obtain loc impl where st: "st = (loc, impl)" by (cases st)
  obtain wkc i4 where i4: "rt_before_supervise S impl = (wkc, i4)" by fastforce
  have f: "dowkccheck i4 = dowkccheck impl" "fault_latched i4 = fault_latched impl"
      "rt_should_run i4 = rt_should_run impl"
    using rt_before_supervise_frame [of impl S] assms st i4 by simp_all
  show "dowkccheck (snd (rt_cycle S now st)) =
      (if rt_cycle_bad S st
       then (if dowkccheck (snd st) < - 1 then dowkccheck (snd st) + 1 else dowkccheck (snd st)) else 0)"
    by (simp add: st rt_cycle_eq i4 rt_supervise_dow(1) rt_cycle_bad_def f)
  show "fault_latched (snd (rt_cycle S now st)) =
      (if rl_fail_threshold (fst st) \<le> dowkccheck (snd (rt_cycle S now st)) then 1 else fault_latched (snd st))"
    by (simp add: st rt_cycle_eq i4 rt_supervise_dow(2) f)
  show "rt_should_run (snd (rt_cycle S now st)) = rt_should_run (snd st)"
    "rl_fail_threshold (fst (rt_cycle S now st)) = rl_fail_threshold (fst st)"
    by (simp_all add: st rt_cycle_eq i4 f)
qed

text \<open>The length of the run of bad cycles at the end of a list, counted with saturation.\<close>

definition streak :: "bool list \<Rightarrow> nat" where
  "streak bs = length (takeWhile id (rev bs))"

lemma streak_snoc: "streak (bs @ [b]) = (if b then Suc (streak bs) else 0)"
  by (simp add: streak_def)

lemma streak_ge: "n \<le> streak bs \<longleftrightarrow> n \<le> length bs \<and> (\<forall>j < n. bs ! (length bs - Suc j))"
proof (induction bs arbitrary: n rule: rev_induct)
  case Nil
  then show ?case by (cases n) (auto simp: streak_def)
next
  case (snoc b bs)
  show ?case
  proof (cases n)
    case (Suc m)
    have "(\<forall>j < Suc m. (bs @ [b]) ! (length bs - j)) \<longleftrightarrow> b \<and> (\<forall>j < m. bs ! (length bs - Suc j))"
      if "m \<le> length bs"
      using that by (auto simp: nth_append less_Suc_eq_0_disj)
    then show ?thesis using Suc snoc [of m] by (auto simp: streak_snoc)
  qed simp
qed

lemma rt_cycles_snoc:
  assumes "ec_ok (snd st)" "soem_image_ok S" "rt_should_run (snd st)"
  shows "rt_cycles S (nows @ [now]) st = rt_cycle S now (rt_cycles S nows st)
    \<and> rt_bad_flags S (nows @ [now]) st = rt_bad_flags S nows st @ [rt_cycle_bad S (rt_cycles S nows st)]
    \<and> ec_ok (snd (rt_cycles S nows st)) \<and> rt_should_run (snd (rt_cycles S nows st))
    \<and> rl_fail_threshold (fst (rt_cycles S nows st)) = rl_fail_threshold (fst st)"
  using assms
proof (induction nows arbitrary: st)
  case (Cons n nows)
  have "ec_ok (snd (rt_cycle S n st))"
    using rt_cycle_ok [OF Cons.prems(1,2), of n "fst st"] by simp
  moreover have "idx_ok (snd st)" using Cons.prems(1) by (simp add: ec_ok_def ec_inv_def)
  ultimately show ?case
    using Cons.IH [of "rt_cycle S n st"] Cons.prems rt_cycle_counts(3,4) [of st S n] by simp
qed simp

lemma length_rt_bad_flags [simp]: "length (rt_bad_flags S nows st) = length nows"
  by (induction nows arbitrary: st) simp_all

lemma take_rt_bad_flags: "take n (rt_bad_flags S nows st) = rt_bad_flags S (take n nows) st"
  by (induction nows arbitrary: n st) (auto simp: take_Cons split: nat.split)

lemma unat_u32_max: "unat (- 1 :: u32) = 2 ^ 32 - 1"
  by (simp add: unsigned_minus_1_eq_mask mask_eq_exp_minus_1)

lemma dow_saturating:
  fixes d :: u32
  assumes "unat d = min s (2 ^ 32 - 1)"
  shows "unat (if d < - 1 then d + 1 else d) = min (Suc s) (2 ^ 32 - 1)"
proof (cases "d < - 1")
  case True
  then have lt: "unat d < 2 ^ 32 - 1" unfolding word_less_nat_alt unat_u32_max .
  then have "unat (d + 1) = unat d + 1" by (intro unat_plus_one) simp
  with True lt assms show ?thesis by simp
next
  case False
  then have "2 ^ 32 - 1 \<le> unat d" unfolding word_less_nat_alt unat_u32_max by simp
  with False assms show ?thesis by simp
qed

lemma rt_cycles_streak:
  assumes "ec_ok (snd st)" "soem_image_ok S" "rt_should_run (snd st)" "dowkccheck (snd st) = 0"
  shows "unat (dowkccheck (snd (rt_cycles S nows st))) = min (streak (rt_bad_flags S nows st)) (2 ^ 32 - 1)"
proof (induction nows rule: rev_induct)
  case Nil
  then show ?case using assms(4) by (simp add: streak_def)
next
  case (snoc now nows)
  note s = rt_cycles_snoc [OF assms(1-3), of nows now]
  have "idx_ok (snd (rt_cycles S nows st))" using s by (simp add: ec_ok_def ec_inv_def)
  from rt_cycle_counts(1) [OF this, of S now] show ?case
    using s dow_saturating [OF snoc.IH] by (simp add: streak_snoc)
qed

lemma rt_cycles_fault:
  assumes "ec_ok (snd st)" "soem_image_ok S" "rt_should_run (snd st)" "dowkccheck (snd st) = 0"
    and "fault_latched (snd st) = 0" "0 < rl_fail_threshold (fst st)"
  shows "fault_latched (snd (rt_cycles S nows st)) \<noteq> 0 \<longleftrightarrow>
    (\<exists>n \<le> length nows. unat (rl_fail_threshold (fst st)) \<le> streak (take n (rt_bad_flags S nows st)))"
proof (induction nows rule: rev_induct)
  case Nil
  then show ?case using assms(5,6) by (simp add: streak_def word_gt_0 unat_eq_0)
next
  case (snoc now nows)
  let ?f = "rl_fail_threshold (fst st)" and ?b = "rt_bad_flags S (nows @ [now]) st"
  note s = rt_cycles_snoc [OF assms(1-3), of nows now]
  have "idx_ok (snd (rt_cycles S nows st))" using s by (simp add: ec_ok_def ec_inv_def)
  from rt_cycle_counts(2) [OF this, of S now]
  have "fault_latched (snd (rt_cycles S (nows @ [now]) st)) \<noteq> 0 \<longleftrightarrow>
      ?f \<le> dowkccheck (snd (rt_cycles S (nows @ [now]) st)) \<or> fault_latched (snd (rt_cycles S nows st)) \<noteq> 0"
    using s by simp
  also have "?f \<le> dowkccheck (snd (rt_cycles S (nows @ [now]) st)) \<longleftrightarrow> unat ?f \<le> streak ?b"
    using rt_cycles_streak [OF assms(1-4), of "nows @ [now]"] unat_u32_less [of ?f]
    by (simp add: word_le_nat_alt)
  finally show ?case
    using snoc.IH by (auto simp: take_rt_bad_flags le_Suc_eq)
qed

end
