(* ===== verification/Ec_Reach.thy ===== *)
theory Ec_Reach
  imports Ec_Cycle
begin

text \<open>
  The life of an EtherCAT driver as a step relation: creation, initialisation and binding,
  the mapping that allocates the buffers, then any order of start, stop, PLC operations and
  real-time cycles. Every reachable state satisfies the invariant of the buffers.
\<close>

section \<open>Before the mapping\<close>

definition ec_pre :: "'x EthercatDriver \<Rightarrow> bool" where
  "ec_pre impl \<longleftrightarrow> length (devices impl) = device_capacity impl \<and> device_count impl \<le> device_capacity impl
     \<and> (\<forall>dev \<in> set (bound_devices impl). dev_ok dev \<and> ed_cfg dev \<noteq> None \<and> ed_desc dev \<noteq> None
          \<and> slave_index dev \<noteq> 0)
     \<and> distinct (map slave_index (bound_devices impl))
     \<and> (\<forall>m. iomap impl = Some m \<longrightarrow> length m = iomap_size impl)"

inductive ec_built :: "'x soem \<Rightarrow> platform \<Rightarrow> 'x EthercatDriver \<Rightarrow> bool" for S P where
  create: "ethercat_create_impl S P cfg sz n = Some impl \<Longrightarrow> ec_built S P impl"
| init: "ec_built S P impl \<Longrightarrow> ec_built S P (snd (ethercat_init S P impl))"
| bind: "ec_built S P impl \<Longrightarrow> ec_built S P (snd (ethercat_bind_device impl cfg desc))"

lemma dev_ok_zero: "dev_ok (zero_device\<lparr>ed_cfg := c, ed_desc := d, slave_index := p\<rparr>)" "dev_ok zero_device"
  by (auto simp: dev_ok_def zero_device_def)

lemma ec_pre_create:
  "ethercat_create_impl S P cfg sz n = Some impl \<Longrightarrow> ec_pre impl \<and> device_count impl = 0"
  by (auto simp: ethercat_create_impl_def ec_pre_def bound_devices_def zero_driver_def ec_configure_def Let_def
      split: option.splits if_splits prod.splits)

lemma ec_pre_init: "ec_pre impl \<Longrightarrow> ec_pre (snd (ethercat_init S P impl))"
  by (auto simp: ethercat_init_def ec_pre_def bound_devices_def Let_def split: prod.split)

lemma ec_pre_bind:
  assumes "ec_pre impl"
  shows "ec_pre (snd (ethercat_bind_device impl cfg desc))"
proof (cases "ethercat_bind_device impl cfg desc = (-1, impl)")
  case False
  let ?n = "device_count impl" and ?pos = "dc_expected_position cfg"
  let ?dev = "zero_device\<lparr>ed_cfg := Some cfg, ed_desc := Some desc, slave_index := ?pos\<rparr>"
  have c: "?n < device_capacity impl" "?pos \<noteq> 0" "\<forall>dev \<in> set (bound_devices impl). slave_index dev \<noteq> ?pos"
    using False by (auto simp: ethercat_bind_device_def Let_def split: if_splits)
  have b: "ethercat_bind_device impl cfg desc = (0, impl\<lparr>devices := (devices impl)[?n := ?dev],
      device_count := ?n + 1, ctx := set_slave (ctx impl) (unat ?pos) (\<lambda>sl. sl\<lparr>sl_PO2SOconfig := on_init (hooks desc)\<rparr>)\<rparr>)"
    using False by (auto simp: ethercat_bind_device_def Let_def split: if_splits)
  have "take (Suc ?n) ((devices impl)[?n := ?dev]) = bound_devices impl @ [?dev]"
    using assms c(1) by (simp add: bound_devices_def ec_pre_def take_Suc_conv_app_nth)
  then show ?thesis
    using assms c dev_ok_zero(1) [where c = "Some cfg" and d = "Some desc" and p = ?pos]
    by (auto simp: b ec_pre_def bound_devices_def)
qed (use assms in simp)

lemma ec_built_pre: "ec_built S P impl \<Longrightarrow> ec_pre impl"
  by (induction rule: ec_built.induct) (auto simp: ec_pre_create ec_pre_init ec_pre_bind)

section \<open>The mapping\<close>

text \<open>
  Documented behaviour of \<^verbatim>\<open>ecx_config_map_group\<close>: the slaves it found fit its slave list, and
  the pointers it assigns lie inside the image, with the stated numbers of bytes.
\<close>

definition slave_mapped :: "nat \<Rightarrow> ec_slave \<Rightarrow> bool" where
  "slave_mapped n sl \<longleftrightarrow>
     (\<forall>off. sl_inputs sl = Some off \<longrightarrow> off + unat (sl_Ibytes sl) \<le> n)
     \<and> (\<forall>off. sl_outputs sl = Some off \<longrightarrow> off + unat (sl_Obytes sl) \<le> n)"

definition soem_map_ok :: "'x soem \<Rightarrow> bool" where
  "soem_map_ok S \<longleftrightarrow> (\<forall>c m used c' m'. ecx_config_map_group S c m = (used, c', m') \<longrightarrow> 0 < used
     \<longrightarrow> used \<le> int (length m) \<longrightarrow> slavecount c' < int (length (slavelist c'))
        \<and> (\<forall>sl \<in> set (slavelist c'). slave_mapped (length m) sl))"

definition dev_full :: "EthercatDevice \<Rightarrow> bool" where
  "dev_full dev \<longleftrightarrow> None \<notin> set (in_buffers dev) \<and> None \<notin> set (out_buffers dev)"

text \<open>What the loop established for a device that passed it.\<close>

definition dev_final :: "'x ecx_context \<Rightarrow> EthercatDevice \<Rightarrow> bool" where
  "dev_final c dev \<longleftrightarrow> dev_ok dev \<and> dev_full dev
     \<and> slave_index dev \<noteq> 0 \<and> uint (slave_index dev) \<le> slavecount c
     \<and> soem_inputs dev = sl_inputs (slavelist c ! unat (slave_index dev))
     \<and> soem_outputs dev = sl_outputs (slavelist c ! unat (slave_index dev))
     \<and> in_size dev \<le> sl_Ibytes (slavelist c ! unat (slave_index dev))
     \<and> out_size dev \<le> sl_Obytes (slavelist c ! unat (slave_index dev))
     \<and> (let v = or_default (dc_expected_vendor_id (the (ed_cfg dev))) (vendor_id (the (ed_desc dev)));
            p = or_default (dc_expected_product_code (the (ed_cfg dev))) (product_code (the (ed_desc dev)))
        in (v \<noteq> 0 \<longrightarrow> sl_eep_man (slavelist c ! unat (slave_index dev)) = v)
           \<and> (p \<noteq> 0 \<longrightarrow> sl_eep_id (slavelist c ! unat (slave_index dev)) = p))
     \<and> in_size dev = tx_bytes (the (ed_desc dev)) \<and> out_size dev = rx_bytes (the (ed_desc dev))"

lemma calloc_Some: "calloc P k n = Some b \<Longrightarrow> length b = unat n \<and> set b \<subseteq> {0}"
  by (auto simp: calloc_def split: if_splits)

lemma finalize_device_frame:
  "finalize_device P c i dev = (ok, dev') \<Longrightarrow>
     ed_cfg dev' = ed_cfg dev \<and> ed_desc dev' = ed_desc dev \<and> slave_index dev' = slave_index dev"
  by (auto simp: finalize_device_def Let_def split: if_splits)

lemma finalize_device_ok:
  assumes "finalize_device P c i dev = (True, dev')"
  shows "dev_final c dev'"
  using assms calloc_Some
  by (auto simp: finalize_device_def Let_def dev_final_def dev_ok_def dev_full_def not_less split: if_splits
      dest: calloc_Some sym)

lemma finalize_loop_ok:
  "finalize_loop P c i devs = (True, devs') \<Longrightarrow>
     length devs' = length devs \<and> (\<forall>dev \<in> set devs'. dev_final c dev)
     \<and> map slave_index devs' = map slave_index devs
     \<and> map ed_cfg devs' = map ed_cfg devs \<and> map ed_desc devs' = map ed_desc devs"
proof (induction devs arbitrary: i devs')
  case (Cons dev devs)
  then obtain dev1 devs1 where "finalize_device P c i dev = (True, dev1)"
    "finalize_loop P c (Suc i) devs = (True, devs1)" "devs' = dev1 # devs1"
    by (auto simp: Let_def split: prod.splits if_splits)
  with Cons.IH [of "Suc i" devs1] finalize_device_ok [of P c i dev dev1] finalize_device_frame [of P c i dev True dev1]
  show ?case by auto
qed simp

lemma length_finalize_loop: "length (snd (finalize_loop P c i devs)) = length devs"
proof (induction devs arbitrary: i)
  case (Cons dev devs)
  then show ?case by (simp add: Let_def case_prod_unfold)
qed simp

lemma set_bound_simps [simp]:
  "device_count (set_bound impl devs) = device_count impl" "iomap (set_bound impl devs) = iomap impl"
  "ctx (set_bound impl devs) = ctx impl" "iomap_size (set_bound impl devs) = iomap_size impl"
  "device_capacity (set_bound impl devs) = device_capacity impl"
  by (simp_all add: set_bound_def)

text \<open>The image as long as it was allocated.\<close>

definition ec_sized :: "'x EthercatDriver \<Rightarrow> bool" where
  "ec_sized impl \<longleftrightarrow> (\<forall>m. iomap impl = Some m \<longrightarrow> length m = iomap_size impl)"

lemma finalize_mapping_ok:
  assumes pre: "ec_pre impl" and S: "soem_image_ok S" "soem_map_ok S"
    and fin: "ethercat_finalize_mapping S P impl = (0, impl')"
  shows "ec_ready impl' \<and> ec_sized impl' \<and> device_count impl' = device_count impl
    \<and> map slave_index (bound_devices impl') = map slave_index (bound_devices impl)
    \<and> (\<exists>c m u. ecx_config_map_group S (ctx impl) m = (u, c) \<and> (\<forall>dev \<in> set (bound_devices impl'). dev_final (fst c) dev))"
proof -
  obtain m where m: "iomap impl = Some m"
    using fin by (cases "iomap impl") (simp_all add: ethercat_finalize_mapping_def)
  obtain used c m' where map: "ecx_config_map_group S (ctx impl) m = (used, c, m')"
    by (metis prod.exhaust)
  let ?w = "of_int (uint (outputsWKC c) * 2 + uint (inputsWKC c)) :: u16"
  let ?i1 = "impl\<lparr>ctx := c, iomap := Some m', expected_wkc := ?w\<rparr>"
  have lm: "length m = iomap_size impl" using pre m by (simp add: ec_pre_def)
  have lm': "length m' = length m" using S(1) map by (metis soem_image_ok_def snd_conv)
  have u: "0 < used" "used \<le> int (iomap_size impl)" "iomap_size impl \<noteq> 0"
    using fin m map
    by (auto simp: ethercat_finalize_mapping_def ec_soem_configure_iomap_group0_def Let_def split: if_splits)
  obtain ok devs where loop: "finalize_loop P c 0 (bound_devices impl) = (ok, devs)" by fastforce
  have bd: "bound_devices ?i1 = bound_devices impl" by (simp add: bound_devices_def)
  have f: "ethercat_finalize_mapping S P impl =
      (if \<not> ok then finalize_error (set_bound ?i1 devs) else finalize_safe_op S (set_bound ?i1 devs))"
    using m map u loop bd
    by (simp add: ethercat_finalize_mapping_def ec_soem_configure_iomap_group0_def)
  have err: "finalize_error x \<noteq> (0, y)" "(0, y) \<noteq> finalize_error x" for x y by (auto simp: finalize_error_def)
  have "ok" using f fin err by (cases ok) auto
  then have loop': "finalize_loop P c 0 (bound_devices impl) = (True, devs)" using loop by simp
  note devs = finalize_loop_ok [OF loop']
  obtain c' where i': "impl' = (reset_cycle_state (set_bound ?i1 devs))\<lparr>ctx := c', ec_state := EC_STATE_SAFE_OP\<rparr>"
    using f fin \<open>ok\<close> err by (auto simp: finalize_safe_op_def Let_def split: prod.splits if_splits)
  have cnt: "length devs = device_count impl" using devs pre by (simp add: ec_pre_def bound_devices_def)
  have b': "bound_devices impl' = devs"
    using cnt by (simp add: i' reset_cycle_state_def set_bound_def bound_devices_def)
  have "dev_mapped (length m') dev" if "dev \<in> set devs" for dev
  proof -
    let ?sl = "slavelist c ! unat (slave_index dev)"
    have d: "dev_final c dev" using devs that by blast
    have sc: "slavecount c < int (length (slavelist c))"
      and sm: "\<forall>sl \<in> set (slavelist c). slave_mapped (length m) sl"
      using S(2) map u lm unfolding soem_map_ok_def by metis+
    have "unat (slave_index dev) < length (slavelist c)"
    proof -
      have "int (unat (slave_index dev)) = uint (slave_index dev)" by simp
      then show ?thesis using d sc unfolding dev_final_def by linarith
    qed
    then have "slave_mapped (length m) ?sl" using sm by (simp add: nth_mem)
    then show ?thesis
      using d lm' by (auto simp: dev_final_def slave_mapped_def dev_mapped_def word_le_nat_alt)
  qed
  then have "ec_mapped impl'" by (simp add: ec_mapped_def b') (simp add: i' reset_cycle_state_def)
  moreover have "ec_inv impl'"
    using devs cnt by (simp add: ec_inv_def b' dev_final_def)
      (simp add: i' reset_cycle_state_def idx_ok_def set_bound_def)
  moreover have "iomap impl' = Some m'" "iomap_size impl' = iomap_size impl" "device_count impl' = device_count impl"
    by (simp_all add: i' reset_cycle_state_def)
  moreover have "\<exists>c m u. ecx_config_map_group S (ctx impl) m = (u, c) \<and> (\<forall>dev \<in> set devs. dev_final (fst c) dev)"
    using map devs by (intro exI [of _ "(c, m')"] exI [of _ m] exI [of _ used]) simp
  moreover have "\<forall>dev \<in> set devs. None \<notin> set (in_buffers dev) \<and> None \<notin> set (out_buffers dev)"
    using devs by (simp add: dev_final_def dev_full_def)
  ultimately show ?thesis
    using devs lm lm' by (simp add: ec_ready_def ec_ok_def b' ec_sized_def)
qed

section \<open>After the mapping\<close>

text \<open>
  The steps of a mapped driver. A store goes through a pointer the output function has
  handed out, with the size it reported.
\<close>

inductive ec_run :: "'x soem \<Rightarrow> platform \<Rightarrow> 'x EthercatDriver \<Rightarrow> bool" for S P where
  mapped: "ec_built S P impl \<Longrightarrow> ethercat_finalize_mapping S P impl = (0, impl') \<Longrightarrow> ec_run S P impl'"
| start: "ec_run S P impl \<Longrightarrow> ec_run S P (snd (ethercat_start S P impl))"
| stop: "ec_run S P impl \<Longrightarrow> ec_run S P (snd (ethercat_stop S impl))"
| cycle_begin: "ec_run S P impl \<Longrightarrow> ec_run S P (ethercat_cycle_begin impl)"
| cycle_end: "ec_run S P impl \<Longrightarrow> ec_run S P (ethercat_cycle_end impl)"
| get_input: "ec_run S P impl \<Longrightarrow> ethercat_get_input_data impl dev = (a, sz, impl') \<Longrightarrow> ec_run S P impl'"
| get_output: "ec_run S P impl \<Longrightarrow> ethercat_get_output_data impl dev = (a, sz, impl') \<Longrightarrow> ec_run S P impl'"
| store: "ec_run S P impl \<Longrightarrow> ethercat_get_output_data impl dev = (Some a, sz, impl')
    \<Longrightarrow> length bs = unat sz \<Longrightarrow> ec_run S P (ec_buf_store impl' a bs)"
| thread_enter: "ec_run S P impl \<Longrightarrow> rt_thread_enter now impl = (loc, impl') \<Longrightarrow> ec_run S P impl'"
| thread_cycle: "ec_run S P impl \<Longrightarrow> ec_run S P (snd (rt_cycle S now (loc, impl)))"
| thread_exit: "ec_run S P impl \<Longrightarrow> ec_run S P (rt_thread_exit S impl)"

definition ec_full :: "'x EthercatDriver \<Rightarrow> bool" where
  "ec_full impl \<longleftrightarrow> (\<forall>dev \<in> set (bound_devices impl). dev_full dev)"

definition ec_good :: "'x EthercatDriver \<Rightarrow> bool" where
  "ec_good impl \<longleftrightarrow> ec_ok impl \<and> ec_full impl \<and> ec_sized impl \<and> iomap impl \<noteq> None"

lemma ec_good_ready: "ec_good impl \<Longrightarrow> ec_ready impl"
  by (auto simp: ec_good_def ec_ready_def ec_full_def dev_full_def)

text \<open>Changing only the devices' buffers, the image's bytes and the bookkeeping keeps \<open>ec_good\<close>.\<close>

lemma ec_good_layout:
  assumes "ec_good impl" "same_layout impl impl'" "ec_inv impl'" "ec_full impl'"
    and "iomap_size impl' = iomap_size impl"
  shows "ec_good impl'"
proof -
  have "same_size (iomap impl) (iomap impl')" using assms(2) by (simp add: same_layout_def)
  then have "ec_sized impl' \<and> iomap impl' \<noteq> None"
    using assms(1,5) by (cases "iomap impl'") (auto simp: ec_good_def ec_sized_def same_size_def)
  moreover have "ec_ok impl'"
    using ec_ok_layout [OF _ assms(2,3)] assms(1) by (simp add: ec_good_def)
  ultimately show ?thesis using assms(4) by (simp add: ec_good_def)
qed

lemma dev_full_ops:
  "dev_full dev \<Longrightarrow> dev_full (copy_in_device m k dev)"
  "dev_full dev \<Longrightarrow> dev_full (copy_out_buffer i j dev)"
  "dev_full dev \<Longrightarrow> dev_full (zero_out_device dev)"
  "dev_full dev \<Longrightarrow> dev_full (dev\<lparr>out_buffers := (out_buffers dev)[k := Some bs]\<rparr>)"
  by (auto simp: dev_full_def copy_in_device_def copy_out_buffer_def zero_out_device_def
      split: option.split dest!: set_update_cases)

lemma ec_full_map_bound:
  "device_count impl \<le> length (devices impl) \<Longrightarrow> ec_full impl \<Longrightarrow> (\<And>dev. dev_full dev \<Longrightarrow> dev_full (f dev))
     \<Longrightarrow> ec_full (map_bound f impl)"
  by (auto simp: ec_full_def)

lemma ec_full_frame: "bound_devices impl' = bound_devices impl \<Longrightarrow> ec_full impl' = ec_full impl"
  by (simp add: ec_full_def)

lemma ec_good_zero_out: "ec_good impl \<Longrightarrow> ec_good (ethercat_zero_output_buffers impl)"
proof -
  assume g: "ec_good impl"
  then have io: "ec_inv impl" "ec_mapped impl" by (auto simp: ec_good_def ec_ok_def)
  have "ec_full (map_bound zero_out_device impl)"
    using g io by (intro ec_full_map_bound dev_full_ops(3)) (auto simp: ec_good_def ec_inv_def)
  then have "ec_full (ethercat_zero_output_buffers impl)"
    by (simp add: ethercat_zero_output_buffers_def ec_full_def bound_devices_def)
  then show ?thesis
    by (rule ec_good_layout [OF g same_layout_phases(5) [OF io] ec_inv_zero_out [OF io(1)]])
      (simp add: ethercat_zero_output_buffers_def map_bound_eq)
qed

lemma ec_good_book:
  assumes "ec_good impl" "devices impl' = devices impl" "device_count impl' = device_count impl"
    "iomap impl' = iomap impl" "iomap_size impl' = iomap_size impl"
    "active_in_buffer_idx impl' = active_in_buffer_idx impl"
    "active_out_buffer_idx impl' = active_out_buffer_idx impl"
    "plc_in_buffer_idx impl' = plc_in_buffer_idx impl" "rt_out_buffer_idx impl' = rt_out_buffer_idx impl"
  shows "ec_good impl'"
  using assms(1)
  unfolding ec_good_def ec_ok_def ec_inv_def ec_mapped_def ec_full_def ec_sized_def bound_devices_def
    idx_ok_def assms(2-) .

lemma iomap_size_simps [simp]:
  "iomap_size (snd (ec_exchange S impl)) = iomap_size impl"
  "iomap_size (ethercat_copy_out_to_iomap impl k z) = iomap_size impl"
  "iomap_size (rt_state_check S impl) = iomap_size impl"
  "iomap_size (ethercat_copy_iomap_to_in impl k) = iomap_size impl"
  "iomap_size (ethercat_zero_output_buffers impl) = iomap_size impl"
  "iomap_size (snd (rt_timing now loc impl)) = iomap_size impl"
  by (simp_all add: ec_exchange_def ethercat_copy_out_to_iomap_def rt_state_check_def map_bound_eq Let_def
      ethercat_copy_iomap_to_in_def ethercat_zero_output_buffers_def rt_timing_def
      split: prod.split option.split)

lemma rt_outputs_size: "idx_ok impl \<Longrightarrow> iomap_size (rt_outputs impl) = iomap_size impl"
  by (simp add: rt_outputs_eq)

lemma ec_good_D: "ec_good impl \<Longrightarrow> ec_inv impl" "ec_good impl \<Longrightarrow> ec_mapped impl" "ec_good impl \<Longrightarrow> idx_ok impl"
  "ec_good impl \<Longrightarrow> ec_full impl" "ec_good impl \<Longrightarrow> ec_ok impl"
  by (simp_all add: ec_good_def ec_ok_def ec_inv_def)

lemma ec_good_exchange:
  assumes "ec_good impl" "soem_image_ok S"
  shows "ec_good (snd (ec_exchange S impl))"
proof (rule ec_good_layout [OF assms(1) same_layout_phases(2) [OF ec_good_D(1,2) [OF assms(1)] assms(2)]])
  show "ec_full (snd (ec_exchange S impl))"
    using ec_good_D(4) [OF assms(1)] by (simp add: ec_full_def)
qed (simp_all add: ec_good_D(1) [OF assms(1)])

lemma ec_good_copy_zero:
  assumes "ec_good impl"
  shows "ec_good (ethercat_copy_out_to_iomap impl 0 True)"
proof (rule ec_good_layout [OF assms])
  show "same_layout impl (ethercat_copy_out_to_iomap impl 0 True)"
    using same_size_copy_out [OF ec_good_D(1,2) [OF assms], of 0 True] by (simp add: same_layout_def)
  show "ec_inv (ethercat_copy_out_to_iomap impl 0 True)"
    by (subst ec_inv_frame [of _ impl]) (simp_all add: ec_good_D(1) [OF assms])
  show "ec_full (ethercat_copy_out_to_iomap impl 0 True)"
    using ec_good_D(4) [OF assms] by (simp add: ec_full_def)
qed simp

lemma ec_good_exit:
  assumes "ec_good impl" "soem_image_ok S"
  shows "ec_good (rt_thread_exit S impl)"
proof -
  let ?i1 = "ethercat_copy_out_to_iomap (ethercat_zero_output_buffers impl) 0 True"
  have g: "ec_good (snd (ec_exchange S ?i1))"
    by (intro ec_good_exchange ec_good_copy_zero ec_good_zero_out assms)
  obtain w i2 where "ec_exchange S ?i1 = (w, i2)" by fastforce
  with g show ?thesis
    by - (rule ec_good_book [of i2], simp_all add: rt_thread_exit_def)
qed

lemma op_loop_size:
  "soem_image_ok S \<Longrightarrow> same_size m (snd (snd (op_loop S n c m)))"
proof (induction n arbitrary: c m)
  case (Suc n)
  obtain w c2 m2 where r: "ecx_receive_processdata S (ecx_send_processdata S c m) m = (w, c2, m2)"
    by (metis prod.exhaust)
  have s: "same_size m m2" using Suc.prems r by (metis soem_image_ok_def snd_conv)
  obtain st c3 where "ecx_statecheck S c2 EC_STATE_OPERATIONAL = (st, c3)" by fastforce
  then show ?case using r s Suc.IH [OF Suc.prems, of m2 c3] same_size_trans by (auto simp: Let_def)
qed simp

lemma ec_good_set_image:
  assumes "ec_good impl" "same_size (iomap impl) m'"
  shows "ec_good (impl\<lparr>ctx := c, iomap := m'\<rparr>)"
proof (rule ec_good_layout [OF assms(1)])
  show "same_layout impl (impl\<lparr>ctx := c, iomap := m'\<rparr>)" using assms(2) by (simp add: same_layout_def bound_devices_def)
  show "ec_inv (impl\<lparr>ctx := c, iomap := m'\<rparr>)"
    using ec_good_D(1) [OF assms(1)] by (simp add: ec_inv_def bound_devices_def idx_ok_def)
  show "ec_full (impl\<lparr>ctx := c, iomap := m'\<rparr>)"
    using ec_good_D(4) [OF assms(1)] by (simp add: ec_full_def bound_devices_def)
qed simp

lemma ec_good_start:
  assumes g: "ec_good impl" and S: "soem_image_ok S"
  shows "ec_good (snd (ethercat_start S P impl))"
proof -
  obtain m where m: "iomap impl = Some m" using g by (auto simp: ec_good_def)
  have lm: "length m = iomap_size impl" using g m by (simp add: ec_good_def ec_sized_def)
  have "ec_good (impl\<lparr>ctx := ctx impl, iomap := Some (overwrite (replicate (iomap_size impl) 0) m)\<rparr>)"
    using lm m by (intro ec_good_set_image [OF g]) (simp add: same_size_def)
  then have g0: "ec_good (impl\<lparr>iomap := Some (overwrite (replicate (iomap_size impl) 0) m)\<rparr>)" by simp
  define i1 where "i1 = ethercat_zero_output_buffers (impl\<lparr>iomap := Some (overwrite (replicate (iomap_size impl) 0) m)\<rparr>)"
  have g1: "ec_good i1" unfolding i1_def by (intro ec_good_zero_out g0)
  obtain w1 i2 where e1: "ec_exchange S i1 = (w1, i2)" by fastforce
  obtain w2 i3 where e2: "ec_exchange S i2 = (w2, i3)" by fastforce
  obtain w3 i4 where e3: "ec_exchange S i3 = (w3, i4)" by fastforce
  have g4: "ec_good i4"
    using ec_good_exchange [OF g1 S] ec_good_exchange [of i2, OF _ S] ec_good_exchange [of i3, OF _ S] e1 e2 e3 by simp
  obtain rc c m' where op: "ec_soem_request_op S (ctx i4) (iomap i4) (expected_wkc i4) = (rc, c, m')"
    by (metis prod.exhaust)
  then have "same_size (iomap i4) m'"
    using op_loop_size [OF S] unfolding ec_soem_request_op_def by (metis snd_conv)
  then have g6: "ec_good (i4\<lparr>ctx := c, iomap := m'\<rparr>)" by (rule ec_good_set_image [OF g4])
  have "snd (ethercat_start S P impl) \<in>
      (let i6 = i4\<lparr>last_wkc := w3, ctx := c, iomap := m'\<rparr>;
           i7 = i6\<lparr>ec_state := EC_STATE_OPERATIONAL, dowkccheck := 0,
                     state_check_cycle_ctr := 0, in_op := True, fault_latched := 0,
                     rt_should_run := True, rt_is_running := False, rt_cycle_count := 0,
                     rt_overruns := 0, rt_jitter_current_ns := 0, rt_jitter_min_ns := - 1,
                     rt_jitter_max_ns := 0\<rparr>
       in {i6, i7\<lparr>in_op := False, rt_should_run := False\<rparr>, i7})"
    by (simp add: ethercat_start_def m Let_def e2 e3 op e1 [unfolded i1_def])
  then show ?thesis
    unfolding Let_def by (elim insertE emptyE; intro ec_good_book [OF g6]) simp_all
qed

lemma ec_good_stop:
  assumes g: "ec_good impl" and S: "soem_image_ok S"
  shows "ec_good (snd (ethercat_stop S impl))"
proof -
  have g1: "ec_good (impl\<lparr>rt_should_run := False\<rparr>)"
    by (rule ec_good_book [OF g]) simp_all
  let ?i2 = "if rt_is_running impl then rt_thread_exit S (impl\<lparr>rt_should_run := False\<rparr>)
    else impl\<lparr>rt_should_run := False\<rparr>"
  have "ec_good ?i2" using g1 ec_good_exit [OF g1 S] by simp
  then have g3: "ec_good (ethercat_copy_out_to_iomap (ethercat_zero_output_buffers ?i2) 0 True)"
    by (intro ec_good_copy_zero ec_good_zero_out)
  obtain w i4 where e: "ec_exchange S (ethercat_copy_out_to_iomap (ethercat_zero_output_buffers ?i2) 0 True) = (w, i4)"
    by fastforce
  then have g4: "ec_good i4" using ec_good_exchange [OF g3 S] by simp
  obtain rc c where op: "ec_soem_request_safe_op S (ctx i4) = (rc, c)" by fastforce
  have "snd (ethercat_stop S impl) \<in> {i4\<lparr>ctx := c, in_op := False, ec_state := EC_STATE_NONE\<rparr>,
      i4\<lparr>ctx := c, in_op := False, ec_state := EC_STATE_SAFE_OP\<rparr>}"
    using e op by (simp add: ethercat_stop_def Let_def)
  then show ?thesis
    by (elim insertE emptyE; intro ec_good_book [OF g4]) simp_all
qed

lemma ec_good_copy_out_buffers:
  assumes "ec_good impl" "i \<le> 1" "j \<le> 1"
  shows "ec_good (ethercat_copy_out_buffers impl i j)"
proof (cases "i = j")
  case False
  have cnt: "device_count impl \<le> length (devices impl)" using ec_good_D(1) [OF assms(1)] by (simp add: ec_inv_def)
  show ?thesis
  proof (rule ec_good_layout [OF assms(1)])
    have "map (\<lambda>d. (soem_inputs d, soem_outputs d, in_size d, out_size d)) (map (copy_out_buffer i j) ds)
        = map (\<lambda>d. (soem_inputs d, soem_outputs d, in_size d, out_size d)) ds" for ds
      by (induction ds) (auto simp: copy_out_buffer_def split: option.split)
    then show "same_layout impl (ethercat_copy_out_buffers impl i j)"
      using cnt False by (simp add: same_layout_def ethercat_copy_out_buffers_def)
    show "ec_inv (ethercat_copy_out_buffers impl i j)" by (rule ec_inv_copy_out [OF ec_good_D(1) [OF assms(1)] assms(2,3)])
    show "ec_full (ethercat_copy_out_buffers impl i j)"
      using False ec_full_map_bound [OF cnt ec_good_D(4) [OF assms(1)] dev_full_ops(2)]
      by (simp add: ethercat_copy_out_buffers_def)
    show "iomap_size (ethercat_copy_out_buffers impl i j) = iomap_size impl"
      by (simp add: ethercat_copy_out_buffers_def map_bound_eq)
  qed
qed (use assms(1) in \<open>simp add: ethercat_copy_out_buffers_def\<close>)

lemma ec_good_idx:
  assumes "ec_good impl" "devices impl' = devices impl" "device_count impl' = device_count impl"
    "iomap impl' = iomap impl" "iomap_size impl' = iomap_size impl" "idx_ok impl'"
  shows "ec_good impl'"
  using assms(1,6)
  unfolding ec_good_def ec_ok_def ec_inv_def ec_mapped_def ec_full_def ec_sized_def bound_devices_def
    assms(2-5) by blast

lemma ec_good_cycle_begin:
  assumes "ec_good impl"
  shows "ec_good (ethercat_cycle_begin impl)"
proof -
  have idx: "idx_ok impl" by (rule ec_good_D(3) [OF assms])
  have g: "ec_good (impl\<lparr>plc_in_buffer_idx := active_in_buffer_idx impl\<rparr>)"
    by (rule ec_good_idx [OF assms]) (use idx in \<open>auto simp: idx_ok_def\<close>)
  have "nat (rt_out_buffer_idx impl) \<le> 1" "nat (active_out_buffer_idx impl) \<le> 1"
    using idx by (auto simp: idx_ok_def)
  from ec_good_copy_out_buffers [OF g this] show ?thesis
    using idx by (simp add: ethercat_cycle_begin_def Let_def)
qed

lemma ec_good_cycle_end:
  assumes "ec_good impl"
  shows "ec_good (ethercat_cycle_end impl)"
  by (rule ec_good_idx [OF assms])
    (use ec_inv_idx [OF ec_inv_cycle_end [OF ec_good_D(1) [OF assms]]] in
      \<open>simp_all add: ethercat_cycle_end_def Let_def\<close>)

lemma ec_good_store:
  assumes g: "ec_good impl" and o: "ethercat_get_output_data impl dev = (Some a, sz, impl')"
    and len: "length bs = unat sz"
  shows "ec_good (ec_buf_store impl' a bs)"
proof -
  let ?i = "unat dev" and ?k = "nat (active_out_buffer_idx impl)"
  let ?d = "devices impl ! ?i"
  have idx: "idx_ok impl" and inv: "ec_inv impl" by (rule ec_good_D [OF g])+
  have a: "a = OutBuf ?i ?k" "?i < device_count impl" "impl' = impl" "sz = out_size ?d"
    using o idx by (auto simp: buffer_addr_def split: if_splits option.splits)
  have st: "ec_buf_store impl' a bs =
      impl\<lparr>devices := (devices impl)[?i := ?d\<lparr>out_buffers := (out_buffers ?d)[?k := Some bs]\<rparr>]\<rparr>"
    by (simp add: a ec_buf_store_def)
  have inv': "ec_inv (ec_buf_store impl' a bs)"
    using ec_store_out(4) [OF inv a(2) refl] len a by simp
  have cnt: "device_count impl \<le> length (devices impl)" using inv by (simp add: ec_inv_def)
  have b: "bound_devices (ec_buf_store impl' a bs) =
      (bound_devices impl)[?i := ?d\<lparr>out_buffers := (out_buffers ?d)[?k := Some bs]\<rparr>]"
    by (simp add: st bound_devices_def take_update_swap)
  have bi: "bound_devices impl ! ?i = ?d" "?i < length (bound_devices impl)"
    using a(2) cnt by (simp_all add: bound_devices_def)
  show ?thesis
  proof (rule ec_good_layout [OF g _ inv'])
    show "same_layout impl (ec_buf_store impl' a bs)"
      unfolding same_layout_def b map_update
      using list_update_id [of "map (\<lambda>d. (soem_inputs d, soem_outputs d, in_size d, out_size d)) (bound_devices impl)" ?i] bi
      by (simp add: st)
    have "dev_full ?d" using ec_good_D(4) [OF g] bi nth_mem by (fastforce simp: ec_full_def)
    then show "ec_full (ec_buf_store impl' a bs)"
      using ec_good_D(4) [OF g] dev_full_ops(4) [of ?d ?k bs]
      by (auto simp: ec_full_def b dest!: set_update_cases)
    show "iomap_size (ec_buf_store impl' a bs) = iomap_size impl" by (simp add: st)
  qed
qed

lemma ec_good_rt_cycle:
  assumes g: "ec_good impl" and S: "soem_image_ok S"
  shows "ec_good (snd (rt_cycle S now (loc, impl)))"
proof (rule ec_good_layout [OF g rt_cycle_layout [OF ec_good_D(5) [OF g] S]])
  show "ec_inv (snd (rt_cycle S now (loc, impl)))"
    using rt_cycle_ok [OF ec_good_D(5) [OF g] S] by (simp add: ec_ok_def)
  have idx: "idx_ok impl" by (rule ec_good_D(3) [OF g])
  obtain wkc i2 where i2: "ec_exchange S (rt_outputs impl) = (wkc, i2)" by fastforce
  let ?i3 = "rt_state_check S (i2\<lparr>last_wkc := wkc\<rparr>)"
  have idx1: "idx_ok (rt_outputs impl)" using idx by simp
  have f2: "devices i2 = devices impl" "device_count i2 = device_count impl" "idx_ok i2"
      "iomap_size i2 = iomap_size impl"
    using ec_exchange_simps [of S "rt_outputs impl"] iomap_size_simps(1) [of S "rt_outputs impl"]
      rt_outputs_size [OF idx] idx i2 by simp_all
  then have f3: "device_count ?i3 = device_count impl" "idx_ok ?i3" "bound_devices ?i3 = bound_devices impl"
      "iomap_size ?i3 = iomap_size impl" "devices ?i3 = devices impl"
    by (simp_all add: idx_ok_def bound_devices_def)
  have cnt: "device_count impl \<le> length (devices impl)" using ec_good_D(1) [OF g] by (simp add: ec_inv_def)
  have "ec_full (ethercat_copy_iomap_to_in ?i3 k)" for k
    using ec_good_D(4) [OF g] f3 cnt
    by (auto simp: ethercat_copy_iomap_to_in_def ec_full_def dev_full_ops split: option.split)
  then have f4: "ec_full (rt_inputs ?i3)" using f3 by (simp add: rt_inputs_eq ec_full_def bound_devices_def)
  have "length (devices (rt_inputs ?i3)) = length (devices impl)"
    using f3 cnt by (simp add: rt_inputs_eq ethercat_copy_iomap_to_in_def split: option.split)
  then have cnt4: "device_count (rt_inputs ?i3) \<le> length (devices (rt_inputs ?i3))" using f3 cnt by simp
  have "ec_full (map_bound zero_out_device (rt_inputs ?i3))"
    by (rule ec_full_map_bound [OF cnt4 f4 dev_full_ops(3)])
  then have "ec_full (rt_supervise loc wkc (rt_inputs ?i3))"
    using f4 by (simp add: rt_supervise_cases Let_def ec_full_def ethercat_zero_output_buffers_def
        bound_devices_def map_bound_eq)
  then show "ec_full (snd (rt_cycle S now (loc, impl)))"
    by (simp add: rt_cycle_def i2 ec_full_def)
  show "iomap_size (snd (rt_cycle S now (loc, impl))) = iomap_size impl"
    using f3 by (simp add: rt_cycle_def i2 rt_supervise_cases Let_def rt_inputs_eq)
qed

lemma ec_run_good:
  assumes "ec_run S P impl" "soem_image_ok S" "soem_map_ok S"
  shows "ec_good impl"
  using assms(1)
proof induction
  case (mapped impl impl')
  from finalize_mapping_ok [OF ec_built_pre [OF mapped(1)] assms(2,3) mapped(2)]
  show ?case by (auto simp: ec_good_def ec_ready_def ec_full_def dev_full_def)
next
  case (get_input impl dev a sz impl')
  then show ?case using ec_good_D(3) [OF get_input.IH] by (auto split: if_splits)
next
  case (get_output impl dev a sz impl')
  then show ?case using ec_good_D(3) [OF get_output.IH] by (auto split: if_splits)
next
  case (thread_enter impl now loc impl')
  then have "impl' = impl\<lparr>rt_is_running := True\<rparr>" by (simp add: rt_thread_enter_def)
  then show ?case by - (rule ec_good_book [OF thread_enter.IH], simp_all)
qed (auto intro: ec_good_start ec_good_stop ec_good_cycle_begin ec_good_cycle_end ec_good_store
    ec_good_rt_cycle ec_good_exit assms)

end
