(* ===== verification/Ec_Fixed.thy ===== *)
theory Ec_Fixed
  imports Ec_Reach
begin

text \<open>
  What the operations of a mapped driver leave alone: of each bound device everything but the contents of its
  buffers (\<open>fixed\<close>). So the sizes that the mapping takes over from the device
  descriptors hold in every reachable state.
\<close>

section \<open>The devices without their buffers\<close>

definition dev_fixed :: "EthercatDevice \<Rightarrow> EthercatDevice" where
  "dev_fixed dev = dev\<lparr>in_buffers := [], out_buffers := []\<rparr>"

definition fixed :: "'x EthercatDriver \<Rightarrow> EthercatDevice list" where
  "fixed impl = map dev_fixed (bound_devices impl)"

lemma dev_fixed_ops [simp]:
  "dev_fixed (copy_in_device m k dev) = dev_fixed dev" "dev_fixed (copy_out_buffer a b dev) = dev_fixed dev"
  "dev_fixed (zero_out_device dev) = dev_fixed dev"
  "dev_fixed (dev\<lparr>in_buffers := bs\<rparr>) = dev_fixed dev" "dev_fixed (dev\<lparr>out_buffers := bs\<rparr>) = dev_fixed dev"
  by (simp_all add: dev_fixed_def copy_in_device_def copy_out_buffer_def zero_out_device_def split: option.split)

lemma fixed_frame: "devices impl' = devices impl \<Longrightarrow> device_count impl' = device_count impl \<Longrightarrow> fixed impl' = fixed impl"
  by (simp add: fixed_def bound_devices_def)

lemma fixed_map_bound:
  assumes "device_count impl \<le> length (devices impl)" "\<And>dev. dev_fixed (f dev) = dev_fixed dev"
  shows "fixed (map_bound f impl) = fixed impl"
  using assms by (simp add: fixed_def o_def)

lemma fixed_store: "fixed (ec_buf_store impl a bs) = fixed impl"
proof -
  have "map dev_fixed ((devices impl)[i := d]) = map dev_fixed (devices impl)" if "dev_fixed d = dev_fixed (devices impl ! i)" for i d
    using that by (intro nth_equalityI) (auto simp: nth_update_cases)
  then show ?thesis by (cases a) (simp_all add: fixed_def bound_devices_def ec_buf_store_def flip: take_map)
qed

section \<open>The operations\<close>

lemma fixed_zero_out: "ec_inv impl \<Longrightarrow> fixed (ethercat_zero_output_buffers impl) = fixed impl"
  using fixed_map_bound [of impl zero_out_device] fixed_frame [of "ethercat_zero_output_buffers impl" "map_bound zero_out_device impl"]
  by (simp add: ethercat_zero_output_buffers_def ec_inv_def)

lemma fixed_exit: "ec_inv impl \<Longrightarrow> fixed (rt_thread_exit S impl) = fixed impl"
  using fixed_frame [of "rt_thread_exit S impl" "ethercat_zero_output_buffers impl"]
  by (simp add: rt_thread_exit_def Let_def case_prod_unfold fixed_zero_out)

lemma fixed_stop:
  assumes "ec_good impl" "soem_image_ok S"
  shows "fixed (snd (ethercat_stop S impl)) = fixed impl"
proof -
  let ?i1 = "impl\<lparr>rt_should_run := False\<rparr>"
  let ?i2 = "if rt_is_running ?i1 then rt_thread_exit S ?i1 else ?i1"
  have g1: "ec_good ?i1" by (rule ec_good_book [OF assms(1)]) simp_all
  then have "ec_good ?i2" using ec_good_exit [OF g1 assms(2)] by simp
  then have "fixed (ethercat_zero_output_buffers ?i2) = fixed ?i2" by (intro fixed_zero_out ec_good_D(1))
  also have "\<dots> = fixed impl" using fixed_exit [OF ec_good_D(1) [OF g1]] by (simp add: fixed_def bound_devices_def)
  finally show ?thesis
    using fixed_frame [of "snd (ethercat_stop S impl)" "ethercat_zero_output_buffers ?i2"]
    by (simp add: ethercat_stop_def Let_def case_prod_unfold)
qed

lemma fixed_start:
  assumes "ec_good impl"
  shows "fixed (snd (ethercat_start S P impl)) = fixed impl"
proof (cases "iomap impl")
  case (Some m)
  let ?i = "impl\<lparr>iomap := Some (overwrite (replicate (iomap_size impl) 0) m)\<rparr>"
  have "ec_inv ?i" using ec_good_D(1) [OF assms] by (simp add: ec_inv_def bound_devices_def idx_ok_def)
  then have "fixed (ethercat_zero_output_buffers ?i) = fixed impl"
    by (simp add: fixed_zero_out) (simp add: fixed_def bound_devices_def)
  then show ?thesis
    using fixed_frame [of "snd (ethercat_start S P impl)" "ethercat_zero_output_buffers ?i"]
    by (simp add: ethercat_start_def Some Let_def case_prod_unfold)
qed (simp add: ethercat_start_def)

lemma fixed_cycle_begin:
  assumes "ec_good impl"
  shows "fixed (ethercat_cycle_begin impl) = fixed impl"
proof -
  let ?i = "impl\<lparr>plc_in_buffer_idx := active_in_buffer_idx impl\<rparr>"
  have "fixed (ethercat_copy_out_buffers ?i j k) = fixed ?i" for j k
    using fixed_map_bound [of ?i "copy_out_buffer j k"] ec_good_D(1) [OF assms]
    by (simp add: ethercat_copy_out_buffers_def ec_inv_def)
  then show ?thesis
    using ec_good_D(3) [OF assms] by (simp add: ethercat_cycle_begin_def Let_def) (simp add: fixed_def bound_devices_def)
qed

lemma fixed_cycle_end: "fixed (ethercat_cycle_end impl) = fixed impl"
  by (rule fixed_frame) simp_all

lemma fixed_supervise:
  assumes "ec_inv impl"
  shows "fixed (rt_supervise loc wkc impl) = fixed impl"
proof -
  have "fixed (ethercat_zero_output_buffers (impl\<lparr>dowkccheck := d, fault_latched := f\<rparr>)) = fixed impl" for d f
  proof -
    have "ec_inv (impl\<lparr>dowkccheck := d, fault_latched := f\<rparr>)" using assms by (simp add: ec_inv_def bound_devices_def idx_ok_def)
    then show ?thesis by (simp add: fixed_zero_out) (simp add: fixed_def bound_devices_def)
  qed
  then show ?thesis by (simp add: rt_supervise_cases Let_def fixed_def bound_devices_def)
qed

lemma fixed_rt_cycle:
  assumes "ec_good impl" "soem_image_ok S"
  shows "fixed (snd (rt_cycle S now (loc, impl))) = fixed impl"
proof -
  obtain wkc i4 where i4: "rt_before_supervise S impl = (wkc, i4)" by fastforce
  have ok: "ec_ok i4" using rt_before_supervise_ok [OF ec_good_D(5) [OF assms(1)] assms(2)] i4 by simp
  have io: "ec_inv impl" "ec_mapped impl" "idx_ok impl" using assms(1) by (simp_all add: ec_good_D)
  have f: "fixed (ethercat_copy_iomap_to_in i k) = fixed i" if "device_count i \<le> length (devices i)" for i :: "'a EthercatDriver" and k
    using fixed_map_bound [OF that] by (auto simp: ethercat_copy_iomap_to_in_def split: option.split)
  obtain w i2 where e: "ec_exchange S (rt_outputs impl) = (w, i2)" by fastforce
  let ?i3 = "rt_state_check S (i2\<lparr>last_wkc := w\<rparr>)"
  have i2: "devices i2 = devices impl" "device_count i2 = device_count impl" "idx_ok i2"
    using ec_exchange_simps [of S "rt_outputs impl"] io(3) e by simp_all
  then have "devices ?i3 = devices impl" "device_count ?i3 = device_count impl" "idx_ok ?i3" by (simp_all add: idx_ok_def)
  moreover have "i4 = rt_inputs ?i3" using i4 e by (auto simp: rt_before_supervise_def)
  ultimately have "fixed i4 = fixed impl"
    using f [of ?i3] io(1) fixed_frame [of ?i3 impl] fixed_frame [of i4 "ethercat_copy_iomap_to_in ?i3 (nat (1 - active_in_buffer_idx ?i3))"]
    by (simp add: rt_inputs_eq ec_inv_def)
  moreover have "fixed (rt_supervise loc wkc i4) = fixed i4" using ok by (intro fixed_supervise) (simp add: ec_ok_def)
  moreover have "fixed (snd (rt_timing now loc i)) = fixed i" for i :: "'a EthercatDriver" by (rule fixed_frame) simp_all
  ultimately show ?thesis by (simp add: rt_cycle_eq i4)
qed

section \<open>The sizes are those of the descriptors\<close>

definition described :: "EthercatDevice \<Rightarrow> bool" where
  "described dev \<longleftrightarrow> (\<exists>desc. ed_desc dev = Some desc \<and> in_size dev = tx_bytes desc \<and> out_size dev = rx_bytes desc)"

lemma described_fixed: "(\<forall>dev \<in> set (bound_devices impl). described dev) = (\<forall>dev \<in> set (fixed impl). described dev)"
  by (simp add: fixed_def described_def dev_fixed_def)

lemma finalize_devices:
  fixes impl :: "'x EthercatDriver"
  assumes "ec_pre impl" "ethercat_finalize_mapping S P impl = (0, impl')"
  shows "\<exists>c :: 'x ecx_context. \<forall>dev \<in> set (bound_devices impl'). dev_final c dev"
    and "map ed_desc (bound_devices impl') = map ed_desc (bound_devices impl)"
proof -
  obtain used ctx1 m1 wkc where cfg: "ec_soem_configure_iomap_group0 S (ctx impl) (iomap impl) (iomap_size impl) = (used, ctx1, m1, wkc)"
    by (metis prod.exhaust)
  let ?d1 = "impl\<lparr>ctx := ctx1, iomap := m1, expected_wkc := (case wkc of None \<Rightarrow> expected_wkc impl | Some w \<Rightarrow> w)\<rparr>"
  obtain ok devs where loop: "finalize_loop P ctx1 0 (bound_devices ?d1) = (ok, devs)" by fastforce
  have bd: "bound_devices ?d1 = bound_devices impl" by (simp add: bound_devices_def)
  have err: "finalize_error x \<noteq> (0, y)" "(0, y) \<noteq> finalize_error x" for x and y :: "'x EthercatDriver"
    by (auto simp: finalize_error_def)
  have io: "iomap impl \<noteq> None" "0 < used"
    using assms(2) cfg by (auto simp: ethercat_finalize_mapping_def Let_def split: if_splits)
  have fin: "ethercat_finalize_mapping S P impl =
      (if \<not> ok then finalize_error (set_bound ?d1 devs) else finalize_safe_op S (set_bound ?d1 devs))"
    using io cfg loop by (auto simp: ethercat_finalize_mapping_def Let_def)
  have "ok" using assms(2) fin err by (cases ok) auto
  then have f: "ok" "finalize_safe_op S (set_bound ?d1 devs) = (0, impl')" using assms(2) fin by simp_all
  have devs: "\<forall>dev \<in> set devs. dev_final ctx1 dev" "map ed_desc devs = map ed_desc (bound_devices impl)"
    "length devs = length (bound_devices impl)"
    using finalize_loop_ok [of P ctx1 0 "bound_devices impl" devs] loop f(1) bd by simp_all
  have cnt: "device_count impl' = device_count impl" "devices impl' = devices (set_bound ?d1 devs)"
    using f(2) err by (auto simp: finalize_safe_op_def reset_cycle_state_def Let_def split: prod.splits if_splits)
  then have b: "bound_devices impl' = devs"
    using assms(1) devs(3) by (simp add: bound_devices_def set_bound_def ec_pre_def)
  show "\<exists>c :: 'x ecx_context. \<forall>dev \<in> set (bound_devices impl'). dev_final c dev" unfolding b by (rule exI, rule devs(1))
  show "map ed_desc (bound_devices impl') = map ed_desc (bound_devices impl)" unfolding b by (rule devs(2))
qed

lemma ec_built_desc: "ec_built S P impl \<Longrightarrow> None \<notin> set (map ed_desc (bound_devices impl))"
proof (induction rule: ec_built.induct)
  case (create cfg sz n impl)
  then show ?case using ec_pre_create by (fastforce simp: bound_devices_def)
next
  case (init impl)
  then show ?case by (auto simp: ethercat_init_def bound_devices_def Let_def split: prod.split)
next
  case (bind impl cfg desc)
  have "take (Suc n) (ds[n := d]) = take n ds @ (if n < length ds then [d] else [])" for n and ds :: "EthercatDevice list" and d
    by (cases "n < length ds") (simp_all add: take_Suc_conv_app_nth list_update_beyond not_less)
  then show ?case using bind.IH by (auto simp: ethercat_bind_device_def bound_devices_def Let_def)
qed

lemma ec_run_described:
  assumes "ec_run S P impl" "soem_image_ok S" "soem_map_ok S"
  shows "\<forall>dev \<in> set (bound_devices impl). described dev"
  using assms(1) unfolding described_fixed
proof induction
  case (mapped impl impl')
  note fin = finalize_devices [OF ec_built_pre [OF mapped(1)] mapped(2)]
  have "None \<notin> set (map ed_desc (bound_devices impl'))" unfolding fin(2) by (rule ec_built_desc [OF mapped(1)])
  then have some: "\<exists>desc. ed_desc dev = Some desc" if "dev \<in> set (bound_devices impl')" for dev using that by force
  have "in_size dev = tx_bytes (the (ed_desc dev)) \<and> out_size dev = rx_bytes (the (ed_desc dev))"
    if "dev \<in> set (bound_devices impl')" for dev
    using fin(1) that by (auto simp: dev_final_def)
  then have "\<forall>dev \<in> set (bound_devices impl'). described dev" using some by (fastforce simp: described_def)
  then show ?case by (simp only: described_fixed)
next
  case (get_input impl dev a sz impl')
  then show ?case using ec_good_D(3) [OF ec_run_good [OF get_input.hyps(1) assms(2,3)]] by (auto split: if_splits)
next
  case (get_output impl dev a sz impl')
  then show ?case using ec_good_D(3) [OF ec_run_good [OF get_output.hyps(1) assms(2,3)]] by (auto split: if_splits)
next
  case (store impl dev a sz impl' bs)
  then show ?case
    using ec_good_D(3) [OF ec_run_good [OF store.hyps(1) assms(2,3)]] by (auto simp: fixed_store split: if_splits)
next
  case (thread_enter impl now loc impl')
  then show ?case by (auto simp: rt_thread_enter_def fixed_def bound_devices_def)
qed (use ec_run_good [OF _ assms(2,3)] assms(2) in \<open>simp_all add: fixed_start fixed_stop fixed_cycle_begin fixed_cycle_end fixed_rt_cycle fixed_exit ec_good_D(1)\<close>)

end
