(* ===== verification/Ec_Props.thy ===== *)
theory Ec_Props
  imports Ec_Fixed
begin

text \<open>
  The properties of the EtherCAT driver, over every state the step relation \<open>ec_run\<close> reaches,
  with a one-slave network as witness: its slave has one input byte at offset 0, which
  always reads 7, and one output byte at offset 1.
\<close>

section \<open>A small network\<close>

definition demo_slave :: ec_slave where
  "demo_slave = \<lparr>sl_state = 8, sl_inputs = Some 0, sl_outputs = Some 1, sl_Ibytes = 1, sl_Obytes = 1,
     sl_eep_man = 0x47535953, sl_eep_id = 5, sl_SM = [], sl_PO2SOconfig = None\<rparr>"

definition demo_context :: "unit ecx_context" where
  "demo_context = \<lparr>slavecount = 1, slavelist = [demo_slave, demo_slave], outputsWKC = 1, inputsWKC = 1,
     ctx_rest = ()\<rparr>"

definition demo_soem :: "int \<Rightarrow> unit soem" where
  "demo_soem wkc = \<lparr>ecx_init = (\<lambda>c n. (1, c)), ecx_config_init = (\<lambda>c. (1, demo_context)),
     ecx_config_map_group = (\<lambda>c m. (if length m < 2 then 0 else 2, demo_context, m)),
     ecx_writestate = (\<lambda>c. c), ecx_statecheck = (\<lambda>c st. (st, c)), ecx_readstate = (\<lambda>c. c),
     ecx_send_processdata = (\<lambda>c m. c),
     ecx_receive_processdata = (\<lambda>c m. (wkc, c, map_option (\<lambda>xs. xs[0 := 7]) m)),
     ecx_configdc = (\<lambda>c. c), ecx_close = (\<lambda>c. c), zero_context = demo_context\<rparr>"

definition demo_platform :: platform where
  "demo_platform = \<lparr>pf_alloc = (\<lambda>k. True), pf_thread_create = 0, pf_perf_freq = 1000\<rparr>"

definition demo_backend :: BackendConfig where
  "demo_backend = \<lparr>bc_type = BACKEND_TYPE_ETHERCAT, bc_name = Some ''eth'', bc_ifname = Some ''eth0'',
     bc_cycle_time_us = 1000, bc_dc_clock = False, bc_period_ns = 0, bc_spin_threshold_ns = 0,
     bc_rt_priority = 1, bc_rt_affinity_cpu = -1, bc_rt_reserved_cpu = -1,
     bc_rt_timer_resolution_ms = 0, bc_wkc_warn_threshold = 1, bc_wkc_fail_threshold = 2,
     bc_warmup_cycles = 1, bc_state_check_period_ms = 0\<rparr>"

definition demo_config :: DeviceConfig where
  "demo_config = \<lparr>dc_name = Some ''EL'', dc_model = Some ''demo'', dc_backend = Some ''eth'',
     dc_expected_position = 1, dc_io_addr = 0, dc_expected_vendor_id = 0, dc_expected_product_code = 0\<rparr>"

definition demo_desc :: DeviceDesc where
  "demo_desc = \<lparr>model = Some ''demo'', vendor_id = 0x47535953, product_code = 5, rx_bytes = 1, tx_bytes = 1,
     tags = None, tag_count = 0, hooks = \<lparr>on_init = None, on_update = None, on_shutdown = None\<rparr>\<rparr>"

definition demo_bound :: "int \<Rightarrow> unit EthercatDriver" where
  "demo_bound w =
     snd (ethercat_bind_device (snd (ethercat_init (demo_soem w) demo_platform
        (the (ethercat_create_impl (demo_soem w) demo_platform demo_backend 2 1)))) demo_config demo_desc)"

definition demo_driver :: "int \<Rightarrow> unit EthercatDriver" where
  "demo_driver w = snd (ethercat_finalize_mapping (demo_soem w) demo_platform (demo_bound w))"

lemma demo_soem_ok: "soem_image_ok (demo_soem w)" "soem_map_ok (demo_soem w)"
  by (auto simp: soem_image_ok_def soem_map_ok_def demo_soem_def same_size_def demo_context_def
      demo_slave_def slave_mapped_def option.map_comp comp_def split: if_splits)

lemma demo_steps:
  "Option.is_none (ethercat_create_impl (demo_soem 3) demo_platform demo_backend 2 1) = False"
  "fst (ethercat_finalize_mapping (demo_soem 3) demo_platform (demo_bound 3)) = 0"
  "Option.is_none (ethercat_create_impl (demo_soem 0) demo_platform demo_backend 2 1) = False"
  "fst (ethercat_finalize_mapping (demo_soem 0) demo_platform (demo_bound 0)) = 0"
  by code_simp+

lemma demo_run: "ec_run (demo_soem 3) demo_platform (demo_driver 3)" "ec_run (demo_soem 0) demo_platform (demo_driver 0)"
proof -
  have "ec_run (demo_soem w) demo_platform (demo_driver w)"
    if "Option.is_none (ethercat_create_impl (demo_soem w) demo_platform demo_backend 2 1) = False"
      "fst (ethercat_finalize_mapping (demo_soem w) demo_platform (demo_bound w)) = 0" for w
  proof (rule ec_run.mapped)
    show "ethercat_finalize_mapping (demo_soem w) demo_platform (demo_bound w) = (0, demo_driver w)"
      using that(2) by (simp add: demo_driver_def prod_eq_iff)
    show "ec_built (demo_soem w) demo_platform (demo_bound w)"
      using that(1) unfolding demo_bound_def
      by (intro ec_built.bind ec_built.init ec_built.create) (auto simp: Option.is_none_def)
  qed
  then show "ec_run (demo_soem 3) demo_platform (demo_driver 3)" "ec_run (demo_soem 0) demo_platform (demo_driver 0)"
    using demo_steps by blast+
qed

section \<open>Properties\<close>

text \<open>
  C16. In every state between two operations of a mapped driver, each taken whole, the buffer
  in which the PLC stages its outputs and the one marked for the real-time thread differ, and all buffer indices are
  0 or 1. Every bound device has a descriptor; its two input buffers are exactly as long as the
  descriptor's transmit PDO, its two output buffers as its receive PDO, and the sizes the driver reports for
  them are these. The regions of the process image that are copied lie inside it. (Inside a copy
  of the real-time thread the indices can move on, which \<open>Ec_Concurrent\<close> treats.)
\<close>

theorem ec_staging_separate:
  assumes "ec_run S P impl" "soem_image_ok S" "soem_map_ok S"
  shows "active_out_buffer_idx impl \<in> {0, 1} \<and> rt_out_buffer_idx impl = 1 - active_out_buffer_idx impl
    \<and> active_in_buffer_idx impl \<in> {0, 1} \<and> plc_in_buffer_idx impl \<in> {0, 1}
    \<and> (\<forall>i < device_count impl. \<exists>desc. ed_desc (devices impl ! i) = Some desc
        \<and> in_size (devices impl ! i) = tx_bytes desc \<and> out_size (devices impl ! i) = rx_bytes desc
        \<and> (\<forall>k \<le> 1. (\<exists>b. in_buffers (devices impl ! i) ! k = Some b \<and> length b = unat (tx_bytes desc))
            \<and> (\<exists>b. out_buffers (devices impl ! i) ! k = Some b \<and> length b = unat (rx_bytes desc))))
    \<and> (\<exists>m. iomap impl = Some m \<and> (\<forall>dev \<in> set (bound_devices impl). dev_mapped (length m) dev))"
proof -
  have g: "ec_good impl" by (rule ec_run_good [OF assms])
  have "\<exists>desc. ed_desc (devices impl ! i) = Some desc \<and> in_size (devices impl ! i) = tx_bytes desc \<and> out_size (devices impl ! i) = rx_bytes desc
        \<and> (\<forall>k \<le> 1. (\<exists>b. in_buffers (devices impl ! i) ! k = Some b \<and> length b = unat (tx_bytes desc))
            \<and> (\<exists>b. out_buffers (devices impl ! i) ! k = Some b \<and> length b = unat (rx_bytes desc)))"
    if "i < device_count impl" for i
  proof -
    have "devices impl ! i \<in> set (bound_devices impl)"
      using that ec_good_D(1) [OF g] by (intro bound_nth) (simp_all add: ec_inv_def)
    then obtain desc where "ed_desc (devices impl ! i) = Some desc" "in_size (devices impl ! i) = tx_bytes desc"
      "out_size (devices impl ! i) = rx_bytes desc"
      using ec_run_described [OF assms] by (auto simp: described_def)
    then show ?thesis using ec_ready_buffer [OF ec_good_ready [OF g] that] by metis
  qed
  moreover obtain m where "iomap impl = Some m" using g by (auto simp: ec_good_def)
  ultimately show ?thesis
    using ec_good_D(2,3) [OF g] by (auto simp: idx_ok_def ec_mapped_def)
qed

lemma ec_staging_separate_witness:
  "rt_out_buffer_idx (demo_driver 3) = 1 - active_out_buffer_idx (demo_driver 3)"
  using ec_staging_separate [OF demo_run(1) demo_soem_ok] by blast

text \<open>
  What the PLC stages is what the network gets. When the PLC ends its cycle with the
  bytes \<open>img\<close> staged for device \<open>i\<close>, the next real-time cycle puts exactly these bytes
  into the device's region of the process image before it sends it, or zeros while a fault
  is latched.
\<close>

lemma published_region:
  assumes "ec_run S P impl" "soem_image_ok S" "soem_map_ok S"
    and "regions_apart (bound_devices impl)" "i < device_count impl"
    and "soem_outputs (devices impl ! i) = Some off"
    and "ec_out_image impl i = Some img"
  shows "mem_get off (length img) (the (iomap (rt_outputs (ethercat_cycle_end impl)))) =
    (if fault_latched impl = 0 then img else replicate (length img) 0)"
proof -
  have g: "ec_good impl" by (rule ec_run_good [OF assms(1-3)])
  have inv: "ec_inv impl" by (rule ec_good_D(1) [OF g])
  obtain m where m: "iomap impl = Some m" using g by (auto simp: ec_good_def)
  have "length img = unat (out_size (devices impl ! i))" by (rule ec_image_len(2) [OF inv assms(7)])
  moreover have "ec_rt_image (ethercat_cycle_end impl) i = Some img"
    using assms(7) by (simp add: cycle_end_images [OF inv])
  ultimately show ?thesis
    using rt_outputs_region [OF ec_ok_cycle_end [OF ec_good_D(5) [OF g]], of m i off] assms(4-6) m by simp
qed

text \<open>
  Outputs the PLC does not touch keep their value: at the start of a PLC cycle the staging
  image of each device equals what the real-time thread is sending, and sending is not
  disturbed.
\<close>

theorem ec_outputs_carried_over:
  assumes "ec_run S P impl" "soem_image_ok S" "soem_map_ok S" "i < device_count impl"
  shows "ec_out_image (ethercat_cycle_begin impl) i = ec_rt_image impl i
    \<and> ec_rt_image (ethercat_cycle_begin impl) i = ec_rt_image impl i \<and> ec_rt_image impl i \<noteq> None"
proof -
  have r: "ec_ready impl" by (rule ec_good_ready [OF ec_run_good [OF assms(1-3)]])
  have "nat (rt_out_buffer_idx impl) \<le> 1"
    using ec_good_D(3) [OF ec_run_good [OF assms(1-3)]] by (auto simp: idx_ok_def)
  then have "ec_rt_image impl i \<noteq> None"
    using ec_ready_buffer [OF r assms(4)] assms(4) by (metis ec_rt_image_def option.distinct(1))
  then show ?thesis using cycle_begin_images [OF r assms(4)] by simp
qed

lemma ec_outputs_carried_over_witness:
  "ec_out_image (ethercat_cycle_begin (ethercat_cycle_end (demo_driver 3))) 0 =
     ec_rt_image (ethercat_cycle_end (demo_driver 3)) 0"
proof -
  have "0 < device_count (ethercat_cycle_end (demo_driver 3))" by code_simp
  then show ?thesis
    using ec_outputs_carried_over [OF ec_run.cycle_end [OF demo_run(1)] demo_soem_ok] by blast
qed

text \<open>One real-time cycle of a reachable driver, seen through the input buffers of a device.\<close>

lemma ec_run_cycle_inputs:
  assumes run: "ec_run S P impl" "soem_image_ok S" "soem_map_ok S" and i: "i < device_count impl"
    and off: "soem_inputs (devices impl ! i) = Some off"
    and impl': "impl' = snd (rt_cycle S now (loc, impl))" and k: "k \<le> 1"
  shows "in_buffers (devices impl' ! i) ! k =
      (if k = nat (1 - active_in_buffer_idx impl)
       then Some (mem_get off (unat (in_size (devices impl ! i))) (ec_received S impl))
       else in_buffers (devices impl ! i) ! k)"
    and "active_in_buffer_idx impl' = 1 - active_in_buffer_idx impl"
    and "plc_in_buffer_idx impl' = plc_in_buffer_idx impl" and "device_count impl' = device_count impl"
    and "ec_run S P impl'"
    and "soem_inputs (devices impl' ! i) = Some off" and "in_size (devices impl' ! i) = in_size (devices impl ! i)"
proof -
  have g: "ec_good impl" by (rule ec_run_good [OF run])
  have "nat (1 - active_in_buffer_idx impl) \<le> 1" using ec_good_D(3) [OF g] by (auto simp: idx_ok_def)
  then obtain b where b: "in_buffers (devices impl ! i) ! nat (1 - active_in_buffer_idx impl) = Some b"
    using ec_ready_buffer [OF ec_good_ready [OF g] i] by metis
  have io: "iomap impl \<noteq> None" using g by (simp add: ec_good_def)
  note c = rt_cycle_inputs [OF ec_good_D(5) [OF g] run(2) io i off b k impl']
  show "in_buffers (devices impl' ! i) ! k =
      (if k = nat (1 - active_in_buffer_idx impl)
       then Some (mem_get off (unat (in_size (devices impl ! i))) (ec_received S impl))
       else in_buffers (devices impl ! i) ! k)" by (rule c(1))
  show "active_in_buffer_idx impl' = 1 - active_in_buffer_idx impl"
    "plc_in_buffer_idx impl' = plc_in_buffer_idx impl" and cnt: "device_count impl' = device_count impl"
    by (rule c)+
  show run': "ec_run S P impl'" unfolding impl' by (rule ec_run.thread_cycle [OF run(1)])
  have "same_layout impl impl'" unfolding impl' by (rule rt_cycle_layout [OF ec_good_D(5) [OF g] run(2)])
  from same_layout_nth [OF this cnt i ec_good_D(1) [OF g] ec_good_D(1) [OF ec_run_good [OF run' run(2,3)]]]
  show "soem_inputs (devices impl' ! i) = Some off" "in_size (devices impl' ! i) = in_size (devices impl ! i)"
    using off by simp_all
qed

text \<open>
  C17. What the network delivers is what the PLC reads. The input image the PLC latches at the
  start of its cycle consists of the bytes the last real-time cycle received for the
  device.
\<close>

theorem ec_inputs_delivered:
  assumes "ec_run S P impl" "soem_image_ok S" "soem_map_ok S" "i < device_count impl"
    and "soem_inputs (devices impl ! i) = Some off"
  shows "ec_in_image (ethercat_cycle_begin (snd (rt_cycle S now (loc, impl)))) i =
    Some (mem_get off (unat (in_size (devices impl ! i))) (ec_received S impl))"
proof -
  have "nat (1 - active_in_buffer_idx impl) \<le> 1"
    using ec_good_D(3) [OF ec_run_good [OF assms(1-3)]] by (auto simp: idx_ok_def)
  note c = ec_run_cycle_inputs [OF assms refl this, of now loc]
  show ?thesis
    using cycle_begin_images(3) [OF ec_good_ready [OF ec_run_good [OF c(5) assms(2,3)]], of i] c(1,2,4) assms(4)
    by simp
qed

definition demo_locals :: rt_locals where
  "demo_locals = fst (rt_thread_enter 0 (demo_driver 3))"

lemma demo_device: "0 < device_count (demo_driver 3)" "soem_inputs (devices (demo_driver 3) ! 0) = Some 0"
  "regions_apart (bound_devices (demo_driver 3))"
  by code_simp+

lemma ec_inputs_delivered_witness:
  "ec_in_image (ethercat_cycle_begin (snd (rt_cycle (demo_soem 3) 5 (demo_locals, demo_driver 3)))) 0 = Some [7]"
proof -
  have "mem_get 0 (unat (in_size (devices (demo_driver 3) ! 0))) (ec_received (demo_soem 3) (demo_driver 3)) = [7]"
    by code_simp
  then show ?thesis
    using ec_inputs_delivered [OF demo_run(1) demo_soem_ok demo_device(1,2), of 5 demo_locals] by simp
qed

text \<open>
  The latched input image survives one real-time cycle: right after the PLC has latched
  its inputs, a full cycle of the thread leaves every byte the PLC sees unchanged.
\<close>

theorem ec_snapshot_one_cycle:
  assumes "ec_run S P impl" "soem_image_ok S" "soem_map_ok S" "i < device_count impl"
    and "soem_inputs (devices impl ! i) = Some off"
    and "plc_in_buffer_idx impl = active_in_buffer_idx impl"
  shows "ec_in_image (snd (rt_cycle S now (loc, impl))) i = ec_in_image impl i"
proof -
  have idx: "idx_ok impl" by (rule ec_good_D(3) [OF ec_run_good [OF assms(1-3)]])
  then have k: "nat (plc_in_buffer_idx impl) \<le> 1" by (auto simp: idx_ok_def)
  have "nat (plc_in_buffer_idx impl) \<noteq> nat (1 - active_in_buffer_idx impl)"
    using idx assms(6) by (auto simp: idx_ok_def)
  then show ?thesis
    using ec_run_cycle_inputs(1,3,4) [OF assms(1-5) refl k, of now loc] assms(4)
    by (simp add: ec_in_image_def)
qed

lemma ec_snapshot_one_cycle_witness:
  "ec_in_image (snd (rt_cycle (demo_soem 3) 5 (demo_locals, demo_driver 3))) 0 = ec_in_image (demo_driver 3) 0"
proof -
  have "plc_in_buffer_idx (demo_driver 3) = active_in_buffer_idx (demo_driver 3)" by code_simp
  then show ?thesis
    by (rule ec_snapshot_one_cycle [OF demo_run(1) demo_soem_ok demo_device(1,2)])
qed

text \<open>
  It does not survive two: with two buffers, the second real-time cycle within one PLC
  cycle writes its freshly received bytes into the very buffer the PLC is reading.
\<close>

theorem ec_snapshot_two_cycles:
  assumes "ec_run S P impl" "soem_image_ok S" "soem_map_ok S" "i < device_count impl"
    and "soem_inputs (devices impl ! i) = Some off"
    and "plc_in_buffer_idx impl = active_in_buffer_idx impl"
    and "impl1 = snd (rt_cycle S now1 (loc1, impl))" and "impl2 = snd (rt_cycle S now2 (loc2, impl1))"
  shows "ec_in_image impl2 i = Some (mem_get off (unat (in_size (devices impl ! i))) (ec_received S impl1))"
proof -
  have idx: "idx_ok impl" by (rule ec_good_D(3) [OF ec_run_good [OF assms(1-3)]])
  then have k: "nat (plc_in_buffer_idx impl) \<le> 1" by (auto simp: idx_ok_def)
  note c1 = ec_run_cycle_inputs [OF assms(1-5) assms(7) k]
  have "i < device_count impl1" using c1(4) assms(4) by simp
  note c2 = ec_run_cycle_inputs [OF c1(5) assms(2,3) this c1(6) assms(8) k]
  have "plc_in_buffer_idx impl2 = plc_in_buffer_idx impl" using c1(3) c2(3) by simp
  moreover have "device_count impl2 = device_count impl" using c1(4) c2(4) by simp
  moreover have "nat (plc_in_buffer_idx impl) = nat (1 - active_in_buffer_idx impl1)"
    using c1(2) assms(6) by simp
  ultimately show ?thesis
    using c2(1) c1(7) assms(4) unfolding ec_in_image_def by metis
qed

lemma demo_received:
  assumes "ec_run (demo_soem w) demo_platform impl" "0 < device_count impl"
    and "soem_inputs (devices impl ! 0) = Some 0" "in_size (devices impl ! 0) = 1"
  shows "mem_get 0 1 (ec_received (demo_soem w) impl) = [7]"
proof -
  have g: "ec_good impl" by (rule ec_run_good [OF assms(1) demo_soem_ok])
  obtain m where m: "iomap impl = Some m" using g by (auto simp: ec_good_def)
  have "devices impl ! 0 \<in> set (bound_devices impl)"
    using assms(2) ec_good_D(1) [OF g] by (intro bound_nth) (auto simp: ec_inv_def)
  then have "1 \<le> length m"
    using m ec_good_D(2) [OF g] assms(3,4) by (force simp: ec_mapped_def dev_mapped_def)
  moreover obtain m' where m': "iomap (rt_outputs impl) = Some m'" "length m' = length m"
    using same_layout_phases(1) [OF ec_good_D(1,2) [OF g]] m
    by (cases "iomap (rt_outputs impl)") (auto simp: same_layout_def same_size_def)
  moreover have "ec_received (demo_soem w) impl = m'[0 := 7]"
    using m' by (simp add: ec_received_def ec_exchange_def demo_soem_def)
  ultimately show ?thesis by (cases m') (auto simp: mem_get_def)
qed

lemma ec_snapshot_two_cycles_witness:
  "ec_in_image (demo_driver 3) 0 = Some [0] \<and>
   ec_in_image (snd (rt_cycle (demo_soem 3) 9 (demo_locals,
      snd (rt_cycle (demo_soem 3) 5 (demo_locals, demo_driver 3))))) 0 = Some [7]"
proof -
  let ?i1 = "snd (rt_cycle (demo_soem 3) 5 (demo_locals, demo_driver 3))"
  have h: "plc_in_buffer_idx (demo_driver 3) = active_in_buffer_idx (demo_driver 3)"
    "in_size (devices (demo_driver 3) ! 0) = 1" "ec_in_image (demo_driver 3) 0 = Some [0]"
    by code_simp+
  note c = ec_run_cycle_inputs [OF demo_run(1) demo_soem_ok demo_device(1,2) refl, of 0 5 demo_locals]
  have "mem_get 0 1 (ec_received (demo_soem 3) ?i1) = [7]"
    by (rule demo_received) (use c(4-7) h demo_device in simp_all)
  moreover have "ec_in_image (snd (rt_cycle (demo_soem 3) 9 (demo_locals, ?i1))) 0 =
      Some (mem_get 0 (unat (in_size (devices (demo_driver 3) ! 0))) (ec_received (demo_soem 3) ?i1))"
    by (rule ec_snapshot_two_cycles [OF demo_run(1) demo_soem_ok demo_device(1,2) h(1) refl refl])
  ultimately show ?thesis using h by simp
qed

text \<open>
  C20. The fault latch trips exactly on a run of bad cycles: after any number of real-time
  cycles from a fault-free state, the fault is latched if and only if somewhere among them
  there are \<^verbatim>\<open>wkc_fail_threshold\<close> bad cycles in a row. Single bad cycles never latch, and once
  latched nothing but a restart clears it.
\<close>

theorem ec_fault_latch:
  assumes "ec_run S P impl" "soem_image_ok S" "soem_map_ok S" "rt_should_run impl"
    and "dowkccheck impl = 0" "fault_latched impl = 0" "0 < rl_fail_threshold loc"
  shows "fault_latched (snd (rt_cycles S nows (loc, impl))) \<noteq> 0 \<longleftrightarrow>
    (\<exists>i. i + unat (rl_fail_threshold loc) \<le> length nows
       \<and> (\<forall>j < unat (rl_fail_threshold loc). rt_bad_flags S nows (loc, impl) ! (i + j)))"
proof -
  let ?f = "unat (rl_fail_threshold loc)" and ?b = "rt_bad_flags S nows (loc, impl)"
  have ok: "ec_ok impl" by (rule ec_good_D(5) [OF ec_run_good [OF assms(1-3)]])
  have w: "?f \<le> streak (take n ?b) \<longleftrightarrow> ?f \<le> n \<and> (\<forall>j < ?f. ?b ! (n - Suc j))" if "n \<le> length nows" for n
    using that by (auto simp: streak_ge min_def)
  have "(\<exists>n \<le> length nows. ?f \<le> streak (take n ?b)) \<longleftrightarrow>
      (\<exists>i. i + ?f \<le> length nows \<and> (\<forall>j < ?f. ?b ! (i + j)))"
  proof
    assume "\<exists>n \<le> length nows. ?f \<le> streak (take n ?b)"
    then obtain n where n: "n \<le> length nows" "?f \<le> n" "\<forall>j < ?f. ?b ! (n - Suc j)" using w by blast
    have "?b ! (n - ?f + j)" if "j < ?f" for j
    proof -
      have "n - ?f + j = n - Suc (?f - Suc j)" "?f - Suc j < ?f" using n(2) that by auto
      then show ?thesis using n(3) by metis
    qed
    then show "\<exists>i. i + ?f \<le> length nows \<and> (\<forall>j < ?f. ?b ! (i + j))"
      using n by (intro exI [of _ "n - ?f"]) simp
  next
    assume "\<exists>i. i + ?f \<le> length nows \<and> (\<forall>j < ?f. ?b ! (i + j))"
    then obtain i where i: "i + ?f \<le> length nows" "\<forall>j < ?f. ?b ! (i + j)" by blast
    have "?b ! (i + ?f - Suc j)" if "j < ?f" for j
    proof -
      have "i + ?f - Suc j = i + (?f - Suc j)" "?f - Suc j < ?f" using that by auto
      then show ?thesis using i(2) by metis
    qed
    then show "\<exists>n \<le> length nows. ?f \<le> streak (take n ?b)"
      using i(1) w [of "i + ?f"] by (intro exI [of _ "i + ?f"]) simp
  qed
  then show ?thesis
    using rt_cycles_fault [of "(loc, impl)" S nows] ok assms by simp
qed

definition demo_started :: "unit EthercatDriver" where
  "demo_started = snd (ethercat_start (demo_soem 0) demo_platform (demo_driver 0))"

definition late_locals :: "u32 \<Rightarrow> rt_locals" where
  "late_locals n = \<lparr>rl_expected_wkc = 3, rl_warn_threshold = 1, rl_fail_threshold = n,
     rl_cycle_count = 2 ^ 40, rl_deadline = 0\<rparr>"

lemma late_locals_fail: "rl_fail_threshold (late_locals n) = n"
  by (simp add: late_locals_def)

lemma late_bad: "rt_cycle_bad (demo_soem 0) (late_locals n, impl)"
proof -
  have "\<not> (2 ^ 40 :: u64) < ucast (w :: u32)" for w
  proof -
    have "unat (ucast w :: u64) = unat w" 
      using unat_u32_less [of w] by (simp add: unsigned_ucast_eq take_bit_nat_eq_self)
    then show ?thesis using unat_u32_less [of w] by (simp add: word_less_nat_alt)
  qed
  then have "rt_bad_cycle (late_locals n) 0 i" for i :: "unit EthercatDriver"
    by (simp add: rt_bad_cycle_def late_locals_def)
  moreover have "fst (rt_before_supervise (demo_soem 0) impl) = 0"
    by (simp add: rt_before_supervise_def ec_exchange_def demo_soem_def)
  ultimately show ?thesis by (simp add: rt_cycle_bad_def case_prod_unfold)
qed

lemma ec_fault_latch_witness:
  "fault_latched (snd (rt_cycles (demo_soem 0) [10] (late_locals 1, demo_started))) \<noteq> 0
   \<and> fault_latched (snd (rt_cycles (demo_soem 0) [10] (late_locals 2, demo_started))) = 0"
proof -
  have run: "ec_run (demo_soem 0) demo_platform demo_started"
    unfolding demo_started_def by (rule ec_run.start [OF demo_run(2)])
  have h: "rt_should_run demo_started" "dowkccheck demo_started = 0" "fault_latched demo_started = 0"
    by code_simp+
  have "fault_latched (snd (rt_cycles (demo_soem 0) [10] (late_locals 1, demo_started))) \<noteq> 0"
    by (subst ec_fault_latch [OF run demo_soem_ok h]) (simp_all add: late_bad late_locals_fail)
  moreover have "\<not> fault_latched (snd (rt_cycles (demo_soem 0) [10] (late_locals 2, demo_started))) \<noteq> 0"
    by (subst ec_fault_latch [OF run demo_soem_ok h]) (simp_all add: late_bad late_locals_fail)
  ultimately show ?thesis by blast
qed

lemma ec_built_no_buffers:
  "ec_built S P impl \<Longrightarrow> dev \<in> set (bound_devices impl) \<Longrightarrow>
     in_buffers dev = [None, None] \<and> out_buffers dev = [None, None]"
proof (induction arbitrary: dev rule: ec_built.induct)
  case (create cfg sz n impl)
  then show ?case by (auto simp: bound_devices_def dest!: ec_pre_create)
next
  case (init impl)
  then show ?case by (auto simp: ethercat_init_def bound_devices_def Let_def split: prod.splits if_splits)
next
  case (bind impl cfg desc)
  have pre: "length (devices impl) = device_capacity impl" using ec_built_pre [OF bind(1)] by (simp add: ec_pre_def)
  show ?case
    using bind.prems bind.IH pre
    by (auto simp: ethercat_bind_device_def Let_def bound_devices_def take_Suc_conv_app_nth zero_device_def
        split: if_splits)
qed

lemma finalize_error_free:
  "device_count x \<le> length (devices x) \<Longrightarrow> dev \<in> set (bound_devices (snd (finalize_error x))) \<Longrightarrow>
     in_buffers dev = [None, None] \<and> out_buffers dev = [None, None]"
proof -
  assume "device_count x \<le> length (devices x)" "dev \<in> set (bound_devices (snd (finalize_error x)))"
  moreover from this(1) have "length (map free_device_buffers (bound_devices x)) = device_count x"
    by (simp add: bound_devices_def)
  ultimately show ?thesis by (auto simp: finalize_error_def free_device_buffers_def)
qed

lemma finalize_safe_op_cases:
  assumes "device_count x \<le> length (devices x)" "finalize_safe_op S x = (rc, impl')" "rc \<noteq> 0"
  obtains y where "impl' = snd (finalize_error y)" "device_count y \<le> length (devices y)"
proof -
  define i4 where "i4 = (if dc_clock (reset_cycle_state x)
      then (reset_cycle_state x)\<lparr>ctx := ecx_configdc S (ctx (reset_cycle_state x))\<rparr> else reset_cycle_state x)"
  obtain r c where "ec_soem_request_safe_op S (ctx i4) = (r, c)" by fastforce
  then have "finalize_safe_op S x = (if r \<noteq> 0 then finalize_error (i4\<lparr>ctx := c\<rparr>)
      else (0, i4\<lparr>ctx := c, ec_state := EC_STATE_SAFE_OP\<rparr>))"
    by (simp add: finalize_safe_op_def Let_def flip: i4_def)
  moreover have "device_count (i4\<lparr>ctx := c\<rparr>) \<le> length (devices (i4\<lparr>ctx := c\<rparr>))"
    using assms(1) by (simp add: i4_def reset_cycle_state_def)
  ultimately show thesis
    using assms(2,3) that [of "i4\<lparr>ctx := c\<rparr>"] by (cases "r = 0") (simp, metis snd_conv)
qed

lemma finalize_mapping_fail:
  assumes b: "ec_built S P impl" and f: "ethercat_finalize_mapping S P impl = (rc, impl')" and rc: "rc \<noteq> 0"
    and d: "dev \<in> set (bound_devices impl')"
  shows "in_buffers dev = [None, None] \<and> out_buffers dev = [None, None]"
proof -
  obtain used c m1 w where map: "ec_soem_configure_iomap_group0 S (ctx impl) (iomap impl) (iomap_size impl)
      = (used, c, m1, w)" by (metis prod.exhaust)
  define i1 where "i1 = impl\<lparr>ctx := c, iomap := m1,
      expected_wkc := (case w of None \<Rightarrow> expected_wkc impl | Some w \<Rightarrow> w)\<rparr>"
  obtain ok devs where loop: "finalize_loop P c 0 (bound_devices i1) = (ok, devs)" by fastforce
  have cnt: "device_count impl \<le> length (devices impl)" using ec_built_pre [OF b] by (simp add: ec_pre_def)
  have b1: "bound_devices i1 = bound_devices impl" by (simp add: i1_def bound_devices_def)
  have "length devs = device_count impl"
    using length_finalize_loop [of P c 0 "bound_devices i1"] loop cnt unfolding b1
    by (simp add: bound_devices_def)
  then have l2: "device_count (set_bound i1 devs) \<le> length (devices (set_bound i1 devs))"
    by (simp add: set_bound_def i1_def)
  have "ethercat_finalize_mapping S P impl =
      (if iomap impl = None then (-1, impl) else if used \<le> 0 then (-1, i1)
       else if \<not> ok then finalize_error (set_bound i1 devs) else finalize_safe_op S (set_bound i1 devs))"
    using map loop by (simp add: ethercat_finalize_mapping_def Let_def flip: i1_def)
  then consider "bound_devices impl' = bound_devices impl" | "impl' = snd (finalize_error (set_bound i1 devs))"
    | "finalize_safe_op S (set_bound i1 devs) = (rc, impl')"
    using f b1 by (auto split: if_splits) (metis snd_conv)
  then show ?thesis
  proof cases
    case 3
    then show ?thesis using finalize_safe_op_cases [OF l2 _ rc] finalize_error_free d by metis
  qed (use d ec_built_no_buffers [OF b] finalize_error_free [OF l2] in auto)
qed

text \<open>
  C21. Mapping is all or nothing. When it succeeds, every bound device sits on an existing
  slave whose vendor and product are the expected ones (the configuration's, or else the
  descriptor's) and whose PDOs are at least as large as the descriptor says, and its buffers
  have the descriptor's sizes. When it fails, no device keeps a buffer.
\<close>

theorem ec_finalize_all_or_nothing:
  assumes "ec_built S P impl" "soem_image_ok S" "soem_map_ok S"
    and "ethercat_finalize_mapping S P impl = (rc, impl')"
  shows "if rc = 0
    then \<exists>c m u m'. ecx_config_map_group S (ctx impl) m = (u, c, m') \<and> device_count impl' = device_count impl
      \<and> (\<forall>dev \<in> set (bound_devices impl'). dev_final c dev)
    else \<forall>dev \<in> set (bound_devices impl'). in_buffers dev = [None, None] \<and> out_buffers dev = [None, None]"
proof (cases "rc = 0")
  case True
  from finalize_mapping_ok [OF ec_built_pre [OF assms(1)] assms(2,3), of P impl'] assms(4) True
  obtain c m u where "ecx_config_map_group S (ctx impl) m = (u, c)" "device_count impl' = device_count impl"
    "\<forall>dev \<in> set (bound_devices impl'). dev_final (fst c) dev" by auto
  then show ?thesis using True by (metis prod.collapse)
next
  case False
  with finalize_mapping_fail [OF assms(1,4)] show ?thesis by simp
qed

lemma demo_built: "ec_built (demo_soem 3) demo_platform (demo_bound 3)"
  using demo_steps(1) unfolding demo_bound_def
  by (intro ec_built.bind ec_built.init ec_built.create) (auto simp: Option.is_none_def)

lemma demo_finalize: "ethercat_finalize_mapping (demo_soem 3) demo_platform (demo_bound 3) = (0, demo_driver 3)"
  using demo_steps(2) by (simp add: demo_driver_def prod_eq_iff)

lemma ec_finalize_all_or_nothing_witness:
  "\<exists>c :: unit ecx_context. \<forall>dev \<in> set (bound_devices (demo_driver 3)). dev_final c dev"
  using ec_finalize_all_or_nothing [OF demo_built demo_soem_ok demo_finalize]
  by (auto simp only: simp_thms if_True)

text \<open>The driver after a stop, whatever the network answered.\<close>

definition stop_joined :: "'x soem \<Rightarrow> 'x EthercatDriver \<Rightarrow> 'x EthercatDriver" where
  "stop_joined S impl = (if rt_is_running impl then rt_thread_exit S (impl\<lparr>rt_should_run := False\<rparr>)
     else impl\<lparr>rt_should_run := False\<rparr>)"

lemma ethercat_stop_cases:
  obtains i4 c st where "snd (ethercat_stop S impl) = i4\<lparr>ctx := c, in_op := False, ec_state := st\<rparr>"
    "devices i4 = devices (ethercat_zero_output_buffers (stop_joined S impl))" "\<not> rt_should_run i4"
proof -
  let ?i2 = "stop_joined S impl"
  let ?i3 = "ethercat_copy_out_to_iomap (ethercat_zero_output_buffers ?i2) 0 True"
  obtain w i4 where e: "ec_exchange S ?i3 = (w, i4)" by fastforce
  obtain rc c where op: "ec_soem_request_safe_op S (ctx i4) = (rc, c)" by fastforce
  have "snd (ethercat_stop S impl) = i4\<lparr>ctx := c, in_op := False,
      ec_state := if rc \<noteq> 0 then EC_STATE_NONE else EC_STATE_SAFE_OP\<rparr>"
    using e op by (simp add: ethercat_stop_def Let_def stop_joined_def)
  moreover have "i4 = snd (ec_exchange S ?i3)" using e by simp
  then have "devices i4 = devices (ethercat_zero_output_buffers ?i2)" "rt_should_run i4 = rt_should_run ?i2"
    by (simp_all only: ec_exchange_simps copy_out_to_iomap_simps zero_output_buffers_simps)
  moreover have "\<not> rt_should_run ?i2"
    by (simp add: stop_joined_def rt_thread_exit_def case_prod_unfold Let_def)
  ultimately show thesis using that by blast
qed

lemma stop_zeroes:
  assumes "ec_run S P impl" "soem_image_ok S" "soem_map_ok S" "i < device_count impl" "k \<le> 1"
  shows "\<not> rt_should_run (snd (ethercat_stop S impl)) \<and> \<not> in_op (snd (ethercat_stop S impl))
    \<and> out_buffers (devices (snd (ethercat_stop S impl)) ! i) ! k =
        Some (replicate (unat (out_size (devices (snd (ethercat_stop S impl)) ! i))) 0)"
proof -
  have S: "soem_image_ok S" by (rule assms(2))
  have g: "ec_good impl" by (rule ec_run_good [OF assms(1-3)])
  define i2 where "i2 = stop_joined S impl"
  have g1: "ec_good (impl\<lparr>rt_should_run := False\<rparr>)" by (rule ec_good_book [OF g]) simp_all
  have g2: "ec_good i2" using g1 ec_good_exit [OF g1 S] by (simp add: i2_def stop_joined_def)
  obtain i4 c s where st: "snd (ethercat_stop S impl) = i4\<lparr>ctx := c, in_op := False, ec_state := s\<rparr>"
    and d4: "devices i4 = devices (ethercat_zero_output_buffers i2)" "\<not> rt_should_run i4"
    unfolding i2_def by (rule ethercat_stop_cases)
  have cnt: "device_count i2 = device_count impl"
    by (simp add: i2_def stop_joined_def rt_thread_exit_def case_prod_unfold Let_def)
  have c2: "device_count i2 \<le> length (devices i2)" using ec_good_D(1) [OF g2] by (simp add: ec_inv_def)
  then have z: "devices i4 ! i = zero_out_device (devices i2 ! i)"
    using assms(4) cnt by (simp add: d4 ethercat_zero_output_buffers_def nth_map_bound)
  have ok: "dev_ok (devices i2 ! i)" using ec_inv_dev [OF ec_good_D(1) [OF g2]] assms(4) cnt by simp
  have "i < device_count i2" using assms(4) cnt by simp
  then obtain b where b: "out_buffers (devices i2 ! i) ! k = Some b" "length b = unat (out_size (devices i2 ! i))"
    using ec_ready_buffer [OF ec_good_ready [OF g2] _ assms(5)] by metis
  have "k < length (out_buffers (devices i2 ! i))" using ok assms(5) by (simp add: dev_ok_def)
  then have "out_buffers (devices i4 ! i) ! k = Some (replicate (unat (out_size (devices i4 ! i))) 0)"
    using b unfolding z by (auto simp: zero_out_device_def overwrite_def)
  then show ?thesis using st d4(2) by simp
qed

text \<open>
  C22. Stopping is safe whatever the network answers: afterwards the thread is told to end, the
  driver no longer reports being operational, and both output buffers of every device hold
  zeros, so that nothing the PLC wrote before can be sent again.
\<close>

theorem ec_stop_safe:
  assumes "ec_run S P impl" "soem_image_ok S" "soem_map_ok S" "i < device_count impl" "k \<le> 1"
  shows "\<not> rt_should_run (snd (ethercat_stop S impl)) \<and> \<not> in_op (snd (ethercat_stop S impl))
    \<and> out_buffers (devices (snd (ethercat_stop S impl)) ! i) ! k =
        Some (replicate (unat (out_size (devices (snd (ethercat_stop S impl)) ! i))) 0)"
  using assms by (rule stop_zeroes)

lemma ec_stop_safe_witness:
  "out_buffers (devices (snd (ethercat_stop (demo_soem 3) (demo_driver 3))) ! 0) ! 1 =
     Some (replicate (unat (out_size (devices (snd (ethercat_stop (demo_soem 3) (demo_driver 3))) ! 0))) 0)"
  using ec_stop_safe [OF demo_run(1) demo_soem_ok demo_device(1), of 1] by simp

text \<open>
  A stop that comes between the creation of the real-time thread and its first
  instruction does not wait for it: the thread announces itself only after the driver has
  been stopped (and possibly released).
\<close>

theorem ec_stop_misses_starting_thread:
  assumes "ethercat_start S P impl = (0, impl1)" "rt_thread_enter now (snd (ethercat_stop S impl1)) = (loc, impl2)"
  shows "\<not> rt_is_running impl1 \<and> rt_is_running impl2
    \<and> \<not> rt_should_run impl2"
proof -
  have "\<not> rt_is_running impl1"
    using assms(1) by (auto simp: ethercat_start_def Let_def split: option.splits prod.splits if_splits)
  moreover have "rt_is_running impl2" "rt_should_run impl2 = rt_should_run (snd (ethercat_stop S impl1))"
    using assms(2) by (auto simp: rt_thread_enter_def)
  moreover have "\<not> rt_should_run (snd (ethercat_stop S impl1))"
    by (rule ethercat_stop_cases [of S impl1]) simp
  ultimately show ?thesis by simp
qed

lemma ec_stop_misses_starting_thread_witness:
  "\<not> rt_is_running demo_started
   \<and> rt_is_running (snd (rt_thread_enter 7 (snd (ethercat_stop (demo_soem 0) demo_started))))"
proof -
  have "fst (ethercat_start (demo_soem 0) demo_platform (demo_driver 0)) = 0" by code_simp
  then have "ethercat_start (demo_soem 0) demo_platform (demo_driver 0) = (0, demo_started)"
    by (simp add: demo_started_def prod_eq_iff)
  from ec_stop_misses_starting_thread [OF this prod.collapse [symmetric]] show ?thesis by blast
qed

end
