(* ===== verification/Tag_Props.thy ===== *)
theory Tag_Props
  imports Tag_Access Ec_Props
begin

text \<open>
  The guarantees of the tag API on a runtime whose drivers are EtherCAT drivers in a
  reachable state: the contract \<open>process_image\<close> is used through its interpretation on the
  driver model.
\<close>

definition ec_runtime_ok :: "'x soem \<Rightarrow> platform \<Rightarrow> 'x EthercatDriver Runtime \<Rightarrow> bool" where
  "ec_runtime_ok S P rt \<longleftrightarrow> runtime_wf rt
     \<and> (\<forall>i drv. i < backend_count rt \<longrightarrow> backend_array rt ! i = Some drv
          \<longrightarrow> drv_ops drv = Some (g_ec_ops S P) \<and> ec_inv (drv_impl drv))"

lemma ec_runtime_ok_iff: "ec_runtime_ok S P rt \<longleftrightarrow> ec.rt_ok S P rt"
  by (simp add: ec_runtime_ok_def ec.rt_ok_def)

lemmas ec_tag_read = ec.tag_read_eq [folded ec_runtime_ok_iff]
lemmas ec_tag_write_ok = ec.tag_write_ok [folded ec_runtime_ok_iff]

section \<open>A runtime with one EtherCAT backend\<close>

definition demo_io_entry :: TagEntry where
  "demo_io_entry = \<lparr>full_name = Some ''EL.Out3'', te_type = TAG_T_BOOL,
     te_ref = REF_IO \<lparr>io_device_index = 0, io_backend_index = 0, io_dir = TAGDIR_OUT,
        io_byte_offset = 0, io_bit = 3\<rparr>\<rparr>"

definition demo_proc_entry :: TagEntry where
  "demo_proc_entry = \<lparr>full_name = Some ''proc.x'', te_type = TAG_T_U32, te_ref = REF_PROC 0\<rparr>"

definition demo_alias_entry :: "u8 \<Rightarrow> TagEntry" where
  "demo_alias_entry acc = \<lparr>full_name = Some ''hmi.x'', te_type = TAG_T_U32, te_ref = REF_HMI_ALIAS 2 acc\<rparr>"

definition demo_rt :: "u8 \<Rightarrow> unit EthercatDriver Runtime" where
  "demo_rt acc = \<lparr>
     tag_table = \<lparr>tt_entries = [demo_io_entry, demo_proc_entry, demo_alias_entry acc] @ replicate 253 zero_entry,
       tt_count = 3\<rparr>,
     proc_store = \<lparr>st_values = \<lparr>sv_type = TAG_T_U32, sv_v = [0, 0, 0, 0]\<rparr> # replicate 63 zero_value, st_count = 1\<rparr>,
     hmi_store = zero_store, backends_set = True, backend_count = 1,
     backend_array = [Some \<lparr>drv_type = BACKEND_TYPE_ETHERCAT, drv_ops = Some (g_ec_ops (demo_soem 3) demo_platform),
        drv_name = ''eth'', drv_system_name = ''ec0'', drv_impl = demo_driver 3\<rparr>, None, None, None],
     rt_uninit = [1, 2, 3, 4]\<rparr>"

lemma demo_rt_ok: "ec_runtime_ok (demo_soem 3) demo_platform (demo_rt acc)"
proof -
  have "ec_inv (demo_driver 3)" using ec_good_D(1) [OF ec_run_good [OF demo_run(1) demo_soem_ok]] .
  moreover have "live (tag_table (demo_rt acc)) = [demo_io_entry, demo_proc_entry, demo_alias_entry acc]"
    by (simp add: live_def demo_rt_def)
  then have "table_wf (tag_table (demo_rt acc))"
    by (auto simp: table_wf_def entry_named_def NAME_STORAGE_def
        demo_io_entry_def demo_proc_entry_def demo_alias_entry_def) (simp_all add: demo_rt_def)
  moreover have "store_wf (proc_store (demo_rt acc))" "store_wf (hmi_store (demo_rt acc))"
    using store_wf_zero by (auto simp: demo_rt_def store_wf_def STORE_SIZE_def VALUE_SIZE_def zero_value_def)
  ultimately show ?thesis
    by (auto simp: ec_runtime_ok_def runtime_wf_def demo_rt_def MAX_BACKENDS_def VALUE_SIZE_def)
qed

lemma demo_rt_eval:
  "fst (tag_write (demo_rt 1) 1 (Some [9]) 1) = 0" "fst (tag_write (demo_rt 1) 2 (Some [4, 3, 2, 1]) 4) = 0"
  "fst (tag_write (demo_rt 0) 3 (Some [4, 3, 2, 1]) 4) = - EINVAL"
  "fst (tag_write (demo_rt 1) 3 (Some [4, 3, 2, 1]) 4) = 0"
  "resolve_entry (demo_rt 1) 1 True 0 = Some demo_io_entry"
  "resolve_entry (demo_rt 1) 2 True 0 = Some demo_proc_entry"
  "resolve_entry (demo_rt 1) 3 True 0 = Some demo_proc_entry"
  by code_simp+

lemma write_then_read:
  assumes "ec_runtime_ok S P rt" "tag_write rt tid (Some buf) n = (0, rt')" "n \<le> length buf"
  shows "\<exists>e. resolve_entry rt tid True 0 = Some e \<and> ec_runtime_ok S P rt'
    \<and> (\<forall>out m. tag_type_size (te_type e) \<le> m \<longrightarrow>
         tag_read rt' tid (Some out) m = (0, Some (overwrite (stored_bytes e buf) out), rt'))"
proof -
  obtain e where e: "resolve_entry rt tid True 0 = Some e" "tag_type_size (te_type e) \<noteq> 0"
    "ec_runtime_ok S P rt'" "tag_table rt' = tag_table rt" "ec.entry_read rt' e = (0, stored_bytes e buf)"
    using ec_tag_write_ok [OF assms] by metis
  have "resolve_entry rt' tid False 0 = Some e"
    using resolve_entry_cong [OF e(4)] resolve_entry_read [OF e(1)] by simp
  then have "tag_read rt' tid (Some out) m = (0, Some (overwrite (stored_bytes e buf) out), rt')"
    if "tag_type_size (te_type e) \<le> m" for out m
    using that e(2,5) by (simp add: ec_tag_read [OF e(3)])
  then show ?thesis using e(1,3) by blast
qed

lemma typed_roundtrip:
  assumes "ec_runtime_ok S P rt" "resolve_entry rt tid True 0 = Some e"
  shows "(te_type e = TAG_T_BOOL \<longrightarrow> tag_write_bool rt tid b = (0, rt') \<longrightarrow> tag_read_bool rt' tid b0 = (0, b, rt'))
    \<and> (te_type e = TAG_T_U8 \<longrightarrow> tag_write_u8 rt tid x = (0, rt') \<longrightarrow> tag_read_u8 rt' tid x0 = (0, x, rt'))
    \<and> (te_type e = TAG_T_U16 \<longrightarrow> tag_write_u16 rt tid h = (0, rt') \<longrightarrow> tag_read_u16 rt' tid h0 = (0, h, rt'))
    \<and> (te_type e = TAG_T_U32 \<longrightarrow> tag_write_u32 rt tid w = (0, rt') \<longrightarrow> tag_read_u32 rt' tid w0 = (0, w, rt'))
    \<and> (te_type e = TAG_T_REAL \<longrightarrow> tag_write_real rt tid f = (0, rt') \<longrightarrow> tag_read_real rt' tid f0 = (0, f, rt'))"
proof -
  have r: "tag_read rt' tid (Some out) k = (0, Some (overwrite (stored_bytes e bs) out), rt')"
    if "tag_write rt tid (Some bs) k = (0, rt')" "k = length bs" "tag_type_size (te_type e) = k" for bs k out
    using write_then_read [OF assms(1) that(1)] that(2,3) assms(2) by auto
  have b: "stored_bytes e bs = (if te_kind e = TAGK_IO \<and> te_type e = TAG_T_BOOL then [bool_byte (bs ! 0 \<noteq> 0)] else bs)"
    if "length bs = tag_type_size (te_type e)" "bs \<noteq> []" for bs
    using that by (auto simp: stored_bytes_def io_value_def split: TagType.split)
  have 32: "tag_read rt' tid (Some (u32_bytes v0)) 4 = (0, Some (u32_bytes v), rt')"
    if "tag_write rt tid (Some (u32_bytes v)) 4 = (0, rt')" "te_type e \<in> {TAG_T_U32, TAG_T_REAL}" for v v0
    using r [OF that(1)] b [of "u32_bytes v"] that(2)
    by (auto simp: tag_type_size_def overwrite_def u32_bytes_def)
  have 16: "tag_read rt' tid (Some (u16_bytes v0)) 2 = (0, Some (u16_bytes v), rt')"
    if "tag_write rt tid (Some (u16_bytes v)) 2 = (0, rt')" "te_type e = TAG_T_U16" for v v0
    using r [OF that(1)] b [of "u16_bytes v"] that(2)
    by (auto simp: tag_type_size_def overwrite_def u16_bytes_def)
  have 8: "tag_read rt' tid (Some [v0]) 1 = (0, Some [if te_type e = TAG_T_BOOL \<and> te_kind e = TAGK_IO
        then bool_byte (v \<noteq> 0) else v], rt')"
    if "tag_write rt tid (Some [v]) 1 = (0, rt')" "te_type e \<in> {TAG_T_BOOL, TAG_T_U8}" for v v0
    using r [OF that(1)] b [of "[v]"] that(2)
    by (auto simp: tag_type_size_def overwrite_def)
  show ?thesis
    by (intro conjI impI) (simp_all add: tag_api_defs 8 [unfolded One_nat_def] 16 32 bool_byte_def)
qed

section \<open>Properties\<close>

text \<open>
  C2. Reading back a tag gives what was written. After a successful write, a read of the same
  id succeeds into any buffer that is large enough and delivers the written bytes of the
  tag's type (a \<^verbatim>\<open>bool\<close> in a process image as 0 or 1); the runtime stays well formed. This
  holds for process values, HMI values, process-image bits and bytes, directly or through
  aliases.
\<close>

theorem tag_write_read:
  assumes "ec_runtime_ok S P rt" "tag_write rt tid (Some buf) n = (0, rt')" "n \<le> length buf"
  shows "\<exists>e. resolve_entry rt tid True 0 = Some e \<and> ec_runtime_ok S P rt'
    \<and> (\<forall>out m. tag_type_size (te_type e) \<le> m \<longrightarrow>
         tag_read rt' tid (Some out) m = (0, Some (overwrite (stored_bytes e buf) out), rt'))"
  using assms by (rule write_then_read)

lemma tag_write_read_witness:
  "tag_read (snd (tag_write (demo_rt 1) 1 (Some [9]) 1)) 1 (Some [5]) 1 =
     (0, Some [1], snd (tag_write (demo_rt 1) 1 (Some [9]) 1))"
proof -
  have "tag_write (demo_rt 1) 1 (Some [9]) 1 = (0, snd (tag_write (demo_rt 1) 1 (Some [9]) 1))"
    using demo_rt_eval(1) by (simp add: prod_eq_iff)
  from tag_write_read [OF demo_rt_ok this] show ?thesis
    unfolding demo_rt_eval(5)
    by (simp add: demo_io_entry_def tag_type_size_def stored_bytes_def te_kind_def io_value_def
        bool_byte_def overwrite_def)
qed

text \<open>
  C3. A write touches only its own storage. Any tag whose storage is disjoint from the
  written one, down to single bits of a process-image byte, reads the same bytes with the
  same status before and after.
\<close>

theorem tag_write_frame:
  assumes "ec_runtime_ok S P rt" "tag_write rt tid (Some buf) n = (0, rt')" "n \<le> length buf"
    and "resolve_entry rt tid True 0 = Some e" "resolve_entry rt tid2 False 0 = Some e2"
    and "entry_cells e2 \<inter> entry_cells e = {}"
  shows "fst (tag_read rt' tid2 (Some out) m) = fst (tag_read rt tid2 (Some out) m)
    \<and> fst (snd (tag_read rt' tid2 (Some out) m)) = fst (snd (tag_read rt tid2 (Some out) m))"
proof -
  obtain e' where e': "resolve_entry rt tid True 0 = Some e'" "ec_runtime_ok S P rt'" "tag_table rt' = tag_table rt"
    "\<And>e2. entry_cells e2 \<inter> entry_cells e' = {} \<Longrightarrow> ec.entry_read rt' e2 = ec.entry_read rt e2"
    using ec_tag_write_ok [OF assms(1-3)] by metis
  then have "ec.entry_read rt' e2 = ec.entry_read rt e2" using assms(4,6) by simp
  then show ?thesis
    using assms(5) resolve_entry_cong [OF e'(3)]
    by (simp add: ec_tag_read [OF e'(2)] ec_tag_read [OF assms(1)] split: prod.split)
qed

lemma tag_write_frame_witness:
  "fst (snd (tag_read (snd (tag_write (demo_rt 1) 2 (Some [4, 3, 2, 1]) 4)) 1 (Some [5]) 1)) =
   fst (snd (tag_read (demo_rt 1) 1 (Some [5]) 1))"
proof -
  have w: "tag_write (demo_rt 1) 2 (Some [4, 3, 2, 1]) 4 = (0, snd (tag_write (demo_rt 1) 2 (Some [4, 3, 2, 1]) 4))"
    using demo_rt_eval(2) by (simp add: prod_eq_iff)
  have d: "entry_cells demo_io_entry \<inter> entry_cells demo_proc_entry = {}"
    by (auto simp: entry_cells_def demo_io_entry_def demo_proc_entry_def)
  show ?thesis
    using tag_write_frame [OF demo_rt_ok w _ demo_rt_eval(6) resolve_entry_read [OF demo_rt_eval(5)] d] by simp
qed

text \<open>
  C4. Reads have no effect on the runtime, and a write that reports an error has none either:
  no partial store, no changed value.
\<close>

theorem tag_failed_write_no_effect:
  assumes "ec_runtime_ok S P rt"
  shows "snd (snd (tag_read rt tid out m)) = rt
    \<and> (fst (tag_write rt tid inp n) = 0 \<or> snd (tag_write rt tid inp n) = rt)"
proof -
  have r: "ec.rt_ok S P rt" using assms by (simp add: ec_runtime_ok_iff)
  show ?thesis
    using ec.tag_read_unchanged [OF r] ec.tag_write_fail [OF r prod.collapse [symmetric]] by blast
qed

lemma tag_failed_write_no_effect_witness:
  "snd (tag_write (demo_rt 0) 3 (Some [4, 3, 2, 1]) 4) = demo_rt 0"
  using tag_failed_write_no_effect [OF demo_rt_ok [of 0], where tid = 3 and inp = "Some [4, 3, 2, 1]" and n = 4]
    demo_rt_eval(3) by simp

text \<open>
  C5. An alias is transparent and enforces its access right. For an alias of a tag that is not
  itself an alias, a read through the alias is the read of the target; a write through it is
  the write of the target when the alias is writable, and fails with EINVAL and no effect
  when it is read-only. A read-only HMI variable refuses writes in the same way.
\<close>

theorem tag_alias_transparent:
  assumes "tag_table_get (tag_table rt) tid = Some a" "te_ref a = REF_HMI_ALIAS target access"
    and "target \<noteq> 0" "tag_table_get (tag_table rt) target = Some e" "te_kind e \<noteq> TAGK_HMI_ALIAS"
  shows "tag_read rt tid out m = tag_read rt target out m
    \<and> tag_write rt tid inp n = (if access = 0 then (- EINVAL, rt) else tag_write rt target inp n)
    \<and> (\<forall>i. te_ref e = REF_HMI_VAR i 0 \<longrightarrow> tag_write rt target inp n = (- EINVAL, rt))"
proof -
  have e: "resolve_entry rt target w d = (if d > 4 \<or> (w \<and> (\<exists>i. te_ref e = REF_HMI_VAR i 0)) then None else Some e)"
    for w d
    using assms(4,5) by (auto simp: resolve_entry.simps [of rt target] te_kind_def split: TagRef.splits)
  have a: "resolve_entry rt tid w 0 = (if w \<and> access = 0 then None else resolve_entry rt target w 0)" for w
    using assms(1-3) by (simp add: resolve_entry.simps [of rt tid] e)
  have "tag_read rt tid out m = tag_read rt target out m"
    by (simp add: tag_read_def a [of False, simplified] split: option.split)
  moreover have "tag_write rt tid inp n = (if access = 0 then (- EINVAL, rt) else tag_write rt target inp n)"
    by (simp add: tag_write_def a [of True, simplified] split: option.split)
  moreover have "te_ref e = REF_HMI_VAR i 0 \<Longrightarrow> tag_write rt target inp n = (- EINVAL, rt)" for i
    by (simp add: tag_write_def e split: option.split)
  ultimately show ?thesis by blast
qed

lemma tag_alias_transparent_witness:
  "tag_write (demo_rt 0) 3 (Some [1, 2, 3, 4]) 4 = (- EINVAL, demo_rt 0)
   \<and> tag_write (demo_rt 1) 3 (Some [1, 2, 3, 4]) 4 = tag_write (demo_rt 1) 2 (Some [1, 2, 3, 4]) 4"
proof -
  have g: "tag_table_get (tag_table (demo_rt acc)) 3 = Some (demo_alias_entry acc)"
    "tag_table_get (tag_table (demo_rt acc)) 2 = Some demo_proc_entry" for acc
    by (simp_all add: tag_table_get_def demo_rt_def)
  have "te_ref (demo_alias_entry acc) = REF_HMI_ALIAS 2 acc" "te_kind demo_proc_entry \<noteq> TAGK_HMI_ALIAS" for acc
    by (simp_all add: demo_alias_entry_def demo_proc_entry_def te_kind_def)
  then show ?thesis
    using tag_alias_transparent [OF g(1) _ _ g(2)] by (simp del: not_None_eq)
qed

text \<open>
  The typed functions round-trip: a value written with the function of the tag's own type
  is returned unchanged by the reading function of that type.
\<close>

theorem tag_typed_roundtrip:
  assumes "ec_runtime_ok S P rt" "resolve_entry rt tid True 0 = Some e"
  shows "(te_type e = TAG_T_BOOL \<longrightarrow> tag_write_bool rt tid b = (0, rt') \<longrightarrow> tag_read_bool rt' tid b0 = (0, b, rt'))
    \<and> (te_type e = TAG_T_U8 \<longrightarrow> tag_write_u8 rt tid x = (0, rt') \<longrightarrow> tag_read_u8 rt' tid x0 = (0, x, rt'))
    \<and> (te_type e = TAG_T_U16 \<longrightarrow> tag_write_u16 rt tid h = (0, rt') \<longrightarrow> tag_read_u16 rt' tid h0 = (0, h, rt'))
    \<and> (te_type e = TAG_T_U32 \<longrightarrow> tag_write_u32 rt tid w = (0, rt') \<longrightarrow> tag_read_u32 rt' tid w0 = (0, w, rt'))
    \<and> (te_type e = TAG_T_REAL \<longrightarrow> tag_write_real rt tid f = (0, rt') \<longrightarrow> tag_read_real rt' tid f0 = (0, f, rt'))"
  using assms by (rule typed_roundtrip)

lemma tag_typed_roundtrip_witness:
  "tag_read_bool (snd (tag_write_bool (demo_rt 1) 1 True)) 1 False =
     (0, True, snd (tag_write_bool (demo_rt 1) 1 True))"
proof -
  have "fst (tag_write_bool (demo_rt 1) 1 True) = 0" by code_simp
  then have "tag_write_bool (demo_rt 1) 1 True = (0, snd (tag_write_bool (demo_rt 1) 1 True))"
    by (simp add: prod_eq_iff)
  then show ?thesis
    using tag_typed_roundtrip [OF demo_rt_ok demo_rt_eval(5)] by (simp add: demo_io_entry_def)
qed

end
