(* ===== verification/Tag_Rpc_Props.thy ===== *)
theory Tag_Rpc_Props
  imports Tag_Rpc Tag_Props
begin

text \<open>
  What the remote side of the tags can rely on: the poll loop serves requests in order and
  answers each, a failed request changes nothing, and a value written as text reads back.
\<close>

section \<open>The loop as a fold over the queue\<close>

primrec rpc_serve_all ::
  "nat \<Rightarrow> TagRpcRequest list \<Rightarrow> 'd Runtime \<Rightarrow> TagRpcResponse list \<times> 'd Runtime"
where
  "rpc_serve_all w [] rt = ([], rt)"
| "rpc_serve_all w (r # rs) rt =
     (let (rsp, rt1) = rpc_serve w r rt; (rsps, rt2) = rpc_serve_all w rs rt1 in (rsp # rsps, rt2))"

definition channel_ok :: "TagRpcChannel \<Rightarrow> bool" where
  "channel_ok ch \<longleftrightarrow> ring_inv (req_q ch) \<and> ring_inv (rsp_q ch)"

lemma set_error_response_simps [simp]:
  "rs_id (set_error_response i st m) = i" "rs_status (set_error_response i st m) = st"
  "rs_type (set_error_response i st m) = []" "rs_value (set_error_response i st m) = []"
  "length msg < 64 \<Longrightarrow> rs_msg (set_error_response i st (Some msg)) = msg"
  by (auto simp: set_error_response_def zero_response_def TAGRPC_ERRMSG_MAX_def Let_def split: option.split)

lemma zero_response_simps [simp]:
  "rs_id zero_response = 0" "rs_status zero_response = 0" "rs_type zero_response = []"
  "rs_value zero_response = []" "rs_msg zero_response = []"
  by (simp_all add: zero_response_def)

lemma read_answer_simps [simp]:
  "rs_id (read_answer r ty t) = rs_id r" "rs_status (read_answer r ty t) = rs_status r"
  "rs_msg (read_answer r ty t) = rs_msg r"
  by (simp_all add: read_answer_def)

lemma handle_read_id: "handle_read rt e i tid = (r, rt') \<Longrightarrow> rs_id r = i"
  by (auto simp: handle_read_def Let_def split: prod.splits if_splits TagType.splits)

lemma handle_write_id: "handle_write w rt e i tid t = (r, rt') \<Longrightarrow> rs_id r = i"
  by (auto simp: handle_write_def Let_def split: prod.splits if_splits)

lemma rpc_serve_id: "rpc_serve w req rt = (r, rt') \<Longrightarrow> rs_id r = rq_id req"
  by (auto simp: rpc_serve_def Let_def split: if_splits option.splits dest: handle_read_id handle_write_id)

lemma rpc_serve_all_ids:
  "rpc_serve_all w rs rt = (rsps, rt') \<Longrightarrow> map rs_id rsps = map rq_id rs"
  by (induction rs arbitrary: rt rsps) (auto split: prod.splits dest: rpc_serve_id)

lemma rpc_poll_loop_list:
  assumes "channel_ok ch" "rpc_poll_loop w n ch rt = (ch', rt')"
    and "rpc_serve_all w (take n (ring_list (req_q ch))) rt = (rsps, rt2)"
  shows "channel_ok ch' \<and> rt' = rt2 \<and> ring_list (req_q ch') = drop n (ring_list (req_q ch))
    \<and> ring_list (rsp_q ch') = ring_list (rsp_q ch)
        @ take (ring_cap (rsp_q ch) - length (ring_list (rsp_q ch))) rsps"
  using assms
proof (induction n arbitrary: ch rt rsps)
  case (Suc n)
  have inv: "ring_inv (req_q ch)" "ring_inv (rsp_q ch)" using Suc.prems(1) by (auto simp: channel_ok_def)
  show ?case
    using inv(1)
  proof (cases rule: rq.pop_cases)
    case (1 req q')
    obtain rsp rt1 where s: "rpc_serve w req rt = (rsp, rt1)" by fastforce
    obtain rest where rest: "rpc_serve_all w (take n (ring_list q')) rt1 = (rest, rt2)" "rsps = rsp # rest"
      using Suc.prems(3) 1(3) s by (auto split: prod.splits)
    have step: "rpc_poll_loop w n (ch\<lparr>req_q := q', rsp_q := p\<rparr>) rt1 = (ch', rt')"
      if "spsc_ring_push (rsp_q ch) rsp = (ok, p)" for ok p
      using Suc.prems(2) 1(1) s that by (simp add: tag_rpc_recv_request_def tag_rpc_send_response_def)
    have IH: "channel_ok ch' \<and> rt' = rt2 \<and> ring_list (req_q ch') = drop n (ring_list q')
      \<and> ring_list (rsp_q ch') = ring_list p @ take (ring_cap p - length (ring_list p)) rest"
      if "spsc_ring_push (rsp_q ch) rsp = (ok, p)" "ring_inv p" for ok p
      using Suc.IH [OF _ step [OF that(1)], of rest] 1(2) that(2) rest(1) by (simp add: channel_ok_def)
    show ?thesis
      using inv(2)
    proof (cases rule: rq.push_cases [where e = rsp])
      case (1 p)
      then have "ring_cap (rsp_q ch) - length (ring_list (rsp_q ch)) = Suc (ring_cap p - length (ring_list p))"
        by simp
      then show ?thesis using IH [OF 1(1,2)] 1(3) \<open>ring_list (req_q ch) = req # ring_list q'\<close> rest(2) by simp
    next
      case 2
      then show ?thesis using IH [OF 2(1) inv(2)] \<open>ring_list (req_q ch) = req # ring_list q'\<close> by simp
    qed
  next
    case 2
    then show ?thesis using Suc.prems by (simp add: tag_rpc_recv_request_def)
  qed
qed simp


section \<open>Failures and frames\<close>

lemma tag_read_typed_unchanged:
  assumes "ec_runtime_ok S P rt"
  shows "tag_read_bool rt tid b = (rc, v1, rt') \<Longrightarrow> rt' = rt"
    "tag_read_u8 rt tid x = (rc, v2, rt') \<Longrightarrow> rt' = rt"
    "tag_read_u16 rt tid h = (rc, v3, rt') \<Longrightarrow> rt' = rt"
    "tag_read_u32 rt tid y = (rc, v4, rt') \<Longrightarrow> rt' = rt"
    "tag_read_real rt tid z = (rc, v5, rt') \<Longrightarrow> rt' = rt"
  using ec.tag_read_unchanged [OF assms [unfolded ec_runtime_ok_iff]]
  by (auto simp: tag_api_defs split: prod.splits) (metis snd_conv)+

lemma handle_read_unchanged:
  "ec_runtime_ok S P rt \<Longrightarrow> handle_read rt e i tid = (r, rt') \<Longrightarrow> rt' = rt"
  by (auto simp: handle_read_def Let_def split: prod.splits if_splits TagType.splits
      dest: tag_read_typed_unchanged)

definition rpc_write_effect :: "nat \<Rightarrow> 'd Runtime \<Rightarrow> TagEntry \<Rightarrow> u32 \<Rightarrow> string \<Rightarrow> int \<times> 'd Runtime" where
  "rpc_write_effect w rt entry tid text =
     (case te_type entry of
        TAG_T_BOOL \<Rightarrow> (case parse_bool_value text of (rc, None) \<Rightarrow> (rc, rt)
           | (rc, Some v) \<Rightarrow> tag_write rt tid (Some [bool_byte v]) 1)
      | TAG_T_U8 \<Rightarrow>
          if snd (strtoul w text) \<noteq> [] then (- EINVAL, rt)
          else if fst (strtoul w text) > 0xFF then (- ERANGE, rt)
          else tag_write rt tid (Some [of_nat (fst (strtoul w text))]) 1
      | TAG_T_U16 \<Rightarrow>
          if snd (strtoul w text) \<noteq> [] then (- EINVAL, rt)
          else if fst (strtoul w text) > 0xFFFF then (- ERANGE, rt)
          else tag_write rt tid (Some (u16_bytes (of_nat (fst (strtoul w text))))) 2
      | TAG_T_U32 \<Rightarrow>
          if snd (strtoul w text) \<noteq> [] then (- EINVAL, rt)
          else tag_write rt tid (Some (u32_bytes (of_nat (fst (strtoul w text))))) 4
      | TAG_T_REAL \<Rightarrow>
          if snd (strtof text) \<noteq> [] then (- EINVAL, rt)
          else tag_write rt tid (Some (u32_bytes (fst (strtof text)))) 4
      | TAG_T_OTHER _ \<Rightarrow> (- EINVAL, rt))"

lemma handle_write_effect:
  "handle_write w rt e i tid text =
     (let (rc, rt') = rpc_write_effect w rt e tid text in
      (if rc \<noteq> 0 then set_error_response i rc (Some ''write_failed'') else zero_response\<lparr>rs_id := i\<rparr>, rt'))"
  by (simp add: handle_write_def rpc_write_effect_def Let_def tag_api_defs case_prod_beta
      split: TagType.split option.split)

text \<open>A write request either reports an error and changes nothing, or it is a write of some bytes.\<close>

lemma rpc_write_effect_cases:
  assumes "rpc_write_effect w rt e tid text = (rc, rt')"
  obtains "rc \<noteq> 0" "rt' = rt"
  | buf where "tag_write rt tid (Some buf) (length buf) = (rc, rt')" "length buf = tag_type_size (te_type e)"
proof -
  have "(rc \<noteq> 0 \<and> rt' = rt) \<or>
      (\<exists>buf. tag_write rt tid (Some buf) (length buf) = (rc, rt') \<and> length buf = tag_type_size (te_type e))"
  proof (cases "te_type e")
    case TAG_T_BOOL
    then show ?thesis
      using assms by (auto simp: rpc_write_effect_def parse_bool_value_def tag_type_size_def
          split: if_splits intro!: exI [of _ "[bool_byte b]" for b])
  next
    case TAG_T_U8
    then show ?thesis using assms
      by (auto simp: rpc_write_effect_def tag_type_size_def split: if_splits
          intro!: exI [of _ "[of_nat (fst (strtoul w text))]"])
  next
    case TAG_T_U16
    then show ?thesis using assms
      by (auto simp: rpc_write_effect_def tag_type_size_def split: if_splits
          intro!: exI [of _ "u16_bytes (of_nat (fst (strtoul w text)))"])
  next
    case TAG_T_U32
    then show ?thesis using assms
      by (auto simp: rpc_write_effect_def tag_type_size_def split: if_splits
          intro!: exI [of _ "u32_bytes (of_nat (fst (strtoul w text)))"])
  next
    case TAG_T_REAL
    then show ?thesis using assms
      by (auto simp: rpc_write_effect_def tag_type_size_def split: if_splits intro!: exI [of _ "u32_bytes (fst (strtof text))"])
  qed (use assms in \<open>auto simp: rpc_write_effect_def\<close>)
  then show thesis using that by blast
qed

lemma rpc_write_effect_ok:
  assumes "ec_runtime_ok S P rt" "rpc_write_effect w rt e tid text = (rc, rt')"
  shows "ec_runtime_ok S P rt' \<and> tag_table rt' = tag_table rt \<and> (rc \<noteq> 0 \<longrightarrow> rt' = rt)"
  using assms(2)
proof (cases rule: rpc_write_effect_cases)
  case (2 buf)
  show ?thesis
  proof (cases "rc = 0")
    case True
    then show ?thesis using ec_tag_write_ok [OF assms(1) 2(1) [unfolded True]] by blast
  next
    case False
    then show ?thesis using ec.tag_write_fail [OF assms(1) [unfolded ec_runtime_ok_iff] 2(1)] assms(1) by simp
  qed
qed (use assms(1) in simp)

text \<open>What a request does to the runtime, and what its response can say.\<close>

definition rpc_messages :: "string set" where
  "rpc_messages = {[], ''read_failed'', ''write_failed'', ''tag_not_found'', ''bad_op''}"

lemma handle_read_msg:
  "handle_read rt e i tid = (r, rt') \<Longrightarrow>
     rs_msg r = (if rs_status r = 0 then [] else ''read_failed'')
     \<and> (rs_status r \<noteq> 0 \<longrightarrow> rs_type r = [] \<and> rs_value r = [])"
  by (auto simp: handle_read_def Let_def split: prod.splits if_splits TagType.splits)

lemma rpc_serve_effect:
  assumes "ec_runtime_ok S P rt" "rpc_serve w req rt = (r, rt')"
  shows "ec_runtime_ok S P rt' \<and> tag_table rt' = tag_table rt
    \<and> (rs_status r \<noteq> 0 \<or> rq_op req \<noteq> TAGRPC_WRITE \<longrightarrow> rt' = rt)
    \<and> (rs_status r \<noteq> 0 \<longrightarrow> rs_type r = [] \<and> rs_value r = [])
    \<and> rs_msg r \<in> rpc_messages \<and> (rs_msg r = [] \<longleftrightarrow> rs_status r = 0)"
proof -
  let ?tid = "tag_table_find_id (tag_table rt) (Some (rq_name req))"
  consider (missing) "?tid = 0 \<or> tag_table_get (tag_table rt) ?tid = None"
    | (found) e where "?tid \<noteq> 0" "tag_table_get (tag_table rt) ?tid = Some e" by fastforce
  then show ?thesis
  proof cases
    case missing
    then have "rpc_serve w req rt = (set_error_response (rq_id req) (- ENOENT) (Some ''tag_not_found''), rt)"
      by (auto simp: rpc_serve_def Let_def)
    then show ?thesis using assms by (auto simp: rpc_messages_def)
  next
    case found
    show ?thesis
    proof (cases "rq_op req")
      case TAGRPC_READ
      then have "handle_read rt e (rq_id req) ?tid = (r, rt')" using found assms(2) by (simp add: rpc_serve_def Let_def)
      from handle_read_unchanged [OF assms(1) this] handle_read_msg [OF this]
      show ?thesis using assms(1) by (simp add: rpc_messages_def)
    next
      case TAGRPC_WRITE
      obtain rc rt1 where e: "rpc_write_effect w rt e ?tid (rq_value req) = (rc, rt1)" by fastforce
      then have "r = (if rc \<noteq> 0 then set_error_response (rq_id req) rc (Some ''write_failed'')
          else zero_response\<lparr>rs_id := rq_id req\<rparr>)" "rt' = rt1"
        using TAGRPC_WRITE found assms(2) by (auto simp: rpc_serve_def Let_def handle_write_effect)
      then show ?thesis
        using rpc_write_effect_ok [OF assms(1) e] by (auto simp: rpc_messages_def TAGRPC_WRITE)
    next
      case TAGRPC_OTHER
      then show ?thesis using found assms by (auto simp: rpc_serve_def Let_def rpc_messages_def)
    qed
  qed
qed

lemma rpc_serve_all_ok:
  "ec_runtime_ok S P rt \<Longrightarrow> rpc_serve_all w rs rt = (rsps, rt') \<Longrightarrow>
     ec_runtime_ok S P rt' \<and> tag_table rt' = tag_table rt"
proof (induction rs arbitrary: rt rsps)
  case (Cons q rs)
  then obtain r rt1 rest where "rpc_serve w q rt = (r, rt1)" "rpc_serve_all w rs rt1 = (rest, rt')"
    by (auto split: prod.splits)
  then show ?case using Cons.IH [of rt1] rpc_serve_effect [OF Cons.prems(1)] by metis
qed simp

section \<open>Text that reads back\<close>

lemma round_div_le: "round_div a b \<le> Suc (a div b)"
  by (simp add: round_div_def Let_def)

lemma fmt_f_length: "length (fmt_f w) < 64"
proof -
  define n e m mant ex sc where d: "n = unat w mod 2 ^ 31" "e = n div 2 ^ 23" "m = n mod 2 ^ 23"
    "mant = (if e = 0 then m else m + 2 ^ 23)" "ex = max e 1"
    "sc = (if 150 \<le> ex then mant * 10 ^ 6 * 2 ^ (ex - 150) else round_div (mant * 10 ^ 6) (2 ^ (150 - ex)))"
  have "m < 2 ^ 23" "n < 2 ^ 31" by (simp_all add: d)
  then have m: "mant \<le> 2 ^ 24" and e: "e \<le> 255" by (simp_all add: d(2,4))
  have "sc \<le> 10 ^ 45"
  proof (cases "150 \<le> ex")
    case True
    then have "ex - 150 \<le> 105" using e by (simp add: d(5))
    then have "(2 :: nat) ^ (ex - 150) \<le> 2 ^ 105" by (intro power_increasing) auto
    then have "mant * 10 ^ 6 * 2 ^ (ex - 150) \<le> 2 ^ 24 * 10 ^ 6 * 2 ^ 105" using m by (intro mult_le_mono) auto
    then show ?thesis using True by (simp add: d(6))
  next
    case False
    have "round_div (mant * 10 ^ 6) (2 ^ (150 - ex)) \<le> Suc (mant * 10 ^ 6)"
      using round_div_le [of "mant * 10 ^ 6" "2 ^ (150 - ex)"] div_le_dividend [of "mant * 10 ^ 6" "2 ^ (150 - ex)"]
      by linarith
    then show ?thesis using False m by (simp add: d(6))
  qed
  then have "sc div 10 ^ 6 \<le> 10 ^ 45 div 10 ^ 6" by (rule div_le_mono)
  then have "sc div 10 ^ 6 < 10 ^ Suc 39" by simp
  then have "length (dec_nat (sc div 10 ^ 6)) \<le> Suc 39" by (rule dec_nat_length)
  moreover have "fmt_f w = (if bit w 31 then ''-'' else '''') @
      (if e = 255 then if m = 0 then ''inf'' else ''nan'' else dec_nat (sc div 10 ^ 6) @ ''.'' @ six_digits (sc mod 10 ^ 6))"
    by (simp only: fmt_f_def Let_def d)
  ultimately show ?thesis by (auto simp: six_digits_def)
qed

lemma dec_u32_length: "n < 2 ^ 32 \<Longrightarrow> length (dec_nat n) < 64"
  using dec_nat_length [of n 9] by simp

definition canonical_text :: "nat \<Rightarrow> TagType \<Rightarrow> string \<Rightarrow> string" where
  "canonical_text w ty text =
     (case ty of
        TAG_T_BOOL \<Rightarrow> if snd (parse_bool_value text) = Some True then ''1'' else ''0''
      | TAG_T_REAL \<Rightarrow> fmt_f (fst (strtof text))
      | _ \<Rightarrow> dec_nat (fst (strtoul w text) mod 2 ^ 32))"

lemma canonical_text_dec:
  "ty \<in> {TAG_T_U8, TAG_T_U16, TAG_T_U32} \<Longrightarrow> n < 2 ^ 32 \<Longrightarrow> 32 \<le> w \<Longrightarrow> canonical_text w ty (dec_nat n) = dec_nat n"
  using power_increasing [of 32 w "2 :: nat"] by (auto simp: canonical_text_def strtoul_dec)

lemma answer_text:
  "length t < 64 \<Longrightarrow> read_answer (zero_response\<lparr>rs_id := i\<rparr>) ty t
     = \<lparr>rs_id = i, rs_status = 0, rs_type = tag_type_to_string ty, rs_value = t, rs_msg = []\<rparr>"
  by (simp add: read_answer_def zero_response_def TAGRPC_TYPE_MAX_def TAGRPC_VALUE_MAX_def tag_type_to_string_def
      split: TagType.split)

lemma write_then_handle_read:
  assumes "ec_runtime_ok S P rt" "resolve_entry rt tid True 0 = Some e" "te_type e = te_type a"
    and "handle_write w rt a i tid text = (r, rt')" "rs_status r = 0"
  shows "handle_read rt' a j tid = (\<lparr>rs_id = j, rs_status = 0, rs_type = tag_type_to_string (te_type a),
      rs_value = canonical_text w (te_type a) text, rs_msg = []\<rparr>, rt')"
proof -
  note rt = typed_roundtrip [OF assms(1,2), unfolded assms(3)]
  show ?thesis
  proof (cases "te_type a")
    case TAG_T_BOOL
    then obtain v where v: "snd (parse_bool_value text) = Some v" "tag_write_bool rt tid v = (0, rt')"
      using assms(4,5) by (auto simp: handle_write_def split: prod.splits option.splits if_splits)
        (auto simp: parse_bool_value_def split: if_splits)
    then have "tag_read_bool rt' tid False = (0, v, rt')" using rt TAG_T_BOOL by blast
    then show ?thesis using v TAG_T_BOOL by (cases v) (simp_all add: handle_read_def answer_text canonical_text_def)
  next
    case TAG_T_U8
    then have v: "fst (strtoul w text) \<le> 255" "tag_write_u8 rt tid (of_nat (fst (strtoul w text))) = (0, rt')"
      using assms(4,5) by (auto simp: handle_write_def split: prod.splits if_splits)
    then have "tag_read_u8 rt' tid 0 = (0, of_nat (fst (strtoul w text)), rt')" using rt TAG_T_U8 by blast
    then show ?thesis using v(1) TAG_T_U8
      by (simp add: handle_read_def answer_text canonical_text_def unat_of_nat_small dec_u32_length)
  next
    case TAG_T_U16
    then have v: "fst (strtoul w text) \<le> 65535" "tag_write_u16 rt tid (of_nat (fst (strtoul w text))) = (0, rt')"
      using assms(4,5) by (auto simp: handle_write_def split: prod.splits if_splits)
    then have "tag_read_u16 rt' tid 0 = (0, of_nat (fst (strtoul w text)), rt')" using rt TAG_T_U16 by blast
    then show ?thesis using v(1) TAG_T_U16
      by (simp add: handle_read_def answer_text canonical_text_def unat_of_nat_small dec_u32_length)
  next
    case TAG_T_U32
    then have v: "tag_write_u32 rt tid (of_nat (fst (strtoul w text))) = (0, rt')"
      using assms(4,5) by (auto simp: handle_write_def split: prod.splits if_splits)
    then have "tag_read_u32 rt' tid 0 = (0, of_nat (fst (strtoul w text)), rt')" using rt TAG_T_U32 by blast
    then show ?thesis using TAG_T_U32
      by (simp add: handle_read_def answer_text canonical_text_def unat_of_nat take_bit_eq_mod dec_u32_length)
  next
    case TAG_T_REAL
    then have v: "tag_write_real rt tid (fst (strtof text)) = (0, rt')"
      using assms(4,5) by (auto simp: handle_write_def split: prod.splits if_splits)
    then have "tag_read_real rt' tid 0 = (0, fst (strtof text), rt')" using rt TAG_T_REAL by blast
    then show ?thesis using TAG_T_REAL
      by (simp add: handle_read_def answer_text canonical_text_def fmt_f_length)
  next
    case TAG_T_OTHER
    then show ?thesis using assms(4,5) by (auto simp: handle_write_def)
  qed
qed

section \<open>A channel for the examples\<close>

definition demo_request :: "TagRpcOp \<Rightarrow> string \<Rightarrow> string \<Rightarrow> TagRpcRequest" where
  "demo_request op name text = \<lparr>rq_id = 7, rq_op = op, rq_name = name, rq_value = text\<rparr>"

definition demo_channel :: TagRpcChannel where
  "demo_channel = snd (tag_rpc_init (replicate 64 (demo_request TAGRPC_READ [] [])) (replicate 64 zero_response)
     \<lparr>req_q = zero_ring, rsp_q = zero_ring\<rparr>)"

lemma tag_rpc_init_ok:
  assumes "length rs = 64" "length ss = 64" "tag_rpc_init rs ss ch = (rc, ch')"
  shows "rc = 0 \<and> channel_ok ch' \<and> ring_list (req_q ch') = [] \<and> ring_list (rsp_q ch') = []
    \<and> ring_cap (req_q ch') = 64 \<and> ring_cap (rsp_q ch') = 64"
proof -
  have "rc = 0 \<and> ch' = \<lparr>req_q = \<lparr>rg_storage = rs, elem_size = 136, capacity = 64, read_index = 0, write_index = 0\<rparr>,
     rsp_q = \<lparr>rg_storage = ss, elem_size = 152, capacity = 64, read_index = 0, write_index = 0\<rparr>\<rparr>"
    using assms(3) by (simp add: tag_rpc_init_def spsc_ring_init_def zero_ring_def TAG_RPC_CAPACITY_def
        TAGRPC_NAME_MAX_def TAGRPC_VALUE_MAX_def TAGRPC_ERRMSG_MAX_def TAGRPC_TYPE_MAX_def)
  then show ?thesis
    using assms(1,2) by (simp add: channel_ok_def ring_inv_def ring_cap_def ring_count_def ring_list_def)
qed

lemma demo_channel_ok: "channel_ok demo_channel" "ring_list (req_q demo_channel) = []"
  "ring_list (rsp_q demo_channel) = []" "ring_cap (req_q demo_channel) = 64" "ring_cap (rsp_q demo_channel) = 64"
  using tag_rpc_init_ok [OF _ _ prod.collapse [symmetric], of "replicate 64 (demo_request TAGRPC_READ [] [])"
      "replicate 64 zero_response" "\<lparr>req_q = zero_ring, rsp_q = zero_ring\<rparr>"]
  by (simp_all add: demo_channel_def)

text \<open>The channel with one request in it.\<close>

definition demo_channel1 :: "TagRpcRequest \<Rightarrow> TagRpcChannel" where
  "demo_channel1 req = snd (tag_rpc_send_request demo_channel req)"

lemma demo_channel1_ok: "channel_ok (demo_channel1 req)" "ring_list (req_q (demo_channel1 req)) = [req]"
  "ring_list (rsp_q (demo_channel1 req)) = []" "ring_cap (rsp_q (demo_channel1 req)) = 64"
proof -
  have inv: "ring_inv (req_q demo_channel)" "ring_inv (rsp_q demo_channel)"
    using demo_channel_ok(1) by (simp_all add: channel_ok_def)
  obtain ok q where p: "spsc_ring_push (req_q demo_channel) req = (ok, q)" by fastforce
  have "ring_inv q \<and> ring_list q = [req]" using rq.push_spec [OF inv(1) _ p] demo_channel_ok by simp
  then show "channel_ok (demo_channel1 req)" "ring_list (req_q (demo_channel1 req)) = [req]"
    "ring_list (rsp_q (demo_channel1 req)) = []" "ring_cap (rsp_q (demo_channel1 req)) = 64"
    using p inv demo_channel_ok by (simp_all add: demo_channel1_def tag_rpc_send_request_def channel_ok_def)
qed

section \<open>Properties\<close>

text \<open>
  C25. Polling the channel serves the oldest requests, at most \<^verbatim>\<open>max_per_cycle\<close> of them, one
  after the other on the runtime, takes exactly those off the request queue, and queues one
  response per request, in the same order and with the same id; a response is dropped
  only when the response queue is full.
\<close>

theorem rpc_poll_serves_in_order:
  assumes "channel_ok ch" "tag_rpc_plc_poll w ch rt m = (ch', rt')"
    and "rpc_serve_all w (take (unat m) (ring_list (req_q ch))) rt = (rsps, rt2)"
  shows "channel_ok ch' \<and> rt' = rt2
    \<and> ring_list (req_q ch') = drop (unat m) (ring_list (req_q ch))
    \<and> map rs_id rsps = map rq_id (take (unat m) (ring_list (req_q ch)))
    \<and> ring_list (rsp_q ch') = ring_list (rsp_q ch)
        @ take (ring_cap (rsp_q ch) - length (ring_list (rsp_q ch))) rsps"
  using rpc_poll_loop_list [OF assms(1) assms(2) [unfolded tag_rpc_plc_poll_def] assms(3)]
    rpc_serve_all_ids [OF assms(3)] by blast

lemma rpc_poll_serves_in_order_witness:
  "\<exists>ch' rt' rsp. tag_rpc_plc_poll 64 (demo_channel1 (demo_request TAGRPC_READ ''proc.x'' [])) (demo_rt 1) 16 = (ch', rt')
     \<and> ring_list (req_q ch') = [] \<and> ring_list (rsp_q ch') = [rsp] \<and> rs_id rsp = 7"
proof -
  let ?ch = "demo_channel1 (demo_request TAGRPC_READ ''proc.x'' [])"
  obtain ch' rt' where p: "tag_rpc_plc_poll 64 ?ch (demo_rt 1) 16 = (ch', rt')" by fastforce
  obtain rsp rt1 where s: "rpc_serve 64 (demo_request TAGRPC_READ ''proc.x'' []) (demo_rt 1) = (rsp, rt1)" by fastforce
  then have "rpc_serve_all 64 (take (unat (16 :: u32)) (ring_list (req_q ?ch))) (demo_rt 1) = ([rsp], rt1)"
    by (simp add: demo_channel1_ok)
  from rpc_poll_serves_in_order [OF demo_channel1_ok(1) p this] p show ?thesis
    by (auto simp: demo_channel1_ok demo_request_def)
qed

text \<open>
  C26. A request that fails changes nothing. Whatever it asks, a response with a non-zero status
  carries one of the four error texts and no value, and leaves the runtime as it was; so does
  every request that is not a write. Whole polls keep the runtime well formed and never touch
  the tag table.
\<close>

theorem rpc_failed_request_no_effect:
  assumes "ec_runtime_ok S P rt" "rpc_serve w req rt = (r, rt')" "channel_ok ch"
  shows "(rs_status r \<noteq> 0 \<or> rq_op req \<noteq> TAGRPC_WRITE \<longrightarrow> rt' = rt)
    \<and> (rs_status r \<noteq> 0 \<longrightarrow> rs_value r = [] \<and>
         rs_msg r \<in> {''read_failed'', ''write_failed'', ''tag_not_found'', ''bad_op''})
    \<and> (rs_status r = 0 \<longrightarrow> rs_msg r = [])
    \<and> ec_runtime_ok S P (snd (tag_rpc_plc_poll w ch rt m))
    \<and> tag_table (snd (tag_rpc_plc_poll w ch rt m)) = tag_table rt"
proof -
  obtain ch' rt1 where p: "rpc_poll_loop w (unat m) ch rt = (ch', rt1)" by fastforce
  obtain rsps rt2 where a: "rpc_serve_all w (take (unat m) (ring_list (req_q ch))) rt = (rsps, rt2)" by fastforce
  have "rt1 = rt2" using rpc_poll_loop_list [OF assms(3) p a] by simp
  then show ?thesis
    using rpc_serve_effect [OF assms(1,2)] rpc_serve_all_ok [OF assms(1) a] p
    by (auto simp: tag_rpc_plc_poll_def rpc_messages_def)
qed

lemma rpc_failed_request_no_effect_witness:
  "snd (rpc_serve 64 (demo_request TAGRPC_READ ''proc.x'' []) (demo_rt 1)) = demo_rt 1"
  using rpc_failed_request_no_effect [OF demo_rt_ok [of 1] prod.collapse [symmetric] demo_channel_ok(1),
      of 64 "demo_request TAGRPC_READ ''proc.x'' []"]
  by (simp add: demo_request_def)

text \<open>
  C27. A value written as text reads back as text. After a write request that succeeded, a read
  request for the same tag succeeds and answers with the type and the canonical text of
  what was parsed; for the integer types, a decimal number in range comes back as the same
  string. (The tag's own type is that of the storage behind it, as for every tag
  that is not an alias.)
\<close>

theorem rpc_text_roundtrip:
  assumes "ec_runtime_ok S P rt" "tag_table_find_id (tag_table rt) (Some name) = tid"
    and "tag_table_get (tag_table rt) tid = Some a" "resolve_entry rt tid True 0 = Some e" "te_type e = te_type a"
    and "rpc_serve w \<lparr>rq_id = i, rq_op = TAGRPC_WRITE, rq_name = name, rq_value = text\<rparr> rt = (r, rt')"
    and "rs_status r = 0"
  shows "rpc_serve w \<lparr>rq_id = j, rq_op = TAGRPC_READ, rq_name = name, rq_value = x\<rparr> rt' =
      (\<lparr>rs_id = j, rs_status = 0, rs_type = tag_type_to_string (te_type a),
        rs_value = canonical_text w (te_type a) text, rs_msg = []\<rparr>, rt')
    \<and> (\<forall>n. te_type a \<in> {TAG_T_U8, TAG_T_U16, TAG_T_U32} \<longrightarrow> text = dec_nat n \<longrightarrow> n < 2 ^ 32 \<longrightarrow> 32 \<le> w
         \<longrightarrow> canonical_text w (te_type a) text = text)"
proof -
  have tid: "tid \<noteq> 0" using assms(3) by (auto simp: tag_table_get_def)
  then have w: "handle_write w rt a i tid text = (r, rt')"
    using assms(2,3,6) by (simp add: rpc_serve_def Let_def)
  have "tag_table rt' = tag_table rt" using rpc_serve_effect [OF assms(1,6)] by simp
  then show ?thesis
    using write_then_handle_read [OF assms(1,4,5) w assms(7)] tid assms(2,3) canonical_text_dec
    by (simp add: rpc_serve_def Let_def)
qed

lemma rpc_text_roundtrip_witness:
  "rs_value (fst (rpc_serve 64 \<lparr>rq_id = 2, rq_op = TAGRPC_READ, rq_name = ''proc.x'', rq_value = []\<rparr>
     (snd (rpc_serve 64 \<lparr>rq_id = 1, rq_op = TAGRPC_WRITE, rq_name = ''proc.x'', rq_value = dec_nat 4711\<rparr>
        (demo_rt 1))))) = dec_nat 4711"
proof -
  have f: "tag_table_find_id (tag_table (demo_rt 1)) (Some ''proc.x'') = 2" by code_simp
  have g: "tag_table_get (tag_table (demo_rt 1)) 2 = Some demo_proc_entry"
    by (simp add: tag_table_get_def demo_rt_def)
  let ?w = "rpc_serve 64 \<lparr>rq_id = 1, rq_op = TAGRPC_WRITE, rq_name = ''proc.x'', rq_value = dec_nat 4711\<rparr> (demo_rt 1)"
  have "fst (tag_write (demo_rt 1) 2 (Some (u32_bytes 4711)) 4) = 0" by code_simp
  then have "rs_status (fst ?w) = 0"
    using f g by (simp add: rpc_serve_def handle_write_def demo_proc_entry_def strtoul_dec tag_write_u32_def
        case_prod_beta Let_def)
  from rpc_text_roundtrip [OF demo_rt_ok f g demo_rt_eval(6) refl prod.collapse [symmetric] this, of 2 "[]"]
  show ?thesis by (simp add: demo_proc_entry_def canonical_text_dec)
qed

text \<open>
  A 32-bit value has no range check. Where \<^verbatim>\<open>unsigned long\<close> has 64 bits, writing the text
  4294967296 to a \<^verbatim>\<open>U32\<close> tag is the same as writing 0, while the 16-bit tags refuse what
  does not fit with \<^verbatim>\<open>ERANGE\<close>; and on every platform the empty text is accepted as 0.
\<close>

theorem rpc_u32_write_wraps:
  "(te_type e = TAG_T_U32 \<longrightarrow>
      handle_write 64 rt e i tid (dec_nat 4294967296) = handle_write 64 rt e i tid (dec_nat 0)
      \<and> handle_write w rt e i tid [] = handle_write w rt e i tid (dec_nat 0))
   \<and> (te_type e = TAG_T_U16 \<longrightarrow>
      handle_write 64 rt e i tid (dec_nat 4294967296) = (set_error_response i (- ERANGE) (Some ''write_failed''), rt))"
proof -
  have "strtoul w [] = (0, [])" by (simp add: strtoul_def take_sign_def strtoul_base_def starts_nocase_def)
  moreover have "strtoul w (dec_nat 0) = (0, [])" by (rule strtoul_dec) simp
  moreover have "strtoul 64 (dec_nat 4294967296) = (4294967296, [])" by (rule strtoul_dec) simp
  moreover have "strtoul 64 (dec_nat 0) = (0, [])" by (rule strtoul_dec) simp
  moreover have "tag_write_u32 rt tid 4294967296 = tag_write_u32 rt tid 0"
    by (rule arg_cong [of "4294967296 :: u32" 0]) code_simp
  ultimately show ?thesis by (simp add: handle_write_def del: dec_nat_zero)
qed

lemma rpc_u32_write_wraps_witness:
  "handle_write 64 (demo_rt 1) demo_proc_entry 1 2 (dec_nat 4294967296) =
   handle_write 64 (demo_rt 1) demo_proc_entry 1 2 (dec_nat 0)"
  using rpc_u32_write_wraps [of demo_proc_entry "demo_rt 1" 1 2 64] by (simp add: demo_proc_entry_def)

end
