(* ===== verification/Tag_Tcp_Props.thy ===== *)
theory Tag_Tcp_Props
  imports Tag_Tcp Tag_Rpc_Props
begin

text \<open>
  What a client of the text service can rely on: which lines are commands, how bytes become
  lines, and that a request is answered with the response to it.
\<close>

section \<open>Tokens and lines\<close>

lemma parse_token_word:
  assumes "\<forall>c\<in>set ws. isspace c" "t \<noteq> []" "\<forall>c\<in>set t. \<not> isspace c" "rest = [] \<or> isspace (hd rest)" "1 < n"
  shows "parse_token (ws @ t @ rest) n = (True, Some (take (n - 1) t), rest)"
proof -
  obtain c cs where t: "t = c # cs" using assms(2) by (cases t) auto
  have "dropWhile isspace (ws @ t @ rest) = t @ rest" using assms(1,3) t by simp
  moreover have "takeWhile (\<lambda>c. \<not> isspace c) (t @ rest) = t" using assms(3,4) by (cases rest) simp_all
  ultimately show ?thesis using assms(5) t by (simp add: parse_token_def skip_ws_def Let_def)
qed

lemma parse_token_blank: "\<forall>c\<in>set ws. isspace c \<Longrightarrow> parse_token ws n = (False, None, ws)"
  by (simp add: parse_token_def skip_ws_def Let_def)

lemma parse_line_cmd:
  assumes "\<forall>c\<in>set ws. isspace c" "t \<noteq> []" "\<forall>c\<in>set t. \<not> isspace c" "rest = [] \<or> isspace (hd rest)"
    and "length t < 16"
  shows "parse_line (ws @ t @ rest) =
    (if t = ''READ'' then
       (case parse_token rest 64 of (False, _, _) \<Rightarrow> None | (True, name, _) \<Rightarrow> Some (TAGRPC_READ, the name, []))
     else if t = ''WRITE'' then
       (case parse_token rest 64 of (False, _, _) \<Rightarrow> None
        | (True, name, c2) \<Rightarrow> (case parse_token c2 64 of (False, _, _) \<Rightarrow> None
            | (True, value, _) \<Rightarrow> Some (TAGRPC_WRITE, the name, the value)))
     else None)"
  using parse_token_word [OF assms(1-4), of 16] assms(5)
  unfolding parse_line_def TAGRPC_NAME_MAX_def TAGRPC_VALUE_MAX_def by simp

lemma hd_blank: "ws \<noteq> [] \<Longrightarrow> \<forall>c\<in>set ws. isspace c \<Longrightarrow> isspace (hd (ws @ xs))"
  by (cases ws) auto

lemma cmd_words: "\<forall>c\<in>set ''READ''. \<not> isspace c" "\<forall>c\<in>set ''WRITE''. \<not> isspace c"
  by (simp_all add: isspace_def)

lemma parse_line_READ:
  assumes "\<forall>c\<in>set ws0. isspace c" "ws1 \<noteq> []" "\<forall>c\<in>set ws1. isspace c" "name \<noteq> []" "\<forall>c\<in>set name. \<not> isspace c"
    and "rest = [] \<or> isspace (hd rest)"
  shows "parse_line (ws0 @ ''READ'' @ ws1 @ name @ rest) = Some (TAGRPC_READ, take 63 name, [])"
  using parse_line_cmd [OF assms(1) _ cmd_words(1), of "ws1 @ name @ rest"] hd_blank [OF assms(2,3)]
    parse_token_word [OF assms(3-6), of 64] by simp

lemma parse_line_WRITE:
  assumes "\<forall>c\<in>set ws0. isspace c" "ws1 \<noteq> []" "\<forall>c\<in>set ws1. isspace c" "name \<noteq> []" "\<forall>c\<in>set name. \<not> isspace c"
    and "ws2 \<noteq> []" "\<forall>c\<in>set ws2. isspace c" "text \<noteq> []" "\<forall>c\<in>set text. \<not> isspace c"
    and "rest = [] \<or> isspace (hd rest)"
  shows "parse_line (ws0 @ ''WRITE'' @ ws1 @ name @ ws2 @ text @ rest)
    = Some (TAGRPC_WRITE, take 63 name, take 63 text)"
  using parse_line_cmd [OF assms(1) _ cmd_words(2), of "ws1 @ name @ ws2 @ text @ rest"] hd_blank [OF assms(2,3)]
    hd_blank [OF assms(6,7), of "text @ rest"] parse_token_word [OF assms(3-5), of "ws2 @ text @ rest" 64]
    parse_token_word [OF assms(7-10), of 64] by simp

section \<open>Bytes to lines\<close>

lemma tcp_chars_append:
  "tcp_chars env (a @ b) s = do { (go, s1) \<leftarrow> tcp_chars env a s; if go then tcp_chars env b s1 else Some (False, s1) }"
proof (induction a arbitrary: s)
  case (Cons c cs)
  show ?case
  proof (cases "tcp_char env c s")
    case (Some gs)
    obtain go s1 where "gs = (go, s1)" by fastforce
    with Some Cons show ?thesis by simp
  qed simp
qed simp

lemma tcp_chars_plain:
  "\<forall>c\<in>set cs. c \<noteq> CHR 0x0A \<Longrightarrow> length (sv_line s) \<le> 511 \<Longrightarrow> tcp_chars env cs s =
     Some (True, s\<lparr>sv_line := take 511 (sv_line s @ filter (\<lambda>c. c \<noteq> CHR 0x0D) cs)\<rparr>)"
proof (induction cs arbitrary: s)
  case (Cons c cs)
  define s1 where "s1 = (if c = CHR 0x0D \<or> \<not> length (sv_line s) + 1 < 512 then s else s\<lparr>sv_line := sv_line s @ [c]\<rparr>)"
  have "tcp_char env c s = Some (True, s1)" using Cons.prems by (simp add: tcp_char_def s1_def TAG_TCP_MAX_LINE_def)
  moreover have "length (sv_line s1) \<le> 511" using Cons.prems(2) by (simp add: s1_def)
  moreover have "s1\<lparr>sv_line := take 511 (sv_line s1 @ filter (\<lambda>c. c \<noteq> CHR 0x0D) cs)\<rparr>
      = s\<lparr>sv_line := take 511 (sv_line s @ filter (\<lambda>c. c \<noteq> CHR 0x0D) (c # cs))\<rparr>"
    using Cons.prems(2) by (cases "length (sv_line s) = 511") (auto simp: s1_def take_Cons')
  ultimately show ?case using Cons.IH [of s1] Cons.prems(1) by simp
qed simp

section \<open>Waiting for the answer\<close>

text \<open>
  With the PLC polling, the answers still to come are those queued followed by those of the
  requests still queued; polling only moves answers from the second part to the first.
\<close>

definition pending :: "nat \<Rightarrow> TagRpcChannel \<Rightarrow> 'd Runtime \<Rightarrow> TagRpcResponse list" where
  "pending w ch rt = ring_list (rsp_q ch) @ fst (rpc_serve_all w (ring_list (req_q ch)) rt)"

definition settled :: "nat \<Rightarrow> TagRpcChannel \<Rightarrow> 'd Runtime \<Rightarrow> 'd Runtime" where
  "settled w ch rt = snd (rpc_serve_all w (ring_list (req_q ch)) rt)"

definition room :: "TagRpcChannel \<Rightarrow> bool" where
  "room ch \<longleftrightarrow> length (ring_list (rsp_q ch)) + length (ring_list (req_q ch)) \<le> ring_cap (rsp_q ch)"

lemma rpc_serve_all_append:
  "rpc_serve_all w (xs @ ys) rt = (let (a, rt1) = rpc_serve_all w xs rt; (b, rt2) = rpc_serve_all w ys rt1 in (a @ b, rt2))"
  by (induction xs arbitrary: rt) (simp_all add: case_prod_beta Let_def)

lemma rpc_serve_all_length: "length (fst (rpc_serve_all w xs rt)) = length xs"
  by (induction xs arbitrary: rt) (simp_all add: case_prod_beta Let_def)

lemma send_response_cap: "ring_inv q \<Longrightarrow> spsc_ring_push q e = (ok, q') \<Longrightarrow> ring_cap q' = ring_cap q"
  by (auto simp: spsc_ring_push_def ring_cap_def Let_def split: if_splits)

lemma rpc_poll_loop_cap:
  "rpc_poll_loop w n ch rt = (ch', rt') \<Longrightarrow> channel_ok ch \<Longrightarrow> ring_cap (rsp_q ch') = ring_cap (rsp_q ch)"
proof (induction n arbitrary: ch rt)
  case (Suc n)
  have inv: "ring_inv (req_q ch)" "ring_inv (rsp_q ch)" using Suc.prems(2) by (auto simp: channel_ok_def)
  show ?case
    using inv(1)
  proof (cases rule: rq.pop_cases)
    case (1 req q)
    obtain rsp rt1 where s: "rpc_serve w req rt = (rsp, rt1)" by fastforce
    obtain ok p where p: "spsc_ring_push (rsp_q ch) rsp = (ok, p)" by fastforce
    have "rpc_poll_loop w n (ch\<lparr>req_q := q, rsp_q := p\<rparr>) rt1 = (ch', rt')"
      using Suc.prems(1) 1(1) s p by (simp add: tag_rpc_recv_request_def tag_rpc_send_response_def)
    moreover have "ring_inv p" by (rule rq.push_cases [OF inv(2), of rsp]) (use p inv in auto)
    ultimately show ?thesis
      using Suc.IH [of "ch\<lparr>req_q := q, rsp_q := p\<rparr>" rt1] 1(2) send_response_cap [OF inv(2) p]
      by (simp add: channel_ok_def)
  next
    case 2
    then show ?thesis using Suc.prems by (simp add: tag_rpc_recv_request_def)
  qed
qed simp

lemma poll_pending:
  assumes "channel_ok ch" "room ch" "tag_rpc_plc_poll w ch rt m = (ch', rt')"
  shows "channel_ok ch'" "room ch'" "pending w ch' rt' = pending w ch rt" "settled w ch' rt' = settled w ch rt"
    "m \<noteq> 0 \<Longrightarrow> pending w ch rt \<noteq> [] \<Longrightarrow> ring_list (rsp_q ch') \<noteq> []"
proof -
  let ?Q = "ring_list (req_q ch)" and ?R = "ring_list (rsp_q ch)" and ?n = "unat m"
  obtain a rt1 where a: "rpc_serve_all w (take ?n ?Q) rt = (a, rt1)" by fastforce
  have l: "length a = min (length ?Q) ?n" using rpc_serve_all_length [of w "take ?n ?Q" rt] a by (simp add: min.commute)
  have "length a \<le> ring_cap (rsp_q ch) - length ?R" using assms(2) l by (simp add: room_def)
  then have p: "channel_ok ch'" "rt' = rt1" "ring_list (req_q ch') = drop ?n ?Q" "ring_list (rsp_q ch') = ?R @ a"
    using rpc_poll_loop_list [OF assms(1) assms(3) [unfolded tag_rpc_plc_poll_def] a] by auto
  show "channel_ok ch'" by (rule p(1))
  have "ring_cap (rsp_q ch') = ring_cap (rsp_q ch)"
    using rpc_poll_loop_cap assms(1,3) unfolding tag_rpc_plc_poll_def by blast
  then show "room ch'" using assms(2) l p by (simp add: room_def flip: length_ring_list)
  have "rpc_serve_all w ?Q rt = (a @ fst (rpc_serve_all w (drop ?n ?Q) rt1), snd (rpc_serve_all w (drop ?n ?Q) rt1))"
    using rpc_serve_all_append [of w "take ?n ?Q" "drop ?n ?Q" rt] a by (simp add: case_prod_beta Let_def)
  then show "pending w ch' rt' = pending w ch rt" "settled w ch' rt' = settled w ch rt"
    by (simp_all add: pending_def settled_def p)
  show "ring_list (rsp_q ch') \<noteq> []" if m: "m \<noteq> 0" and ne: "pending w ch rt \<noteq> []"
  proof (cases "?R = []")
    case True
    then have "?Q \<noteq> []" using ne by (auto simp: pending_def)
    moreover have "?n \<noteq> 0" using m by (simp add: unat_eq_0)
    ultimately have "a \<noteq> []" using l by (auto simp flip: length_0_conv)
    then show ?thesis by (simp add: p)
  qed (simp add: p)
qed

text \<open>The environment in which the PLC thread polls the channel with the given budgets.\<close>

definition plc_env :: "nat \<Rightarrow> (nat \<Rightarrow> u32) \<Rightarrow> 'd Runtime TcpEnv \<Rightarrow> bool" where
  "plc_env w m env \<longleftrightarrow> (\<forall>k ch rt. en_plc env k (ch, rt) = tag_rpc_plc_poll w ch rt (m k))
     \<and> (\<forall>k. \<not> en_stop env k) \<and> (\<forall>k. \<exists>j\<ge>k. m j \<noteq> 0)"

lemma tcp_await_step:
  assumes "plc_env w m env" "channel_ok (sv_ch s)" "room (sv_ch s)"
    and "pending w (sv_ch s) (sv_env s) = p # ps"
  shows "(\<exists>s1. channel_ok (sv_ch s1) \<and> room (sv_ch s1) \<and> pending w (sv_ch s1) (sv_env s1) = ps
            \<and> settled w (sv_ch s1) (sv_env s1) = settled w (sv_ch s) (sv_env s) \<and> sv_clock s1 = Suc (sv_clock s)
            \<and> tcp_await env rid n s = (if rs_id p = rid then Some (format_response p n, s1) else tcp_await env rid n s1))
    \<or> (m (sv_clock s) = 0 \<and> (\<exists>s1. channel_ok (sv_ch s1) \<and> room (sv_ch s1)
            \<and> pending w (sv_ch s1) (sv_env s1) = p # ps
            \<and> settled w (sv_ch s1) (sv_env s1) = settled w (sv_ch s) (sv_env s) \<and> sv_clock s1 = Suc (sv_clock s)
            \<and> tcp_await env rid n s = tcp_await env rid n s1))"
proof -
  obtain ch rt where p: "tag_rpc_plc_poll w (sv_ch s) (sv_env s) (m (sv_clock s)) = (ch, rt)" by fastforce
  have ok: "channel_ok ch" "room ch" "pending w ch rt = p # ps" "settled w ch rt = settled w (sv_ch s) (sv_env s)"
    "m (sv_clock s) \<noteq> 0 \<Longrightarrow> ring_list (rsp_q ch) \<noteq> []"
    using poll_pending [OF assms(2,3) p] assms(4) by auto
  have e: "en_plc env (sv_clock s) (sv_ch s, sv_env s) = (ch, rt)" "\<not> en_stop env (sv_clock s)"
    using assms(1) p by (simp_all add: plc_env_def)
  have inv: "ring_inv (req_q ch)" "ring_inv (rsp_q ch)" using ok(1) by (simp_all add: channel_ok_def)
  show ?thesis
    using inv(2)
  proof (cases rule: rq.pop_cases)
    case (1 x q)
    define s1 where "s1 = s\<lparr>sv_clock := sv_clock s + 1, sv_ch := ch\<lparr>rsp_q := q\<rparr>, sv_env := rt\<rparr>"
    have "x = p" "pending w (sv_ch s1) (sv_env s1) = ps" using ok(3) 1(3) by (auto simp: pending_def s1_def)
    moreover have "settled w (sv_ch s1) (sv_env s1) = settled w (sv_ch s) (sv_env s)"
      using ok(4) by (simp add: settled_def s1_def)
    moreover have "channel_ok (sv_ch s1)" using inv 1(2) by (simp add: channel_ok_def s1_def)
    moreover have "length (ring_list (rsp_q ch)) = Suc (length (ring_list q))" using 1(3) by simp
    then have "room (sv_ch s1)" using ok(2) 1(4) by (simp add: room_def s1_def)
    moreover have "tcp_await env rid n s = (if rs_id x = rid then Some (format_response x n, s1) else tcp_await env rid n s1)"
      using e 1(1) by (subst tcp_await.simps) (simp add: tag_rpc_recv_response_def s1_def Let_def)
    ultimately show ?thesis by (auto intro!: exI [of _ s1] simp: s1_def)
  next
    case 2
    define s1 where "s1 = s\<lparr>sv_clock := sv_clock s + 1, sv_ch := ch, sv_env := rt\<rparr>"
    have "tcp_await env rid n s = tcp_await env rid n s1"
      using e 2(1) by (subst tcp_await.simps) (simp add: tag_rpc_recv_response_def s1_def Let_def)
    then show ?thesis using ok 2(2) by (auto intro!: exI [of _ s1] simp: s1_def)
  qed
qed

lemma tcp_await_answers:
  assumes "plc_env w m env" "channel_ok (sv_ch s)" "room (sv_ch s)"
    and "pending w (sv_ch s) (sv_env s) = pre @ rsp # post" "\<forall>p\<in>set pre. rs_id p \<noteq> rid" "rs_id rsp = rid"
  shows "\<exists>s1. tcp_await env rid n s = Some (format_response rsp n, s1) \<and> channel_ok (sv_ch s1) \<and> room (sv_ch s1)
    \<and> pending w (sv_ch s1) (sv_env s1) = post
    \<and> settled w (sv_ch s1) (sv_env s1) = settled w (sv_ch s) (sv_env s)"
  using assms(2-5)
proof (induction pre arbitrary: s)
  case Nil
  obtain d where "m (sv_clock s + d) \<noteq> 0" using assms(1) by (auto simp: plc_env_def) (metis le_Suc_ex)
  with Nil show ?case
  proof (induction d arbitrary: s)
    case 0
    then show ?case using tcp_await_step [OF assms(1), of s rsp post rid n] assms(6) by auto
  next
    case (Suc d)
    have "pending w (sv_ch s) (sv_env s) = rsp # post" using Suc.prems(3) by simp
    from tcp_await_step [OF assms(1) Suc.prems(1,2) this, of rid n] show ?case
    proof (elim disjE conjE exE)
      fix s1 assume s1: "channel_ok (sv_ch s1)" "room (sv_ch s1)" "pending w (sv_ch s1) (sv_env s1) = rsp # post"
        "settled w (sv_ch s1) (sv_env s1) = settled w (sv_ch s) (sv_env s)" "sv_clock s1 = Suc (sv_clock s)" "tcp_await env rid n s = tcp_await env rid n s1"
      then show ?thesis using Suc.IH [of s1] Suc.prems(5) by simp
    qed (use assms(6) in auto)
  qed
next
  case (Cons p pre)
  obtain d where "m (sv_clock s + d) \<noteq> 0" using assms(1) by (auto simp: plc_env_def) (metis le_Suc_ex)
  with Cons.prems show ?case
  proof (induction d arbitrary: s)
    case 0
    then have "pending w (sv_ch s) (sv_env s) = p # pre @ rsp # post" "rs_id p \<noteq> rid" by simp_all
    then obtain s1 where s1: "channel_ok (sv_ch s1)" "room (sv_ch s1)" "pending w (sv_ch s1) (sv_env s1) = pre @ rsp # post"
      "settled w (sv_ch s1) (sv_env s1) = settled w (sv_ch s) (sv_env s)" "tcp_await env rid n s = tcp_await env rid n s1"
      using tcp_await_step [OF assms(1), of s p "pre @ rsp # post" rid n] 0 by auto
    then show ?case using Cons.IH [of s1] 0 by simp
  next
    case (Suc d)
    have "pending w (sv_ch s) (sv_env s) = p # pre @ rsp # post" using Suc.prems(3) by simp
    from tcp_await_step [OF assms(1) Suc.prems(1,2) this, of rid n] show ?case
    proof (elim disjE conjE exE)
      fix s1 assume s1: "channel_ok (sv_ch s1)" "room (sv_ch s1)" "pending w (sv_ch s1) (sv_env s1) = pre @ rsp # post"
        "settled w (sv_ch s1) (sv_env s1) = settled w (sv_ch s) (sv_env s)"
        "tcp_await env rid n s = (if rs_id p = rid then Some (format_response p n, s1) else tcp_await env rid n s1)"
      then show ?thesis using Cons.IH [of s1] Suc.prems(4) by auto
    next
      fix s1 assume s1: "channel_ok (sv_ch s1)" "room (sv_ch s1)" "pending w (sv_ch s1) (sv_env s1) = p # pre @ rsp # post"
        "settled w (sv_ch s1) (sv_env s1) = settled w (sv_ch s) (sv_env s)" "sv_clock s1 = Suc (sv_clock s)" "tcp_await env rid n s = tcp_await env rid n s1"
      then show ?thesis using Suc.IH [of s1] Suc.prems(4,5) by simp
    qed
  qed
qed

lemma tcp_await_frame:
  assumes "tcp_await env rid n s = Some y"
  shows "sv_out (snd y) = sv_out s \<and> sv_next_id (snd y) = sv_next_id s \<and> sv_client (snd y) = sv_client s"
proof (rule tcp_await.raw_induct [where P = "\<lambda>env rid n s y. sv_out (snd y) = sv_out s
    \<and> sv_next_id (snd y) = sv_next_id s \<and> sv_client (snd y) = sv_client s", OF _ assms])
  fix f :: "'a TcpEnv \<Rightarrow> u32 \<Rightarrow> nat \<Rightarrow> 'a TagTcpServer \<Rightarrow> (string \<times> 'a TagTcpServer) option"
    and env rid n s y
  assume IH: "\<And>env rid n s y. f env rid n s = Some y \<Longrightarrow>
      sv_out (snd y) = sv_out s \<and> sv_next_id (snd y) = sv_next_id s \<and> sv_client (snd y) = sv_client s"
  show "(let k = sv_clock s; s0 = s\<lparr>sv_clock := k + 1\<rparr> in
      if en_stop env k then Some (fst (snprintf n (''ERR -3 stopping'' @ NL)), s0)
      else
        let (ch, e) = en_plc env k (sv_ch s0, sv_env s0); (r, ch') = tag_rpc_recv_response ch;
            s1 = s0\<lparr>sv_ch := ch', sv_env := e\<rparr>
        in case r of None \<Rightarrow> f env rid n s1
           | Some rsp \<Rightarrow> if rs_id rsp = rid then Some (format_response rsp n, s1) else f env rid n s1) = Some y \<Longrightarrow>
      sv_out (snd y) = sv_out s \<and> sv_next_id (snd y) = sv_next_id s \<and> sv_client (snd y) = sv_client s"
    by (auto simp: Let_def split: if_splits prod.splits option.splits dest!: IH)
qed

section \<open>An environment for the examples\<close>

definition demo_env :: "unit EthercatDriver Runtime TcpEnv" where
  "demo_env = \<lparr>en_stop = (\<lambda>k. False), en_plc = (\<lambda>k (ch, rt). tag_rpc_plc_poll 64 ch rt 16),
     en_sock_init = 0, en_listen = 0, en_accept = (\<lambda>k. 0), en_recv = (\<lambda>k. (1, [])), en_send = (\<lambda>k. 0)\<rparr>"

definition demo_server :: "unit EthercatDriver Runtime TagTcpServer" where
  "demo_server = \<lparr>sv_ch = demo_channel, sv_env = demo_rt 1, sv_clock = 0, sv_next_id = 1, sv_server = True,
     sv_client = True, sv_line = [], sv_out = []\<rparr>"

lemma demo_env_ok: "plc_env 64 (\<lambda>k. 16) demo_env"
  by (auto simp: plc_env_def demo_env_def)

section \<open>Properties\<close>

text \<open>
  C30. The command language. Between any white space, \<open>READ name\<close> and \<open>WRITE name value\<close> are
  the commands; words are cut to 63 characters. A line that is not a command is
  answered with \<open>ERR -1 bad_cmd\<close> and reaches neither the channel nor the id counter.
\<close>

theorem tcp_command_lines:
  assumes "\<forall>c\<in>set (ws0 @ ws1 @ ws2). isspace c" "ws1 \<noteq> []" "ws2 \<noteq> []"
    and "\<forall>c\<in>set (name @ text). \<not> isspace c" "name \<noteq> []" "text \<noteq> []" "rest = [] \<or> isspace (hd rest)"
  shows "parse_line (ws0 @ ''READ'' @ ws1 @ name @ rest) = Some (TAGRPC_READ, take 63 name, [])
    \<and> parse_line (ws0 @ ''WRITE'' @ ws1 @ name @ ws2 @ text @ rest) = Some (TAGRPC_WRITE, take 63 name, take 63 text)
    \<and> parse_line (ws0 @ ''READ'' @ ws1) = None \<and> parse_line (ws0 @ ''WRITE'' @ ws1 @ name @ ws2) = None
    \<and> (length name < 16 \<and> name \<notin> {''READ'', ''WRITE''} \<longrightarrow> parse_line (ws0 @ name @ rest) = None)
    \<and> (parse_line line = None \<longrightarrow> handle_request env line n s = Some (bad_cmd n, s))"
proof -
  have b: "\<forall>c\<in>set ws0. isspace c" "\<forall>c\<in>set ws1. isspace c" "\<forall>c\<in>set ws2. isspace c"
    "\<forall>c\<in>set name. \<not> isspace c" "\<forall>c\<in>set text. \<not> isspace c"
    using assms(1,4) by auto
  have "parse_line (ws0 @ ''READ'' @ ws1) = None"
    using parse_line_cmd [OF b(1) _ cmd_words(1), of ws1] hd_blank [OF assms(2) b(2), of "[]"]
      parse_token_blank [OF b(2), of 64] by simp
  moreover have "parse_line (ws0 @ ''WRITE'' @ ws1 @ name @ ws2) = None"
    using parse_line_cmd [OF b(1) _ cmd_words(2), of "ws1 @ name @ ws2"] hd_blank [OF assms(2) b(2)]
      parse_token_word [OF b(2) assms(5) b(4), of ws2 64] hd_blank [OF assms(3) b(3), of "[]"]
      parse_token_blank [OF b(3), of 64] by simp
  moreover have "length name < 16 \<and> name \<notin> {''READ'', ''WRITE''} \<longrightarrow> parse_line (ws0 @ name @ rest) = None"
    using parse_line_cmd [OF b(1) assms(5) b(4) assms(7)] by simp
  ultimately show ?thesis
    using parse_line_READ [OF b(1) assms(2) b(2) assms(5) b(4) assms(7)]
      parse_line_WRITE [OF b(1) assms(2) b(2) assms(5) b(4) assms(3) b(3) assms(6) b(5) assms(7)]
    by (simp add: handle_request_def)
qed

lemma tcp_command_lines_witness:
  "parse_line ''  WRITE   proc.x 42 '' = Some (TAGRPC_WRITE, ''proc.x'', ''42'')"
  using tcp_command_lines [of "''  ''" "''   ''" "'' ''" "''proc.x''" "''42''" "'' ''" "[]" demo_env 1 demo_server]
  by (simp add: isspace_def)

text \<open>
  How the bytes arrive does not matter. Receiving two blocks is receiving their
  concatenation, as long as the connection stays open; and bytes without a line feed only
  extend the line, without carriage returns and up to 511 characters, the rest being dropped.
\<close>

theorem tcp_bytes_to_lines:
  "tcp_chars env (a @ b) s =
     (case tcp_chars env a s of None \<Rightarrow> None
      | Some (go, s1) \<Rightarrow> if go then tcp_chars env b s1 else Some (False, s1))
   \<and> (CHR 0x0A \<notin> set a \<and> length (sv_line s) \<le> 511 \<longrightarrow>
      tcp_chars env a s = Some (True, s\<lparr>sv_line := take 511 (sv_line s @ filter (\<lambda>c. c \<noteq> CHR 0x0D) a)\<rparr>))"
proof (intro conjI impI)
  show "tcp_chars env (a @ b) s = (case tcp_chars env a s of None \<Rightarrow> None
      | Some (go, s1) \<Rightarrow> if go then tcp_chars env b s1 else Some (False, s1))"
    by (simp add: tcp_chars_append split: option.split)
  show "CHR 0x0A \<notin> set a \<and> length (sv_line s) \<le> 511 \<Longrightarrow>
      tcp_chars env a s = Some (True, s\<lparr>sv_line := take 511 (sv_line s @ filter (\<lambda>c. c \<noteq> CHR 0x0D) a)\<rparr>)"
    by (rule tcp_chars_plain) auto
qed

lemma tcp_bytes_to_lines_witness:
  "tcp_chars demo_env ''READ'' demo_server = Some (True, demo_server\<lparr>sv_line := ''READ''\<rparr>)"
  using tcp_bytes_to_lines [of demo_env "''READ''" "[]" demo_server] by (simp add: demo_server_def)

text \<open>
  C29. Every command is answered, with the response to it. While the PLC keeps polling and the
  client can be written to, a command line typed by the client makes the server send exactly one
  line: the text of the response the PLC computed for this request on the runtime. Old
  responses left in the queue are discarded, the request takes effect once, and the
  server is ready for the next line.
\<close>

theorem tcp_request_answered:
  assumes "plc_env w m env" "\<forall>k. en_send env k = 0"
    and "channel_ok (sv_ch s)" "ring_list (req_q (sv_ch s)) = []"
    and "length (ring_list (rsp_q (sv_ch s))) < ring_cap (rsp_q (sv_ch s))"
    and "\<forall>p\<in>set (ring_list (rsp_q (sv_ch s))). rs_id p \<noteq> sv_next_id s"
    and "sv_line s = []" "length line \<le> 511" "set line \<inter> {CHR 0x0A, CHR 0x0D, CHR 0x00} = {}"
    and "parse_line line = Some (op, name, text)" "length name < 64" "length text < 64"
    and "rpc_serve w \<lparr>rq_id = sv_next_id s, rq_op = op, rq_name = name, rq_value = text\<rparr> (sv_env s) = (rsp, rt')"
  shows "\<exists>s1. tcp_chars env (line @ [CHR 0x0D, CHR 0x0A]) s = Some (True, s1)
    \<and> sv_out s1 = sv_out s @ [format_response rsp TAG_TCP_MAX_LINE] \<and> sv_env s1 = rt'
    \<and> sv_line s1 = [] \<and> sv_next_id s1 = sv_next_id s + 1
    \<and> ring_list (req_q (sv_ch s1)) = [] \<and> ring_list (rsp_q (sv_ch s1)) = []"
proof -
  let ?req = "\<lparr>rq_id = sv_next_id s, rq_op = op, rq_name = name, rq_value = text\<rparr>"
  define s0 where "s0 = s\<lparr>sv_line := line\<rparr>"
  have "filter (\<lambda>c. c \<noteq> CHR 0x0D) (line @ [CHR 0x0D]) = line"
    using assms(9) by (auto simp: filter_id_conv)
  then have plain: "tcp_chars env (line @ [CHR 0x0D]) s = Some (True, s0)"
    using tcp_chars_plain [of "line @ [CHR 0x0D]" s env] assms(7-9) by (auto simp: s0_def)
  have op: "op = TAGRPC_WRITE \<or> text = []"
    using assms(10) by (auto simp: parse_line_def split: prod.splits bool.splits if_splits)
  have inv: "ring_inv (req_q (sv_ch s))" "ring_inv (rsp_q (sv_ch s))" using assms(3) by (simp_all add: channel_ok_def)
  obtain ok q where p: "spsc_ring_push (req_q (sv_ch s)) ?req = (ok, q)" by fastforce
  have q: "ok" "ring_inv q" "ring_list q = [?req]"
    using rq.push_spec [OF inv(1) _ p] inv(1) assms(4) by (simp_all add: ring_inv_def)
  define s2 where "s2 = s0\<lparr>sv_next_id := sv_next_id s + 1, sv_ch := (sv_ch s)\<lparr>req_q := q\<rparr>\<rparr>"
  have c: "cstr line = line" using assms(9) by (intro cstr_no_nul) auto
  have h: "handle_request env (cstr (sv_line s0)) TAG_TCP_MAX_LINE s0 = tcp_await env (sv_next_id s) TAG_TCP_MAX_LINE s2"
    using p q(1) op assms(10-12) c
    by (auto simp: handle_request_def s0_def s2_def tag_rpc_send_request_def TAGRPC_NAME_MAX_def TAGRPC_VALUE_MAX_def)
  have "\<exists>s3. tcp_await env (sv_next_id s) TAG_TCP_MAX_LINE s2 = Some (format_response rsp TAG_TCP_MAX_LINE, s3)
    \<and> channel_ok (sv_ch s3) \<and> room (sv_ch s3) \<and> pending w (sv_ch s3) (sv_env s3) = []
    \<and> settled w (sv_ch s3) (sv_env s3) = settled w (sv_ch s2) (sv_env s2)"
  proof (rule tcp_await_answers [OF assms(1)])
    show "channel_ok (sv_ch s2)" using inv q by (simp add: channel_ok_def s2_def)
    show "room (sv_ch s2)" using q(3) assms(5) by (simp add: room_def s2_def flip: length_ring_list)
    show "pending w (sv_ch s2) (sv_env s2) = ring_list (rsp_q (sv_ch s)) @ rsp # []"
      using q(3) assms(13) by (simp add: pending_def s2_def s0_def)
    show "\<forall>p\<in>set (ring_list (rsp_q (sv_ch s))). rs_id p \<noteq> sv_next_id s" by (rule assms(6))
    show "rs_id rsp = sv_next_id s" using rpc_serve_id [OF assms(13)] by simp
  qed
  then obtain s3 where a: "tcp_await env (sv_next_id s) TAG_TCP_MAX_LINE s2 = Some (format_response rsp TAG_TCP_MAX_LINE, s3)"
    "pending w (sv_ch s3) (sv_env s3) = []" "settled w (sv_ch s3) (sv_env s3) = settled w (sv_ch s2) (sv_env s2)" by blast
  have e: "ring_list (rsp_q (sv_ch s3)) = []" "ring_list (req_q (sv_ch s3)) = []"
    using a(2) rpc_serve_all_length [of w "ring_list (req_q (sv_ch s3))" "sv_env s3"]
    by (auto simp: pending_def simp flip: length_0_conv)
  then have "sv_env s3 = rt'" using a(3) q(3) assms(13) by (simp add: settled_def s2_def s0_def)
  moreover have "sv_out s3 = sv_out s" "sv_next_id s3 = sv_next_id s + 1"
    using tcp_await_frame [OF a(1)] by (simp_all add: s2_def s0_def)
  moreover have "tcp_chars env (line @ [CHR 0x0D, CHR 0x0A]) s = tcp_chars env [CHR 0x0A] s0"
    using tcp_chars_append [of env "line @ [CHR 0x0D]" "[CHR 0x0A]" s] plain by simp
  ultimately show ?thesis
    using h a(1) e assms(2) by (simp add: tcp_char_def Let_def)
qed

lemma tcp_request_answered_witness:
  "\<exists>s1. tcp_chars demo_env (''READ proc.x'' @ [CHR 0x0D, CHR 0x0A]) demo_server = Some (True, s1)
     \<and> sv_out s1 = [''OK U32 0'' @ NL]"
proof -
  obtain rsp rt' where s: "rpc_serve 64 \<lparr>rq_id = 1, rq_op = TAGRPC_READ, rq_name = ''proc.x'', rq_value = []\<rparr>
      (demo_rt 1) = (rsp, rt')" by fastforce
  have "format_response (fst (rpc_serve 64 \<lparr>rq_id = 1, rq_op = TAGRPC_READ, rq_name = ''proc.x'', rq_value = []\<rparr>
      (demo_rt 1))) 512 = ''OK U32 0'' @ NL" by code_simp
  moreover have "parse_line ''READ proc.x'' = Some (TAGRPC_READ, ''proc.x'', [])" by code_simp
  ultimately show ?thesis
    using tcp_request_answered [OF demo_env_ok, of demo_server "''READ proc.x''" TAGRPC_READ "''proc.x''" "[]" rsp rt'] s
    by (simp add: demo_env_def demo_server_def demo_channel_ok TAG_TCP_MAX_LINE_def) auto
qed

end
