(* ===== verification/Tag_Tcp_Stop.thy ===== *)
theory Tag_Tcp_Stop
  imports Tag_Tcp_Props
begin

text \<open>
  Starting and stopping the text service: \<^verbatim>\<open>tag_tcp_server_start\<close> and
  \<^verbatim>\<open>tag_tcp_server_stop\<close>, and what they mean for the thread. The stop flag is an observation of the
  environment, so stopping changes the environment: from the clock \<open>k\<close> on the flag is seen. The
  sockets it closes fail from then on, which the environment's results may do at any time.
\<close>

section \<open>Start and stop\<close>

text \<open>The flag is the outcome of \<^verbatim>\<open>plat_thread_create\<close>; the counter of the request ids is static and survives.\<close>

definition tag_tcp_server_start :: "bool \<Rightarrow> TagRpcChannel \<Rightarrow> 'e TagTcpServer \<Rightarrow> int \<times> 'e TagTcpServer" where
  "tag_tcp_server_start created ch s =
     (let s1 = s\<lparr>sv_ch := ch, sv_server := False, sv_client := False\<rparr>
      in if \<not> created then (-1, s1) else (0, s1))"

definition tag_tcp_server_stop :: "nat \<Rightarrow> 'e TcpEnv \<Rightarrow> 'e TcpEnv" where
  "tag_tcp_server_stop k env = env\<lparr>en_stop := (\<lambda>j. k \<le> j \<or> en_stop env j)\<rparr>"

section \<open>Every part of the thread returns once the flag is set\<close>

lemma close_client_clock [simp]: "sv_clock (close_client s) = sv_clock s"
  by (simp add: close_client_def)

lemma await_stops:
  assumes "\<forall>k\<ge>K. en_stop env k"
  shows "\<exists>r s'. tcp_await env rid n s = Some (r, s') \<and> sv_clock s \<le> sv_clock s'"
proof (induction "K - sv_clock s" arbitrary: s rule: less_induct)
  case less
  let ?k = "sv_clock s" and ?s0 = "s\<lparr>sv_clock := sv_clock s + 1\<rparr>"
  show ?case
  proof (cases "en_stop env ?k")
    case True
    then show ?thesis by (subst tcp_await.simps) (simp add: Let_def)
  next
    case False
    then have "?k < K" using assms by (metis not_le)
    obtain ch e r ch' where p: "en_plc env ?k (sv_ch ?s0, sv_env ?s0) = (ch, e)" "tag_rpc_recv_response ch = (r, ch')" by fastforce
    let ?s1 = "?s0\<lparr>sv_ch := ch', sv_env := e\<rparr>"
    have "K - sv_clock ?s1 < K - sv_clock s" using \<open>?k < K\<close> by simp
    from less [OF this] obtain r' s' where again: "tcp_await env rid n ?s1 = Some (r', s')" "sv_clock ?s1 \<le> sv_clock s'"
      by blast
    show ?thesis
    proof (cases "\<exists>rsp. r = Some rsp \<and> rs_id rsp = rid")
      case True
      then show ?thesis using False p by (subst tcp_await.simps) (auto simp: Let_def)
    next
      case False
      then have "tcp_await env rid n s = tcp_await env rid n ?s1"
        using \<open>\<not> en_stop env ?k\<close> p by (subst tcp_await.simps) (auto simp: Let_def split: option.split)
      then show ?thesis using again by simp
    qed
  qed
qed

lemma request_stops:
  assumes "\<forall>k\<ge>K. en_stop env k"
  shows "\<exists>r s'. handle_request env line n s = Some (r, s') \<and> sv_clock s \<le> sv_clock s'"
proof (cases "parse_line line")
  case (Some c)
  obtain op name txt' where c: "c = (op, name, txt')" by (cases c)
  define req where "req = \<lparr>rq_id = sv_next_id s, rq_op = op, rq_name = fst (snprintf TAGRPC_NAME_MAX name),
      rq_value = (if op = TAGRPC_WRITE then fst (snprintf TAGRPC_VALUE_MAX txt') else [])\<rparr>"
  obtain ok ch where q: "tag_rpc_send_request (sv_ch s) req = (ok, ch)" by fastforce
  have "\<exists>r s'. tcp_await env (sv_next_id s) n (s\<lparr>sv_next_id := sv_next_id s + 1, sv_ch := ch\<rparr>) = Some (r, s')
      \<and> sv_clock s \<le> sv_clock s'"
    using await_stops [OF assms, of "sv_next_id s" n "s\<lparr>sv_next_id := sv_next_id s + 1, sv_ch := ch\<rparr>"] by simp
  then show ?thesis using Some c q by (simp add: handle_request_def Let_def req_def)
qed (simp add: handle_request_def)

lemma char_stops:
  assumes "\<forall>k\<ge>K. en_stop env k"
  shows "\<exists>go s'. tcp_char env c s = Some (go, s') \<and> sv_clock s \<le> sv_clock s'"
proof (cases "c = CHR 0x0A")
  case True
  obtain r s' where "handle_request env (cstr (sv_line s)) TAG_TCP_MAX_LINE s = Some (r, s')" "sv_clock s \<le> sv_clock s'"
    using request_stops [OF assms] by blast
  then show ?thesis using True by (cases "en_send env (sv_clock s') = 0") (auto simp: tcp_char_def Let_def)
qed (auto simp: tcp_char_def)

lemma chars_stop:
  assumes "\<forall>k\<ge>K. en_stop env k"
  shows "\<exists>go s'. tcp_chars env cs s = Some (go, s') \<and> sv_clock s \<le> sv_clock s'"
proof (induction cs arbitrary: s)
  case (Cons c cs)
  obtain go s1 where 1: "tcp_char env c s = Some (go, s1)" "sv_clock s \<le> sv_clock s1" using char_stops [OF assms] by blast
  obtain go' s2 where "tcp_chars env cs s1 = Some (go', s2)" "sv_clock s1 \<le> sv_clock s2" using Cons.IH by blast
  then show ?case using 1 by (cases go) auto
qed auto

lemma accept_clock: "tcp_accept env s = (ok, s') \<Longrightarrow> sv_clock s \<le> sv_clock s'"
  by (auto simp: tcp_accept_def Let_def split: if_splits)

text \<open>A turn returns later than it began, and it is the last one when the flag is set.\<close>

lemma turn_stops:
  assumes "\<forall>k\<ge>K. en_stop env k"
  shows "\<exists>go s'. tcp_turn env s = Some (go, s') \<and> sv_clock s < sv_clock s' \<and> (K \<le> sv_clock s \<longrightarrow> \<not> go)"
proof (cases "en_stop env (sv_clock s)")
  case True
  then show ?thesis by (auto simp: tcp_turn_def Let_def)
next
  case False
  then have early: "\<not> K \<le> sv_clock s" using assms by blast
  let ?s0 = "s\<lparr>sv_clock := sv_clock s + 1\<rparr>"
  obtain ok s1 where acc: "tcp_accept env ?s0 = (ok, s1)" by fastforce
  have t1: "sv_clock s < sv_clock s1" using accept_clock [OF acc] by simp
  obtain rc bytes where r: "en_recv env (sv_clock s1) = (rc, bytes)" by fastforce
  let ?s2 = "s1\<lparr>sv_clock := sv_clock s1 + 1\<rparr>"
  obtain go s3 where "tcp_chars env (take TAG_TCP_MAX_LINE bytes) ?s2 = Some (go, s3)" "sv_clock ?s2 \<le> sv_clock s3"
    using chars_stop [OF assms] by blast
  moreover have "tcp_turn env s = (if ok then if rc \<le> 0 then Some (True, (close_client ?s2)\<lparr>sv_line := []\<rparr>)
      else (case tcp_chars env (take TAG_TCP_MAX_LINE bytes) ?s2 of None \<Rightarrow> None | Some (go, s3) \<Rightarrow> Some (True, s3))
      else Some (True, s1))"
    using False acc r by (simp add: tcp_turn_def Let_def split: option.split)
  ultimately show ?thesis using early t1 by auto
qed

lemma loop_stops:
  assumes "\<forall>k\<ge>K. en_stop env k"
  shows "\<exists>s'. tcp_loop env s = Some s'"
proof (induction "K - sv_clock s" arbitrary: s rule: less_induct)
  case less
  obtain go s1 where t: "tcp_turn env s = Some (go, s1)" "sv_clock s < sv_clock s1" "K \<le> sv_clock s \<longrightarrow> \<not> go"
    using turn_stops [OF assms] by blast
  show ?case
  proof (cases go)
    case True
    then have "K - sv_clock s1 < K - sv_clock s" using t by linarith
    then obtain s' where "tcp_loop env s1 = Some s'" using less by blast
    then show ?thesis using t(1) True by (subst tcp_loop.simps) simp
  next
    case False
    then show ?thesis using t(1) by (subst tcp_loop.simps) simp
  qed
qed

section \<open>Properties\<close>

text \<open>
  C31. Stopping the service ends its thread, whatever the thread is doing and whatever the client
  and the PLC do: waiting for a response that never comes, in the middle of a block of lines,
  or between two connections. Afterwards both sockets are closed. A request that is waiting when the flag is
  seen is answered with an error.
\<close>

theorem tcp_stop_ends_thread:
  "(\<exists>s'. tag_tcp_server_thread (tag_tcp_server_stop k env) s = Some s'
      \<and> (en_sock_init env = 0 \<longrightarrow> \<not> sv_server s') \<and> (en_sock_init env = 0 \<and> en_listen env = 0 \<longrightarrow> \<not> sv_client s'))
   \<and> (k \<le> sv_clock s \<longrightarrow> tcp_await (tag_tcp_server_stop k env) rid n s =
        Some (fst (snprintf n (''ERR -3 stopping'' @ NL)), s\<lparr>sv_clock := sv_clock s + 1\<rparr>))"
proof (intro conjI impI)
  let ?env = "tag_tcp_server_stop k env"
  have stop: "\<forall>j\<ge>k. en_stop ?env j" by (simp add: tag_tcp_server_stop_def)
  obtain s1 where "tcp_loop ?env (s\<lparr>sv_server := True, sv_line := []\<rparr>) = Some s1" using loop_stops [OF stop] by blast
  then show "\<exists>s'. tag_tcp_server_thread ?env s = Some s'
      \<and> (en_sock_init env = 0 \<longrightarrow> \<not> sv_server s') \<and> (en_sock_init env = 0 \<and> en_listen env = 0 \<longrightarrow> \<not> sv_client s')"
    by (simp add: tag_tcp_server_thread_def tag_tcp_server_stop_def close_client_def)
  show "tcp_await ?env rid n s = Some (fst (snprintf n (''ERR -3 stopping'' @ NL)), s\<lparr>sv_clock := sv_clock s + 1\<rparr>)"
    if "k \<le> sv_clock s"
    using stop that by (subst tcp_await.simps) (simp add: Let_def)
qed

lemma tcp_stop_ends_thread_witness:
  "\<exists>s'. tag_tcp_server_thread (tag_tcp_server_stop 0 demo_env) demo_server = Some s' \<and> \<not> sv_server s' \<and> \<not> sv_client s'
    \<and> fst (the (tcp_await (tag_tcp_server_stop 0 demo_env) 1 512 demo_server)) = ''ERR -3 stopping'' @ NL"
  using tcp_stop_ends_thread [of 0 demo_env demo_server 1 512]
  by (auto simp: demo_env_def demo_server_def snprintf_def NL_def)

end
