(* ===== verification/Tag_Typed.thy ===== *)
theory Tag_Typed
  imports Tag_Props
begin

text \<open>
  What the typed functions of \<^verbatim>\<open>core/tag/tag_api.c\<close> do on tags of other types. They compare
  sizes and not types: a value that is too small for the tag is refused, one that is too large is
  cut, and a variable that is too large is overwritten in its low bytes only.
\<close>

section \<open>Bytes of a smaller type\<close>

lemma bytes_u32_low1: "bytes_u32 (overwrite [x] (u32_bytes v)) = (v AND NOT (mask 8)) OR ucast x"
proof (rule bit_word_eqI)
  fix n assume "n < LENGTH(32)"
  then show "bit (bytes_u32 (overwrite [x] (u32_bytes v))) n = bit (v AND NOT (mask 8) OR ucast x :: u32) n"
    by (cases "n < 8"; cases "n < 16"; cases "n < 24") (auto simp: bytes_u32_def u32_bytes_def overwrite_def bit_simps)
qed

lemma bytes_u32_low2: "bytes_u32 (overwrite (u16_bytes h) (u32_bytes v)) = (v AND NOT (mask 16)) OR ucast h"
proof (rule bit_word_eqI)
  fix n assume "n < LENGTH(32)"
  then show "bit (bytes_u32 (overwrite (u16_bytes h) (u32_bytes v))) n = bit (v AND NOT (mask 16) OR ucast h :: u32) n"
    by (cases "n < 8"; cases "n < 16"; cases "n < 24") (auto simp: bytes_u32_def u32_bytes_def u16_bytes_def overwrite_def bit_simps dest: bit_imp_le_length)
qed

lemma bytes_u16_low1: "bytes_u16 (overwrite [x] (u16_bytes v)) = (v AND NOT (mask 8)) OR ucast x"
proof (rule bit_word_eqI)
  fix n assume "n < LENGTH(16)"
  then show "bit (bytes_u16 (overwrite [x] (u16_bytes v))) n = bit (v AND NOT (mask 8) OR ucast x :: u16) n"
    by (cases "n < 8") (auto simp: bytes_u16_def u16_bytes_def overwrite_def bit_simps)
qed

lemma bytes_low:
  "take 1 (u32_bytes w) = [ucast w]" "take 1 (u16_bytes h) = [ucast h]" "take 2 (u32_bytes w) = u16_bytes (ucast w)"
proof -
  have "(ucast (drop_bit 8 w) :: u8) = ucast (drop_bit 8 (ucast w :: u16))"
    by (rule bit_word_eqI) (auto simp: bit_simps)
  moreover have "(ucast w :: u8) = ucast (ucast w :: u16)" by (rule bit_word_eqI) (auto simp: bit_simps)
  ultimately show "take 1 (u32_bytes w) = [ucast w]" "take 1 (u16_bytes h) = [ucast h]" "take 2 (u32_bytes w) = u16_bytes (ucast w)"
    by (simp_all add: u32_bytes_def u16_bytes_def)
qed

section \<open>Access with another width\<close>

lemma narrow_write:
  "resolve_entry rt tid True 0 = Some e \<Longrightarrow> n < tag_type_size (te_type e) \<Longrightarrow> tag_write rt tid (Some buf) n = (- ERANGE, rt)"
  by (simp add: tag_write_def)

lemma narrow_read:
  assumes "resolve_entry rt tid True 0 = Some e" "n < tag_type_size (te_type e)"
  shows "tag_read rt tid (Some buf) n = (- ERANGE, Some buf, rt)"
  using assms(2) resolve_entry_read [OF assms(1)] by (simp add: tag_read_def)

text \<open>A write that is too wide stores the low bytes, and a read that is too wide replaces the low bytes.\<close>

lemma wide_access:
  assumes "ec_runtime_ok S P rt" "resolve_entry rt tid True 0 = Some e" "te_type e \<noteq> TAG_T_BOOL"
    and "tag_write rt tid (Some buf) n = (0, rt')" "n \<le> length buf" "tag_type_size (te_type e) \<le> m"
  shows "tag_read rt' tid (Some out) m = (0, Some (overwrite (take (tag_type_size (te_type e)) buf) out), rt')"
proof -
  have "stored_bytes e buf = take (tag_type_size (te_type e)) buf"
    using assms(3) by (auto simp: stored_bytes_def io_value_def split: TagType.split)
  then show ?thesis using write_then_read [OF assms(1,4,5)] assms(2,6) by auto
qed

text \<open>
  C6. The typed functions check the width and nothing else. A function whose type is smaller
  than that of the tag is refused with \<open>-ERANGE\<close> and changes neither the tag nor the caller's variable. A
  function whose type is larger is not: writing cuts the value to the low bytes
  and reports success, and reading replaces only the low bytes of the caller's variable. At the
  width of the tag a value is returned as it was written; a tag of no known type is refused.
\<close>

theorem tag_typed_access:
  assumes "ec_runtime_ok S P rt" "resolve_entry rt tid True 0 = Some e"
  shows "(1 < tag_type_size (te_type e) \<longrightarrow>
      tag_write_bool rt tid b = (- ERANGE, rt) \<and> tag_read_bool rt tid b = (- ERANGE, b, rt)
      \<and> tag_write_u8 rt tid x = (- ERANGE, rt) \<and> tag_read_u8 rt tid x = (- ERANGE, x, rt))
    \<and> (2 < tag_type_size (te_type e) \<longrightarrow>
      tag_write_u16 rt tid h = (- ERANGE, rt) \<and> tag_read_u16 rt tid h = (- ERANGE, h, rt))
    \<and> (te_type e = TAG_T_U8 \<longrightarrow> tag_write_u16 rt tid h = (0, rt') \<longrightarrow>
      tag_read_u8 rt' tid x = (0, ucast h, rt') \<and> tag_read_u16 rt' tid k = (0, (k AND NOT (mask 8)) OR ucast (ucast h :: u8), rt'))
    \<and> (te_type e = TAG_T_U8 \<longrightarrow> tag_write_u32 rt tid w = (0, rt') \<longrightarrow>
      tag_read_u8 rt' tid x = (0, ucast w, rt') \<and> tag_read_u32 rt' tid v = (0, (v AND NOT (mask 8)) OR ucast (ucast w :: u8), rt'))
    \<and> (te_type e = TAG_T_U16 \<longrightarrow> tag_write_u32 rt tid w = (0, rt') \<longrightarrow>
      tag_read_u16 rt' tid h = (0, ucast w, rt') \<and> tag_read_u32 rt' tid v = (0, (v AND NOT (mask 16)) OR ucast (ucast w :: u16), rt'))
    \<and> (te_type e = TAG_T_U32 \<longrightarrow> tag_write_u32 rt tid w = (0, rt') \<longrightarrow> tag_read_u32 rt' tid v = (0, w, rt'))
    \<and> (tag_type_size (te_type e) = 0 \<longrightarrow> tag_write_u32 rt tid w = (- EINVAL, rt) \<and> tag_read_u32 rt tid v = (- EINVAL, v, rt))"
proof (intro conjI impI)
  note narrow = narrow_write [OF assms(2)] narrow_read [OF assms(2)]
  note wide = wide_access [OF assms]
  have full: "overwrite [y] [z] = [y]" "overwrite (u16_bytes i) (u16_bytes j) = u16_bytes i" for y z :: u8 and i j
    by (simp_all add: overwrite_def)
  note low = bytes_low [simplified One_nat_def] bytes_u16_low1 bytes_u32_low1 bytes_u32_low2 full
  show "tag_write_bool rt tid b = (- ERANGE, rt)" "tag_read_bool rt tid b = (- ERANGE, b, rt)"
    "tag_write_u8 rt tid x = (- ERANGE, rt)" "tag_read_u8 rt tid x = (- ERANGE, x, rt)"
    if "1 < tag_type_size (te_type e)"
    using that by (simp_all add: tag_api_defs narrow bool_byte_def)
  show "tag_write_u16 rt tid h = (- ERANGE, rt)" "tag_read_u16 rt tid h = (- ERANGE, h, rt)"
    if "2 < tag_type_size (te_type e)"
    using that by (simp_all add: tag_api_defs narrow)
  show "tag_read_u8 rt' tid x = (0, ucast h, rt')" "tag_read_u16 rt' tid k = (0, (k AND NOT (mask 8)) OR ucast (ucast h :: u8), rt')"
    if "te_type e = TAG_T_U8" "tag_write_u16 rt tid h = (0, rt')"
    using wide [of "u16_bytes h" 2 rt'] that by (simp_all add: tag_api_defs tag_type_size_def low)
  show "tag_read_u8 rt' tid x = (0, ucast w, rt')" "tag_read_u32 rt' tid v = (0, (v AND NOT (mask 8)) OR ucast (ucast w :: u8), rt')"
    if "te_type e = TAG_T_U8" "tag_write_u32 rt tid w = (0, rt')"
    using wide [of "u32_bytes w" 4 rt'] that by (simp_all add: tag_api_defs tag_type_size_def low)
  show "tag_read_u16 rt' tid h = (0, ucast w, rt')" "tag_read_u32 rt' tid v = (0, (v AND NOT (mask 16)) OR ucast (ucast w :: u16), rt')"
    if "te_type e = TAG_T_U16" "tag_write_u32 rt tid w = (0, rt')"
    using wide [of "u32_bytes w" 4 rt'] that by (simp_all add: tag_api_defs tag_type_size_def low)
  show "tag_read_u32 rt' tid v = (0, w, rt')" if "te_type e = TAG_T_U32" "tag_write_u32 rt tid w = (0, rt')"
    using typed_roundtrip [OF assms] that by blast
  show "tag_write_u32 rt tid w = (- EINVAL, rt)" "tag_read_u32 rt tid v = (- EINVAL, v, rt)"
    if "tag_type_size (te_type e) = 0"
    using that assms(2) resolve_entry_read [OF assms(2)] by (simp_all add: tag_api_defs tag_write_def tag_read_def)
qed

lemma tag_typed_access_witness:
  "tag_write_u8 (demo_rt 1) 2 7 = (- ERANGE, demo_rt 1) \<and> tag_read_u16 (demo_rt 1) 2 9 = (- ERANGE, 9, demo_rt 1)"
  using tag_typed_access [OF demo_rt_ok demo_rt_eval(6)] by (simp add: demo_proc_entry_def tag_type_size_def)

end
