(* ===== verification/Spsc_Concurrent.thy ===== *)
theory Spsc_Concurrent
  imports Spsc_Ring
begin

text \<open>
  The ring of \<^verbatim>\<open>core/ipc/spsc_ring.c\<close> with its two threads interleaved. One producer runs
  \<^verbatim>\<open>spsc_ring_push\<close> calls and one consumer runs \<^verbatim>\<open>spsc_ring_pop\<close> calls; every load and store
  of an index and every byte of the two \<^verbatim>\<open>memcpy\<close> calls is a step of its own, and the bytes
  are copied in any order. The atomics are sequentially consistent, as \<^verbatim>\<open>platform_atomic.h\<close>
  makes them. \<open>cs_sent\<close> and \<open>cs_got\<close> are ghost logs: the elements whose push, and whose pop,
  has returned \<^verbatim>\<open>true\<close>.
\<close>

section \<open>The two threads\<close>

text \<open>The program counters, with the local variables that are live there.\<close>

datatype 'b producer_pc =
    P_Idle
  | P_Read "'b list" u32                \<comment> \<open>\<^verbatim>\<open>read_index\<close> loaded\<close>
  | P_Check "'b list" u32 u32           \<comment> \<open>both indices loaded\<close>
  | P_Copy "'b list" u32 "nat set"      \<comment> \<open>\<^verbatim>\<open>memcpy\<close> into the slot, these bytes done\<close>

datatype 'b consumer_pc =
    C_Idle
  | C_Read u32
  | C_Check u32 u32
  | C_Copy u32 "'b list" "nat set"      \<comment> \<open>\<^verbatim>\<open>memcpy\<close> out of the slot, these bytes done\<close>

record 'b ConcRing =
  cs_ring :: "'b list SpscRing"
  cs_prod :: "'b producer_pc"
  cs_cons :: "'b consumer_pc"
  cs_sent :: "'b list list"
  cs_got :: "'b list list"

definition slot_of :: "'a SpscRing \<Rightarrow> u32 \<Rightarrow> nat" where
  "slot_of q i = unat (i mod capacity q)"

definition poke :: "'b list SpscRing \<Rightarrow> nat \<Rightarrow> nat \<Rightarrow> 'b \<Rightarrow> 'b list SpscRing" where
  "poke q s k b = q\<lparr>rg_storage := (rg_storage q)[s := (rg_storage q ! s)[k := b]]\<rparr>"

inductive push_step :: "'b ConcRing \<Rightarrow> 'b ConcRing \<Rightarrow> bool" where
  push_call: "cs_prod c = P_Idle \<Longrightarrow> length e = elem_size (cs_ring c) \<Longrightarrow>
    push_step c (c\<lparr>cs_prod := P_Read e (read_index (cs_ring c))\<rparr>)"
| push_load: "cs_prod c = P_Read e r \<Longrightarrow>
    push_step c (c\<lparr>cs_prod := P_Check e r (write_index (cs_ring c))\<rparr>)"
| push_refuse: "cs_prod c = P_Check e r w \<Longrightarrow> capacity (cs_ring c) \<le> w - r \<Longrightarrow>
    push_step c (c\<lparr>cs_prod := P_Idle\<rparr>)"
| push_begin: "cs_prod c = P_Check e r w \<Longrightarrow> w - r < capacity (cs_ring c) \<Longrightarrow>
    push_step c (c\<lparr>cs_prod := P_Copy e w {}\<rparr>)"
| push_byte: "cs_prod c = P_Copy e w D \<Longrightarrow> k < elem_size (cs_ring c) \<Longrightarrow> k \<notin> D \<Longrightarrow>
    push_step c (c\<lparr>cs_ring := poke (cs_ring c) (slot_of (cs_ring c) w) k (e ! k),
                   cs_prod := P_Copy e w (insert k D)\<rparr>)"
| push_publish: "cs_prod c = P_Copy e w D \<Longrightarrow> D = {..<elem_size (cs_ring c)} \<Longrightarrow>
    push_step c (c\<lparr>cs_ring := (cs_ring c)\<lparr>write_index := w + 1\<rparr>, cs_prod := P_Idle,
                   cs_sent := cs_sent c @ [e]\<rparr>)"

inductive pop_step :: "'b ConcRing \<Rightarrow> 'b ConcRing \<Rightarrow> bool" where
  pop_call: "cs_cons c = C_Idle \<Longrightarrow>
    pop_step c (c\<lparr>cs_cons := C_Read (read_index (cs_ring c))\<rparr>)"
| pop_load: "cs_cons c = C_Read r \<Longrightarrow>
    pop_step c (c\<lparr>cs_cons := C_Check r (write_index (cs_ring c))\<rparr>)"
| pop_nothing: "cs_cons c = C_Check r w \<Longrightarrow> r = w \<Longrightarrow> pop_step c (c\<lparr>cs_cons := C_Idle\<rparr>)"
| pop_begin: "cs_cons c = C_Check r w \<Longrightarrow> r \<noteq> w \<Longrightarrow> length out = elem_size (cs_ring c) \<Longrightarrow>
    pop_step c (c\<lparr>cs_cons := C_Copy r out {}\<rparr>)"
| pop_byte: "cs_cons c = C_Copy r out D \<Longrightarrow> k < elem_size (cs_ring c) \<Longrightarrow> k \<notin> D \<Longrightarrow>
    pop_step c (c\<lparr>cs_cons := C_Copy r (out[k := rg_storage (cs_ring c) ! slot_of (cs_ring c) r ! k])
                   (insert k D)\<rparr>)"
| pop_publish: "cs_cons c = C_Copy r out D \<Longrightarrow> D = {..<elem_size (cs_ring c)} \<Longrightarrow>
    pop_step c (c\<lparr>cs_ring := (cs_ring c)\<lparr>read_index := r + 1\<rparr>, cs_cons := C_Idle,
                  cs_got := cs_got c @ [out]\<rparr>)"

definition conc_start :: "'b list SpscRing \<Rightarrow> 'b ConcRing" where
  "conc_start q = \<lparr>cs_ring = q, cs_prod = P_Idle, cs_cons = C_Idle, cs_sent = [], cs_got = []\<rparr>"

inductive ring_run :: "'b list SpscRing \<Rightarrow> 'b ConcRing \<Rightarrow> bool" for q where
  run_start: "ring_run q (conc_start q)"
| run_push: "ring_run q c \<Longrightarrow> push_step c c' \<Longrightarrow> ring_run q c'"
| run_pop: "ring_run q c \<Longrightarrow> pop_step c c' \<Longrightarrow> ring_run q c'"

section \<open>The invariant\<close>

definition prod_ok :: "'b ConcRing \<Rightarrow> bool" where
  "prod_ok c = (let q = cs_ring c in case cs_prod c of
      P_Idle \<Rightarrow> True
    | P_Read e r \<Rightarrow> length e = elem_size q \<and> ring_count q \<le> unat (write_index q - r)
    | P_Check e r w \<Rightarrow> length e = elem_size q \<and> w = write_index q \<and> ring_count q \<le> unat (w - r)
    | P_Copy e w D \<Rightarrow> length e = elem_size q \<and> w = write_index q \<and> ring_count q < ring_cap q \<and>
        D \<subseteq> {..<elem_size q} \<and> (\<forall>k\<in>D. rg_storage q ! slot_of q w ! k = e ! k))"

definition cons_ok :: "'b ConcRing \<Rightarrow> bool" where
  "cons_ok c = (let q = cs_ring c in case cs_cons c of
      C_Idle \<Rightarrow> True
    | C_Read r \<Rightarrow> r = read_index q
    | C_Check r w \<Rightarrow> r = read_index q \<and> unat (w - r) \<le> ring_count q
    | C_Copy r out D \<Rightarrow> r = read_index q \<and> 0 < ring_count q \<and> length out = elem_size q \<and>
        D \<subseteq> {..<elem_size q} \<and> (\<forall>k\<in>D. out ! k = rg_storage q ! slot_of q r ! k))"

definition conc_inv :: "'b ConcRing \<Rightarrow> bool" where
  "conc_inv c \<longleftrightarrow> ring_inv (cs_ring c) \<and> (\<forall>x\<in>set (rg_storage (cs_ring c)). length x = elem_size (cs_ring c))
     \<and> prod_ok c \<and> cons_ok c \<and> cs_sent c = cs_got c @ ring_list (cs_ring c)"

lemmas conc_defs = conc_inv_def prod_ok_def cons_ok_def Let_def

lemma slot_of_eq: "slot_of q i = unat i mod ring_cap q"
  by (simp add: slot_of_def ring_cap_def unat_mod)

lemma slot_of_write:
  "ring_inv q \<Longrightarrow> slot_of q (write_index q) = (unat (read_index q) + ring_count q) mod ring_cap q"
  by (simp add: slot_of_def slot_write)

lemma slots_apart:
  assumes "ring_inv q" "ring_count q < ring_cap q" "i < ring_count q"
  shows "(unat (read_index q) + i) mod ring_cap q \<noteq> slot_of q (write_index q)"
  using slots_distinct [OF assms(3,2)] assms(1) by (simp add: slot_of_write)

lemma poke_simps [simp]:
  "capacity (poke q s k b) = capacity q" "read_index (poke q s k b) = read_index q"
  "write_index (poke q s k b) = write_index q" "elem_size (poke q s k b) = elem_size q"
  "ring_count (poke q s k b) = ring_count q" "ring_cap (poke q s k b) = ring_cap q"
  "slot_of (poke q s k b) i = slot_of q i" "ring_inv (poke q s k b) = ring_inv q"
  by (simp_all add: poke_def ring_count_def ring_cap_def slot_of_def ring_inv_def)

lemma storage_poke:
  "rg_storage (poke q s k b) ! t =
     (if t = s \<and> s < length (rg_storage q) then (rg_storage q ! s)[k := b] else rg_storage q ! t)"
  by (auto simp: poke_def nth_list_update list_update_beyond)

lemma ring_list_poke:
  assumes "ring_inv q" "ring_count q < ring_cap q"
  shows "ring_list (poke q (slot_of q (write_index q)) k b) = ring_list q"
  using slots_apart [OF assms] by (auto simp: ring_list_def storage_poke)


lemma ring_list_publish_push:
  assumes "ring_inv q" "ring_count q < ring_cap q"
  shows "ring_list (q\<lparr>write_index := write_index q + 1\<rparr>)
      = ring_list q @ [rg_storage q ! slot_of q (write_index q)]"
    and "ring_count (q\<lparr>write_index := write_index q + 1\<rparr>) = Suc (ring_count q)"
    and "ring_inv (q\<lparr>write_index := write_index q + 1\<rparr>)"
proof -
  let ?e = "rg_storage q ! slot_of q (write_index q)"
  have "snd (spsc_ring_push q ?e) = q\<lparr>write_index := write_index q + 1\<rparr>"
    using assms by (simp add: spsc_ring_push_def full_iff Let_def slot_of_def)
  then show "ring_list (q\<lparr>write_index := write_index q + 1\<rparr>) = ring_list q @ [?e]"
    "ring_inv (q\<lparr>write_index := write_index q + 1\<rparr>)"
    using push_list [OF assms, of ?e] by simp_all
  then show "ring_count (q\<lparr>write_index := write_index q + 1\<rparr>) = Suc (ring_count q)"
    by (simp flip: length_ring_list)
qed

lemma ring_list_publish_pop:
  assumes "ring_inv q" "0 < ring_count q"
  shows "ring_list q = rg_storage q ! slot_of q (read_index q) # ring_list (q\<lparr>read_index := read_index q + 1\<rparr>)"
    and "ring_inv (q\<lparr>read_index := read_index q + 1\<rparr>)"
    and "ring_count q = Suc (ring_count (q\<lparr>read_index := read_index q + 1\<rparr>))"
proof -
  obtain x xs where l: "ring_list q = x # xs" using assms(2) by (cases "ring_list q") (auto simp flip: length_ring_list)
  have p: "spsc_ring_pop q = (Some (rg_storage q ! slot_of q (read_index q)), q\<lparr>read_index := read_index q + 1\<rparr>)"
    using assms by (simp add: spsc_ring_pop_def empty_iff slot_of_def Let_def)
  show "ring_list q = rg_storage q ! slot_of q (read_index q) # ring_list (q\<lparr>read_index := read_index q + 1\<rparr>)"
    "ring_inv (q\<lparr>read_index := read_index q + 1\<rparr>)"
    using pop_list [OF assms(1) l] l p by simp_all
  then show "ring_count q = Suc (ring_count (q\<lparr>read_index := read_index q + 1\<rparr>))"
    by (metis length_Cons length_ring_list)
qed

lemma slot_in_range: "ring_inv q \<Longrightarrow> slot_of q i < length (rg_storage q)"
  by (simp add: slot_of_eq ring_inv_def)

lemma slots_differ:
  assumes "ring_inv q" "ring_count q < ring_cap q" "0 < ring_count q"
  shows "slot_of q (read_index q) \<noteq> slot_of q (write_index q)"
  using slots_apart [OF assms(1,2), of 0] assms(3) by (simp add: slot_of_eq)

lemma list_done:
  "length xs = n \<Longrightarrow> length ys = n \<Longrightarrow> \<forall>k\<in>{..<n}. xs ! k = ys ! k \<Longrightarrow> xs = ys"
  by (rule nth_equalityI) auto

section \<open>Every step keeps the invariant\<close>

lemma push_step_inv:
  assumes "push_step c c'" "conc_inv c"
  shows "conc_inv c'"
  using assms
proof (cases rule: push_step.cases)
  case (push_byte e w D k)
  let ?q = "cs_ring c"
  have p: "ring_inv ?q" "ring_count ?q < ring_cap ?q" "length e = elem_size ?q" "w = write_index ?q"
    "D \<subseteq> {..<elem_size ?q}" "\<forall>j\<in>D. rg_storage ?q ! slot_of ?q w ! j = e ! j"
    using assms(2) push_byte by (auto simp: conc_defs)
  have len: "length (rg_storage ?q ! slot_of ?q w) = elem_size ?q"
    using assms(2) slot_in_range [OF p(1)] by (simp add: conc_inv_def)
  have sizes: "\<forall>x\<in>set (rg_storage (poke ?q (slot_of ?q w) k (e ! k))). length x = elem_size ?q"
    using assms(2) len by (auto simp: conc_inv_def poke_def dest!: set_update_cases)
  have "prod_ok c'"
    using p len push_byte slot_in_range [OF p(1)]
    by (auto simp: prod_ok_def Let_def storage_poke nth_update_cases)
  moreover have "cons_ok c'"
  proof (cases "cs_cons c")
    case (C_Copy r out Dc)
    then have "slot_of ?q r \<noteq> slot_of ?q w"
      using slots_differ [OF p(1,2)] assms(2) p(4) by (auto simp: conc_defs)
    then show ?thesis using assms(2) push_byte C_Copy by (auto simp: conc_defs storage_poke)
  qed (use assms(2) push_byte in \<open>auto simp: conc_defs\<close>)
  ultimately show ?thesis
    using assms(2) push_byte p sizes ring_list_poke [OF p(1,2)] by (simp add: conc_inv_def)
next
  case (push_publish e w D)
  let ?q = "cs_ring c" and ?q' = "(cs_ring c)\<lparr>write_index := w + 1\<rparr>"
  have p: "ring_inv ?q" "ring_count ?q < ring_cap ?q" "length e = elem_size ?q" "w = write_index ?q"
    "\<forall>k\<in>{..<elem_size ?q}. rg_storage ?q ! slot_of ?q w ! k = e ! k"
    using assms(2) push_publish by (auto simp: conc_defs)
  have "rg_storage ?q ! slot_of ?q w = e"
    using assms(2) p slot_in_range [OF p(1)] by (intro list_done) (auto simp: conc_inv_def)
  then have l: "ring_list ?q' = ring_list ?q @ [e]" and n: "ring_count ?q' = Suc (ring_count ?q)"
    and inv: "ring_inv ?q'"
    using ring_list_publish_push [OF p(1,2)] p(4) by auto
  have "slot_of ?q' i = slot_of ?q i" for i by (simp add: slot_of_def)
  then have "cons_ok c'" using assms(2) push_publish n by (auto simp: conc_defs split: consumer_pc.splits)
  moreover have "prod_ok c'" using push_publish by (simp add: prod_ok_def)
  ultimately show ?thesis using assms(2) push_publish l inv by (simp add: conc_inv_def)
next
  case (push_begin e r w)
  then have "ring_count (cs_ring c) < ring_cap (cs_ring c)"
    using assms(2) by (auto simp: conc_defs ring_cap_def word_less_nat_alt)
  then show ?thesis using push_begin assms(2) by (simp add: conc_defs)
qed (use assms(2) in \<open>auto simp: conc_defs ring_count_def\<close>)

lemma pop_step_inv:
  assumes "pop_step c c'" "conc_inv c"
  shows "conc_inv c'"
  using assms
proof (cases rule: pop_step.cases)
  case (pop_publish r out D)
  let ?q = "cs_ring c" and ?q' = "(cs_ring c)\<lparr>read_index := r + 1\<rparr>"
  have p: "ring_inv ?q" "0 < ring_count ?q" "length out = elem_size ?q" "r = read_index ?q"
    "\<forall>k\<in>{..<elem_size ?q}. out ! k = rg_storage ?q ! slot_of ?q r ! k"
    using assms(2) pop_publish by (auto simp: conc_defs)
  have "out = rg_storage ?q ! slot_of ?q r"
    using assms(2) p slot_in_range [OF p(1)] by (intro list_done) (auto simp: conc_inv_def)
  then have l: "ring_list ?q = out # ring_list ?q'" and n: "ring_count ?q = Suc (ring_count ?q')"
    and inv: "ring_inv ?q'"
    using ring_list_publish_pop [OF p(1,2)] p(4) by auto
  have "slot_of ?q' i = slot_of ?q i" "ring_cap ?q' = ring_cap ?q" for i
    by (simp_all add: slot_of_def ring_cap_def)
  then have "prod_ok c'" using assms(2) pop_publish n by (auto simp: conc_defs split: producer_pc.splits)
  moreover have "cons_ok c'" using pop_publish by (simp add: cons_ok_def)
  ultimately show ?thesis using assms(2) pop_publish l inv by (simp add: conc_inv_def)
next
  case (pop_begin r w out)
  then have "0 < ring_count (cs_ring c)"
    using assms(2) unat_eq_0 [of "w - r"] by (auto simp: conc_defs simp del: unat_eq_zero intro: gr0I)
  then show ?thesis using pop_begin assms(2) by (simp add: conc_defs)
next
  case (pop_byte r out D k)
  then show ?thesis using assms(2) by (auto simp: conc_defs nth_list_update)
qed (use assms(2) in \<open>auto simp: conc_defs ring_count_def\<close>)

lemma conc_start_inv:
  assumes "ring_inv q" "ring_list q = []" "\<forall>x\<in>set (rg_storage q). length x = elem_size q"
  shows "conc_inv (conc_start q)"
  using assms by (simp add: conc_defs conc_start_def)

lemma ring_run_inv:
  assumes "ring_run q c" "conc_inv (conc_start q)"
  shows "conc_inv c"
  using assms by (induction rule: ring_run.induct) (auto intro: push_step_inv pop_step_inv)


section \<open>Properties\<close>

lemma ring_init:
  assumes "spsc_ring_init q0 (Some store) esize cap = (0, q)" "cap dvd 2 ^ 32" "cap < 2 ^ 32"
    "length store = cap"
  shows "ring_inv q" "ring_list q = []" "ring_cap q = cap" "rg_storage q = store" "elem_size q = esize"
proof -
  have q: "q = q0\<lparr>rg_storage := store, elem_size := esize, capacity := of_nat cap,
      read_index := 0, write_index := 0\<rparr>" "0 < cap"
    using assms(1) by (auto simp: spsc_ring_init_def split: if_splits)
  moreover have "unat (of_nat cap :: u32) = cap" using assms(3) by (intro unat_of_nat_small) simp
  ultimately show "ring_inv q" "ring_list q = []" "ring_cap q = cap" "rg_storage q = store"
    "elem_size q = esize"
    using assms by (simp_all add: ring_inv_def ring_cap_def ring_count_def ring_list_def)
qed

text \<open>
  C23. The ring is a bounded queue, through every wrap-around of its 32-bit indices. Set up with
  a capacity that divides \<open>2 ^ 32\<close> it is empty; from then on a run of pushes keeps the oldest
  elements that fit, in order, and drops the rest, a run of pops returns the oldest ones
  in order, and neither ever breaks the invariant.
\<close>

theorem spsc_ring_is_bounded_queue:
  "(spsc_ring_init q0 (Some store) esize n = (0, q) \<and> n dvd 2 ^ 32 \<and> n < 2 ^ 32 \<and> length store = n \<longrightarrow>
      ring_inv q \<and> ring_list q = [] \<and> ring_cap q = n)
   \<and> (ring_inv p \<longrightarrow>
      (let p' = fold (\<lambda>e r. snd (spsc_ring_push r e)) es p in
         ring_inv p' \<and> ring_list p' = ring_list p @ take (ring_cap p - length (ring_list p)) es)
      \<and> (fst (spsc_ring_push p x) \<longleftrightarrow> length (ring_list p) < ring_cap p)
      \<and> (case spsc_ring_pop p of
           (None, p') \<Rightarrow> p' = p \<and> ring_list p = []
         | (Some y, p') \<Rightarrow> ring_inv p' \<and> ring_list p = y # ring_list p' \<and> ring_cap p' = ring_cap p))"
proof (intro conjI impI)
  assume "spsc_ring_init q0 (Some store) esize n = (0, q) \<and> n dvd 2 ^ 32 \<and> n < 2 ^ 32 \<and> length store = n"
  then show "ring_inv q" "ring_list q = []" "ring_cap q = n" by (auto dest: ring_init)
next
  assume inv: "ring_inv p"
  have "fold (\<lambda>e r. snd (spsc_ring_push r e)) es p = rq.push_all p es"
    by (induction es arbitrary: p) auto
  then show "let p' = fold (\<lambda>e r. snd (spsc_ring_push r e)) es p in
      ring_inv p' \<and> ring_list p' = ring_list p @ take (ring_cap p - length (ring_list p)) es"
    using rq.push_all_contents [OF inv, of es] by (simp add: Let_def)
  show "fst (spsc_ring_push p x) \<longleftrightarrow> length (ring_list p) < ring_cap p"
    by (rule rq.push_cases [OF inv, of x]) auto
  show "case spsc_ring_pop p of (None, p') \<Rightarrow> p' = p \<and> ring_list p = []
      | (Some y, p') \<Rightarrow> ring_inv p' \<and> ring_list p = y # ring_list p' \<and> ring_cap p' = ring_cap p"
    by (rule rq.pop_cases [OF inv]) auto
qed

definition demo_ring :: "nat SpscRing" where
  "demo_ring = \<lparr>rg_storage = [9, 9, 9, 9], elem_size = 1, capacity = 4, read_index = 0xFFFFFFFE,
     write_index = 0xFFFFFFFF\<rparr>"

lemma demo_ring_ok: "ring_inv demo_ring" "ring_list demo_ring = [9]" "ring_cap demo_ring = 4"
  by (simp_all add: demo_ring_def ring_inv_def ring_cap_def ring_count_def ring_list_def)

theorem spsc_ring_is_bounded_queue_witness:
  "(ring_inv (snd (spsc_ring_init demo_ring (Some [0, 0, 0, 0]) 1 4))
      \<and> ring_list (snd (spsc_ring_init demo_ring (Some [0, 0, 0, 0]) 1 4)) = [])
   \<and> ring_list (fold (\<lambda>e r. snd (spsc_ring_push r e)) [1, 2, 3, 4, 5] demo_ring) = [9, 1, 2, 3]"
proof
  show "ring_inv (snd (spsc_ring_init demo_ring (Some [0, 0, 0, 0]) 1 4))
      \<and> ring_list (snd (spsc_ring_init demo_ring (Some [0, 0, 0, 0]) 1 4)) = []"
    using spsc_ring_is_bounded_queue [of demo_ring "[0, 0, 0, 0]" 1 4
        "snd (spsc_ring_init demo_ring (Some [0, 0, 0, 0]) 1 4)" demo_ring "[]" 0]
    by (simp add: spsc_ring_init_def)
  show "ring_list (fold (\<lambda>e r. snd (spsc_ring_push r e)) [1, 2, 3, 4, 5] demo_ring) = [9, 1, 2, 3]"
    using spsc_ring_is_bounded_queue [of demo_ring "[]" 0 0 demo_ring demo_ring "[1, 2, 3, 4, 5]"]
    by (simp add: demo_ring_ok Let_def)
qed

text \<open>
  C24. The ring is safe under concurrency. Whatever the interleaving of one producer and one
  consumer, down to the single bytes of the two copies: the elements received so far followed
  by those in the ring are exactly the elements sent, in order; the ring never holds
  more than its capacity; and the two threads never copy to and from the same slot at the
  same time.
\<close>

theorem spsc_ring_concurrent_fifo:
  assumes "spsc_ring_init q0 (Some store) esize n = (0, q)" "n dvd 2 ^ 32" "n < 2 ^ 32"
    "length store = n" "\<forall>x\<in>set store. length x = esize"
    and "ring_run q c"
  shows "cs_sent c = cs_got c @ ring_list (cs_ring c) \<and> length (ring_list (cs_ring c)) \<le> ring_cap (cs_ring c)
    \<and> (\<forall>e w D r out D'. cs_prod c = P_Copy e w D \<longrightarrow> cs_cons c = C_Copy r out D' \<longrightarrow>
         slot_of (cs_ring c) w \<noteq> slot_of (cs_ring c) r)"
proof -
  have "conc_inv c"
    using ring_run_inv [OF assms(6) conc_start_inv] ring_init [OF assms(1-4)] assms(5) by simp
  then show ?thesis
    using slots_differ [of "cs_ring c"]
    by (auto simp: conc_inv_def prod_ok_def cons_ok_def Let_def dest: rq.bounded)
qed

definition demo_ring2 :: "nat list SpscRing" where
  "demo_ring2 = \<lparr>rg_storage = [[0], [0]], elem_size = 1, capacity = 2, read_index = 0, write_index = 0\<rparr>"

definition ring_demo_mid :: "nat list list \<Rightarrow> u32 \<Rightarrow> nat producer_pc \<Rightarrow> nat consumer_pc \<Rightarrow> nat list list \<Rightarrow> nat ConcRing" where
  "ring_demo_mid st w p cn snt = \<lparr>cs_ring = \<lparr>rg_storage = st, elem_size = 1, capacity = 2,
     read_index = 0, write_index = w\<rparr>, cs_prod = p, cs_cons = cn, cs_sent = snt, cs_got = []\<rparr>"

lemma ring_demo_push:
  "push_step (ring_demo_mid st w P_Idle cn snt) (ring_demo_mid st w (P_Read [x] 0) cn snt)"
  "push_step (ring_demo_mid st w (P_Read [x] 0) cn snt) (ring_demo_mid st w (P_Check [x] 0 w) cn snt)"
  "w < 2 \<Longrightarrow> push_step (ring_demo_mid st w (P_Check [x] 0 w) cn snt) (ring_demo_mid st w (P_Copy [x] w {}) cn snt)"
  "st' = st[unat (w mod 2) := (st ! unat (w mod 2))[0 := x]] \<Longrightarrow>
     push_step (ring_demo_mid st w (P_Copy [x] w {}) cn snt) (ring_demo_mid st' w (P_Copy [x] w {0}) cn snt)"
  "push_step (ring_demo_mid st w (P_Copy [x] w {0}) cn snt) (ring_demo_mid st (w + 1) P_Idle cn (snt @ [[x]]))"
proof -
  show "push_step (ring_demo_mid st w P_Idle cn snt) (ring_demo_mid st w (P_Read [x] 0) cn snt)"
    using push_call [of "ring_demo_mid st w P_Idle cn snt" "[x]"] by (simp add: ring_demo_mid_def)
  show "push_step (ring_demo_mid st w (P_Read [x] 0) cn snt) (ring_demo_mid st w (P_Check [x] 0 w) cn snt)"
    using push_load [of "ring_demo_mid st w (P_Read [x] 0) cn snt"] by (simp add: ring_demo_mid_def)
  show "w < 2 \<Longrightarrow> push_step (ring_demo_mid st w (P_Check [x] 0 w) cn snt) (ring_demo_mid st w (P_Copy [x] w {}) cn snt)"
    using push_begin [of "ring_demo_mid st w (P_Check [x] 0 w) cn snt" "[x]" 0 w] by (simp add: ring_demo_mid_def)
  show "st' = st[unat (w mod 2) := (st ! unat (w mod 2))[0 := x]] \<Longrightarrow>
     push_step (ring_demo_mid st w (P_Copy [x] w {}) cn snt) (ring_demo_mid st' w (P_Copy [x] w {0}) cn snt)"
    using push_byte [of "ring_demo_mid st w (P_Copy [x] w {}) cn snt" "[x]" w "{}" 0]
    by (simp add: ring_demo_mid_def poke_def slot_of_def)
  show "push_step (ring_demo_mid st w (P_Copy [x] w {0}) cn snt) (ring_demo_mid st (w + 1) P_Idle cn (snt @ [[x]]))"
    using push_publish [of "ring_demo_mid st w (P_Copy [x] w {0}) cn snt" "[x]" w "{0}"]
    by (simp add: ring_demo_mid_def lessThan_Suc)
qed

lemma ring_demo_pop:
  "pop_step (ring_demo_mid st 1 p C_Idle snt) (ring_demo_mid st 1 p (C_Read 0) snt)"
  "pop_step (ring_demo_mid st 1 p (C_Read 0) snt) (ring_demo_mid st 1 p (C_Check 0 1) snt)"
  "pop_step (ring_demo_mid st 1 p (C_Check 0 1) snt) (ring_demo_mid st 1 p (C_Copy 0 [0] {}) snt)"
  using pop_call [of "ring_demo_mid st 1 p C_Idle snt"] pop_load [of "ring_demo_mid st 1 p (C_Read 0) snt"]
    pop_begin [of "ring_demo_mid st 1 p (C_Check 0 1) snt" 0 1 "[0]"]
  by (simp_all add: ring_demo_mid_def)

lemma ring_demo_run:
  "ring_run demo_ring2 (ring_demo_mid [[7], [0]] 1 (P_Copy [8] 1 {}) (C_Copy 0 [0] {}) [[7]])"
proof -
  let ?run = "ring_run demo_ring2"
  have "?run (ring_demo_mid [[0], [0]] 0 P_Idle C_Idle [])"
    using run_start [of demo_ring2] by (simp add: conc_start_def ring_demo_mid_def demo_ring2_def)
  then have "?run (ring_demo_mid [[0], [0]] 0 (P_Copy [7] 0 {}) C_Idle [])"
    by (blast intro: run_push ring_demo_push(1-2) ring_demo_push(3) [of 0, simplified])
  then have "?run (ring_demo_mid [[7], [0]] 0 (P_Copy [7] 0 {0}) C_Idle [])"
    by (rule run_push) (rule ring_demo_push(4), simp)
  then have "?run (ring_demo_mid [[7], [0]] 1 P_Idle C_Idle [[7]])"
    using run_push [OF _ ring_demo_push(5) [of _ 0 7 C_Idle "[]", simplified]] by blast
  then have "?run (ring_demo_mid [[7], [0]] 1 (P_Copy [8] 1 {}) C_Idle [[7]])"
    by (blast intro: run_push ring_demo_push(1-2) ring_demo_push(3) [of 1, simplified])
  then have "?run (ring_demo_mid [[7], [0]] 1 (P_Copy [8] 1 {}) (C_Read 0) [[7]])"
    by (rule run_pop) (rule ring_demo_pop(1))
  then have "?run (ring_demo_mid [[7], [0]] 1 (P_Copy [8] 1 {}) (C_Check 0 1) [[7]])"
    by (rule run_pop) (rule ring_demo_pop(2))
  then show ?thesis by (rule run_pop) (rule ring_demo_pop(3))
qed

theorem spsc_ring_concurrent_fifo_witness:
  "slot_of demo_ring2 1 \<noteq> slot_of demo_ring2 0 \<and>
   ring_run demo_ring2 (ring_demo_mid [[7], [0]] 1 (P_Copy [8] 1 {}) (C_Copy 0 [0] {}) [[7]])"
proof -
  have "spsc_ring_init demo_ring2 (Some [[0], [0]]) 1 2 = (0, demo_ring2)"
    by (simp add: spsc_ring_init_def demo_ring2_def)
  from spsc_ring_concurrent_fifo [OF this _ _ _ _ ring_demo_run]
  show ?thesis using ring_demo_run by (simp add: ring_demo_mid_def demo_ring2_def slot_of_def)
qed

text \<open>
  The condition on the capacity is needed and not checked. \<open>spsc_ring_init\<close> accepts a
  capacity of 3, and when the indices wrap from \<open>2 ^ 32 - 1\<close> to 0 two pushes go to the same
  slot: the ring hands out the second element twice and loses the first.
\<close>

theorem spsc_ring_loses_element:
  "fst (spsc_ring_init q (Some [a, a, a]) 1 3) = 0
   \<and> (let q0 = \<lparr>rg_storage = [a, a, a], elem_size = 1, capacity = 3, read_index = 0xFFFFFFFF,
                write_index = 0xFFFFFFFF\<rparr>;
          (ok1, q1) = spsc_ring_push q0 x; (ok2, q2) = spsc_ring_push q1 y;
          (r1, q3) = spsc_ring_pop q2; (r2, q4) = spsc_ring_pop q3
      in ok1 \<and> ok2 \<and> r1 = Some y \<and> r2 = Some y)"
  by (simp add: spsc_ring_init_def spsc_ring_push_def spsc_ring_pop_def Let_def word_le_nat_alt)

end
