(* ===== verification/Plat_Socket.thy ===== *)
theory Plat_Socket
  imports PLC_Prelude
begin

text \<open>
  The POSIX side of \<^verbatim>\<open>core/platform/platform_socket.c\<close>. The kernel is a table of open
  descriptors and, for the calls that can be interrupted or partial, the list of the results
  it will return; a call that outlives the list blocks (\<open>None\<close>).
\<close>

section \<open>Sockets and the kernel\<close>

record PlatSocket =
  sk_fd :: int
  sk_valid :: bool

datatype sysret = SYS_EINTR | SYS_ERROR | SYS_RET nat

record Kernel =
  open_fds :: "int list"
  next_fd :: int

definition plat_socket_invalidate :: "PlatSocket \<Rightarrow> PlatSocket" where
  "plat_socket_invalidate s = s\<lparr>sk_fd := -1, sk_valid := False\<rparr>"

definition sys_close :: "int \<Rightarrow> Kernel \<Rightarrow> Kernel" where
  "sys_close fd k = k\<lparr>open_fds := removeAll fd (open_fds k)\<rparr>"

text \<open>\<^verbatim>\<open>socket\<close> and \<^verbatim>\<open>accept\<close>: a fresh descriptor, or -1.\<close>

definition sys_new_fd :: "bool \<Rightarrow> Kernel \<Rightarrow> int \<times> Kernel" where
  "sys_new_fd ok k = (if ok then (next_fd k, k\<lparr>open_fds := next_fd k # open_fds k, next_fd := next_fd k + 1\<rparr>)
     else (-1, k))"

section \<open>Operations\<close>

definition plat_socket_close :: "PlatSocket \<Rightarrow> Kernel \<Rightarrow> PlatSocket \<times> Kernel" where
  "plat_socket_close s k =
     (if \<not> sk_valid s then (s, k) else (plat_socket_invalidate s, sys_close (sk_fd s) k))"

text \<open>The four flags are the outcomes of \<^verbatim>\<open>socket\<close>, \<^verbatim>\<open>setsockopt\<close>, \<^verbatim>\<open>bind\<close> and \<^verbatim>\<open>listen\<close>.\<close>

definition plat_socket_listen ::
  "bool \<Rightarrow> bool \<Rightarrow> bool \<Rightarrow> bool \<Rightarrow> PlatSocket \<Rightarrow> Kernel \<Rightarrow> int \<times> PlatSocket \<times> Kernel"
where
  "plat_socket_listen socket_ok opt_ok bind_ok listen_ok s k =
     (let s1 = plat_socket_invalidate s;
          (fd, k1) = sys_new_fd socket_ok k;
          s2 = s1\<lparr>sk_fd := fd\<rparr>
      in if sk_fd s2 < 0 then (-1, s2, k1)
         else if \<not> opt_ok then (let (s3, k2) = plat_socket_close s2 k1 in (-1, s3, k2))
         else if \<not> bind_ok then (let (s3, k2) = plat_socket_close s2 k1 in (-1, s3, k2))
         else if \<not> listen_ok then (let (s3, k2) = plat_socket_close s2 k1 in (-1, s3, k2))
         else (0, s2\<lparr>sk_valid := True\<rparr>, k1))"

definition plat_socket_accept ::
  "bool \<Rightarrow> PlatSocket \<Rightarrow> PlatSocket \<Rightarrow> Kernel \<Rightarrow> int \<times> PlatSocket \<times> Kernel"
where
  "plat_socket_accept accept_ok server out_client k =
     (if \<not> sk_valid server then (-1, out_client, k)
      else
        let c1 = plat_socket_invalidate out_client; (client, k1) = sys_new_fd accept_ok k in
        if client < 0 then (-1, c1, k1)
        else (0, c1\<lparr>sk_fd := client, sk_valid := True\<rparr>, k1))"

text \<open>
  \<^verbatim>\<open>recv\<close> retried while it is interrupted. The bytes are those waiting on the connection, of
  which the kernel hands out the first \<open>n\<close>; the result is the status, the bytes received,
  what is still waiting and the kernel results not yet used.
\<close>

fun recv_retry :: "sysret list \<Rightarrow> (sysret \<times> sysret list) option" where
  "recv_retry [] = None"
| "recv_retry (SYS_EINTR # rs) = recv_retry rs"
| "recv_retry (r # rs) = Some (r, rs)"

definition plat_socket_recv ::
  "PlatSocket \<Rightarrow> nat \<Rightarrow> sysret list \<Rightarrow> 'b list \<Rightarrow> (int \<times> 'b list \<times> 'b list \<times> sysret list) option"
where
  "plat_socket_recv s len rs waiting =
     (if \<not> sk_valid s \<or> len = 0 then Some (-1, [], waiting, rs)
      else
        case recv_retry rs of
          None \<Rightarrow> None
        | Some (SYS_RET n, rs') \<Rightarrow>
            if n = 0 then Some (0, [], waiting, rs') else Some (1, take n waiting, drop n waiting, rs')
        | Some (_, rs') \<Rightarrow> Some (-1, [], waiting, rs'))"

text \<open>\<open>send_loop\<close> is the \<^verbatim>\<open>while (remaining > 0)\<close> loop; the middle argument is what is left to send.\<close>

definition INT32_MAX :: nat where "INT32_MAX = 2 ^ 31 - 1"

fun send_loop :: "sysret list \<Rightarrow> 'b list \<Rightarrow> 'b list \<Rightarrow> (int \<times> 'b list \<times> sysret list) option" where
  "send_loop rs [] out = Some (0, out, rs)"
| "send_loop [] (b # bs) out = None"
| "send_loop (SYS_EINTR # rs) (b # bs) out = send_loop rs (b # bs) out"
| "send_loop (SYS_ERROR # rs) (b # bs) out = Some (-1, out, rs)"
| "send_loop (SYS_RET n # rs) (b # bs) out =
     (let n' = min n (min (length (b # bs)) INT32_MAX) in
      send_loop rs (drop n' (b # bs)) (out @ take n' (b # bs)))"

definition plat_socket_send_all ::
  "PlatSocket \<Rightarrow> 'b list \<Rightarrow> sysret list \<Rightarrow> 'b list \<Rightarrow> (int \<times> 'b list \<times> sysret list) option"
where
  "plat_socket_send_all s buf rs out = (if \<not> sk_valid s then Some (-1, out, rs) else send_loop rs buf out)"

text \<open>
  Options of a socket. The first two arguments are the outcomes of the system calls: the flags
  that \<^verbatim>\<open>F_GETFL\<close> reads, if it succeeds, and whether the setting call succeeds. The
  result is the status and the value handed to that call, if it is made.
\<close>

definition O_NONBLOCK :: u32 where "O_NONBLOCK = 0x800"

definition plat_socket_set_nonblock :: "u32 option \<Rightarrow> bool \<Rightarrow> PlatSocket \<Rightarrow> bool \<Rightarrow> int \<times> u32 option" where
  "plat_socket_set_nonblock getfl set_ok s enable =
     (if \<not> sk_valid s then (-1, None)
      else
        case getfl of
          None \<Rightarrow> (-1, None)
        | Some flags \<Rightarrow>
            let flags' = (if enable then flags OR O_NONBLOCK else flags AND NOT O_NONBLOCK)
            in (if set_ok then 0 else -1, Some flags'))"

definition plat_socket_set_nodelay :: "bool \<Rightarrow> PlatSocket \<Rightarrow> bool \<Rightarrow> int \<times> int option" where
  "plat_socket_set_nodelay set_ok s enable =
     (if \<not> sk_valid s then (-1, None)
      else let opt = (if enable then 1 else 0) in (if set_ok then 0 else -1, Some opt))"

text \<open>
  The socket library of the process: \<open>None\<close> on POSIX, and on Windows the number of
  \<^verbatim>\<open>WSAStartup\<close> calls without their \<^verbatim>\<open>WSACleanup\<close>.
\<close>

definition plat_socket_init :: "bool \<Rightarrow> nat option \<Rightarrow> int \<times> nat option" where
  "plat_socket_init startup_ok wsa =
     (case wsa of None \<Rightarrow> (0, None) | Some n \<Rightarrow> if \<not> startup_ok then (-1, Some n) else (0, Some (n + 1)))"

definition plat_socket_shutdown :: "nat option \<Rightarrow> nat option" where
  "plat_socket_shutdown wsa = map_option (\<lambda>n. n - 1) wsa"

section \<open>Facts\<close>

text \<open>Changing the blocking mode changes one flag; a later change back restores the flags.\<close>

lemma set_nonblock_flags:
  assumes "plat_socket_set_nonblock (Some flags) True s enable = (0, Some flags')"
  shows "(flags' AND O_NONBLOCK \<noteq> 0) = enable" "flags' AND NOT O_NONBLOCK = flags AND NOT O_NONBLOCK"
    "plat_socket_set_nonblock (Some flags') True s (flags AND O_NONBLOCK \<noteq> 0) = (0, Some flags)"
proof -
  have p: "O_NONBLOCK = 2 ^ 11" by (simp add: O_NONBLOCK_def)
  have one: "bit O_NONBLOCK n \<longleftrightarrow> n = 11" for n unfolding p bit_exp_iff by auto
  have b: "w AND O_NONBLOCK = (if bit w 11 then O_NONBLOCK else 0)" for w
    by (rule bit_word_eqI) (auto simp: bit_simps one)
  have nz: "O_NONBLOCK \<noteq> 0" by (simp add: O_NONBLOCK_def)
  have f: "flags' = (if enable then flags OR O_NONBLOCK else flags AND NOT O_NONBLOCK)" "sk_valid s"
    using assms by (auto simp: plat_socket_set_nonblock_def split: if_splits)
  show "(flags' AND O_NONBLOCK \<noteq> 0) = enable" using nz by (simp add: b f(1) bit_simps one)
  show "flags' AND NOT O_NONBLOCK = flags AND NOT O_NONBLOCK"
    by (rule bit_word_eqI) (auto simp: f(1) bit_simps one)
  have "(if bit flags 11 then flags' OR O_NONBLOCK else flags' AND NOT O_NONBLOCK) = flags"
    by (rule bit_word_eqI) (auto simp: f(1) bit_simps one)
  then have "bit flags 11 \<Longrightarrow> flags' OR O_NONBLOCK = flags" "\<not> bit flags 11 \<Longrightarrow> flags' AND NOT O_NONBLOCK = flags"
    by simp_all
  then show "plat_socket_set_nonblock (Some flags') True s (flags AND O_NONBLOCK \<noteq> 0) = (0, Some flags)"
    using nz f(2) by (simp add: plat_socket_set_nonblock_def b Let_def)
qed

text \<open>The socket library is released as often as it was taken.\<close>

lemma init_shutdown: "plat_socket_init ok wsa = (0, wsa') \<Longrightarrow> plat_socket_shutdown wsa' = wsa"
  by (auto simp: plat_socket_init_def plat_socket_shutdown_def split: option.splits if_splits)

lemma send_loop_prefix:
  "send_loop rs bs out = Some (rc, out', rs') \<Longrightarrow>
     (\<exists>n. out' = out @ take n bs \<and> n \<le> length bs \<and> (rc = 0 \<longrightarrow> n = length bs)) \<and> (rc = 0 \<or> rc = -1)"
proof (induction rs bs out rule: send_loop.induct)
  case (5 n rs b bs out)
  define n' where "n' = min n (min (length (b # bs)) INT32_MAX)"
  have "send_loop rs (drop n' (b # bs)) (out @ take n' (b # bs)) = Some (rc, out', rs')"
    using 5(2) by (simp add: n'_def Let_def)
  from 5(1) [OF n'_def this] obtain k where "out' = (out @ take n' (b # bs)) @ take k (drop n' (b # bs))"
    "k \<le> length (drop n' (b # bs))" "rc = 0 \<longrightarrow> k = length (drop n' (b # bs))" "rc = 0 \<or> rc = -1" by blast
  moreover have "n' \<le> length (b # bs)" by (simp add: n'_def)
  ultimately show ?case by (auto intro!: exI [of _ "n' + k"] simp: take_add)
qed auto

text \<open>Each positive result moves the transfer on, so enough of them finish it.\<close>

lemma send_loop_finishes:
  "\<forall>r\<in>set rs. r = SYS_EINTR \<or> (\<exists>n. r = SYS_RET n \<and> 0 < n) \<Longrightarrow>
     length bs \<le> length (filter (\<lambda>r. r \<noteq> SYS_EINTR) rs) \<Longrightarrow> \<exists>out' rs'. send_loop rs bs out = Some (0, out', rs')"
proof (induction rs bs out rule: send_loop.induct)
  case (5 n rs b bs out)
  define n' where "n' = min n (min (length (b # bs)) INT32_MAX)"
  have "0 < n" using 5(2) by auto
  then have "0 < n'" by (simp add: n'_def INT32_MAX_def)
  then have "length (drop n' (b # bs)) \<le> length (filter (\<lambda>r. r \<noteq> SYS_EINTR) rs)" using 5(3) by simp
  from 5(1) [OF n'_def _ this] 5(2) show ?case by (simp add: n'_def Let_def)
qed auto

section \<open>Properties\<close>

text \<open>
  C28. Sending transmits the buffer and nothing else. However the kernel splits the transfer into
  partial sends and interruptions, a return of 0 means that exactly the buffer was sent, in
  order; -1 means a prefix of it was; and it always returns when the kernel makes
  progress, after at most as many successful calls as there are bytes.
\<close>

theorem send_all_exact:
  "(plat_socket_send_all s buf rs out = Some (rc, out', rs') \<longrightarrow>
      (\<exists>n. out' = out @ take n buf) \<and> (rc = 0 \<longrightarrow> out' = out @ buf) \<and> (rc = 0 \<or> rc = -1)
      \<and> (\<not> sk_valid s \<longrightarrow> rc = -1 \<and> out' = out))
   \<and> (sk_valid s \<and> (\<forall>r\<in>set rs. r = SYS_EINTR \<or> (\<exists>n. r = SYS_RET n \<and> 0 < n))
        \<and> length buf \<le> length (filter (\<lambda>r. r \<noteq> SYS_EINTR) rs) \<longrightarrow>
      (\<exists>rs'. plat_socket_send_all s buf rs out = Some (0, out @ buf, rs')))"
proof (intro conjI impI)
  assume a: "plat_socket_send_all s buf rs out = Some (rc, out', rs')"
  have p: "(\<exists>n. out' = out @ take n buf \<and> n \<le> length buf \<and> (rc = 0 \<longrightarrow> n = length buf)) \<and> (rc = 0 \<or> rc = -1)"
  proof (cases "sk_valid s")
    case True
    then show ?thesis using a send_loop_prefix [of rs buf out] by (simp add: plat_socket_send_all_def)
  next
    case False
    then show ?thesis using a by (auto simp: plat_socket_send_all_def intro!: exI [of _ 0])
  qed
  show "\<exists>n. out' = out @ take n buf" using p by blast
  show "rc = 0 \<Longrightarrow> out' = out @ buf" using p by auto
  show "rc = 0 \<or> rc = -1" using p by blast
  show "\<not> sk_valid s \<Longrightarrow> rc = -1" "\<not> sk_valid s \<Longrightarrow> out' = out"
    using a by (auto simp: plat_socket_send_all_def)
next
  assume a: "sk_valid s \<and> (\<forall>r\<in>set rs. r = SYS_EINTR \<or> (\<exists>n. r = SYS_RET n \<and> 0 < n))
        \<and> length buf \<le> length (filter (\<lambda>r. r \<noteq> SYS_EINTR) rs)"
  then obtain out1 rs1 where l: "send_loop rs buf out = Some (0, out1, rs1)"
    using send_loop_finishes [of rs buf out] by blast
  then have "out1 = out @ buf" using send_loop_prefix [OF l] by auto
  then show "\<exists>rs'. plat_socket_send_all s buf rs out = Some (0, out @ buf, rs')"
    using a l by (auto simp: plat_socket_send_all_def)
qed

lemma send_all_exact_witness:
  "\<exists>rs'. plat_socket_send_all \<lparr>sk_fd = 4, sk_valid = True\<rparr> ''abc'' [SYS_RET 1, SYS_EINTR, SYS_RET 1, SYS_RET 1] ''x''
     = Some (0, ''xabc'', rs')"
  using send_all_exact [of "\<lparr>sk_fd = 4, sk_valid = True\<rparr>" "''abc''" "[SYS_RET 1, SYS_EINTR, SYS_RET 1, SYS_RET 1]" "''x''"]
  by simp

text \<open>
  A failed listen leaks its descriptor. When \<^verbatim>\<open>setsockopt\<close>, \<^verbatim>\<open>bind\<close> or \<^verbatim>\<open>listen\<close> fails,
  the socket is still marked invalid, so the call that should close it does nothing: the
  descriptor stays open, and no later \<^verbatim>\<open>plat_socket_close\<close> of the socket closes it either. On
  success the socket owns exactly one new descriptor, which closing it releases.
\<close>

theorem listen_failure_leaks:
  assumes "0 \<le> next_fd k" "next_fd k \<notin> set (open_fds k)"
    and "plat_socket_listen True o1 o2 o3 s k = (rc, s', k')"
  shows "(\<not> (o1 \<and> o2 \<and> o3) \<longrightarrow> rc = -1 \<and> open_fds k' = next_fd k # open_fds k
          \<and> open_fds (snd (plat_socket_close s' k')) = next_fd k # open_fds k)
    \<and> (o1 \<and> o2 \<and> o3 \<longrightarrow> rc = 0 \<and> sk_valid s' \<and> open_fds k' = next_fd k # open_fds k
          \<and> open_fds (snd (plat_socket_close s' k')) = open_fds k)"
  using assms by (auto simp: plat_socket_listen_def sys_new_fd_def plat_socket_close_def plat_socket_invalidate_def
      sys_close_def Let_def split: if_splits)

lemma listen_failure_leaks_witness:
  "case plat_socket_listen True True False True \<lparr>sk_fd = 0, sk_valid = False\<rparr> \<lparr>open_fds = [0, 1, 2], next_fd = 3\<rparr> of
     (rc, s', k') \<Rightarrow> rc = -1 \<and> open_fds (snd (plat_socket_close s' k')) = [3, 0, 1, 2]"
  using listen_failure_leaks [of "\<lparr>open_fds = [0, 1, 2], next_fd = 3\<rparr>" True False True "\<lparr>sk_fd = 0, sk_valid = False\<rparr>"]
  by (auto split: prod.split)

end
