(* ===== verification/Plc_Scheduler.thy ===== *)
theory Plc_Scheduler
  imports Runtime "HOL-Library.Monad_Syntax"
begin

text \<open>
  The PLC scheduler of \<^verbatim>\<open>core/plc/plc_scheduler.c\<close>: a table of periodic tasks, hooks before
  and after them, and a queue of tasks added while it runs. A function pointer is a number and a
  record \<open>PlcCode\<close> says what the functions do to the rest of the program, which includes the
  health level they may set; a context or user pointer is a number too. Times are milliseconds
  of a 64-bit monotonic clock, but a task keeps its last run in 32 bits.
\<close>

section \<open>Tasks and the scheduler\<close>

datatype PlcTaskPolicy =
  PLC_TASK_ALWAYS_RUN | PLC_TASK_SKIP_ON_FAULT | PLC_TASK_ONLY_WHEN_OK | PLC_TASK_POLICY_OTHER int

record PlcTask =
  tk_name :: "string option"
  tk_fn :: "nat option"
  tk_ctx :: nat
  period_ms :: u32
  phase_ms :: u32
  last_run_ms :: u32
  tk_policy :: PlcTaskPolicy

record PlcScheduler =
  base_cycle_ms :: u32
  task_count :: u32
  tasks :: "PlcTask list"
  pending_write :: u32
  pending_read :: u32
  pending_ready :: "bool list"
  pending_tasks :: "PlcTask list"
  sched_running :: bool
  backend_cycle_begin :: "nat option"
  backend_cycle_end :: "nat option"
  backend_user :: nat
  on_cycle_begin :: "nat option"
  on_cycle_end :: "nat option"
  sched_user :: nat

text \<open>
  The health level is shared with the hooks and tasks, so it is part of the world \<open>int \<times> 'c\<close>
  they act on, with the code of the level as \<^verbatim>\<open>health_level\<close> stores it.
\<close>

record 'c PlcCode =
  hook_fn :: "nat \<Rightarrow> nat \<Rightarrow> int \<times> 'c \<Rightarrow> int \<times> 'c"
  task_fn :: "nat \<Rightarrow> nat \<Rightarrow> int \<times> 'c \<Rightarrow> int \<times> (int \<times> 'c)"

definition MAX_TASKS :: nat where "MAX_TASKS = 32"
definition MAX_PENDING :: nat where "MAX_PENDING = 32"

section \<open>Operations\<close>

definition plc_scheduler_init :: "PlcScheduler \<Rightarrow> u32 \<Rightarrow> int \<times> int \<times> PlcScheduler" where
  "plc_scheduler_init s base =
     (if base = 0 then (-1, health_code PLC_HEALTH_OK, s)
      else (0, health_code PLC_HEALTH_OK,
            s\<lparr>base_cycle_ms := base, task_count := 0, pending_write := 0, pending_read := 0,
              pending_ready := replicate MAX_PENDING False, sched_running := False,
              backend_cycle_begin := None, backend_cycle_end := None, backend_user := 0,
              on_cycle_begin := None, on_cycle_end := None, sched_user := 0\<rparr>))"

definition plc_scheduler_add_task_internal :: "PlcScheduler \<Rightarrow> PlcTask \<Rightarrow> int \<times> PlcScheduler" where
  "plc_scheduler_add_task_internal s task =
     (if tk_fn task = None \<or> period_ms task = 0 then (-1, s)
      else if MAX_TASKS \<le> unat (task_count s) then (-1, s)
      else (0, s\<lparr>tasks := (tasks s)[unat (task_count s) := task\<lparr>last_run_ms := 0\<rparr>],
                 task_count := task_count s + 1\<rparr>))"

definition plc_scheduler_add_task :: "PlcScheduler \<Rightarrow> PlcTask \<Rightarrow> int \<times> PlcScheduler" where
  "plc_scheduler_add_task s task =
     (if sched_running s then (-1, s) else plc_scheduler_add_task_internal s task)"

text \<open>
  One caller at a time: the compare-and-swap then succeeds at its first attempt.
\<close>

definition plc_scheduler_queue_task :: "PlcScheduler \<Rightarrow> PlcTask \<Rightarrow> int \<times> PlcScheduler" where
  "plc_scheduler_queue_task s task =
     (if of_nat MAX_PENDING \<le> pending_write s - pending_read s then (-1, s)
      else
        let write_index = pending_write s; slot = unat (write_index mod of_nat MAX_PENDING) in
        (0, s\<lparr>pending_write := write_index + 1, pending_tasks := (pending_tasks s)[slot := task],
              pending_ready := (pending_ready s)[slot := True]\<rparr>))"

definition plc_scheduler_add_task_runtime :: "PlcScheduler \<Rightarrow> PlcTask \<Rightarrow> int \<times> PlcScheduler" where
  "plc_scheduler_add_task_runtime s task =
     (if tk_fn task = None \<or> period_ms task = 0 then (-1, s)
      else if \<not> sched_running s then plc_scheduler_add_task s task
      else plc_scheduler_queue_task s task)"

definition plc_scheduler_set_backend_hooks ::
  "PlcScheduler \<Rightarrow> nat option \<Rightarrow> nat option \<Rightarrow> nat \<Rightarrow> int \<times> PlcScheduler"
where
  "plc_scheduler_set_backend_hooks s cbegin cend u =
     (if sched_running s then (-1, s)
      else (0, s\<lparr>backend_cycle_begin := cbegin, backend_cycle_end := cend, backend_user := u\<rparr>))"

definition plc_scheduler_set_callbacks ::
  "PlcScheduler \<Rightarrow> nat option \<Rightarrow> nat option \<Rightarrow> nat \<Rightarrow> int \<times> PlcScheduler"
where
  "plc_scheduler_set_callbacks s cbegin cend u =
     (if sched_running s then (-1, s)
      else
        let s1 = s\<lparr>on_cycle_begin := cbegin, on_cycle_end := cend, sched_user := u\<rparr>;
            s2 = (if backend_cycle_begin s1 = None then s1\<lparr>backend_cycle_begin := cbegin, backend_user := u\<rparr> else s1);
            s3 = (if backend_cycle_end s2 = None then s2\<lparr>backend_cycle_end := cend, backend_user := u\<rparr> else s2)
        in (0, s3))"

definition plc_scheduler_set_health :: "int \<times> 'c \<Rightarrow> PlcHealthLevel \<Rightarrow> int \<times> 'c" where
  "plc_scheduler_set_health w level = (health_code level, snd w)"

text \<open>The flag is the outcome of \<^verbatim>\<open>plat_thread_create\<close>; the number that of \<^verbatim>\<open>plat_thread_join\<close>.\<close>

definition plc_scheduler_start :: "bool \<Rightarrow> PlcScheduler \<Rightarrow> int \<times> PlcScheduler" where
  "plc_scheduler_start created s =
     (if sched_running s then (-1, s)
      else if \<not> created then (-1, s\<lparr>sched_running := False\<rparr>)
      else (0, s\<lparr>sched_running := True\<rparr>))"

definition plc_scheduler_stop :: "int \<Rightarrow> PlcScheduler \<Rightarrow> int \<times> PlcScheduler" where
  "plc_scheduler_stop join_rc s =
     (if \<not> sched_running s then (0, s) else (join_rc, s\<lparr>sched_running := False\<rparr>))"

definition plc_scheduler_is_running :: "PlcScheduler \<Rightarrow> bool" where
  "plc_scheduler_is_running s = sched_running s"

section \<open>The queue of pending tasks\<close>

function drain_loop :: "u32 \<Rightarrow> u32 \<Rightarrow> PlcScheduler \<Rightarrow> PlcScheduler" where
  "drain_loop read_index write_index s =
     (if read_index < write_index then
        let slot = unat (read_index mod of_nat MAX_PENDING) in
        if \<not> pending_ready s ! slot then s
        else
          let task = pending_tasks s ! slot;
              s1 = s\<lparr>pending_ready := (pending_ready s)[slot := False], pending_read := read_index + 1\<rparr>
          in drain_loop (read_index + 1) write_index (snd (plc_scheduler_add_task_internal s1 task))
      else s)"
  by pat_completeness auto
termination
proof (relation "measure (\<lambda>(r, w, s). unat w - unat r)")
  fix r w :: u32 and s s1 :: PlcScheduler and slot task
  assume less: "r < w"
  then have "unat r + 1 < 2 ^ LENGTH(32)"
    using unat_u32_less [of w] by (simp add: word_less_nat_alt)
  then have "unat (r + 1) = unat r + 1" by (rule unat_plus_one)
  then show "((r + 1, w, snd (plc_scheduler_add_task_internal s1 task)), r, w, s)
      \<in> measure (\<lambda>(r, w, s). unat w - unat r)"
    using less by (simp add: word_less_nat_alt)
qed simp

declare drain_loop.simps [simp del]

definition plc_scheduler_drain_pending :: "PlcScheduler \<Rightarrow> PlcScheduler" where
  "plc_scheduler_drain_pending s = drain_loop (pending_read s) (pending_write s) s"

section \<open>One cycle of the thread\<close>

text \<open>
  Before the loop every task is set one period before its phase, as far as the unsigned
  arithmetic allows.
\<close>

definition initial_last_run :: "u64 \<Rightarrow> PlcTask \<Rightarrow> PlcTask" where
  "initial_last_run start_ms t =
     (let phase_start = start_ms + ucast (phase_ms t);
          phase_start2 =
            (if 0 < period_ms t
             then if ucast (period_ms t) \<le> phase_start then phase_start - ucast (period_ms t) else 0
             else phase_start)
      in t\<lparr>last_run_ms := ucast phase_start2\<rparr>)"

definition sched_begin :: "u64 \<Rightarrow> PlcScheduler \<Rightarrow> PlcScheduler" where
  "sched_begin start_ms s =
     s\<lparr>tasks := map (initial_last_run start_ms) (take (unat (task_count s)) (tasks s))
               @ drop (unat (task_count s)) (tasks s)\<rparr>"

text \<open>
  The loop that catches up with missed periods. It compares 64-bit times but advances a 32-bit
  one, so it need not end.
\<close>

partial_function (option) catch_up :: "u64 \<Rightarrow> u32 \<Rightarrow> u32 \<Rightarrow> u32 option" where
  "catch_up now_ms period lr =
     (if ucast period \<le> now_ms - ucast lr then catch_up now_ms period (lr + period) else Some lr)"

text \<open>
  One task in one cycle. A missing function pointer cannot be called; \<open>None\<close> is also what a
  loop that does not end yields.
\<close>

definition run_task ::
  "'c PlcCode \<Rightarrow> u64 \<Rightarrow> u64 \<Rightarrow> PlcTask \<Rightarrow> int \<times> 'c \<Rightarrow> (PlcTask \<times> (int \<times> 'c)) option"
where
  "run_task code start_ms now_ms t w =
     (let task_start_ms = start_ms + ucast (phase_ms t); health = fst w in
      if task_start_ms \<le> now_ms \<and> ucast (period_ms t) \<le> now_ms - ucast (last_run_ms t) then
        do {
          l \<leftarrow> catch_up now_ms (period_ms t) (last_run_ms t);
          let t1 = t\<lparr>last_run_ms := l\<rparr>;
          let allow_run = (health = health_code PLC_HEALTH_FAULT \<longrightarrow> tk_policy t = PLC_TASK_ALWAYS_RUN);
          if allow_run then
            do { f \<leftarrow> tk_fn t; Some (t1, snd (task_fn code f (tk_ctx t) w)) }
          else Some (t1, w)
        }
      else Some (t, w))"

text \<open>The tasks from index \<open>i\<close> on; \<open>n\<close> counts those left.\<close>

primrec run_tasks ::
  "'c PlcCode \<Rightarrow> u64 \<Rightarrow> u64 \<Rightarrow> nat \<Rightarrow> PlcTask list \<Rightarrow> int \<times> 'c \<Rightarrow> (PlcTask list \<times> (int \<times> 'c)) option"
where
  "run_tasks code start_ms now_ms 0 ts w = Some (ts, w)"
| "run_tasks code start_ms now_ms (Suc n) ts w =
     (case ts of
        [] \<Rightarrow> None
      | t # ts' \<Rightarrow>
          do {
            (t1, w1) \<leftarrow> run_task code start_ms now_ms t w;
            (ts1, w2) \<leftarrow> run_tasks code start_ms now_ms n ts' w1;
            Some (t1 # ts1, w2)
          })"

definition call_hook :: "'c PlcCode \<Rightarrow> nat option \<Rightarrow> nat \<Rightarrow> int \<times> 'c \<Rightarrow> int \<times> 'c" where
  "call_hook code f u w = (case f of None \<Rightarrow> w | Some g \<Rightarrow> hook_fn code g u w)"

definition sched_cycle ::
  "'c PlcCode \<Rightarrow> u64 \<Rightarrow> u64 \<Rightarrow> PlcScheduler \<Rightarrow> int \<times> 'c \<Rightarrow> (PlcScheduler \<times> (int \<times> 'c)) option"
where
  "sched_cycle code start_ms now_ms s w =
     (let s1 = plc_scheduler_drain_pending s;
          w1 = call_hook code (backend_cycle_begin s1) (backend_user s1) w;
          w2 = (if on_cycle_begin s1 \<noteq> None \<and> on_cycle_begin s1 \<noteq> backend_cycle_begin s1
                then call_hook code (on_cycle_begin s1) (sched_user s1) w1 else w1)
      in do {
        (ts, w3) \<leftarrow> run_tasks code start_ms now_ms (unat (task_count s1)) (tasks s1) w2;
        let s2 = s1\<lparr>tasks := ts\<rparr>;
        let w4 = (if on_cycle_end s2 \<noteq> None \<and> on_cycle_end s2 \<noteq> backend_cycle_end s2
                  then call_hook code (on_cycle_end s2) (sched_user s2) w3 else w3);
        Some (s2, call_hook code (backend_cycle_end s2) (backend_user s2) w4)
      })"

text \<open>
  One turn of the main loop with the time it reads: it waits, or runs a cycle and sets the
  next tick. \<^verbatim>\<open>5 * base_cycle_ms\<close> is a 32-bit product. The turns of a run are the times
  the clock shows while \<^verbatim>\<open>running\<close> is set.
\<close>

definition next_tick :: "u32 \<Rightarrow> u64 \<Rightarrow> u64 \<Rightarrow> u64" where
  "next_tick base now_ms nxt =
     (let next1 = nxt + ucast base in
      if next1 < now_ms \<and> ucast (5 * base) < now_ms - next1 then now_ms + ucast base else next1)"

definition sched_turn ::
  "'c PlcCode \<Rightarrow> u64 \<Rightarrow> PlcScheduler \<times> u64 \<times> (int \<times> 'c) \<Rightarrow> u64 \<Rightarrow> (PlcScheduler \<times> u64 \<times> (int \<times> 'c)) option"
where
  "sched_turn code start_ms st now_ms =
     (case st of (s, nxt, w) \<Rightarrow>
        if now_ms < nxt then Some st
        else do { (s1, w1) \<leftarrow> sched_cycle code start_ms now_ms s w;
                  Some (s1, next_tick (base_cycle_ms s1) now_ms nxt, w1) })"

primrec sched_run ::
  "'c PlcCode \<Rightarrow> u64 \<Rightarrow> PlcScheduler \<times> u64 \<times> (int \<times> 'c) \<Rightarrow> u64 list \<Rightarrow> (PlcScheduler \<times> u64 \<times> (int \<times> 'c)) option"
where
  "sched_run code start_ms st [] = Some st"
| "sched_run code start_ms st (now_ms # nows) =
     do { st1 \<leftarrow> sched_turn code start_ms st now_ms; sched_run code start_ms st1 nows }"

definition plc_scheduler_thread ::
  "'c PlcCode \<Rightarrow> u64 \<Rightarrow> PlcScheduler \<Rightarrow> int \<times> 'c \<Rightarrow> u64 list \<Rightarrow> (PlcScheduler \<times> u64 \<times> (int \<times> 'c)) option"
where
  "plc_scheduler_thread code start_ms s w nows =
     sched_run code start_ms (sched_begin start_ms s, start_ms + ucast (base_cycle_ms s), w) nows"

section \<open>Catching up\<close>

lemma catch_up_ends:
  assumes "unat lr \<le> unat now_ms" "unat now_ms < 2 ^ 32" "0 < unat period"
  shows "\<exists>k. catch_up now_ms period lr = Some (of_nat (unat lr + k * unat period))
    \<and> unat lr + k * unat period \<le> unat now_ms \<and> unat now_ms < unat lr + (k + 1) * unat period"
  using assms(1)
proof (induction "unat now_ms - unat lr" arbitrary: lr rule: less_induct)
  case less
  have small: "unat (ucast lr :: u64) = unat lr" "unat (ucast period :: u64) = unat period"
    using unat_u32_less [of lr] unat_u32_less [of period] by (simp_all add: unsigned_ucast_eq take_bit_nat_eq_self)
  then have "(ucast lr :: u64) \<le> now_ms" using less.prems by (simp add: word_le_nat_alt)
  then have diff: "unat (now_ms - ucast lr) = unat now_ms - unat lr"
    using small by (simp add: unat_sub)
  have cond: "(ucast period \<le> now_ms - (ucast lr :: u64)) \<longleftrightarrow> unat period \<le> unat now_ms - unat lr"
    by (simp add: word_le_nat_alt diff small)
  show ?case
  proof (cases "unat period \<le> unat now_ms - unat lr")
    case True
    then have "unat lr + unat period < 2 ^ LENGTH(32)" using assms(2,3) less.prems by simp
    then have sum: "unat (lr + period) = unat lr + unat period" by (rule unat_add_lem [THEN iffD1])
    have "unat now_ms - unat (lr + period) < unat now_ms - unat lr" "unat (lr + period) \<le> unat now_ms"
      using True assms(3) sum less.prems by simp_all
    then obtain k where k: "catch_up now_ms period (lr + period) = Some (of_nat (unat (lr + period) + k * unat period))"
      "unat (lr + period) + k * unat period \<le> unat now_ms" "unat now_ms < unat (lr + period) + (k + 1) * unat period"
      using less.hyps [of "lr + period"] by blast
    have "catch_up now_ms period lr = Some (of_nat (unat lr + (k + 1) * unat period))"
      using True cond k(1) sum by (subst catch_up.simps) (simp add: algebra_simps)
    then show ?thesis using k(2,3) sum by (intro exI [of _ "k + 1"]) (simp add: algebra_simps)
  next
    case False
    then have "catch_up now_ms period lr = Some lr" using cond by (subst catch_up.simps) simp
    then show ?thesis using False less.prems by (intro exI [of _ 0]) simp
  qed
qed

lemma catch_up_hangs:
  assumes "2 ^ 32 + unat period \<le> unat now_ms"
  shows "catch_up now_ms period lr = None"
proof -
  have "catch_up now_ms period lr = Some y \<Longrightarrow> False" for y
  proof (rule catch_up.raw_induct [where P = "\<lambda>n p l y. 2 ^ 32 + unat p \<le> unat n \<longrightarrow> False"
        and ?now_ms = now_ms, THEN mp, OF _ _ assms])
    fix f :: "u64 \<Rightarrow> u32 \<Rightarrow> u32 \<Rightarrow> u32 option" and n :: u64 and p l y :: u32
    assume IH: "\<And>n p l y. f n p l = Some y \<Longrightarrow> 2 ^ 32 + unat p \<le> unat n \<longrightarrow> False"
      and body: "(if ucast p \<le> n - ucast l then f n p (l + p) else Some l) = Some y"
    show "2 ^ 32 + unat p \<le> unat n \<longrightarrow> False"
    proof
      assume n: "2 ^ 32 + unat p \<le> unat n"
      have small: "unat (ucast l :: u64) = unat l" "unat (ucast p :: u64) = unat p"
        using unat_u32_less [of l] unat_u32_less [of p] by (simp_all add: unsigned_ucast_eq take_bit_nat_eq_self)
      have "(ucast l :: u64) \<le> n" using n unat_u32_less [of l] by (simp add: word_le_nat_alt small)
      then have "unat (n - ucast l) = unat n - unat l" using small by (simp add: unat_sub)
      then have "ucast p \<le> n - (ucast l :: u64)"
        using n unat_u32_less [of l] by (simp add: word_le_nat_alt small)
      then show False using body IH n by simp
    qed
  qed
  then show ?thesis by (cases "catch_up now_ms period lr") auto
qed

end
