(* ===== verification/Plc_Sched_Props.thy ===== *)
theory Plc_Sched_Props
  imports Plc_Scheduler
begin

text \<open>
  The guarantees of the scheduler: when a task runs, that the thread does not get stuck while the
  clock fits in 32 bits and that it does beyond, how the hooks are called, and the queue of
  tasks added at run time.
\<close>

section \<open>Times\<close>

lemma unat_ucast_32_64 [simp]: "unat (ucast (x :: u32) :: u64) = unat x"
  using unat_u32_less [of x] by (simp add: unsigned_ucast_eq take_bit_nat_eq_self)

lemma u64_less_iff: "(a :: u64) < b \<longleftrightarrow> unat a < unat b" "a \<le> b \<longleftrightarrow> unat a \<le> unat b"
  by (simp_all add: word_less_nat_alt word_le_nat_alt)

lemma phase_sum:
  assumes "unat (start_ms :: u64) < 2 ^ 32"
  shows "unat (start_ms + ucast (x :: u32)) = unat start_ms + unat x"
proof -
  have "unat start_ms + unat (ucast x :: u64) < 2 ^ LENGTH(64)"
    using assms unat_u32_less [of x] by simp
  then show ?thesis using unat_add_lem [of start_ms "ucast x"] by simp
qed

text \<open>
  The \<open>k\<close>-th due time of a task, and the state of a task that has had its runs up to the
  \<open>k\<close>-th: its last run is one period before that.
\<close>

definition due :: "u64 \<Rightarrow> PlcTask \<Rightarrow> nat \<Rightarrow> nat" where
  "due start_ms t k = unat start_ms + unat (phase_ms t) + k * unat (period_ms t)"

definition awaiting :: "u64 \<Rightarrow> PlcTask \<Rightarrow> nat \<Rightarrow> bool" where
  "awaiting start_ms t k \<longleftrightarrow> unat (last_run_ms t) + unat (period_ms t) = due start_ms t k"

definition task_allowed :: "int \<Rightarrow> PlcTask \<Rightarrow> bool" where
  "task_allowed health t \<longleftrightarrow> (health = health_code PLC_HEALTH_FAULT \<longrightarrow> tk_policy t = PLC_TASK_ALWAYS_RUN)"

definition task_effect :: "'c PlcCode \<Rightarrow> PlcTask \<Rightarrow> int \<times> 'c \<Rightarrow> int \<times> 'c" where
  "task_effect code t w =
     (if task_allowed (fst w) t then snd (task_fn code (the (tk_fn t)) (tk_ctx t) w) else w)"

lemma run_task_due:
  assumes "start_ms + ucast (phase_ms t) \<le> now_ms" "ucast (period_ms t) \<le> now_ms - ucast (last_run_ms t)"
    and "catch_up now_ms (period_ms t) (last_run_ms t) = Some l" "tk_fn t \<noteq> None"
  shows "run_task code start_ms now_ms t w = Some (t\<lparr>last_run_ms := l\<rparr>, task_effect code t w)"
  using assms by (auto simp: run_task_def task_effect_def task_allowed_def Let_def)

lemma elapsed:
  assumes "unat (lr :: u32) \<le> unat (now_ms :: u64)"
  shows "unat (now_ms - ucast lr) = unat now_ms - unat lr"
  using assms by (simp add: unat_sub u64_less_iff)

lemma next_due:
  assumes "0 < p" "a + k * p \<le> n" "n < a + (k + 1) * (p :: nat)"
  shows "k = (n - a) div p"
proof -
  have "k * p \<le> n - a" "n - a < (k + 1) * p" using assms(2,3) by simp_all
  then have "(n - a) div p = k"
    using assms(1) by (intro div_nat_eqI) (simp_all add: mult.commute)
  then show ?thesis by simp
qed

lemma run_task_awaiting:
  assumes "awaiting start_ms t k" "0 < unat (period_ms t)" "tk_fn t \<noteq> None"
    and "unat start_ms < 2 ^ 32" "unat now_ms < 2 ^ 32" "k = 0 \<or> unat (last_run_ms t) \<le> unat now_ms"
  shows "due start_ms t k \<le> unat now_ms \<Longrightarrow> \<exists>l. run_task code start_ms now_ms t w
        = Some (t\<lparr>last_run_ms := l\<rparr>, task_effect code t w)
      \<and> awaiting start_ms (t\<lparr>last_run_ms := l\<rparr>) ((unat now_ms - due start_ms t 0) div unat (period_ms t) + 1)
      \<and> unat l \<le> unat now_ms"
    and "unat now_ms < due start_ms t k \<Longrightarrow> run_task code start_ms now_ms t w = Some (t, w)"
proof -
  let ?p = "unat (period_ms t)" and ?lr = "unat (last_run_ms t)" and ?n = "unat now_ms"
  have ph: "unat (start_ms + ucast (phase_ms t)) = due start_ms t 0"
    using phase_sum [OF assms(4)] by (simp add: due_def)
  have lr: "?lr + ?p = due start_ms t 0 + k * ?p" using assms(1) by (simp add: awaiting_def due_def)
  show "\<exists>l. run_task code start_ms now_ms t w = Some (t\<lparr>last_run_ms := l\<rparr>, task_effect code t w)
      \<and> awaiting start_ms (t\<lparr>last_run_ms := l\<rparr>) ((?n - due start_ms t 0) div ?p + 1) \<and> unat l \<le> ?n"
    if d: "due start_ms t k \<le> ?n"
  proof -
    have le: "?lr \<le> ?n" "?p \<le> ?n - ?lr" using lr d by (simp_all add: due_def)
    obtain j where j: "catch_up now_ms (period_ms t) (last_run_ms t) = Some (of_nat (?lr + j * ?p))"
      "?lr + j * ?p \<le> ?n" "?n < ?lr + (j + 1) * ?p"
      using catch_up_ends [OF le(1) assms(5,2)] by blast
    define l where "l = (of_nat (?lr + j * ?p) :: u32)"
    have l: "unat l = ?lr + j * ?p" using j(2) assms(5) unfolding l_def by (intro unat_of_nat_small) simp
    have "start_ms + ucast (phase_ms t) \<le> now_ms" using d ph by (simp add: u64_less_iff due_def)
    moreover have "ucast (period_ms t) \<le> now_ms - ucast (last_run_ms t)"
      using le by (simp add: u64_less_iff elapsed)
    ultimately have run: "run_task code start_ms now_ms t w = Some (t\<lparr>last_run_ms := l\<rparr>, task_effect code t w)"
      using j(1) assms(3) by (intro run_task_due) (simp_all add: l_def)
    have "0 < k + j"
      using j(3) lr d by (cases "k + j") (auto simp: due_def)
    then obtain m where m: "k + j = Suc m" by (cases "k + j") auto
    have "unat l + ?p = due start_ms t 0 + (k + j) * ?p" using lr l by (simp add: algebra_simps)
    then have "unat l = due start_ms t 0 + m * ?p" using m by simp
    with j(2,3) l have "due start_ms t 0 + m * ?p \<le> ?n" "?n < due start_ms t 0 + (m + 1) * ?p"
      by simp_all
    then have "m = (?n - due start_ms t 0) div ?p" by (rule next_due [OF assms(2)])
    then have "awaiting start_ms (t\<lparr>last_run_ms := l\<rparr>) ((?n - due start_ms t 0) div ?p + 1)"
      using \<open>unat l + ?p = _\<close> m by (simp add: awaiting_def due_def)
    then show ?thesis using run j(2) l by auto
  qed
  show "run_task code start_ms now_ms t w = Some (t, w)" if d: "?n < due start_ms t k"
  proof (cases "?lr \<le> ?n")
    case True
    then have "\<not> ucast (period_ms t) \<le> now_ms - ucast (last_run_ms t)"
      using d lr by (simp add: u64_less_iff elapsed due_def)
    then show ?thesis by (simp add: run_task_def Let_def)
  next
    case False
    then have "?n < due start_ms t 0" using assms(6) d by simp
    then have "\<not> start_ms + ucast (phase_ms t) \<le> now_ms" using ph by (simp add: u64_less_iff)
    then show ?thesis by (simp add: run_task_def Let_def)
  qed
qed

lemma initial_awaiting:
  assumes "unat start_ms < 2 ^ 32" "0 < unat (period_ms t)"
    "unat (period_ms t) \<le> unat start_ms + unat (phase_ms t)" "unat start_ms + unat (phase_ms t) < 2 ^ 32"
  shows "awaiting start_ms (initial_last_run start_ms t) 0"
proof -
  let ?s = "start_ms + ucast (phase_ms t)"
  have s: "unat ?s = unat start_ms + unat (phase_ms t)" by (rule phase_sum [OF assms(1)])
  then have le: "ucast (period_ms t) \<le> ?s" using assms(3) by (simp add: u64_less_iff)
  then have d: "unat (?s - ucast (period_ms t)) = unat start_ms + unat (phase_ms t) - unat (period_ms t)"
    using s by (simp add: unat_sub)
  have "unat (ucast (?s - ucast (period_ms t)) :: u32) = unat (?s - ucast (period_ms t))"
    using d assms(4) by (simp add: unsigned_ucast_eq take_bit_nat_eq_self)
  moreover have "0 < period_ms t" using assms(2) by (simp add: word_less_nat_alt)
  ultimately show ?thesis
    using le d assms(3) by (simp add: awaiting_def due_def initial_last_run_def Let_def)
qed

section \<open>The thread returns\<close>

definition task_fine :: "u64 \<Rightarrow> u64 \<Rightarrow> PlcTask \<Rightarrow> bool" where
  "task_fine start_ms now_ms t \<longleftrightarrow> tk_fn t \<noteq> None \<and> 0 < unat (period_ms t) \<and>
     (unat (last_run_ms t) \<le> unat now_ms
      \<or> unat (last_run_ms t) + unat (period_ms t) = unat start_ms + unat (phase_ms t)
      \<or> 2 ^ 32 \<le> unat start_ms + unat (phase_ms t))"

definition sched_ok :: "u64 \<Rightarrow> u64 \<Rightarrow> PlcScheduler \<Rightarrow> bool" where
  "sched_ok start_ms now_ms s \<longleftrightarrow> length (tasks s) = MAX_TASKS \<and> unat (task_count s) \<le> MAX_TASKS
     \<and> (\<forall>t\<in>set (take (unat (task_count s)) (tasks s)). task_fine start_ms now_ms t)"

lemma task_fine_mono: "task_fine start_ms n t \<Longrightarrow> n \<le> n' \<Longrightarrow> task_fine start_ms n' t"
  by (auto simp: task_fine_def u64_less_iff)

lemma sched_ok_mono: "sched_ok start_ms n s \<Longrightarrow> n \<le> n' \<Longrightarrow> sched_ok start_ms n' s"
  by (auto simp: sched_ok_def intro: task_fine_mono)

lemma add_task_ok:
  assumes "sched_ok start_ms now_ms s"
  shows "sched_ok start_ms now_ms (snd (plc_scheduler_add_task_internal s t))"
proof (cases "tk_fn t = None \<or> period_ms t = 0 \<or> MAX_TASKS \<le> unat (task_count s)")
  case False
  let ?n = "unat (task_count s)"
  have n: "?n < MAX_TASKS" using False by simp
  then have "unat (task_count s + 1) = ?n + 1" by (intro unat_plus_one) (simp add: MAX_TASKS_def)
  moreover have "take (?n + 1) ((tasks s)[?n := x]) = take ?n (tasks s) @ [x]" for x
    using n assms by (simp add: sched_ok_def take_Suc_conv_app_nth)
  moreover have "task_fine start_ms now_ms (t\<lparr>last_run_ms := 0\<rparr>)"
    using False by (simp add: task_fine_def unat_gt_0)
  ultimately show ?thesis
    using False n assms by (simp add: plc_scheduler_add_task_internal_def sched_ok_def)
qed (use assms in \<open>auto simp: plc_scheduler_add_task_internal_def\<close>)

lemma drain_loop_ok:
  "sched_ok start_ms now_ms s \<Longrightarrow> sched_ok start_ms now_ms (drain_loop r w s)"
proof (induction r w s rule: drain_loop.induct)
  case (1 r w s)
  let ?slot = "unat (r mod of_nat MAX_PENDING)"
  show ?case
  proof (cases "r < w \<and> pending_ready s ! ?slot")
    case True
    let ?s = "s\<lparr>pending_ready := (pending_ready s)[?slot := False], pending_read := r + 1\<rparr>"
    have "sched_ok start_ms now_ms ?s" using 1(2) by (simp add: sched_ok_def)
    then have "sched_ok start_ms now_ms (snd (plc_scheduler_add_task_internal ?s (pending_tasks s ! ?slot)))"
      by (rule add_task_ok)
    then show ?thesis using True 1(1) [OF _ refl _ refl refl] by (subst drain_loop.simps) (simp add: Let_def)
  next
    case False
    then show ?thesis using 1(2) by (subst drain_loop.simps) (auto simp: Let_def)
  qed
qed

lemma run_task_fine:
  assumes "task_fine start_ms now_ms t" "unat start_ms < 2 ^ 32" "unat now_ms < 2 ^ 32"
  shows "\<exists>t' w'. run_task code start_ms now_ms t w = Some (t', w') \<and> task_fine start_ms now_ms t'"
proof (cases "start_ms + ucast (phase_ms t) \<le> now_ms \<and> ucast (period_ms t) \<le> now_ms - ucast (last_run_ms t)")
  case True
  then have "unat start_ms + unat (phase_ms t) \<le> unat now_ms"
    using phase_sum [OF assms(2)] by (simp add: u64_less_iff)
  then have lr: "unat (last_run_ms t) \<le> unat now_ms" and per: "0 < unat (period_ms t)"
    using assms(1,3) by (auto simp: task_fine_def)
  obtain k where k: "catch_up now_ms (period_ms t) (last_run_ms t)
      = Some (of_nat (unat (last_run_ms t) + k * unat (period_ms t)))"
    "unat (last_run_ms t) + k * unat (period_ms t) \<le> unat now_ms"
    using catch_up_ends [OF lr assms(3) per] by blast
  define l where "l = (of_nat (unat (last_run_ms t) + k * unat (period_ms t)) :: u32)"
  have "unat l \<le> unat now_ms"
    using k(2) assms(3) unfolding l_def by (subst unat_of_nat_small) simp_all
  then have "task_fine start_ms now_ms (t\<lparr>last_run_ms := l\<rparr>)" using assms(1) by (simp add: task_fine_def)
  moreover have "run_task code start_ms now_ms t w = Some (t\<lparr>last_run_ms := l\<rparr>, task_effect code t w)"
    using True k(1) assms(1) by (intro run_task_due) (simp_all add: l_def task_fine_def)
  ultimately show ?thesis by blast
next
  case False
  then show ?thesis using assms(1) by (auto simp: run_task_def Let_def)
qed

lemma run_tasks_fine:
  assumes "unat start_ms < 2 ^ 32" "unat now_ms < 2 ^ 32"
  shows "n \<le> length ts \<Longrightarrow> \<forall>t\<in>set (take n ts). task_fine start_ms now_ms t \<Longrightarrow>
    \<exists>ts' w'. run_tasks code start_ms now_ms n ts w = Some (ts', w') \<and> length ts' = length ts
      \<and> (\<forall>t\<in>set (take n ts'). task_fine start_ms now_ms t)"
proof (induction n arbitrary: ts w)
  case (Suc n)
  then obtain t us where ts: "ts = t # us" by (cases ts) auto
  then obtain t1 w1 where 1: "run_task code start_ms now_ms t w = Some (t1, w1)" "task_fine start_ms now_ms t1"
    using run_task_fine [OF _ assms, of t code w] Suc.prems(2) by auto
  obtain us1 w2 where 2: "run_tasks code start_ms now_ms n us w1 = Some (us1, w2)" "length us1 = length us"
    "\<forall>t\<in>set (take n us1). task_fine start_ms now_ms t"
    using Suc.IH [of us w1] Suc.prems ts by auto
  show ?case using 1 2 ts by simp
qed simp

lemma sched_cycle_returns:
  assumes "sched_ok start_ms now_ms s" "unat start_ms < 2 ^ 32" "unat now_ms < 2 ^ 32"
  shows "\<exists>s' w'. sched_cycle code start_ms now_ms s w = Some (s', w') \<and> sched_ok start_ms now_ms s'"
proof -
  define s1 where "s1 = plc_scheduler_drain_pending s"
  have ok: "sched_ok start_ms now_ms s1"
    using drain_loop_ok [OF assms(1)] by (simp add: s1_def plc_scheduler_drain_pending_def)
  then have "\<exists>ts' w'. run_tasks code start_ms now_ms (unat (task_count s1)) (tasks s1) v = Some (ts', w')
      \<and> length ts' = length (tasks s1) \<and> (\<forall>t\<in>set (take (unat (task_count s1)) ts'). task_fine start_ms now_ms t)" for v
    by (intro run_tasks_fine [OF assms(2,3)]) (simp_all add: sched_ok_def)
  note r = this
  show ?thesis
    unfolding sched_cycle_def Let_def s1_def [symmetric]
    using r [of "if on_cycle_begin s1 \<noteq> None \<and> on_cycle_begin s1 \<noteq> backend_cycle_begin s1
       then call_hook code (on_cycle_begin s1) (sched_user s1) (call_hook code (backend_cycle_begin s1) (backend_user s1) w)
       else call_hook code (backend_cycle_begin s1) (backend_user s1) w"] ok
    by (elim exE conjE) (simp add: sched_ok_def)
qed

lemma sched_run_returns:
  "sched_ok start_ms now0 s \<Longrightarrow> unat start_ms < 2 ^ 32 \<Longrightarrow> sorted (map unat (now0 # nows)) \<Longrightarrow>
     \<forall>n\<in>set nows. unat n < 2 ^ 32 \<Longrightarrow> \<exists>st. sched_run code start_ms (s, nxt, w) nows = Some st"
proof (induction nows arbitrary: now0 s nxt w)
  case (Cons n nows)
  then have "now0 \<le> n" by (simp add: u64_less_iff)
  then have ok: "sched_ok start_ms n s" using Cons.prems(1) sched_ok_mono by blast
  show ?case
  proof (cases "n < nxt")
    case True
    then show ?thesis using Cons.IH [OF ok Cons.prems(2), of nxt w] Cons.prems(3,4) by (simp add: sched_turn_def)
  next
    case False
    obtain s1 w1 where "sched_cycle code start_ms n s w = Some (s1, w1)" "sched_ok start_ms n s1"
      using sched_cycle_returns [OF ok Cons.prems(2), of code w] Cons.prems(4) by auto
    then show ?thesis using False Cons.IH [of n s1 "next_tick (base_cycle_ms s1) n nxt" w1] Cons.prems
      by (simp add: sched_turn_def)
  qed
qed simp

lemma initial_fine:
  assumes "unat start_ms < 2 ^ 32" "tk_fn t \<noteq> None" "period_ms t \<noteq> 0"
  shows "task_fine start_ms start_ms (initial_last_run start_ms t)"
proof -
  have p: "0 < unat (period_ms t)" "0 < period_ms t" using assms(3) by (simp_all add: unat_gt_0 word_neq_0_conv)
  let ?d = "unat start_ms + unat (phase_ms t)"
  consider "?d < unat (period_ms t)" | "unat (period_ms t) \<le> ?d" "?d < 2 ^ 32" | "2 ^ 32 \<le> ?d" by fastforce
  then show ?thesis
  proof cases
    case 1
    then have "\<not> ucast (period_ms t) \<le> start_ms + ucast (phase_ms t)"
      using phase_sum [OF assms(1), of "phase_ms t"] by (simp add: u64_less_iff)
    then show ?thesis using p assms by (simp add: task_fine_def initial_last_run_def Let_def)
  next
    case 2
    then have "awaiting start_ms (initial_last_run start_ms t) 0" using assms(1) p(1) by (intro initial_awaiting)
    then show ?thesis using p assms by (simp add: task_fine_def awaiting_def due_def initial_last_run_def Let_def)
  next
    case 3
    then show ?thesis using p assms by (simp add: task_fine_def initial_last_run_def Let_def)
  qed
qed

lemma sched_begin_ok:
  assumes "unat start_ms < 2 ^ 32" "length (tasks s) = MAX_TASKS" "unat (task_count s) \<le> MAX_TASKS"
    and "\<forall>t\<in>set (take (unat (task_count s)) (tasks s)). tk_fn t \<noteq> None \<and> period_ms t \<noteq> 0"
  shows "sched_ok start_ms start_ms (sched_begin start_ms s)"
  using assms initial_fine [OF assms(1)] by (auto simp: sched_ok_def sched_begin_def)

section \<open>Hooks\<close>

lemma drain_loop_hooks [simp]:
  "backend_cycle_begin (drain_loop r w s) = backend_cycle_begin s" "backend_cycle_end (drain_loop r w s) = backend_cycle_end s"
  "backend_user (drain_loop r w s) = backend_user s" "on_cycle_begin (drain_loop r w s) = on_cycle_begin s"
  "on_cycle_end (drain_loop r w s) = on_cycle_end s" "sched_user (drain_loop r w s) = sched_user s"
  "base_cycle_ms (drain_loop r w s) = base_cycle_ms s" "sched_running (drain_loop r w s) = sched_running s"
  by (induction r w s rule: drain_loop.induct; subst drain_loop.simps;
      auto simp: Let_def plc_scheduler_add_task_internal_def)+

section \<open>Pending tasks\<close>

definition pending_is :: "PlcScheduler \<Rightarrow> PlcTask list \<Rightarrow> bool" where
  "pending_is s qs \<longleftrightarrow> length (pending_tasks s) = MAX_PENDING \<and> length (pending_ready s) = MAX_PENDING
     \<and> length qs \<le> MAX_PENDING \<and> unat (pending_read s) + length qs < 2 ^ 32
     \<and> unat (pending_write s) = unat (pending_read s) + length qs
     \<and> (\<forall>j<length qs. pending_tasks s ! ((unat (pending_read s) + j) mod MAX_PENDING) = qs ! j
          \<and> pending_ready s ! ((unat (pending_read s) + j) mod MAX_PENDING))"

lemma slot_32: "unat ((i :: u32) mod of_nat MAX_PENDING) = unat i mod MAX_PENDING"
  by (simp add: unat_mod MAX_PENDING_def)

lemma queue_task_pending:
  assumes "pending_is s qs" "length qs < MAX_PENDING" "unat (pending_read s) + length qs + 1 < 2 ^ 32"
  shows "fst (plc_scheduler_queue_task s t) = 0 \<and> pending_is (snd (plc_scheduler_queue_task s t)) (qs @ [t])
    \<and> tasks (snd (plc_scheduler_queue_task s t)) = tasks s
    \<and> task_count (snd (plc_scheduler_queue_task s t)) = task_count s
    \<and> sched_running (snd (plc_scheduler_queue_task s t)) = sched_running s
    \<and> pending_read (snd (plc_scheduler_queue_task s t)) = pending_read s"
proof -
  let ?r = "unat (pending_read s)" and ?n = "length qs"
  let ?slot = "(?r + ?n) mod MAX_PENDING"
  have w: "unat (pending_write s) = ?r + ?n" using assms(1) by (simp add: pending_is_def)
  then have "pending_read s \<le> pending_write s" by (simp add: word_le_nat_alt)
  then have "unat (pending_write s - pending_read s) = ?n" using w by (simp add: unat_sub)
  then have room: "\<not> of_nat MAX_PENDING \<le> pending_write s - pending_read s"
    using assms(2) by (simp add: word_le_nat_alt MAX_PENDING_def)
  have w1: "unat (pending_write s + 1) = ?r + ?n + 1" using w assms(3) by (subst unat_plus_one) simp_all
  have q: "plc_scheduler_queue_task s t = (0, s\<lparr>pending_write := pending_write s + 1,
      pending_tasks := (pending_tasks s)[?slot := t], pending_ready := (pending_ready s)[?slot := True]\<rparr>)"
    using room w by (simp add: plc_scheduler_queue_task_def Let_def slot_32)
  have "?slot \<noteq> (?r + j) mod MAX_PENDING" if "j < ?n" for j
  proof
    assume "?slot = (?r + j) mod MAX_PENDING"
    then have "(?r + j) mod MAX_PENDING = ?slot" by simp
    then have "MAX_PENDING dvd (?r + ?n) - (?r + j)" using that by (subst mod_eq_dvd_iff_nat [symmetric]) auto
    then have "MAX_PENDING dvd ?n - j" by simp
    then show False using that assms(2) by (auto dest: dvd_imp_le)
  qed
  moreover have "?slot < MAX_PENDING" by (simp add: MAX_PENDING_def)
  ultimately show ?thesis
    using assms w1 by (auto simp: q pending_is_def nth_append nth_list_update less_Suc_eq)
qed

lemma add_runtime_all:
  "pending_is s qs \<Longrightarrow> sched_running s \<Longrightarrow> length qs + length ts \<le> MAX_PENDING \<Longrightarrow>
     unat (pending_read s) + length qs + length ts < 2 ^ 32 \<Longrightarrow>
     \<forall>t\<in>set ts. tk_fn t \<noteq> None \<and> period_ms t \<noteq> 0 \<Longrightarrow>
     (let s' = fold (\<lambda>t s. snd (plc_scheduler_add_task_runtime s t)) ts s in
        pending_is s' (qs @ ts) \<and> tasks s' = tasks s \<and> task_count s' = task_count s)"
proof (induction ts arbitrary: s qs)
  case (Cons t ts)
  let ?s = "snd (plc_scheduler_queue_task s t)"
  have q: "pending_is ?s (qs @ [t])" "tasks ?s = tasks s" "task_count ?s = task_count s" "sched_running ?s"
    "pending_read ?s = pending_read s"
    using queue_task_pending [OF Cons.prems(1), of t] Cons.prems(2-4) by auto
  have "snd (plc_scheduler_add_task_runtime s t) = ?s"
    using Cons.prems(2,5) by (auto simp: plc_scheduler_add_task_runtime_def)
  then show ?case using Cons.IH [OF q(1,4)] q Cons.prems by (simp add: Let_def)
qed (simp add: Let_def)

lemma add_internal_pending [simp]:
  "pending_is (snd (plc_scheduler_add_task_internal s t)) qs = pending_is s qs"
  "pending_write (snd (plc_scheduler_add_task_internal s t)) = pending_write s"
  "pending_read (snd (plc_scheduler_add_task_internal s t)) = pending_read s"
  by (simp_all add: plc_scheduler_add_task_internal_def pending_is_def)

lemma add_internal_cong:
  assumes "tasks s = tasks u" "task_count s = task_count u"
  shows "tasks (snd (plc_scheduler_add_task_internal s t)) = tasks (snd (plc_scheduler_add_task_internal u t))"
    "task_count (snd (plc_scheduler_add_task_internal s t)) = task_count (snd (plc_scheduler_add_task_internal u t))"
  using assms by (simp_all add: plc_scheduler_add_task_internal_def)

lemma drain_all:
  "pending_is s qs \<Longrightarrow> tasks s = tasks u \<Longrightarrow> task_count s = task_count u \<Longrightarrow>
     (let s' = drain_loop (pending_read s) (pending_write s) s;
          u' = fold (\<lambda>t s. snd (plc_scheduler_add_task_internal s t)) qs u
      in tasks s' = tasks u' \<and> task_count s' = task_count u' \<and> pending_is s' [])"
proof (induction qs arbitrary: s u)
  case Nil
  then have "drain_loop (pending_read s) (pending_write s) s = s"
    by (subst drain_loop.simps) (auto simp: pending_is_def word_less_nat_alt)
  then show ?case using Nil by (simp add: Let_def)
next
  case (Cons t qs)
  let ?r = "unat (pending_read s)"
  let ?slot = "?r mod MAX_PENDING"
  let ?s1 = "s\<lparr>pending_ready := (pending_ready s)[?slot := False], pending_read := pending_read s + 1\<rparr>"
  let ?s2 = "snd (plc_scheduler_add_task_internal ?s1 t)"
  note p = Cons.prems(1) [unfolded pending_is_def]
  have lt: "pending_read s < pending_write s" using p by (simp add: word_less_nat_alt)
  have here: "pending_tasks s ! ?slot = t" "pending_ready s ! ?slot" using p by force+
  have r1: "unat (pending_read s + 1) = ?r + 1" using p by (subst unat_plus_one) simp_all
  have apart: "?slot \<noteq> (?r + 1 + j) mod MAX_PENDING" if "j < length qs" for j
  proof
    assume "?slot = (?r + 1 + j) mod MAX_PENDING"
    then have "(?r + 1 + j) mod MAX_PENDING = ?slot" by simp
    then have "MAX_PENDING dvd (?r + 1 + j) - ?r" by (subst mod_eq_dvd_iff_nat [symmetric]) auto
    then have "MAX_PENDING dvd 1 + j" by simp
    then show False using that p by (auto dest: dvd_imp_le)
  qed
  have "pending_tasks s ! ((?r + 1 + j) mod MAX_PENDING) = qs ! j \<and> pending_ready s ! ((?r + 1 + j) mod MAX_PENDING)"
    if "j < length qs" for j
  proof -
    have "Suc j < length (t # qs)" using that by simp
    then show ?thesis using p by (metis add.assoc nth_Cons_Suc plus_1_eq_Suc)
  qed
  then have "pending_is ?s1 qs"
    using p r1 apart by (auto simp: pending_is_def nth_list_update)
  then have s2: "pending_is ?s2 qs" by simp
  have "drain_loop (pending_read s) (pending_write s) s = drain_loop (pending_read ?s2) (pending_write ?s2) ?s2"
    using lt here by (subst drain_loop.simps) (simp add: Let_def slot_32)
  moreover have "tasks ?s2 = tasks (snd (plc_scheduler_add_task_internal u t))"
    "task_count ?s2 = task_count (snd (plc_scheduler_add_task_internal u t))"
    using add_internal_cong [of ?s1 u t] Cons.prems(2,3) by simp_all
  ultimately show ?case using Cons.IH [OF s2] by simp
qed

section \<open>An example\<close>

text \<open>A world that logs the calls.\<close>

definition demo_code :: "string list PlcCode" where
  "demo_code = \<lparr>hook_fn = (\<lambda>g u (h, es). (h, es @ [if g = 1 then ''begin'' else ''end''])),
     task_fn = (\<lambda>f a (h, es). (0, (h, es @ [''task''])))\<rparr>"

definition demo_task :: "u32 \<Rightarrow> PlcTaskPolicy \<Rightarrow> PlcTask" where
  "demo_task lr pol = \<lparr>tk_name = Some ''heartbeat'', tk_fn = Some 0, tk_ctx = 0, period_ms = 100,
     phase_ms = 0, last_run_ms = lr, tk_policy = pol\<rparr>"

definition demo_sched :: "u32 \<Rightarrow> PlcScheduler" where
  "demo_sched n = \<lparr>base_cycle_ms = 10, task_count = n,
     tasks = replicate 32 (demo_task 900 PLC_TASK_SKIP_ON_FAULT), pending_write = 0, pending_read = 0,
     pending_ready = replicate 32 False, pending_tasks = replicate 32 (demo_task 0 PLC_TASK_ALWAYS_RUN),
     sched_running = True, backend_cycle_begin = Some 1, backend_cycle_end = Some 2, backend_user = 0,
     on_cycle_begin = Some 1, on_cycle_end = Some 2, sched_user = 0\<rparr>"

lemma u32_numeral_sizes [simp]: "unat (100 :: u32) = 100" "unat (900 :: u32) = 900"
  by simp_all

section \<open>Properties\<close>

text \<open>
  C32. Tasks are periodic, once per period and without bursts. A task that has had its runs up
  to the \<open>k\<close>-th due time \<open>start + phase + k * period\<close> is left alone before that time. At or
  after it, it runs exactly once, whatever number of periods has been missed, and then waits for the
  first due time after now. Run means that its function is called once, where its policy says so: an
  \<^verbatim>\<open>ALWAYS_RUN\<close> task is called whatever the health, a \<^verbatim>\<open>SKIP_ON_FAULT\<close> task when it is OK or WARN, an
  \<^verbatim>\<open>ONLY_WHEN_OK\<close> task when it is OK; under a fault the latter two are not called but keep
  their rhythm. (For \<^verbatim>\<open>ONLY_WHEN_OK\<close> under WARN nothing is claimed but that it is called at most once:
  the scheduler calls it, against \<^verbatim>\<open>plc_task.h\<close>, see \<open>only_when_ok_runs_in_warn\<close>.)
  The initial state waits for due time 0.
\<close>

theorem sched_task_periodic:
  assumes "awaiting start_ms t k" "0 < unat (period_ms t)" "tk_fn t \<noteq> None"
    and "unat start_ms < 2 ^ 32" "unat now_ms < 2 ^ 32" "k = 0 \<or> unat (last_run_ms t) \<le> unat now_ms"
  shows "(if unat now_ms < due start_ms t k then run_task code start_ms now_ms t w = Some (t, w)
     else \<exists>t' w'. run_task code start_ms now_ms t w = Some (t', w')
        \<and> awaiting start_ms t' ((unat now_ms - due start_ms t 0) div unat (period_ms t) + 1)
        \<and> unat now_ms < due start_ms t' ((unat now_ms - due start_ms t 0) div unat (period_ms t) + 1)
        \<and> (let called = snd (task_fn code (the (tk_fn t)) (tk_ctx t) w) in
             w' \<in> {w, called}
             \<and> (tk_policy t = PLC_TASK_ALWAYS_RUN
                 \<or> fst w = health_code PLC_HEALTH_OK
                 \<or> fst w = health_code PLC_HEALTH_WARN \<and> tk_policy t = PLC_TASK_SKIP_ON_FAULT \<longrightarrow> w' = called)
             \<and> (fst w = health_code PLC_HEALTH_FAULT \<and> tk_policy t \<noteq> PLC_TASK_ALWAYS_RUN \<longrightarrow> w' = w)))
    \<and> (unat (period_ms t) \<le> unat start_ms + unat (phase_ms t) \<and> unat start_ms + unat (phase_ms t) < 2 ^ 32
        \<longrightarrow> awaiting start_ms (initial_last_run start_ms t) 0)"
proof (intro conjI impI)
  let ?p = "unat (period_ms t)" and ?k = "(unat now_ms - due start_ms t 0) div unat (period_ms t) + 1"
  have late: "unat now_ms < due start_ms (t\<lparr>last_run_ms := l\<rparr>) ?k" for l
  proof -
    have "unat now_ms - due start_ms t 0 < ?k * ?p"
      using dividend_less_div_times [OF assms(2), of "unat now_ms - due start_ms t 0"] by simp
    then show ?thesis by (simp add: due_def)
  qed
  let ?called = "snd (task_fn code (the (tk_fn t)) (tk_ctx t) w)"
  have run: "if unat now_ms < due start_ms t k then run_task code start_ms now_ms t w = Some (t, w)
     else \<exists>t'. run_task code start_ms now_ms t w = Some (t', task_effect code t w)
        \<and> awaiting start_ms t' ?k \<and> unat now_ms < due start_ms t' ?k"
    using run_task_awaiting [OF assms, of code w] late by (auto simp: not_less)
  have "task_effect code t w \<in> {w, ?called}"
    "fst w = health_code PLC_HEALTH_FAULT \<and> tk_policy t \<noteq> PLC_TASK_ALWAYS_RUN \<Longrightarrow> task_effect code t w = w"
    "tk_policy t = PLC_TASK_ALWAYS_RUN \<or> fst w \<noteq> health_code PLC_HEALTH_FAULT \<Longrightarrow> task_effect code t w = ?called"
    by (auto simp: task_effect_def task_allowed_def)
  moreover have "health_code PLC_HEALTH_OK \<noteq> health_code PLC_HEALTH_FAULT" "health_code PLC_HEALTH_WARN \<noteq> health_code PLC_HEALTH_FAULT"
    by simp_all
  ultimately show "if unat now_ms < due start_ms t k then run_task code start_ms now_ms t w = Some (t, w)
     else \<exists>t' w'. run_task code start_ms now_ms t w = Some (t', w')
        \<and> awaiting start_ms t' ?k \<and> unat now_ms < due start_ms t' ?k
        \<and> (let called = ?called in w' \<in> {w, called}
             \<and> (tk_policy t = PLC_TASK_ALWAYS_RUN
                 \<or> fst w = health_code PLC_HEALTH_OK
                 \<or> fst w = health_code PLC_HEALTH_WARN \<and> tk_policy t = PLC_TASK_SKIP_ON_FAULT \<longrightarrow> w' = called)
             \<and> (fst w = health_code PLC_HEALTH_FAULT \<and> tk_policy t \<noteq> PLC_TASK_ALWAYS_RUN \<longrightarrow> w' = w))"
    using run unfolding Let_def by metis
  show "awaiting start_ms (initial_last_run start_ms t) 0"
    if "?p \<le> unat start_ms + unat (phase_ms t) \<and> unat start_ms + unat (phase_ms t) < 2 ^ 32"
    using that initial_awaiting [OF assms(4,2)] by blast
qed

lemma sched_task_periodic_witness:
  "\<exists>t'. run_task demo_code 1000 1250 (demo_task 900 PLC_TASK_SKIP_ON_FAULT) (0, [])
     = Some (t', (0, [''task''])) \<and> awaiting 1000 t' 3"
proof -
  have "awaiting 1000 (demo_task 900 PLC_TASK_SKIP_ON_FAULT) 0" by (simp add: awaiting_def due_def demo_task_def)
  from sched_task_periodic [OF this, of 1250 demo_code "(0, [])"] show ?thesis
    by (auto simp: demo_task_def due_def task_effect_def task_allowed_def demo_code_def)
qed

text \<open>
  The scheduler looks at the policy only under FAULT: a due \<^verbatim>\<open>ONLY_WHEN_OK\<close> task is called under
  WARN, while \<^verbatim>\<open>plc_task.h\<close> says that it runs only when the health is OK.
\<close>

theorem only_when_ok_runs_in_warn:
  assumes "awaiting start_ms t k" "0 < unat (period_ms t)" "tk_fn t \<noteq> None" "unat start_ms < 2 ^ 32" "unat now_ms < 2 ^ 32"
    and "k = 0 \<or> unat (last_run_ms t) \<le> unat now_ms" "due start_ms t k \<le> unat now_ms"
    and "tk_policy t = PLC_TASK_ONLY_WHEN_OK" "fst w = health_code PLC_HEALTH_WARN"
  shows "\<exists>t'. run_task code start_ms now_ms t w = Some (t', snd (task_fn code (the (tk_fn t)) (tk_ctx t) w))"
proof -
  have "task_effect code t w = snd (task_fn code (the (tk_fn t)) (tk_ctx t) w)"
    using assms(9) by (simp add: task_effect_def task_allowed_def)
  then show ?thesis using run_task_awaiting(1) [OF assms(1-7), of code w] by metis
qed

text \<open>
  C33. The thread does not get stuck. While the clock stays below \<open>2 ^ 32\<close> milliseconds and never
  goes back, every run of the thread on valid tasks returns: each catch-up loop ends, however late the
  cycle, whatever the hooks and tasks do, and also for the tasks added while it runs.
\<close>

theorem sched_thread_returns:
  assumes "length (tasks s) = MAX_TASKS" "unat (task_count s) \<le> MAX_TASKS"
    and "\<forall>t\<in>set (take (unat (task_count s)) (tasks s)). tk_fn t \<noteq> None \<and> period_ms t \<noteq> 0"
    and "sorted (map unat (start_ms # nows))" "\<forall>n\<in>set (start_ms # nows). unat n < 2 ^ 32"
  shows "\<exists>st. plc_scheduler_thread code start_ms s w nows = Some st"
proof -
  have s: "unat start_ms < 2 ^ 32" using assms(5) by simp
  show ?thesis
    unfolding plc_scheduler_thread_def
    using sched_run_returns [OF sched_begin_ok [OF s assms(1-3)] s assms(4)] assms(5) by simp
qed

lemma sched_thread_returns_witness:
  "\<exists>st. plc_scheduler_thread demo_code 1000 (demo_sched 2) (0, []) [1005, 1010, 1500, 4294967295] = Some st"
  by (rule sched_thread_returns) (simp_all add: demo_sched_def demo_task_def MAX_TASKS_def)

text \<open>
  C34. After \<open>2 ^ 32\<close> milliseconds the thread hangs. A task keeps its last run in 32 bits but the
  catch-up loop compares it with the 64-bit clock: once the clock has passed \<open>2 ^ 32\<close> (49.7
  days of uptime) by a period, the difference can never become small, and a cycle with any task past its
  phase never ends.
\<close>

theorem sched_hangs_after_32_bits:
  assumes "t \<in> set (take (unat (task_count (plc_scheduler_drain_pending s))) (tasks (plc_scheduler_drain_pending s)))"
    and "start_ms + ucast (phase_ms t) \<le> now_ms" "2 ^ 32 + unat (period_ms t) \<le> unat now_ms"
  shows "sched_cycle code start_ms now_ms s w = None"
proof -
  have stuck: "run_task code start_ms now_ms t v = None" for v
  proof -
    have "unat (last_run_ms t) \<le> unat now_ms" using assms(3) unat_u32_less [of "last_run_ms t"] by simp
    then have "ucast (period_ms t) \<le> now_ms - ucast (last_run_ms t)"
      using assms(3) unat_u32_less [of "last_run_ms t"] by (simp add: u64_less_iff elapsed)
    then show ?thesis using assms(2) catch_up_hangs [OF assms(3)] by (simp add: run_task_def Let_def)
  qed
  have "t \<in> set (take n ts) \<Longrightarrow> run_tasks code start_ms now_ms n ts v = None" for n ts v
  proof (induction n arbitrary: ts v)
    case (Suc n)
    then obtain u us where ts: "ts = u # us" by (cases ts) auto
    show ?case
    proof (cases "run_task code start_ms now_ms u v")
      case (Some r)
      obtain u1 v1 where r: "r = (u1, v1)" by (cases r)
      have "u \<noteq> t" using Some stuck [of v] by (metis option.distinct(1))
      then have "run_tasks code start_ms now_ms n us v1 = None" using Suc ts by simp
      then show ?thesis using ts Some r by simp
    qed (simp add: ts)
  qed simp
  then show ?thesis using assms(1) by (simp add: sched_cycle_def Let_def)
qed

lemma sched_hangs_after_32_bits_witness:
  "sched_cycle demo_code 1000 4294967500 (demo_sched 1) (0, []) = None"
proof (rule sched_hangs_after_32_bits)
  have "plc_scheduler_drain_pending (demo_sched 1) = demo_sched 1"
    by (subst plc_scheduler_drain_pending_def, subst drain_loop.simps) (simp add: demo_sched_def)
  then show "demo_task 900 PLC_TASK_SKIP_ON_FAULT \<in> set (take (unat (task_count
      (plc_scheduler_drain_pending (demo_sched 1)))) (tasks (plc_scheduler_drain_pending (demo_sched 1))))"
    by (simp add: demo_sched_def take_Suc)
qed (simp_all add: demo_task_def u64_less_iff)

text \<open>
  C35. With the callbacks the program installs, a cycle is: take over the pending tasks, the begin
  callback once, the tasks in order, the end callback once. (The callbacks double as backend hooks,
  and a callback that is also the backend hook is not called twice.)
\<close>

theorem sched_cycle_order:
  assumes "\<not> sched_running s" "backend_cycle_begin s = None" "backend_cycle_end s = None"
    and "plc_scheduler_set_callbacks s (Some b) (Some e) u = (rc, s1)"
  shows "rc = 0 \<and> sched_cycle code start_ms now_ms s1 w =
    (let s2 = plc_scheduler_drain_pending s1 in
     case run_tasks code start_ms now_ms (unat (task_count s2)) (tasks s2) (hook_fn code b u w) of
       None \<Rightarrow> None
     | Some (ts, w1) \<Rightarrow> Some (s2\<lparr>tasks := ts\<rparr>, hook_fn code e u w1))"
proof -
  have "rc = 0" "backend_cycle_begin s1 = Some b" "backend_cycle_end s1 = Some e" "backend_user s1 = u"
    "on_cycle_begin s1 = Some b" "on_cycle_end s1 = Some e"
    using assms by (auto simp: plc_scheduler_set_callbacks_def Let_def)
  then show ?thesis
    by (simp add: sched_cycle_def plc_scheduler_drain_pending_def call_hook_def Let_def split: option.split)
qed

definition demo_idle :: PlcScheduler where
  "demo_idle = (demo_sched 0)\<lparr>sched_running := False, backend_cycle_begin := None, backend_cycle_end := None\<rparr>"

lemma sched_cycle_order_witness:
  "map_option snd (sched_cycle demo_code 1000 1250 (snd (plc_scheduler_set_callbacks demo_idle (Some 1) (Some 2) 0))
     (0, [])) = Some (0, [''begin'', ''end''])"
proof -
  have "plc_scheduler_drain_pending (snd (plc_scheduler_set_callbacks demo_idle (Some 1) (Some 2) 0))
      = snd (plc_scheduler_set_callbacks demo_idle (Some 1) (Some 2) 0)"
    by (subst plc_scheduler_drain_pending_def, subst drain_loop.simps)
      (simp add: plc_scheduler_set_callbacks_def demo_idle_def demo_sched_def)
  moreover have "task_count (snd (plc_scheduler_set_callbacks demo_idle (Some 1) (Some 2) 0)) = 0"
    by (simp add: plc_scheduler_set_callbacks_def demo_idle_def demo_sched_def Let_def)
  moreover have "\<not> sched_running demo_idle" "backend_cycle_begin demo_idle = None" "backend_cycle_end demo_idle = None"
    by (simp_all add: demo_idle_def)
  ultimately show ?thesis
    using sched_cycle_order [of demo_idle 1 2 0 _ _ demo_code 1000 1250 "(0, [])", OF _ _ _ prod.collapse [symmetric]]
    by (simp add: demo_code_def Let_def)
qed

text \<open>
  C37. Adding tasks while the scheduler runs is adding them at the next cycle. With an empty queue
  and at most 32 valid tasks, queueing them and then draining gives the task table, and leaves
  the queue empty, as if they had been added directly in the same order. This holds until the
  queue index reaches \<open>2 ^ 32\<close>: there the comparison of the indices fails and a queued task is
  never taken.
\<close>

theorem sched_pending_equiv:
  assumes "pending_is s []" "sched_running s" "length ts \<le> 32" "unat (pending_read s) + length ts < 2 ^ 32"
    and "\<forall>t\<in>set ts. tk_fn t \<noteq> None \<and> period_ms t \<noteq> 0"
  shows "(let s' = plc_scheduler_drain_pending (fold (\<lambda>t s. snd (plc_scheduler_add_task_runtime s t)) ts s);
           d = fold (\<lambda>t s. snd (plc_scheduler_add_task s t)) ts (s\<lparr>sched_running := False\<rparr>)
       in tasks s' = tasks d \<and> task_count s' = task_count d \<and> pending_is s' [])
    \<and> (pending_read q = 0xFFFFFFFF \<and> pending_write q = 0 \<longrightarrow> plc_scheduler_drain_pending q = q)"
proof (intro conjI impI)
  let ?s = "fold (\<lambda>t s. snd (plc_scheduler_add_task_runtime s t)) ts s"
  have q: "pending_is ?s ts" "tasks ?s = tasks s" "task_count ?s = task_count s"
    using add_runtime_all [OF assms(1,2) _ _ assms(5)] assms(3,4) by (simp_all add: Let_def MAX_PENDING_def)
  have "fold (\<lambda>t s. snd (plc_scheduler_add_task s t)) us u = fold (\<lambda>t s. snd (plc_scheduler_add_task_internal s t)) us u"
    if "\<not> sched_running u" for us u
    using that
  proof (induction us arbitrary: u)
    case (Cons t us)
    have "\<not> sched_running (snd (plc_scheduler_add_task_internal u t))"
      using Cons.prems by (simp add: plc_scheduler_add_task_internal_def)
    then show ?case using Cons by (simp add: plc_scheduler_add_task_def)
  qed simp
  then show "let s' = plc_scheduler_drain_pending ?s;
           d = fold (\<lambda>t s. snd (plc_scheduler_add_task s t)) ts (s\<lparr>sched_running := False\<rparr>)
       in tasks s' = tasks d \<and> task_count s' = task_count d \<and> pending_is s' []"
    using drain_all [OF q(1), of "s\<lparr>sched_running := False\<rparr>"] q(2,3)
    by (simp add: plc_scheduler_drain_pending_def Let_def)
  show "plc_scheduler_drain_pending q = q" if "pending_read q = 0xFFFFFFFF \<and> pending_write q = 0"
    using that by (simp add: plc_scheduler_drain_pending_def drain_loop.simps)
qed

lemma sched_pending_equiv_witness:
  "pending_is (plc_scheduler_drain_pending (snd (plc_scheduler_add_task_runtime (demo_sched 0)
     (demo_task 0 PLC_TASK_ALWAYS_RUN)))) []"
  using sched_pending_equiv [of "demo_sched 0" "[demo_task 0 PLC_TASK_ALWAYS_RUN]"]
  by (simp add: pending_is_def demo_sched_def MAX_PENDING_def demo_task_def Let_def)

end
