(* ===== verification/Sched_Queue.thy ===== *)
theory Sched_Queue
  imports Plc_Sched_Props
begin

text \<open>
  Adding tasks from several threads while the scheduler runs. Any number of threads execute
  \<^verbatim>\<open>plc_scheduler_queue_task\<close> and the scheduler's thread executes
  \<^verbatim>\<open>plc_scheduler_drain_pending\<close>, interleaved: every atomic access is a step, and a
  \<^verbatim>\<open>PlcTask_t\<close> is copied member by member, in any order. The compare-and-swap is a step that
  fails when another thread has claimed the slot since \<^verbatim>\<open>pending_write\<close> was read. \<open>qc_claims\<close>
  and \<open>qc_taken\<close> are ghost logs: the tasks in the order in which their slots were claimed, and
  the tasks the scheduler has taken.
\<close>

section \<open>The threads\<close>

datatype task_field = F_name | F_fn | F_ctx | F_period | F_phase | F_last | F_policy

fun copy_field :: "task_field \<Rightarrow> PlcTask \<Rightarrow> PlcTask \<Rightarrow> PlcTask" where
  "copy_field F_name src dst = dst\<lparr>tk_name := tk_name src\<rparr>"
| "copy_field F_fn src dst = dst\<lparr>tk_fn := tk_fn src\<rparr>"
| "copy_field F_ctx src dst = dst\<lparr>tk_ctx := tk_ctx src\<rparr>"
| "copy_field F_period src dst = dst\<lparr>period_ms := period_ms src\<rparr>"
| "copy_field F_phase src dst = dst\<lparr>phase_ms := phase_ms src\<rparr>"
| "copy_field F_last src dst = dst\<lparr>last_run_ms := last_run_ms src\<rparr>"
| "copy_field F_policy src dst = dst\<lparr>tk_policy := tk_policy src\<rparr>"

text \<open>
  A thread that queues a task, at the top of the loop, with \<^verbatim>\<open>read_index\<close> and with both
  indices loaded, copying into the slot it has claimed, and about to set \<^verbatim>\<open>pending_ready\<close>.
\<close>

datatype queue_pc =
    Q_Idle
  | Q_Top PlcTask
  | Q_Read PlcTask u32
  | Q_Check PlcTask u32 u32
  | Q_Copy PlcTask u32 "task_field set"
  | Q_Ready PlcTask u32

text \<open>
  The scheduler's thread: with \<^verbatim>\<open>read_index\<close> loaded, at the top of the loop, copying the
  task out of its slot, about to clear \<^verbatim>\<open>pending_ready\<close>, about to store \<^verbatim>\<open>pending_read\<close>, and
  about to add the task.
\<close>

datatype drain_pc =
    D_Idle
  | D_Read u32
  | D_Loop u32 u32
  | D_Copy u32 u32 PlcTask "task_field set"
  | D_Clear u32 u32 PlcTask
  | D_Bump u32 u32 PlcTask
  | D_Add u32 u32 PlcTask

record QueueConc =
  qc_sched :: PlcScheduler
  qc_prod :: "nat \<Rightarrow> queue_pc"
  qc_drain :: drain_pc
  qc_claims :: "(nat \<times> PlcTask) list"
  qc_taken :: "PlcTask list"

definition pslot :: "u32 \<Rightarrow> nat" where
  "pslot i = unat (i mod of_nat MAX_PENDING)"

definition at_prod :: "QueueConc \<Rightarrow> nat \<Rightarrow> queue_pc \<Rightarrow> QueueConc" where
  "at_prod c p pc = c\<lparr>qc_prod := (qc_prod c)(p := pc)\<rparr>"

inductive queue_step :: "QueueConc \<Rightarrow> QueueConc \<Rightarrow> bool" where
  q_call: "qc_prod c p = Q_Idle \<Longrightarrow> queue_step c (at_prod c p (Q_Top t))"
| q_load_read: "qc_prod c p = Q_Top t \<Longrightarrow>
    queue_step c (at_prod c p (Q_Read t (pending_read (qc_sched c))))"
| q_load_write: "qc_prod c p = Q_Read t r \<Longrightarrow>
    queue_step c (at_prod c p (Q_Check t r (pending_write (qc_sched c))))"
| q_full: "qc_prod c p = Q_Check t r w \<Longrightarrow> of_nat MAX_PENDING \<le> w - r \<Longrightarrow>
    queue_step c (at_prod c p Q_Idle)"
| q_cas: "qc_prod c p = Q_Check t r w \<Longrightarrow> w - r < of_nat MAX_PENDING \<Longrightarrow> pending_write (qc_sched c) = w \<Longrightarrow>
    queue_step c ((at_prod c p (Q_Copy t w {}))\<lparr>qc_sched := (qc_sched c)\<lparr>pending_write := w + 1\<rparr>,
                    qc_claims := qc_claims c @ [(p, t)]\<rparr>)"
| q_retry: "qc_prod c p = Q_Check t r w \<Longrightarrow> w - r < of_nat MAX_PENDING \<Longrightarrow> pending_write (qc_sched c) \<noteq> w \<Longrightarrow>
    queue_step c (at_prod c p (Q_Top t))"
| q_field: "qc_prod c p = Q_Copy t w D \<Longrightarrow> f \<notin> D \<Longrightarrow>
    queue_step c ((at_prod c p (Q_Copy t w (insert f D)))\<lparr>qc_sched := (qc_sched c)\<lparr>pending_tasks :=
      (pending_tasks (qc_sched c))[pslot w := copy_field f t (pending_tasks (qc_sched c) ! pslot w)]\<rparr>\<rparr>)"
| q_copied: "qc_prod c p = Q_Copy t w UNIV \<Longrightarrow> queue_step c (at_prod c p (Q_Ready t w))"
| q_ready: "qc_prod c p = Q_Ready t w \<Longrightarrow>
    queue_step c ((at_prod c p Q_Idle)\<lparr>qc_sched := (qc_sched c)\<lparr>pending_ready :=
      (pending_ready (qc_sched c))[pslot w := True]\<rparr>\<rparr>)"

inductive drain_step :: "QueueConc \<Rightarrow> QueueConc \<Rightarrow> bool" where
  d_load_read: "qc_drain c = D_Idle \<Longrightarrow> drain_step c (c\<lparr>qc_drain := D_Read (pending_read (qc_sched c))\<rparr>)"
| d_load_write: "qc_drain c = D_Read r \<Longrightarrow> drain_step c (c\<lparr>qc_drain := D_Loop r (pending_write (qc_sched c))\<rparr>)"
| d_done: "qc_drain c = D_Loop r w \<Longrightarrow> \<not> r < w \<Longrightarrow> drain_step c (c\<lparr>qc_drain := D_Idle\<rparr>)"
| d_not_ready: "qc_drain c = D_Loop r w \<Longrightarrow> r < w \<Longrightarrow> \<not> pending_ready (qc_sched c) ! pslot r \<Longrightarrow>
    drain_step c (c\<lparr>qc_drain := D_Idle\<rparr>)"
| d_begin: "qc_drain c = D_Loop r w \<Longrightarrow> r < w \<Longrightarrow> pending_ready (qc_sched c) ! pslot r \<Longrightarrow>
    drain_step c (c\<lparr>qc_drain := D_Copy r w t {}\<rparr>)"
| d_field: "qc_drain c = D_Copy r w t D \<Longrightarrow> f \<notin> D \<Longrightarrow>
    drain_step c (c\<lparr>qc_drain := D_Copy r w (copy_field f (pending_tasks (qc_sched c) ! pslot r) t) (insert f D)\<rparr>)"
| d_copied: "qc_drain c = D_Copy r w t UNIV \<Longrightarrow> drain_step c (c\<lparr>qc_drain := D_Clear r w t\<rparr>)"
| d_clear: "qc_drain c = D_Clear r w t \<Longrightarrow>
    drain_step c (c\<lparr>qc_drain := D_Bump r w t,
      qc_sched := (qc_sched c)\<lparr>pending_ready := (pending_ready (qc_sched c))[pslot r := False]\<rparr>\<rparr>)"
| d_bump: "qc_drain c = D_Bump r w t \<Longrightarrow>
    drain_step c (c\<lparr>qc_drain := D_Add (r + 1) w t, qc_sched := (qc_sched c)\<lparr>pending_read := r + 1\<rparr>,
      qc_taken := qc_taken c @ [t]\<rparr>)"
| d_add: "qc_drain c = D_Add r w t \<Longrightarrow>
    drain_step c (c\<lparr>qc_drain := D_Loop r w, qc_sched := snd (plc_scheduler_add_task_internal (qc_sched c) t)\<rparr>)"

definition queue_start :: "PlcScheduler \<Rightarrow> QueueConc" where
  "queue_start s = \<lparr>qc_sched = s, qc_prod = (\<lambda>_. Q_Idle), qc_drain = D_Idle, qc_claims = [], qc_taken = []\<rparr>"

inductive queue_run :: "PlcScheduler \<Rightarrow> QueueConc \<Rightarrow> bool" for s where
  qrun_start: "queue_run s (queue_start s)"
| qrun_queue: "queue_run s c \<Longrightarrow> queue_step c c' \<Longrightarrow> queue_run s c'"
| qrun_drain: "queue_run s c \<Longrightarrow> drain_step c c' \<Longrightarrow> queue_run s c'"

section \<open>The invariant\<close>

text \<open>A member that has been copied agrees with the source, and a copy of all members is the task.\<close>

lemma copy_field_twice [simp]: "copy_field f src (copy_field f src dst) = copy_field f src dst"
  by (cases f) simp_all

lemma copy_field_keeps: "copy_field f src dst = dst \<Longrightarrow> copy_field f src (copy_field g src dst) = copy_field g src dst"
  by (cases f; cases g; cases dst; simp)

lemma copy_field_all:
  assumes "\<And>f. copy_field f src dst = dst"
  shows "dst = src"
proof -
  have "tk_name dst = tk_name src" using assms [of F_name] by (cases dst; simp)
  moreover have "tk_fn dst = tk_fn src" using assms [of F_fn] by (cases dst; simp)
  moreover have "tk_ctx dst = tk_ctx src" using assms [of F_ctx] by (cases dst; simp)
  moreover have "period_ms dst = period_ms src" using assms [of F_period] by (cases dst; simp)
  moreover have "phase_ms dst = phase_ms src" using assms [of F_phase] by (cases dst; simp)
  moreover have "last_run_ms dst = last_run_ms src" using assms [of F_last] by (cases dst; simp)
  moreover have "tk_policy dst = tk_policy src" using assms [of F_policy] by (cases dst; simp)
  ultimately show ?thesis by (cases dst; cases src; simp)
qed

lemma pslot_eq: "pslot i = unat i mod 32"
  by (simp add: pslot_def unat_mod MAX_PENDING_def)

lemma same_slot:
  fixes i j n :: nat
  assumes "i mod 32 = j mod 32" "n \<le> i" "i < n + 32" "n \<le> j" "j < n + 32"
  shows "i = j"
proof -
  have "i = j" if "i mod 32 = j mod 32" "n \<le> i" "i \<le> j" "j < n + 32" for i j :: nat
  proof -
    have "32 dvd j - i" using mod_eq_dvd_iff_nat [OF that(3), of 32] that(1) by simp
    moreover have "j - i < 32" using that by simp
    ultimately show ?thesis using that(3) by (auto dest: dvd_imp_le)
  qed
  then show ?thesis using assms by (metis nle_le)
qed

text \<open>
  \<open>claimed\<close>: the thread \<open>p\<close> holds the slot of index \<open>w\<close> for the task \<open>t\<close>. Between the two
  indices a slot is either ready, with the task of its claim in it, or held by the thread
  that claimed it, or just taken; beyond them no slot is ready.
\<close>

definition claimed :: "nat \<Rightarrow> PlcScheduler \<Rightarrow> (nat \<times> PlcTask) list \<Rightarrow> nat \<Rightarrow> u32 \<Rightarrow> PlcTask \<Rightarrow> bool" where
  "claimed b q cl p w t \<longleftrightarrow> unat (pending_read q) \<le> unat w \<and> unat w < unat (pending_write q)
     \<and> cl ! (unat w - b) = (p, t) \<and> \<not> pending_ready q ! (unat w mod 32)"

definition prod_at :: "nat \<Rightarrow> PlcScheduler \<Rightarrow> (nat \<times> PlcTask) list \<Rightarrow> nat \<Rightarrow> queue_pc \<Rightarrow> bool" where
  "prod_at b q cl p pc = (case pc of
      Q_Idle \<Rightarrow> True
    | Q_Top t \<Rightarrow> True
    | Q_Read t r \<Rightarrow> unat r \<le> unat (pending_read q)
    | Q_Check t r w \<Rightarrow> unat r \<le> unat (pending_read q) \<and> unat r \<le> unat w \<and> unat w \<le> unat (pending_write q)
    | Q_Copy t w D \<Rightarrow> claimed b q cl p w t
        \<and> (\<forall>f\<in>D. copy_field f t (pending_tasks q ! (unat w mod 32)) = pending_tasks q ! (unat w mod 32))
    | Q_Ready t w \<Rightarrow> claimed b q cl p w t \<and> pending_tasks q ! (unat w mod 32) = t)"

fun holds :: "queue_pc \<Rightarrow> nat option" where
  "holds (Q_Copy t w D) = Some (unat w)"
| "holds (Q_Ready t w) = Some (unat w)"
| "holds pc = None"

definition drain_at :: "nat \<Rightarrow> PlcScheduler \<Rightarrow> (nat \<times> PlcTask) list \<Rightarrow> drain_pc \<Rightarrow> bool" where
  "drain_at b q cl pc = (let R = unat (pending_read q); W = unat (pending_write q) in case pc of
      D_Idle \<Rightarrow> True
    | D_Read r \<Rightarrow> r = pending_read q
    | D_Loop r w \<Rightarrow> r = pending_read q \<and> unat w \<le> W
    | D_Copy r w t D \<Rightarrow> r = pending_read q \<and> unat w \<le> W \<and> R < W \<and> pending_ready q ! (R mod 32)
        \<and> (\<forall>f\<in>D. copy_field f (pending_tasks q ! (R mod 32)) t = t)
    | D_Clear r w t \<Rightarrow> r = pending_read q \<and> unat w \<le> W \<and> R < W \<and> pending_ready q ! (R mod 32)
        \<and> t = pending_tasks q ! (R mod 32)
    | D_Bump r w t \<Rightarrow> r = pending_read q \<and> unat w \<le> W \<and> R < W \<and> \<not> pending_ready q ! (R mod 32)
        \<and> t = snd (cl ! (R - b))
    | D_Add r w t \<Rightarrow> r = pending_read q \<and> unat w \<le> W)"

fun bumping :: "drain_pc \<Rightarrow> bool" where
  "bumping (D_Bump r w t) = True"
| "bumping pc = False"

definition slot_at :: "nat \<Rightarrow> PlcScheduler \<Rightarrow> (nat \<times> PlcTask) list \<Rightarrow> (nat \<Rightarrow> queue_pc) \<Rightarrow> drain_pc \<Rightarrow> nat \<Rightarrow> bool" where
  "slot_at b q cl prods dr j \<longleftrightarrow>
     (pending_ready q ! (j mod 32) \<and> pending_tasks q ! (j mod 32) = snd (cl ! (j - b)))
     \<or> (\<exists>p. holds (prods p) = Some j) \<or> (j = unat (pending_read q) \<and> bumping dr)"

definition queue_inv :: "nat \<Rightarrow> QueueConc \<Rightarrow> bool" where
  "queue_inv b c \<longleftrightarrow> (let q = qc_sched c; R = unat (pending_read q); W = unat (pending_write q) in
     length (pending_tasks q) = 32 \<and> length (pending_ready q) = 32
     \<and> W = b + length (qc_claims c) \<and> R = b + length (qc_taken c) \<and> R \<le> W \<and> W \<le> R + 32
     \<and> qc_taken c = take (length (qc_taken c)) (map snd (qc_claims c))
     \<and> (\<forall>p. prod_at b q (qc_claims c) p (qc_prod c p))
     \<and> drain_at b q (qc_claims c) (qc_drain c)
     \<and> (\<forall>j. R \<le> j \<and> j < W \<longrightarrow> slot_at b q (qc_claims c) (qc_prod c) (qc_drain c) j)
     \<and> (\<forall>j. W \<le> j \<and> j < R + 32 \<longrightarrow> \<not> pending_ready q ! (j mod 32))
     \<and> (bumping (qc_drain c) \<longrightarrow> (\<forall>p. holds (qc_prod c p) \<noteq> Some R)))"

lemmas queue_pcs = prod_at_def drain_at_def Let_def

lemma queue_invD:
  assumes "queue_inv b c"
  shows "length (pending_tasks (qc_sched c)) = 32" "length (pending_ready (qc_sched c)) = 32"
    "unat (pending_write (qc_sched c)) = b + length (qc_claims c)"
    "unat (pending_read (qc_sched c)) = b + length (qc_taken c)"
    "unat (pending_read (qc_sched c)) \<le> unat (pending_write (qc_sched c))"
    "unat (pending_write (qc_sched c)) \<le> unat (pending_read (qc_sched c)) + 32"
    "qc_taken c = take (length (qc_taken c)) (map snd (qc_claims c))"
    "prod_at b (qc_sched c) (qc_claims c) p (qc_prod c p)"
    "drain_at b (qc_sched c) (qc_claims c) (qc_drain c)"
    "unat (pending_read (qc_sched c)) \<le> j \<Longrightarrow> j < unat (pending_write (qc_sched c))
       \<Longrightarrow> slot_at b (qc_sched c) (qc_claims c) (qc_prod c) (qc_drain c) j"
    "unat (pending_write (qc_sched c)) \<le> j \<Longrightarrow> j < unat (pending_read (qc_sched c)) + 32
       \<Longrightarrow> \<not> pending_ready (qc_sched c) ! (j mod 32)"
    "bumping (qc_drain c) \<Longrightarrow> holds (qc_prod c p) \<noteq> Some (unat (pending_read (qc_sched c)))"
  using assms unfolding queue_inv_def Let_def by blast+

text \<open>A step that changes nothing but a thread's position.\<close>

lemma prod_move:
  assumes "queue_inv b c" "prod_at b (qc_sched c) (qc_claims c) p pc" "holds pc = holds (qc_prod c p)"
  shows "queue_inv b (at_prod c p pc)"
proof -
  have "holds (((qc_prod c)(p := pc)) p') = holds (qc_prod c p')" for p' using assms(3) by simp
  then have "slot_at b (qc_sched c) (qc_claims c) ((qc_prod c)(p := pc)) (qc_drain c) j
      = slot_at b (qc_sched c) (qc_claims c) (qc_prod c) (qc_drain c) j" for j
    by (simp only: slot_at_def)
  moreover have "bumping (qc_drain c) \<Longrightarrow> holds (((qc_prod c)(p := pc)) p') \<noteq> Some (unat (pending_read (qc_sched c)))" for p'
    using queue_invD(12) [OF assms(1), of p'] assms(3) queue_invD(12) [OF assms(1), of p] by simp
  ultimately show ?thesis using assms(1,2) by (simp add: queue_inv_def at_prod_def Let_def del: fun_upd_apply) simp
qed

lemma drain_move:
  assumes "queue_inv b c" "drain_at b (qc_sched c) (qc_claims c) pc" "bumping pc = bumping (qc_drain c)"
  shows "queue_inv b (c\<lparr>qc_drain := pc\<rparr>)"
proof -
  have "slot_at b q cl prods pc j = slot_at b q cl prods (qc_drain c) j" for q cl prods j
    by (simp add: slot_at_def assms(3))
  then show ?thesis using assms queue_invD(12) [OF assms(1)] by (force simp: queue_inv_def Let_def)
qed

lemma holds_claimed:
  assumes "prod_at b q cl p pc" "holds pc = Some j"
  shows "unat (pending_read q) \<le> j" "j < unat (pending_write q)" "fst (cl ! (j - b)) = p"
    "\<not> pending_ready q ! (j mod 32)"
  using assms by (cases pc; auto simp: prod_at_def claimed_def)+

text \<open>Two threads never hold the same slot, and the scheduler never reads a held one.\<close>

lemma holds_unique:
  assumes "queue_inv b c" "holds (qc_prod c p) = Some i" "holds (qc_prod c p') = Some j" "p \<noteq> p'"
  shows "i mod 32 \<noteq> j mod 32"
proof
  assume "i mod 32 = j mod 32"
  note h = holds_claimed [OF queue_invD(8) [OF assms(1)] assms(2)] and h' = holds_claimed [OF queue_invD(8) [OF assms(1)] assms(3)]
  have "i = j" using same_slot [OF \<open>i mod 32 = j mod 32\<close>, of "unat (pending_read (qc_sched c))"] h h' queue_invD(6) [OF assms(1)]
    by linarith
  then show False using h(3) h'(3) assms(4) by simp
qed

section \<open>Every step keeps the invariant\<close>

text \<open>Writing a member of the slot a thread holds, which is not ready.\<close>

lemma field_inv:
  assumes "queue_inv b c" "qc_prod c p = Q_Copy t w D"
    and "q' = (qc_sched c)\<lparr>pending_tasks := (pending_tasks (qc_sched c))[pslot w := copy_field f t (pending_tasks (qc_sched c) ! pslot w)]\<rparr>"
  shows "queue_inv b ((at_prod c p (Q_Copy t w (insert f D)))\<lparr>qc_sched := q'\<rparr>)"
proof -
  let ?q = "qc_sched c" and ?pc = "Q_Copy t w (insert f D)"
  note inv = queue_invD [OF assms(1)]
  have own: "claimed b ?q (qc_claims c) p w t"
    "\<And>g. g \<in> D \<Longrightarrow> copy_field g t (pending_tasks ?q ! (unat w mod 32)) = pending_tasks ?q ! (unat w mod 32)"
    using inv(8) [of p] assms(2) by (auto simp: prod_at_def)
  have nth: "pending_tasks q' ! k = (if k = unat w mod 32 then copy_field f t (pending_tasks ?q ! k) else pending_tasks ?q ! k)" for k
    using inv(1) by (simp add: assms(3) pslot_eq nth_list_update)
  have same: "pending_read q' = pending_read ?q" "pending_write q' = pending_write ?q"
    "pending_ready q' = pending_ready ?q" "length (pending_tasks q') = 32"
    using inv(1) by (simp_all add: assms(3))
  have cl: "claimed b q' = claimed b ?q" by (intro ext) (simp add: claimed_def same)
  have "prod_at b q' (qc_claims c) p' (((qc_prod c)(p := ?pc)) p')" for p'
  proof (cases "p' = p")
    case True
    then show ?thesis using own by (auto simp: prod_at_def cl nth copy_field_keeps)
  next
    case False
    have "unat w mod 32 \<noteq> j mod 32" if "holds (qc_prod c p') = Some j" for j
      using holds_unique [OF assms(1) _ that, of p "unat w"] assms(2) False by simp
    then show ?thesis using inv(8) [of p'] False
      by (cases "qc_prod c p'") (auto simp: prod_at_def cl nth same)
  qed
  moreover have "drain_at b q' (qc_claims c) (qc_drain c)"
    using inv(9) own(1) by (cases "qc_drain c") (auto simp: drain_at_def Let_def same nth claimed_def)
  moreover have "slot_at b q' (qc_claims c) ((qc_prod c)(p := ?pc)) (qc_drain c) j"
    if "unat (pending_read ?q) \<le> j" "j < unat (pending_write ?q)" for j
  proof -
    have "(\<exists>p'. holds (((qc_prod c)(p := ?pc)) p') = Some j) = (\<exists>p'. holds (qc_prod c p') = Some j)"
      using assms(2) by (metis fun_upd_apply holds.simps(1))
    then show ?thesis using inv(10) [OF that] own(1) by (auto simp: slot_at_def nth same claimed_def)
  qed
  moreover have "bumping (qc_drain c) \<Longrightarrow> holds (((qc_prod c)(p := ?pc)) p') \<noteq> Some (unat (pending_read ?q))" for p'
    using inv(12) [of p'] inv(12) [of p] assms(2) by simp
  ultimately show ?thesis using assms(1) by (simp add: queue_inv_def at_prod_def Let_def same del: fun_upd_apply)
qed

text \<open>A thread claims the next slot.\<close>

lemma claim_inv:
  assumes "queue_inv b c" "qc_prod c p = Q_Check t r w" "w - r < of_nat MAX_PENDING" "pending_write (qc_sched c) = w"
    and "unat w + 1 < 2 ^ 32"
  shows "queue_inv b ((at_prod c p (Q_Copy t w {}))\<lparr>qc_sched := (qc_sched c)\<lparr>pending_write := w + 1\<rparr>,
           qc_claims := qc_claims c @ [(p, t)]\<rparr>)"
proof -
  let ?q = "qc_sched c" and ?q' = "(qc_sched c)\<lparr>pending_write := w + 1\<rparr>" and ?pc = "Q_Copy t w {}"
  let ?cl = "qc_claims c @ [(p, t)]"
  note inv = queue_invD [OF assms(1)]
  have r: "unat r \<le> unat (pending_read ?q)" "unat r \<le> unat w" using inv(8) [of p] assms(2) by (auto simp: prod_at_def)
  have w1: "unat (w + 1) = unat w + 1" using assms(5) by (subst unat_plus_one) simp_all
  have "unat (w - r) < 32" using assms(3) by (simp add: word_less_nat_alt MAX_PENDING_def)
  then have room: "unat w < unat (pending_read ?q) + 32" using r by (simp add: unat_sub word_le_nat_alt)
  have wl: "unat w = b + length (qc_claims c)" using inv(3) assms(4) by simp
  have free: "\<not> pending_ready ?q ! (unat w mod 32)" using inv(11) [of "unat w"] assms(4) room by simp
  have old: "?cl ! (j - b) = qc_claims c ! (j - b)" if "unat (pending_read ?q) \<le> j" "j < unat w" for j
  proof -
    have "j - b < length (qc_claims c)" using that wl inv(4) by linarith
    then show ?thesis by (simp add: nth_append)
  qed
  have "prod_at b ?q' ?cl p' (((qc_prod c)(p := ?pc)) p')" for p'
  proof (cases "p' = p")
    case True
    then show ?thesis using free wl w1 inv(5) assms(4) by (simp add: prod_at_def claimed_def)
  next
    case False
    then show ?thesis using inv(8) [of p'] assms(4) w1 old
      by (cases "qc_prod c p'") (auto simp: prod_at_def claimed_def)
  qed
  moreover have "drain_at b ?q' ?cl (qc_drain c)"
    using inv(9) assms(4) w1 old by (cases "qc_drain c") (auto simp: drain_at_def Let_def)
  moreover have "slot_at b ?q' ?cl ((qc_prod c)(p := ?pc)) (qc_drain c) j"
    if "unat (pending_read ?q) \<le> j" "j < unat w + 1" for j
  proof (cases "j = unat w")
    case True
    then show ?thesis by (auto simp: slot_at_def intro: exI [of _ p])
  next
    case False
    then have j: "unat (pending_read ?q) \<le> j" "j < unat w" using that by auto
    have "holds (((qc_prod c)(p := ?pc)) p') = Some j" if "holds (qc_prod c p') = Some j" for p'
      using that assms(2) by auto
    moreover have "slot_at b ?q (qc_claims c) (qc_prod c) (qc_drain c) j" using inv(10) j assms(4) by simp
    ultimately show ?thesis unfolding slot_at_def old [OF j] by (metis PlcScheduler.select_convs(5-7) PlcScheduler.update_convs(4) PlcScheduler.surjective)
  qed
  moreover have "\<not> pending_ready ?q ! (j mod 32)" if "unat w + 1 \<le> j" "j < unat (pending_read ?q) + 32" for j
    using inv(11) [of j] that assms(4) by simp
  moreover have "holds (((qc_prod c)(p := ?pc)) p') \<noteq> Some (unat (pending_read ?q))" if "bumping (qc_drain c)" for p'
  proof -
    have "unat (pending_read ?q) < unat w"
      using inv(9) that assms(4) by (cases "qc_drain c") (auto simp: drain_at_def Let_def)
    then show ?thesis using inv(12) [OF that, of p'] by auto
  qed
  moreover have "qc_taken c = take (length (qc_taken c)) (map snd ?cl)"
    using inv(3-5,7) by simp
  ultimately show ?thesis using inv(1,2,4,5) wl w1 room assms(4)
    unfolding queue_inv_def at_prod_def Let_def by (simp del: fun_upd_apply)
qed

text \<open>A thread marks its slot ready.\<close>

lemma ready_inv:
  assumes "queue_inv b c" "qc_prod c p = Q_Ready t w"
    and "q' = (qc_sched c)\<lparr>pending_ready := (pending_ready (qc_sched c))[pslot w := True]\<rparr>"
  shows "queue_inv b ((at_prod c p Q_Idle)\<lparr>qc_sched := q'\<rparr>)"
proof -
  let ?q = "qc_sched c" and ?R = "unat (pending_read (qc_sched c))"
  note inv = queue_invD [OF assms(1)]
  have own: "claimed b ?q (qc_claims c) p w t" "pending_tasks ?q ! (unat w mod 32) = t"
    using inv(8) [of p] assms(2) by (auto simp: prod_at_def)
  then have w: "?R \<le> unat w" "unat w < unat (pending_write ?q)" by (simp_all add: claimed_def)
  have same: "pending_read q' = pending_read ?q" "pending_write q' = pending_write ?q"
    "pending_tasks q' = pending_tasks ?q" "length (pending_ready q') = 32"
    using inv(2) by (simp_all add: assms(3))
  have nth: "pending_ready q' ! (k mod 32) = (k mod 32 = unat w mod 32 \<or> pending_ready ?q ! (k mod 32))" for k
    using inv(2) by (simp add: assms(3) pslot_eq nth_list_update)
  have other: "i mod 32 \<noteq> unat w mod 32" if "holds (qc_prod c p') = Some i" "p' \<noteq> p" for p' i
    using holds_unique [OF assms(1) that(1), of p "unat w"] that(2) assms(2) by simp
  have "prod_at b q' (qc_claims c) p' (((qc_prod c)(p := Q_Idle)) p')" for p'
    using inv(8) [of p'] other [of p'] by (cases "qc_prod c p'") (auto simp: prod_at_def claimed_def same nth)
  moreover have "?R mod 32 \<noteq> unat w mod 32" if "bumping (qc_drain c)"
  proof
    assume "?R mod 32 = unat w mod 32"
    then have "?R = unat w" using same_slot [of ?R "unat w" ?R] w inv(6) by simp
    then show False using inv(12) [OF that, of p] assms(2) by simp
  qed
  then have "drain_at b q' (qc_claims c) (qc_drain c)"
    using inv(9) by (cases "qc_drain c") (auto simp: drain_at_def Let_def same nth)
  moreover have "slot_at b q' (qc_claims c) ((qc_prod c)(p := Q_Idle)) (qc_drain c) j"
    if "?R \<le> j" "j < unat (pending_write ?q)" for j
  proof (cases "j = unat w")
    case True
    then show ?thesis using own by (simp add: slot_at_def nth same claimed_def)
  next
    case False
    then have "holds (((qc_prod c)(p := Q_Idle)) p') = Some j" if "holds (qc_prod c p') = Some j" for p'
      using that assms(2) by auto
    then show ?thesis using inv(10) [OF that] unfolding slot_at_def nth same by metis
  qed
  moreover have "\<not> pending_ready q' ! (j mod 32)" if "unat (pending_write ?q) \<le> j" "j < ?R + 32" for j
  proof -
    have "j mod 32 \<noteq> unat w mod 32" using same_slot [of j "unat w" ?R] that w by auto
    then show ?thesis using inv(11) [OF that] by (simp add: nth)
  qed
  moreover have "holds (((qc_prod c)(p := Q_Idle)) p') \<noteq> Some ?R" if "bumping (qc_drain c)" for p'
    using inv(12) [OF that, of p'] by simp
  ultimately show ?thesis using inv(1,3-7)
    unfolding queue_inv_def at_prod_def Let_def by (simp del: fun_upd_apply add: same)
qed

lemma queue_step_inv:
  assumes "queue_step c c'" "queue_inv b c" "b + length (qc_claims c') < 2 ^ 32"
  shows "queue_inv b c'"
  using assms(1)
proof (cases rule: queue_step.cases)
  case (q_load_write p t r)
  then have "unat r \<le> unat (pending_read (qc_sched c))"
    using queue_invD(8) [OF assms(2), of p] by (simp add: prod_at_def)
  then show ?thesis using q_load_write queue_invD(5) [OF assms(2)]
    by (auto intro!: prod_move [OF assms(2)] simp: prod_at_def)
next
  case (q_cas p t r w)
  then show ?thesis using claim_inv [OF assms(2) q_cas(2-4)] assms(3) queue_invD(3) [OF assms(2)]
    by (simp add: at_prod_def)
next
  case (q_field p t w D f)
  then show ?thesis using field_inv [OF assms(2) q_field(2) refl, of f] by simp
next
  case (q_copied p t w)
  have "prod_at b (qc_sched c) (qc_claims c) p (Q_Copy t w UNIV)" using queue_invD(8) [OF assms(2), of p] q_copied by simp
  then have "claimed b (qc_sched c) (qc_claims c) p w t" "pending_tasks (qc_sched c) ! (unat w mod 32) = t"
    by (auto simp: prod_at_def intro: copy_field_all)
  then show ?thesis using q_copied by (auto intro!: prod_move [OF assms(2)] simp: prod_at_def)
next
  case (q_ready p t w)
  then show ?thesis using ready_inv [OF assms(2) q_ready(2) refl] by simp
qed (auto intro!: prod_move [OF assms(2)] simp: prod_at_def)

text \<open>The scheduler clears the flag of the slot it has read, and gives the slot back.\<close>

lemma clear_inv:
  assumes "queue_inv b c" "qc_drain c = D_Clear r w t"
    and "q' = (qc_sched c)\<lparr>pending_ready := (pending_ready (qc_sched c))[pslot r := False]\<rparr>"
  shows "queue_inv b (c\<lparr>qc_drain := D_Bump r w t, qc_sched := q'\<rparr>)"
proof -
  let ?q = "qc_sched c" and ?R = "unat (pending_read (qc_sched c))"
  note inv = queue_invD [OF assms(1)]
  have d: "r = pending_read ?q" "unat w \<le> unat (pending_write ?q)" "?R < unat (pending_write ?q)"
    "pending_ready ?q ! (?R mod 32)" "t = pending_tasks ?q ! (?R mod 32)"
    using inv(9) assms(2) by (auto simp: drain_at_def Let_def)
  have same: "pending_read q' = pending_read ?q" "pending_write q' = pending_write ?q"
    "pending_tasks q' = pending_tasks ?q" "length (pending_ready q') = 32"
    using inv(2) by (simp_all add: assms(3))
  have nth: "pending_ready q' ! (k mod 32) = (k mod 32 \<noteq> ?R mod 32 \<and> pending_ready ?q ! (k mod 32))" for k
    using inv(2) d(1) by (simp add: assms(3) pslot_eq nth_list_update)
  have free: "holds (qc_prod c p) \<noteq> Some ?R" for p
    using holds_claimed(4) [OF inv(8) [of p], of ?R] d(4) by auto
  then have t: "t = snd (qc_claims c ! (?R - b))"
    using inv(10) [of ?R] d assms(2) by (auto simp: slot_at_def)
  have "prod_at b q' (qc_claims c) p (qc_prod c p)" for p
    using inv(8) [of p] by (cases "qc_prod c p") (auto simp: prod_at_def claimed_def nth same)
  moreover have "drain_at b q' (qc_claims c) (D_Bump r w t)"
    using d t by (simp add: drain_at_def Let_def nth same)
  moreover have "slot_at b q' (qc_claims c) (qc_prod c) (D_Bump r w t) j"
    if "?R \<le> j" "j < unat (pending_write ?q)" for j
  proof (cases "j = ?R")
    case False
    then have "j mod 32 \<noteq> ?R mod 32" using same_slot [of j ?R ?R] that inv(6) by auto
    then show ?thesis using inv(10) [OF that] False by (auto simp: slot_at_def nth same)
  qed (simp add: slot_at_def same)
  moreover have "\<not> pending_ready q' ! (j mod 32)" if "unat (pending_write ?q) \<le> j" "j < ?R + 32" for j
    using inv(11) [OF that] by (simp add: nth)
  ultimately show ?thesis using inv(1-7) free
    unfolding queue_inv_def Let_def by (simp add: same)
qed

lemma bump_inv:
  assumes "queue_inv b c" "qc_drain c = D_Bump r w t"
  shows "queue_inv b (c\<lparr>qc_drain := D_Add (r + 1) w t, qc_sched := (qc_sched c)\<lparr>pending_read := r + 1\<rparr>,
      qc_taken := qc_taken c @ [t]\<rparr>)"
proof -
  let ?q = "qc_sched c" and ?q' = "(qc_sched c)\<lparr>pending_read := r + 1\<rparr>"
  let ?R = "unat (pending_read (qc_sched c))"
  note inv = queue_invD [OF assms(1)]
  have d: "r = pending_read ?q" "unat w \<le> unat (pending_write ?q)" "?R < unat (pending_write ?q)"
    "\<not> pending_ready ?q ! (?R mod 32)" "t = snd (qc_claims c ! (?R - b))"
    using inv(9) assms(2) by (auto simp: drain_at_def Let_def)
  have "?R + 1 < 2 ^ 32" using d(3) unat_u32_less [of "pending_write ?q"] by linarith
  then have r1: "unat (r + 1) = ?R + 1" using d(1) by (subst unat_plus_one) simp_all
  have free: "holds (qc_prod c p) \<noteq> Some ?R" for p using inv(12) assms(2) by simp
  have "prod_at b ?q' (qc_claims c) p (qc_prod c p)" for p
    using inv(8) [of p] r1 free [of p]
    by (cases "qc_prod c p") (auto simp: prod_at_def claimed_def intro: le_neq_implies_less Suc_leI)
  moreover have "slot_at b ?q' (qc_claims c) (qc_prod c) (D_Add (r + 1) w t) j"
    if "?R + 1 \<le> j" "j < unat (pending_write ?q)" for j
    using inv(10) [of j] that by (auto simp: slot_at_def)
  moreover have "\<not> pending_ready ?q' ! (j mod 32)" if "unat (pending_write ?q) \<le> j" "j < ?R + 1 + 32" for j
  proof (cases "j = ?R + 32")
    case False
    then show ?thesis using inv(11) [of j] that by simp
  qed (use d(4) in simp)
  moreover have "qc_taken c @ [t] = take (Suc (length (qc_taken c))) (map snd (qc_claims c))"
  proof -
    have "length (qc_taken c) < length (qc_claims c)" "?R - b = length (qc_taken c)" using d(3) inv(3,4) by auto
    then show ?thesis using inv(7) d(5) by (simp add: take_Suc_conv_app_nth)
  qed
  ultimately show ?thesis using inv(1-4,6) d(2,3) r1
    unfolding queue_inv_def Let_def by (simp add: drain_at_def Let_def)
qed

lemma add_internal_queue [simp]:
  "pending_tasks (snd (plc_scheduler_add_task_internal s t)) = pending_tasks s"
  "pending_ready (snd (plc_scheduler_add_task_internal s t)) = pending_ready s"
  by (simp_all add: plc_scheduler_add_task_internal_def)

lemma add_inv:
  assumes "queue_inv b c" "qc_drain c = D_Add r w t"
  shows "queue_inv b (c\<lparr>qc_drain := D_Loop r w, qc_sched := snd (plc_scheduler_add_task_internal (qc_sched c) t)\<rparr>)"
proof -
  let ?q' = "snd (plc_scheduler_add_task_internal (qc_sched c) t)"
  have "drain_at b (qc_sched c) (qc_claims c) (D_Loop r w)"
    using queue_invD(9) [OF assms(1)] assms(2) by (simp add: drain_at_def Let_def)
  then have "queue_inv b (c\<lparr>qc_drain := D_Loop r w\<rparr>)" by (rule drain_move [OF assms(1)]) (simp add: assms(2))
  moreover have "claimed b ?q' = claimed b (qc_sched c)" by (intro ext) (simp add: claimed_def)
  then have "prod_at b ?q' = prod_at b (qc_sched c)" by (intro ext) (simp add: prod_at_def split: queue_pc.split)
  moreover have "drain_at b ?q' = drain_at b (qc_sched c)" by (intro ext) (simp add: drain_at_def Let_def split: drain_pc.split)
  moreover have "slot_at b ?q' = slot_at b (qc_sched c)" by (intro ext) (simp add: slot_at_def)
  ultimately show ?thesis by (simp add: queue_inv_def Let_def)
qed

lemma drain_step_inv:
  assumes "drain_step c c'" "queue_inv b c"
  shows "queue_inv b c'"
  using assms(1)
proof (cases rule: drain_step.cases)
  case (d_load_write r)
  then show ?thesis using queue_invD(9) [OF assms(2)]
    by (auto intro!: drain_move [OF assms(2)] simp: drain_at_def Let_def)
next
  case (d_begin r w t)
  then have "drain_at b (qc_sched c) (qc_claims c) (D_Copy r w t {})"
    using queue_invD(9) [OF assms(2)] by (simp add: drain_at_def Let_def pslot_eq word_less_nat_alt)
  then show ?thesis using drain_move [OF assms(2)] d_begin by simp
next
  case (d_field r w t D f)
  then have "drain_at b (qc_sched c) (qc_claims c)
      (D_Copy r w (copy_field f (pending_tasks (qc_sched c) ! pslot r) t) (insert f D))"
    using queue_invD(9) [OF assms(2)] by (auto simp: drain_at_def Let_def pslot_eq copy_field_keeps)
  then show ?thesis using drain_move [OF assms(2)] d_field by simp
next
  case (d_copied r w t)
  then have "drain_at b (qc_sched c) (qc_claims c) (D_Clear r w t)"
    using queue_invD(9) [OF assms(2)] by (auto intro: copy_field_all simp: drain_at_def Let_def)
  then show ?thesis using drain_move [OF assms(2)] d_copied by simp
next
  case (d_clear r w t)
  then show ?thesis using clear_inv [OF assms(2) d_clear(2) refl] by simp
next
  case (d_bump r w t)
  then show ?thesis using bump_inv [OF assms(2)] by simp
next
  case (d_add r w t)
  then show ?thesis using add_inv [OF assms(2)] by simp
qed (auto intro!: drain_move [OF assms(2)] simp: drain_at_def Let_def)

lemma queue_start_inv:
  assumes "pending_is s []" "\<forall>k<32. \<not> pending_ready s ! k"
  shows "queue_inv (unat (pending_read s)) (queue_start s)"
  using assms by (auto simp: queue_inv_def Let_def queue_start_def pending_is_def MAX_PENDING_def prod_at_def drain_at_def)

lemma queue_run_inv:
  assumes "queue_run s c" "pending_is s []" "\<forall>k<32. \<not> pending_ready s ! k"
    and "unat (pending_read s) + length (qc_claims c) < 2 ^ 32"
  shows "queue_inv (unat (pending_read s)) c"
  using assms(1,4)
proof (induction rule: queue_run.induct)
  case qrun_start
  then show ?case using queue_start_inv [OF assms(2,3)] by simp
next
  case (qrun_queue c c')
  then have "length (qc_claims c) \<le> length (qc_claims c')" by (auto elim!: queue_step.cases simp: at_prod_def)
  then show ?case using qrun_queue queue_step_inv by simp
next
  case (qrun_drain c c')
  then have "qc_claims c' = qc_claims c" by (auto elim!: drain_step.cases)
  then show ?case using qrun_drain drain_step_inv by simp
qed

text \<open>The table of tasks holds what has been taken, but for a task that is about to be added.\<close>

abbreviation add_all :: "PlcTask list \<Rightarrow> PlcScheduler \<Rightarrow> PlcScheduler" where
  "add_all ts s \<equiv> fold (\<lambda>t s. snd (plc_scheduler_add_task_internal s t)) ts s"

fun adding :: "drain_pc \<Rightarrow> PlcTask list" where
  "adding (D_Add r w t) = [t]"
| "adding pc = []"

definition table_inv :: "PlcScheduler \<Rightarrow> QueueConc \<Rightarrow> bool" where
  "table_inv s c \<longleftrightarrow> (\<exists>ts. qc_taken c = ts @ adding (qc_drain c) \<and> tasks (qc_sched c) = tasks (add_all ts s)
     \<and> task_count (qc_sched c) = task_count (add_all ts s))"

lemma queue_run_table: "queue_run s c \<Longrightarrow> table_inv s c"
proof (induction rule: queue_run.induct)
  case qrun_start
  show ?case by (simp add: table_inv_def queue_start_def)
next
  case (qrun_queue c c')
  then show ?case by (auto elim!: queue_step.cases simp: at_prod_def table_inv_def)
next
  case (qrun_drain c c')
  from qrun_drain(2) show ?case
  proof (cases rule: drain_step.cases)
    case (d_add r w t)
    obtain ts where ts: "qc_taken c = ts @ [t]" "tasks (qc_sched c) = tasks (add_all ts s)"
      "task_count (qc_sched c) = task_count (add_all ts s)"
      using qrun_drain.IH d_add by (auto simp: table_inv_def)
    then show ?thesis using d_add add_internal_cong [OF ts(2,3), of t] by (auto simp: table_inv_def)
  qed (use qrun_drain.IH in \<open>auto simp: table_inv_def\<close>)
qed

section \<open>One thread alone\<close>

text \<open>
  Run without interruption the steps of a thread are the function
  \<^verbatim>\<open>plc_scheduler_queue_task\<close>.
\<close>

lemma copy_fields:
  "distinct fs \<Longrightarrow> set fs \<inter> D = {} \<Longrightarrow> qc_prod c p = Q_Copy t w D \<Longrightarrow> length (pending_tasks (qc_sched c)) = 32 \<Longrightarrow>
     queue_step\<^sup>*\<^sup>* c ((at_prod c p (Q_Copy t w (D \<union> set fs)))\<lparr>qc_sched := (qc_sched c)\<lparr>pending_tasks :=
       (pending_tasks (qc_sched c))[pslot w := fold (\<lambda>f. copy_field f t) fs (pending_tasks (qc_sched c) ! pslot w)]\<rparr>\<rparr>)"
proof (induction fs arbitrary: c D)
  case Nil
  then show ?case by (simp add: at_prod_def fun_upd_idem)
next
  case (Cons f fs)
  let ?c = "(at_prod c p (Q_Copy t w (insert f D)))\<lparr>qc_sched := (qc_sched c)\<lparr>pending_tasks :=
      (pending_tasks (qc_sched c))[pslot w := copy_field f t (pending_tasks (qc_sched c) ! pslot w)]\<rparr>\<rparr>"
  have "queue_step c ?c" using q_field [OF Cons.prems(3)] Cons.prems(2) by simp
  moreover have "pslot w < 32" by (simp add: pslot_eq)
  then have "queue_step\<^sup>*\<^sup>* ?c ((at_prod c p (Q_Copy t w (D \<union> set (f # fs))))\<lparr>qc_sched := (qc_sched c)\<lparr>pending_tasks :=
       (pending_tasks (qc_sched c))[pslot w := fold (\<lambda>f. copy_field f t) (f # fs) (pending_tasks (qc_sched c) ! pslot w)]\<rparr>\<rparr>)"
    using Cons.IH [of "insert f D" ?c] Cons.prems by (simp add: at_prod_def insert_commute)
  ultimately show ?case by (rule converse_rtranclp_into_rtranclp)
qed

lemma queue_alone:
  assumes "qc_prod c p = Q_Idle" "length (pending_tasks (qc_sched c)) = 32"
  obtains c' where "queue_step\<^sup>*\<^sup>* c c'" "qc_sched c' = snd (plc_scheduler_queue_task (qc_sched c) t)"
    "qc_prod c' = qc_prod c" "qc_drain c' = qc_drain c" "qc_taken c' = qc_taken c"
    "qc_claims c' = qc_claims c @ (if fst (plc_scheduler_queue_task (qc_sched c) t) = 0 then [(p, t)] else [])"
proof -
  let ?q = "qc_sched c"
  let ?r = "pending_read ?q" and ?w = "pending_write ?q"
  have 1: "queue_step c (at_prod c p (Q_Top t))" by (rule q_call [OF assms(1)])
  have 2: "queue_step (at_prod c p (Q_Top t)) (at_prod c p (Q_Read t ?r))"
    using q_load_read [of "at_prod c p (Q_Top t)" p t] by (simp add: at_prod_def)
  have 3: "queue_step (at_prod c p (Q_Read t ?r)) (at_prod c p (Q_Check t ?r ?w))"
    using q_load_write [of "at_prod c p (Q_Read t ?r)" p t ?r] by (simp add: at_prod_def)
  have pre: "queue_step\<^sup>*\<^sup>* c (at_prod c p (Q_Check t ?r ?w))" using 1 2 3 by simp
  show thesis
  proof (cases "of_nat MAX_PENDING \<le> ?w - ?r")
    case True
    then have "queue_step (at_prod c p (Q_Check t ?r ?w)) (at_prod c p Q_Idle)"
      using q_full [of "at_prod c p (Q_Check t ?r ?w)" p t ?r ?w] by (simp add: at_prod_def)
    with pre have "queue_step\<^sup>*\<^sup>* c (at_prod c p Q_Idle)" by (rule rtranclp.rtrancl_into_rtrancl)
    then show thesis using True assms(1) by (intro that) (simp_all add: at_prod_def fun_upd_idem plc_scheduler_queue_task_def)
  next
    case False
    let ?c1 = "(at_prod c p (Q_Copy t ?w {}))\<lparr>qc_sched := ?q\<lparr>pending_write := ?w + 1\<rparr>, qc_claims := qc_claims c @ [(p, t)]\<rparr>"
    let ?fs = "[F_name, F_fn, F_ctx, F_period, F_phase, F_last, F_policy]"
    let ?q2 = "?q\<lparr>pending_write := ?w + 1, pending_tasks := (pending_tasks ?q)[pslot ?w := t]\<rparr>"
    let ?c2 = "?c1\<lparr>qc_prod := (qc_prod c)(p := Q_Copy t ?w UNIV), qc_sched := ?q2\<rparr>"
    let ?c3 = "?c2\<lparr>qc_prod := (qc_prod c)(p := Q_Ready t ?w)\<rparr>"
    let ?c4 = "?c2\<lparr>qc_prod := (qc_prod c)(p := Q_Idle), qc_sched := ?q2\<lparr>pending_ready := (pending_ready ?q)[pslot ?w := True]\<rparr>\<rparr>"
    have all: "set ?fs = UNIV" by (auto intro: task_field.exhaust)
    have "?w - ?r < of_nat MAX_PENDING" using False by simp
    then have 4: "queue_step (at_prod c p (Q_Check t ?r ?w)) ?c1"
      using q_cas [of "at_prod c p (Q_Check t ?r ?w)" p t ?r ?w] by (simp add: at_prod_def)
    have whole: "fold (\<lambda>f. copy_field f t) ?fs x = t" for x by (cases x; cases t; simp)
    have "queue_step\<^sup>*\<^sup>* ?c1 ((at_prod ?c1 p (Q_Copy t ?w ({} \<union> set ?fs)))\<lparr>qc_sched := (qc_sched ?c1)\<lparr>pending_tasks :=
       (pending_tasks (qc_sched ?c1))[pslot ?w := fold (\<lambda>f. copy_field f t) ?fs (pending_tasks (qc_sched ?c1) ! pslot ?w)]\<rparr>\<rparr>)"
      by (rule copy_fields) (use assms(2) in \<open>simp_all add: at_prod_def\<close>)
    then have 5: "queue_step\<^sup>*\<^sup>* ?c1 ?c2" unfolding whole all by (simp add: at_prod_def)
    have 6: "queue_step ?c2 ?c3" using q_copied [of ?c2 p t ?w] by (simp add: at_prod_def)
    have 7: "queue_step ?c3 ?c4" using q_ready [of ?c3 p t ?w] by (simp add: at_prod_def)
    have "queue_step\<^sup>*\<^sup>* c ?c4" using pre 4 5 6 7 by (meson rtranclp.rtrancl_into_rtrancl rtranclp_trans)
    then show thesis using False assms(1)
      by (intro that [of ?c4]) (simp_all add: at_prod_def fun_upd_idem plc_scheduler_queue_task_def Let_def pslot_def)
  qed
qed

lemma queue_run_steps: "queue_step\<^sup>*\<^sup>* c c' \<Longrightarrow> queue_run s c \<Longrightarrow> queue_run s c'"
  by (induction rule: rtranclp_induct) (auto intro: qrun_queue)

section \<open>Properties\<close>

lemma idle_pending:
  assumes "queue_inv b c" "qc_drain c = D_Idle" "\<forall>p. qc_prod c p = Q_Idle" "unat (pending_write (qc_sched c)) < 2 ^ 32"
  shows "pending_is (qc_sched c) (drop (length (qc_taken c)) (map snd (qc_claims c)))"
proof -
  let ?q = "qc_sched c" and ?n = "length (qc_taken c)"
  note inv = queue_invD [OF assms(1)]
  have "pending_tasks ?q ! ((unat (pending_read ?q) + j) mod 32) = drop ?n (map snd (qc_claims c)) ! j
      \<and> pending_ready ?q ! ((unat (pending_read ?q) + j) mod 32)" if "j < length (qc_claims c) - ?n" for j
    using inv(10) [of "unat (pending_read ?q) + j"] that assms(2,3) inv(3,4)
    by (auto simp: slot_at_def nth_append)
  then show ?thesis using inv(1-6) assms(4) by (simp add: pending_is_def MAX_PENDING_def)
qed

text \<open>
  C36. Any number of threads may add tasks while the scheduler runs, however their calls and the
  scheduler's draining of the queue interleave, down to the members of the copied structs. The scheduler takes the
  tasks in the order in which their slots were claimed, each exactly once and never half
  copied, at most 32 are waiting, and the table of tasks is what adding the taken ones in this order
  gives. When no call is in progress, the next drain takes all that are waiting. This holds as
  long as the 32-bit index does not wrap around.
\<close>

theorem sched_queue_concurrent:
  assumes "queue_run s c" "pending_is s []" "\<forall>k<32. \<not> pending_ready s ! k"
    and "unat (pending_read s) + length (qc_claims c) < 2 ^ 32"
  shows "qc_taken c = take (length (qc_taken c)) (map snd (qc_claims c))
    \<and> length (qc_claims c) \<le> length (qc_taken c) + 32
    \<and> (qc_drain c = D_Idle \<longrightarrow> tasks (qc_sched c) = tasks (add_all (qc_taken c) s)
         \<and> task_count (qc_sched c) = task_count (add_all (qc_taken c) s))
    \<and> (qc_drain c = D_Idle \<and> (\<forall>p. qc_prod c p = Q_Idle) \<longrightarrow>
         (let s' = plc_scheduler_drain_pending (qc_sched c) in
            tasks s' = tasks (add_all (map snd (qc_claims c)) s)
            \<and> task_count s' = task_count (add_all (map snd (qc_claims c)) s) \<and> pending_is s' []))"
proof -
  have inv: "queue_inv (unat (pending_read s)) c" by (rule queue_run_inv [OF assms])
  note i = queue_invD [OF inv]
  have fifo: "qc_taken c = take (length (qc_taken c)) (map snd (qc_claims c))" by (rule i(7))
  have tab: "tasks (qc_sched c) = tasks (add_all (qc_taken c) s)" "task_count (qc_sched c) = task_count (add_all (qc_taken c) s)"
    if "qc_drain c = D_Idle"
    using queue_run_table [OF assms(1)] that by (auto simp: table_inv_def)
  have "let s' = plc_scheduler_drain_pending (qc_sched c) in
      tasks s' = tasks (add_all (map snd (qc_claims c)) s)
      \<and> task_count s' = task_count (add_all (map snd (qc_claims c)) s) \<and> pending_is s' []"
    if "qc_drain c = D_Idle" "\<forall>p. qc_prod c p = Q_Idle"
  proof -
    have "qc_taken c @ drop (length (qc_taken c)) (map snd (qc_claims c)) = map snd (qc_claims c)"
      using fifo by (metis append_take_drop_id)
    then have "add_all (drop (length (qc_taken c)) (map snd (qc_claims c))) (add_all (qc_taken c) s)
        = add_all (map snd (qc_claims c)) s" by (metis comp_apply fold_append)
    then show ?thesis
      using drain_all [OF idle_pending [OF inv that] tab [OF that(1)]] i(3) assms(4)
      by (simp add: plc_scheduler_drain_pending_def Let_def)
  qed
  then show ?thesis using fifo tab i(3-6) by auto
qed

lemma sched_queue_concurrent_witness:
  "\<exists>c. queue_run (demo_sched 0) c \<and> qc_taken c = [] \<and> map snd (qc_claims c) = [demo_task 0 PLC_TASK_ALWAYS_RUN]
     \<and> task_count (plc_scheduler_drain_pending (qc_sched c)) = 1 + task_count (demo_sched 0)"
proof -
  let ?t = "demo_task 0 PLC_TASK_ALWAYS_RUN" and ?s = "demo_sched 0"
  have ok: "pending_is ?s []" "\<forall>k<32. \<not> pending_ready ?s ! k" "fst (plc_scheduler_queue_task ?s ?t) = 0"
    "task_count (add_all [?t] ?s) = 1 + task_count ?s" "unat (pending_read ?s) = 0"
    by (simp_all add: pending_is_def demo_sched_def MAX_PENDING_def plc_scheduler_queue_task_def demo_task_def
        plc_scheduler_add_task_internal_def MAX_TASKS_def Let_def)
  obtain c where c: "queue_step\<^sup>*\<^sup>* (queue_start ?s) c" "qc_prod c = (\<lambda>_. Q_Idle)" "qc_drain c = D_Idle"
    "qc_taken c = []" "qc_claims c = [(0, ?t)]"
    using queue_alone [of "queue_start ?s" 0 ?t] ok by (auto simp: queue_start_def pending_is_def MAX_PENDING_def)
  have run: "queue_run ?s c" by (rule queue_run_steps [OF c(1) qrun_start])
  then show ?thesis
    using sched_queue_concurrent [OF run ok(1,2)] c ok(4,5) by (intro exI [of _ c]) (simp add: Let_def)
qed

end
