(* ===== verification/System_Builder.thy ===== *)
theory System_Builder
  imports Tag_Api
begin

text \<open>
  Building the runtime from a configuration: \<^verbatim>\<open>system/builder/system_builder.c\<close> and the
  configuration types of \<^verbatim>\<open>app/config/config_static.h\<close>. The device descriptors and the
  backend factories are arguments. A \<open>goto cleanup\<close> is the value \<open>False\<close>; the last drivers'
  states that the cleanup destroys are returned as a list, so that what happens to them can
  be stated.
\<close>

section \<open>Configuration\<close>

record ProcessVarDesc =
  pv_name :: string
  pv_type :: TagType
  pv_initial :: TagValue
  pv_retain :: bool

datatype HmiAccess = HMI_RO | HMI_RW | HMI_ACCESS_OTHER u8

text \<open>The kind of an HMI tag with the union member it selects.\<close>

datatype HmiTagKind =
    HMI_TAG_ALIAS "string option"
  | HMI_TAG_VAR TagType TagValue bool
  | HMI_TAG_OTHER int

record HmiTagDesc =
  hd_name :: string
  hd_access :: HmiAccess
  hd_kind :: HmiTagKind

definition hmi_access_code :: "HmiAccess \<Rightarrow> u8" where
  "hmi_access_code a = (case a of HMI_RO \<Rightarrow> 0 | HMI_RW \<Rightarrow> 1 | HMI_ACCESS_OTHER n \<Rightarrow> n)"

record SystemConfig =
  sc_backends :: "BackendConfig list option"
  sc_backend_count :: nat
  sc_devices :: "DeviceConfig list option"
  sc_device_count :: nat
  sc_process_vars :: "ProcessVarDesc list option"
  sc_process_var_count :: nat
  sc_hmi_tags :: "HmiTagDesc list option"
  sc_hmi_tag_count :: nat
  sc_base_cycle_ms :: u32

text \<open>The entries of an array the code walks: the first \<open>count\<close> ones.\<close>

definition cfg_backends :: "SystemConfig \<Rightarrow> BackendConfig list" where
  "cfg_backends c = take (sc_backend_count c) (case sc_backends c of None \<Rightarrow> [] | Some l \<Rightarrow> l)"

definition cfg_devices :: "SystemConfig \<Rightarrow> DeviceConfig list" where
  "cfg_devices c = take (sc_device_count c) (case sc_devices c of None \<Rightarrow> [] | Some l \<Rightarrow> l)"

section \<open>Looking up backends\<close>

fun find_backend_scan :: "BackendConfig list \<Rightarrow> string \<Rightarrow> nat \<Rightarrow> nat option" where
  "find_backend_scan [] n i = None"
| "find_backend_scan (b # bs) n i = (if bc_name b = Some n then Some i else find_backend_scan bs n (Suc i))"

definition find_backend_index :: "SystemConfig \<Rightarrow> string option \<Rightarrow> u16 option" where
  "find_backend_index config backend_name =
     (case backend_name of None \<Rightarrow> None
      | Some n \<Rightarrow> map_option of_nat (find_backend_scan (cfg_backends config) n 0))"

text \<open>The position of a device among those of its backend: \<open>i\<close> is the array index, \<open>count\<close> the position.\<close>

fun device_scan :: "DeviceConfig list \<Rightarrow> nat \<Rightarrow> string \<Rightarrow> nat \<Rightarrow> u16 \<Rightarrow> u16 option" where
  "device_scan [] target n i count = None"
| "device_scan (d # ds) target n i count =
     (if dc_backend d = Some n
      then if i = target then Some count else device_scan ds target n (Suc i) (count + 1)
      else device_scan ds target n (Suc i) count)"

definition find_backend_device_index :: "SystemConfig \<Rightarrow> nat \<Rightarrow> string option \<Rightarrow> u16 option" where
  "find_backend_device_index config device_index backend_name =
     (case backend_name of None \<Rightarrow> None
      | Some n \<Rightarrow> device_scan (cfg_devices config) device_index n 0 0)"

section \<open>Tags of a device\<close>

definition builder_type_size :: "TagType \<Rightarrow> u32" where
  "builder_type_size ty = (case ty of TAG_T_U8 \<Rightarrow> 1 | TAG_T_U16 \<Rightarrow> 2 | TAG_T_U32 \<Rightarrow> 4 | TAG_T_REAL \<Rightarrow> 4 | _ \<Rightarrow> 0)"

definition validate_tag_desc :: "TagDesc \<Rightarrow> DeviceDesc \<Rightarrow> int" where
  "validate_tag_desc td desc =
     (if td_name td = None then -1
      else if td_dir td \<noteq> TAGDIR_IN \<and> td_dir td \<noteq> TAGDIR_OUT then -1
      else
        let io_size = (if td_dir td = TAGDIR_IN then tx_bytes desc else rx_bytes desc) in
        if io_size = 0 then -1
        else if td_type td = TAG_T_BOOL then
          if 8 \<le> td_bit_index td then -1 else if io_size \<le> td_offset_byte td then -1 else 0
        else if td_bit_index td \<noteq> 0 then -1
        else
          let type_size = builder_type_size (td_type td) in
          if type_size = 0 then -1
          else
            let end_offset = td_offset_byte td + type_size in
            if io_size < end_offset then -1 else 0)"

text \<open>\<^verbatim>\<open>snprintf(entry.full_name_storage, 128, "%s.%s", prefix, name)\<close> and its length check.\<close>

definition build_name :: "string \<Rightarrow> string \<Rightarrow> string option" where
  "build_name prefix name =
     (let (s, rc) = snprintf NAME_STORAGE (prefix @ ''.'' @ name) in if NAME_STORAGE \<le> rc then None else Some s)"

definition device_entry :: "string \<Rightarrow> TagDesc \<Rightarrow> u16 \<Rightarrow> u16 \<Rightarrow> TagEntry" where
  "device_entry full td backend_index device_backend_index =
     \<lparr>full_name = Some full, te_type = td_type td,
      te_ref = REF_IO \<lparr>io_device_index = device_backend_index, io_backend_index = backend_index,
        io_dir = td_dir td, io_byte_offset = td_offset_byte td, io_bit = td_bit_index td\<rparr>\<rparr>"

fun device_tags_loop ::
  "TagDesc list \<Rightarrow> DeviceDesc \<Rightarrow> string \<Rightarrow> u16 \<Rightarrow> u16 \<Rightarrow> TagTable \<Rightarrow> int \<times> TagTable"
where
  "device_tags_loop [] desc name bi di t = (0, t)"
| "device_tags_loop (td # tds) desc name bi di t =
     (if validate_tag_desc td desc \<noteq> 0 then (-1, t)
      else
        case build_name name (case td_name td of None \<Rightarrow> [] | Some n \<Rightarrow> n) of
          None \<Rightarrow> (-1, t)
        | Some full \<Rightarrow>
            let (rc, t') = tag_table_add t (device_entry full td bi di) in
            if rc \<noteq> 0 then (-1, t') else device_tags_loop tds desc name bi di t')"

definition system_build_tags_for_device ::
  "SystemConfig \<Rightarrow> nat \<Rightarrow> u16 \<Rightarrow> u16 \<Rightarrow> DeviceDesc \<Rightarrow> TagTable \<Rightarrow> int \<times> TagTable"
where
  "system_build_tags_for_device config device_index backend_index device_backend_index desc t =
     (if sc_device_count config \<le> device_index then (-1, t)
      else
        case dc_name (cfg_devices config ! device_index) of
          None \<Rightarrow> (-1, t)
        | Some name \<Rightarrow>
            (case tags desc of
               None \<Rightarrow> if 0 < tag_count desc then (-1, t) else (0, t)
             | Some tds \<Rightarrow>
                 device_tags_loop (take (unat (tag_count desc)) tds) desc name backend_index device_backend_index t))"

section \<open>The phases of \<open>system_build\<close>\<close>

text \<open>The checks before anything is touched.\<close>

fun check_devices :: "DeviceDesc option list \<Rightarrow> SystemConfig \<Rightarrow> DeviceConfig list \<Rightarrow> bool" where
  "check_devices descs config [] = True"
| "check_devices descs config (d # ds) =
     (case (dc_backend d, dc_model d) of
        (Some b, Some m) \<Rightarrow>
          if find_backend_scan (cfg_backends config) b 0 = None then False
          else if device_registry_find_in descs (Some m) = None then False
          else check_devices descs config ds
      | _ \<Rightarrow> False)"

text \<open>The bytes of the process image of one backend, with the extra byte per device.\<close>

fun iomap_size_loop :: "DeviceDesc option list \<Rightarrow> string \<Rightarrow> DeviceConfig list \<Rightarrow> nat \<Rightarrow> nat option" where
  "iomap_size_loop descs backend [] acc = Some acc"
| "iomap_size_loop descs backend (d # ds) acc =
     (case device_registry_find_in descs (dc_model d) of
        None \<Rightarrow> None
      | Some desc \<Rightarrow>
          iomap_size_loop descs backend ds
            (if dc_backend d = Some backend then acc + unat (rx_bytes desc) + unat (tx_bytes desc) + 1 else acc))"

fun bind_loop ::
  "DeviceDesc option list \<Rightarrow> string \<Rightarrow> ('d \<Rightarrow> DeviceConfig \<Rightarrow> DeviceDesc \<Rightarrow> int \<times> 'd) \<Rightarrow> DeviceConfig list \<Rightarrow> 'd \<Rightarrow> bool \<times> 'd"
where
  "bind_loop descs backend bind [] d = (True, d)"
| "bind_loop descs backend bind (dev # devs) d =
     (case device_registry_find_in descs (dc_model dev) of
        None \<Rightarrow> (False, d)
      | Some desc \<Rightarrow>
          if dc_backend dev = Some backend then
            let (rc, d') = bind d dev desc in
            if rc \<noteq> 0 then (False, d') else bind_loop descs backend bind devs d'
          else bind_loop descs backend bind devs d)"

text \<open>Init, bind and finalize of a new driver: its implementation afterwards.\<close>

definition bring_up ::
  "DeviceDesc option list \<Rightarrow> SystemConfig \<Rightarrow> string \<Rightarrow> 'd BackendDriver \<Rightarrow> bool \<times> 'd"
where
  "bring_up descs config backend drv =
     (case drv_ops drv of
        None \<Rightarrow> (False, drv_impl drv)
      | Some ops \<Rightarrow>
          (case (op_init ops, op_bind ops, op_finalize ops) of
             (Some init, Some bind, Some finalize) \<Rightarrow>
               let (rc, d1) = init (drv_impl drv) in
               if rc \<noteq> 0 then (False, d1)
               else
                 let (ok, d2) = bind_loop descs backend bind (cfg_devices config) d1 in
                 if \<not> ok then (False, d2)
                 else let (rc3, d3) = finalize d2 in (rc3 = 0, d3)
           | _ \<Rightarrow> (False, drv_impl drv)))"

definition build_backend ::
  "DeviceDesc option list \<Rightarrow> 'd BackendFactoryEntry list \<Rightarrow> SystemConfig \<Rightarrow> nat \<Rightarrow> 'd Runtime \<Rightarrow> bool \<times> 'd Runtime"
where
  "build_backend descs factories config i rt =
     (let cfg = cfg_backends config ! i in
      case (bc_name cfg, bc_ifname cfg) of
        (Some name, Some ifn) \<Rightarrow>
          (case iomap_size_loop descs name (cfg_devices config) 0 of
             None \<Rightarrow> (False, rt)
           | Some size0 \<Rightarrow>
               let size = (if size0 = 0 then 256 else size0) in
               (case backend_create factories (Some cfg) i (sc_device_count config) size of
                  None \<Rightarrow> (False, rt)
                | Some drv \<Rightarrow>
                    let k = backend_count rt;
                        rt1 = (set_driver rt k drv)\<lparr>backend_count := k + 1, backends_set := True\<rparr>;
                        (ok, d) = bring_up descs config name drv
                    in (ok, set_driver rt1 k (set_impl drv d))))
      | _ \<Rightarrow> (False, rt))"

text \<open>\<open>n\<close> backends left, from index \<open>i\<close> on.\<close>

primrec build_backends ::
  "DeviceDesc option list \<Rightarrow> 'd BackendFactoryEntry list \<Rightarrow> SystemConfig \<Rightarrow> nat \<Rightarrow> nat \<Rightarrow> 'd Runtime \<Rightarrow> bool \<times> 'd Runtime"
where
  "build_backends descs factories config 0 i rt = (True, rt)"
| "build_backends descs factories config (Suc n) i rt =
     (let (ok, rt1) = build_backend descs factories config i rt in
      if \<not> ok then (False, rt1) else build_backends descs factories config n (Suc i) rt1)"

text \<open>Process variables, with \<open>i\<close> the index of the first; the count is set at the end.\<close>

fun proc_loop :: "ProcessVarDesc list \<Rightarrow> nat \<Rightarrow> TagTable \<times> ProcessStore \<Rightarrow> bool \<times> TagTable \<times> ProcessStore" where
  "proc_loop [] i (t, st) = (True, t, st)"
| "proc_loop (p # ps) i (t, st) =
     (case build_name ''proc'' (pv_name p) of
        None \<Rightarrow> (False, t, st)
      | Some full \<Rightarrow>
          let (rc, t1) = tag_table_add t \<lparr>full_name = Some full, te_type = pv_type p, te_ref = REF_PROC (of_nat i)\<rparr> in
          if rc \<noteq> 0 then (False, t1, st)
          else proc_loop ps (Suc i) (t1, st\<lparr>st_values := (st_values st)[i := zero_value\<lparr>sv_type := pv_type p\<rparr>]\<rparr>))"

definition build_proc :: "SystemConfig \<Rightarrow> TagTable \<times> ProcessStore \<Rightarrow> bool \<times> TagTable \<times> ProcessStore" where
  "build_proc config ts =
     (case sc_process_vars config of
        None \<Rightarrow> (sc_process_var_count config = 0, ts)
      | Some ps \<Rightarrow>
          if STORE_SIZE < sc_process_var_count config then (False, ts)
          else
            let (ok, t, st) = proc_loop (take (sc_process_var_count config) ps) 0 ts in
            if \<not> ok then (False, t, st) else (True, t, st\<lparr>st_count := sc_process_var_count config\<rparr>))"

text \<open>HMI tags, with \<open>v\<close> the number of variables so far.\<close>

fun hmi_loop :: "HmiTagDesc list \<Rightarrow> nat \<Rightarrow> TagTable \<times> HmiStore \<Rightarrow> bool \<times> nat \<times> TagTable \<times> HmiStore" where
  "hmi_loop [] v (t, st) = (True, v, t, st)"
| "hmi_loop (h # hs) v (t, st) =
     (case build_name ''hmi'' (hd_name h) of
        None \<Rightarrow> (False, v, t, st)
      | Some full \<Rightarrow>
          (case hd_kind h of
             HMI_TAG_ALIAS alias_of \<Rightarrow>
               (case alias_of of
                  None \<Rightarrow> (False, v, t, st)
                | Some target \<Rightarrow>
                    let target_id = tag_table_find_id t (Some target) in
                    if target_id = 0 then (False, v, t, st)
                    else
                      (case tag_table_get t target_id of
                         None \<Rightarrow> (False, v, t, st)
                       | Some target_entry \<Rightarrow>
                           let (rc, t1) = tag_table_add t \<lparr>full_name = Some full, te_type = te_type target_entry,
                                 te_ref = REF_HMI_ALIAS target_id (hmi_access_code (hd_access h))\<rparr> in
                           if rc \<noteq> 0 then (False, v, t1, st) else hmi_loop hs v (t1, st)))
           | HMI_TAG_VAR ty initial retain \<Rightarrow>
               if STORE_SIZE \<le> v then (False, v, t, st)
               else
                 let st1 = st\<lparr>st_values := (st_values st)[v := zero_value\<lparr>sv_type := ty\<rparr>]\<rparr>;
                     (rc, t1) = tag_table_add t \<lparr>full_name = Some full, te_type = ty,
                       te_ref = REF_HMI_VAR (of_nat v) (hmi_access_code (hd_access h))\<rparr>
                 in if rc \<noteq> 0 then (False, Suc v, t1, st1) else hmi_loop hs (Suc v) (t1, st1)
           | HMI_TAG_OTHER k \<Rightarrow> (False, v, t, st)))"

definition build_hmi :: "SystemConfig \<Rightarrow> TagTable \<times> HmiStore \<Rightarrow> bool \<times> TagTable \<times> HmiStore" where
  "build_hmi config ts =
     (case sc_hmi_tags config of
        None \<Rightarrow> (sc_hmi_tag_count config = 0, ts)
      | Some hs \<Rightarrow>
          let (ok, v, t, st) = hmi_loop (take (sc_hmi_tag_count config) hs) 0 ts in
          if \<not> ok then (False, t, st) else (True, t, st\<lparr>st_count := v\<rparr>))"

text \<open>The tags of the devices from index \<open>i\<close> on.\<close>

fun devices_loop :: "DeviceDesc option list \<Rightarrow> SystemConfig \<Rightarrow> DeviceConfig list \<Rightarrow> nat \<Rightarrow> TagTable \<Rightarrow> bool \<times> TagTable" where
  "devices_loop descs config [] i t = (True, t)"
| "devices_loop descs config (d # ds) i t =
     (case device_registry_find_in descs (dc_model d) of
        None \<Rightarrow> (False, t)
      | Some desc \<Rightarrow>
          (case find_backend_index config (dc_backend d) of
             None \<Rightarrow> (False, t)
           | Some bi \<Rightarrow>
               (case find_backend_device_index config i (dc_backend d) of
                  None \<Rightarrow> (False, t)
                | Some di \<Rightarrow>
                    let (rc, t1) = system_build_tags_for_device config i bi di desc t in
                    if rc \<noteq> 0 then (False, t1) else devices_loop descs config ds (Suc i) t1)))"

text \<open>Everything after the backends: the tag table and the two stores.\<close>

definition build_tags ::
  "DeviceDesc option list \<Rightarrow> SystemConfig \<Rightarrow> TagTable \<times> ProcessStore \<times> HmiStore \<Rightarrow> bool \<times> TagTable \<times> ProcessStore \<times> HmiStore"
where
  "build_tags descs config = (\<lambda>(t, ps, hs).
     let (ok1, t1, ps1) = build_proc config (t, ps) in
     if \<not> ok1 then (False, t1, ps1, hs)
     else
       let (ok2, t2, hs2) = build_hmi config (t1, hs) in
       if \<not> ok2 then (False, t2, ps1, hs2)
       else let (ok3, t3) = devices_loop descs config (cfg_devices config) 0 t2 in (ok3, t3, ps1, hs2))"

primrec cleanup_loop :: "'d BackendFactoryEntry list \<Rightarrow> nat \<Rightarrow> nat \<Rightarrow> 'd Runtime \<Rightarrow> 'd list \<times> 'd Runtime" where
  "cleanup_loop factories 0 i rt = ([], rt)"
| "cleanup_loop factories (Suc n) i rt =
     (let (ds, rt') = cleanup_loop factories n (Suc i) (rt\<lparr>backend_array := (backend_array rt)[i := None]\<rparr>) in
      case backend_array rt ! i of
        None \<Rightarrow> (ds, rt')
      | Some drv \<Rightarrow> (backend_destroy factories drv # ds, rt'))"

definition cleanup_backends :: "'d BackendFactoryEntry list \<Rightarrow> 'd Runtime \<Rightarrow> 'd list \<times> 'd Runtime" where
  "cleanup_backends factories rt =
     (let (ds, rt') = cleanup_loop factories (min (backend_count rt) MAX_BACKENDS) 0 rt in
      (ds, rt'\<lparr>backend_count := 0\<rparr>))"

text \<open>
  \<^verbatim>\<open>backends_initialized\<close> is set with the first driver, that is, when the count is positive.
\<close>

definition build_cleanup :: "'d BackendFactoryEntry list \<Rightarrow> 'd Runtime \<Rightarrow> int \<times> 'd list \<times> 'd Runtime" where
  "build_cleanup factories rt =
     (if 0 < backend_count rt then let (ds, rt') = cleanup_backends factories rt in (-1, ds, rt') else (-1, [], rt))"

definition system_build ::
  "DeviceDesc option list \<Rightarrow> 'd BackendFactoryEntry list \<Rightarrow> 'd Runtime \<Rightarrow> SystemConfig \<Rightarrow> int \<times> 'd list \<times> 'd Runtime"
where
  "system_build descs factories rt config =
     (if sc_backends config = None \<or> sc_devices config = None then (-1, [], rt)
      else if sc_backend_count config = 0 \<or> sc_device_count config = 0 then (-1, [], rt)
      else if \<not> check_devices descs config (cfg_devices config) then (-1, [], rt)
      else if MAX_BACKENDS < sc_backend_count config then (-1, [], rt)
      else
        let rt0 = rt\<lparr>backend_array := replicate MAX_BACKENDS None, backend_count := 0, backends_set := True\<rparr>;
            (ok1, rt1) = build_backends descs factories config (sc_backend_count config) 0 rt0
        in if \<not> ok1 then build_cleanup factories rt1
           else
             let (ok2, t, ps, hs) = build_tags descs config (tag_table rt1, proc_store rt1, hmi_store rt1);
                 rt2 = rt1\<lparr>tag_table := t, proc_store := ps, hmi_store := hs\<rparr>
             in if \<not> ok2 then build_cleanup factories rt2 else (0, [], rt2))"

end
