(* ===== verification/Builder_Drivers.thy ===== *)
theory Builder_Drivers
  imports System_Builder Tag_Props
begin

text \<open>
  The driver phase of \<^verbatim>\<open>system_build\<close>: what it leaves in the driver array on success and on
  failure. The locale \<open>backend_builder\<close> is the contract the builder has with a backend, from
  creation over init and bind to finalize; its interpretation is the EtherCAT driver.
\<close>

section \<open>Slots of the driver array\<close>

text \<open>The slots below the count are filled, the others are empty.\<close>

definition slots_ok :: "'d Runtime \<Rightarrow> bool" where
  "slots_ok rt \<longleftrightarrow> length (backend_array rt) = MAX_BACKENDS \<and> backend_count rt \<le> MAX_BACKENDS
     \<and> (\<forall>k < MAX_BACKENDS. backend_array rt ! k \<noteq> None \<longleftrightarrow> k < backend_count rt)"

text \<open>What the driver phase does not touch.\<close>

definition same_data :: "'d Runtime \<Rightarrow> 'd Runtime \<Rightarrow> bool" where
  "same_data rt rt' \<longleftrightarrow> tag_table rt' = tag_table rt \<and> proc_store rt' = proc_store rt
     \<and> hmi_store rt' = hmi_store rt \<and> rt_uninit rt' = rt_uninit rt"

lemma same_data_refl [simp]: "same_data rt rt"
  by (simp add: same_data_def)

lemma same_data_trans: "same_data rt rt1 \<Longrightarrow> same_data rt1 rt2 \<Longrightarrow> same_data rt rt2"
  by (simp add: same_data_def)

lemma build_backend_cases:
  assumes "build_backend descs factories config i rt = (ok, rt')"
  obtains (none) "ok = False" "rt' = rt"
  | (some) name drv size d where "bc_name (cfg_backends config ! i) = Some name"
      "backend_create factories (Some (cfg_backends config ! i)) i (sc_device_count config) size = Some drv"
      "bring_up descs config name drv = (ok, d)"
      "rt' = rt\<lparr>backend_array := (backend_array rt)[backend_count rt := Some (set_impl drv d)],
                backend_count := backend_count rt + 1, backends_set := True\<rparr>"
proof (cases "bc_name (cfg_backends config ! i)")
  case (Some name)
  show thesis
    using assms Some none some [OF Some]
    by (auto simp: build_backend_def Let_def set_driver_def split: option.splits prod.splits)
qed (use assms none in \<open>auto simp: build_backend_def Let_def split: option.splits\<close>)

lemma build_backend_slots:
  assumes "build_backend descs factories config i rt = (ok, rt')" "slots_ok rt" "backend_count rt < MAX_BACKENDS"
  shows "slots_ok rt' \<and> same_data rt rt' \<and> backend_count rt' \<le> backend_count rt + 1
    \<and> (backends_set rt \<longrightarrow> backends_set rt') \<and> (ok \<longrightarrow> backend_count rt' = backend_count rt + 1)"
  using assms(1)
proof (cases rule: build_backend_cases)
  case (some name drv size d)
  then show ?thesis
    using assms(2,3) by (auto simp: slots_ok_def same_data_def nth_list_update)
qed (use assms in simp)

lemma build_backends_slots:
  "build_backends descs factories config n i rt = (ok, rt') \<Longrightarrow> slots_ok rt \<Longrightarrow> backend_count rt + n \<le> MAX_BACKENDS
   \<Longrightarrow> slots_ok rt' \<and> same_data rt rt' \<and> backend_count rt' \<le> backend_count rt + n
     \<and> (backends_set rt \<longrightarrow> backends_set rt') \<and> (ok \<longrightarrow> backend_count rt' = backend_count rt + n)"
proof (induction n arbitrary: i rt)
  case (Suc n)
  obtain ok1 rt1 where b: "build_backend descs factories config i rt = (ok1, rt1)" by fastforce
  note s = build_backend_slots [OF b Suc.prems(2)]
  show ?case
  proof (cases ok1)
    case True
    then have n: "build_backends descs factories config n (Suc i) rt1 = (ok, rt')" using Suc.prems(1) b by simp
    have "backend_count rt1 = backend_count rt + 1" "slots_ok rt1" "same_data rt rt1"
      "backends_set rt \<longrightarrow> backends_set rt1"
      using s True Suc.prems(3) by simp_all
    then show ?thesis using Suc.IH [OF n] Suc.prems(3) by (auto intro: same_data_trans)
  next
    case False
    then show ?thesis using s Suc.prems b by auto
  qed
qed simp

section \<open>The builder's contract with a backend\<close>

text \<open>The descriptors of the devices of one backend, in the order the builder binds them.\<close>

definition backend_descs :: "DeviceDesc option list \<Rightarrow> string \<Rightarrow> DeviceConfig list \<Rightarrow> DeviceDesc list" where
  "backend_descs descs backend devs =
     map (\<lambda>dev. the (device_registry_find_in descs (dc_model dev))) (filter (\<lambda>dev. dc_backend dev = Some backend) devs)"

text \<open>
  \<open>built d ds\<close>: the driver \<open>d\<close> is created and possibly initialised and has the devices \<open>ds\<close>
  bound to it, in this order; \<open>ready d ds\<close>: it is mapped.
\<close>

locale backend_builder =
  fixes ops :: "'d BackendDriverOps"
    and factories :: "'d BackendFactoryEntry list"
    and built ready :: "'d \<Rightarrow> DeviceDesc list \<Rightarrow> bool"
  assumes create: "backend_create factories cfg i m n = Some drv \<Longrightarrow> drv_ops drv = Some ops \<and> built (drv_impl drv) []"
    and init_ok: "op_init ops = Some f \<Longrightarrow> built d ds \<Longrightarrow> built (snd (f d)) ds"
    and bind_ok: "op_bind ops = Some g \<Longrightarrow> built d ds \<Longrightarrow> g d dev desc = (0, d') \<Longrightarrow> built d' (ds @ [desc])"
    and finalize_ok: "op_finalize ops = Some f \<Longrightarrow> built d ds \<Longrightarrow> f d = (0, d') \<Longrightarrow> ready d' ds"
begin

lemma bind_loop_built:
  assumes "op_bind ops = Some g" "bind_loop descs backend g devs d = (True, d')" "built d ds"
  shows "built d' (ds @ backend_descs descs backend devs)"
  using assms(2,3)
proof (induction devs arbitrary: d ds)
  case (Cons dev devs)
  obtain desc where desc: "device_registry_find_in descs (dc_model dev) = Some desc"
    using Cons.prems(1) by (auto split: option.splits)
  show ?case
  proof (cases "dc_backend dev = Some backend")
    case True
    obtain rc d1 where g: "g d dev desc = (rc, d1)" by fastforce
    then have l: "rc = 0" "bind_loop descs backend g devs d1 = (True, d')"
      using Cons.prems(1) desc True by (auto split: if_splits)
    then have "built d1 (ds @ [desc])" using bind_ok [OF assms(1) Cons.prems(2)] g by simp
    from Cons.IH [OF l(2) this] show ?thesis using True desc by (simp add: backend_descs_def)
  next
    case False
    then have "bind_loop descs backend g devs d = (True, d')" using Cons.prems(1) desc by simp
    from Cons.IH [OF this Cons.prems(2)] show ?thesis using False by (simp add: backend_descs_def)
  qed
qed (simp add: backend_descs_def)

lemma bring_up_ready:
  assumes "bring_up descs config backend drv = (True, d)" "drv_ops drv = Some ops" "built (drv_impl drv) []"
  shows "ready d (backend_descs descs backend (cfg_devices config))"
proof -
  obtain f g h where ops: "op_init ops = Some f" "op_bind ops = Some g" "op_finalize ops = Some h"
    using assms(1,2) by (auto simp: bring_up_def split: option.splits)
  obtain rc1 d1 where 1: "f (drv_impl drv) = (rc1, d1)" by fastforce
  obtain ok d2 where 2: "bind_loop descs backend g (cfg_devices config) d1 = (ok, d2)" by fastforce
  obtain rc3 d3 where 3: "h d2 = (rc3, d3)" by fastforce
  have r: "rc1 = 0" "ok" "rc3 = 0" "d3 = d"
    using assms(1,2) ops 1 2 3 by (auto simp: bring_up_def split: if_splits)
  have "built d1 []" using init_ok [OF ops(1) assms(3)] 1 by simp
  then have "built d2 (backend_descs descs backend (cfg_devices config))"
    using bind_loop_built [OF ops(2), of descs backend "cfg_devices config" d1 d2 "[]"] 2 r by simp
  then show ?thesis using finalize_ok [OF ops(3)] 3 r by simp
qed

definition drivers_ready :: "DeviceDesc option list \<Rightarrow> SystemConfig \<Rightarrow> 'd Runtime \<Rightarrow> bool" where
  "drivers_ready descs config rt \<longleftrightarrow> (\<forall>k < backend_count rt. \<exists>drv name.
     backend_array rt ! k = Some drv \<and> drv_ops drv = Some ops \<and> bc_name (cfg_backends config ! k) = Some name
     \<and> ready (drv_impl drv) (backend_descs descs name (cfg_devices config)))"

lemma drivers_ready_at:
  assumes "drivers_ready descs config rt" "k < backend_count rt"
  obtains drv name where "backend_array rt ! k = Some drv" "drv_ops drv = Some ops"
    "bc_name (cfg_backends config ! k) = Some name"
    "ready (drv_impl drv) (backend_descs descs name (cfg_devices config))"
  using assms unfolding drivers_ready_def by blast

lemma build_backend_ready:
  assumes "build_backend descs factories config i rt = (True, rt')" "drivers_ready descs config rt"
    and "i = backend_count rt" "i < length (backend_array rt)"
  shows "drivers_ready descs config rt'"
  using assms(1)
proof (cases rule: build_backend_cases)
  case (some name drv size d)
  have "drv_ops drv = Some ops" "built (drv_impl drv) []" using create [OF some(2)] by simp_all
  then have "ready d (backend_descs descs name (cfg_devices config))" using bring_up_ready [OF some(3)] by blast
  then show ?thesis
    using assms(2-) some create [OF some(2)]
    by (auto simp: drivers_ready_def less_Suc_eq nth_list_update)
qed simp

lemma build_backends_ready:
  "build_backends descs factories config n i rt = (True, rt') \<Longrightarrow> drivers_ready descs config rt \<Longrightarrow> slots_ok rt
   \<Longrightarrow> i = backend_count rt \<Longrightarrow> i + n \<le> MAX_BACKENDS \<Longrightarrow> drivers_ready descs config rt'"
proof (induction n arbitrary: i rt)
  case (Suc n)
  obtain rt1 where b: "build_backend descs factories config i rt = (True, rt1)"
    and r: "build_backends descs factories config n (Suc i) rt1 = (True, rt')"
    using Suc.prems(1) by (auto split: prod.splits if_splits)
  have s: "slots_ok rt1" "backend_count rt1 = Suc i"
    using build_backend_slots [OF b Suc.prems(3)] Suc.prems(4,5) by simp_all
  have "drivers_ready descs config rt1"
    using build_backend_ready [OF b Suc.prems(2)] Suc.prems(3-5) by (simp add: slots_ok_def)
  with Suc.IH [OF r] s Suc.prems(5) show ?case by simp
qed simp

end

end
