(* ===== verification/System_Static.thy ===== *)
theory System_Static
  imports Builder_Drivers Device_L230 Device_L400
begin

text \<open>
  The two tables the program is linked with, \<^verbatim>\<open>system/builder/backend_factories.c\<close> and
  \<^verbatim>\<open>system/builder/device_registry_static.c\<close> with their \<^verbatim>\<open>.def\<close> lists, and the builder's
  contract for the EtherCAT backend, which is the only one in the table.
\<close>

definition g_backend_factories :: "'x soem \<Rightarrow> platform \<Rightarrow> 'x EthercatDriver BackendFactoryEntry list" where
  "g_backend_factories S P =
     [\<lparr>bf_type = BACKEND_TYPE_ETHERCAT, bf_type_name = ''ethercat'',
       bf_create = Some (ethercat_backend_create S P),
       bf_destroy = Some (\<lambda>drv. ethercat_backend_destroy S (drv_impl drv))\<rparr>]"

definition g_device_descs :: "DeviceDesc option list" where
  "g_device_descs = [Some DEVICE_DESC_L230, Some DEVICE_DESC_L400]"

section \<open>The EtherCAT backend keeps the builder's contract\<close>

definition ec_bound_to :: "'x EthercatDriver \<Rightarrow> DeviceDesc list \<Rightarrow> bool" where
  "ec_bound_to impl ds \<longleftrightarrow> map ed_desc (bound_devices impl) = map Some ds"

definition ec_building :: "'x soem \<Rightarrow> platform \<Rightarrow> 'x EthercatDriver \<Rightarrow> DeviceDesc list \<Rightarrow> bool" where
  "ec_building S P impl ds \<longleftrightarrow> ec_built S P impl \<and> ec_bound_to impl ds"

definition ec_ready_for :: "'x soem \<Rightarrow> platform \<Rightarrow> 'x EthercatDriver \<Rightarrow> DeviceDesc list \<Rightarrow> bool" where
  "ec_ready_for S P impl ds \<longleftrightarrow> ec_run S P impl \<and> ec_bound_to impl ds \<and> length ds < 2 ^ 16
     \<and> (\<forall>dev \<in> set (bound_devices impl). in_size dev = tx_bytes (the (ed_desc dev)) \<and> out_size dev = rx_bytes (the (ed_desc dev)))"

lemma create_ec:
  assumes "backend_create (g_backend_factories S P) cfg i m n = Some drv"
  shows "drv_ops drv = Some (g_ec_ops S P) \<and> ec_building S P (drv_impl drv) []"
proof -
  obtain c impl where c: "ethercat_create_impl S P c n m = Some impl" "drv_impl drv = impl"
      "drv_ops drv = Some (g_ec_ops S P)"
    using assms by (auto simp: backend_create_def g_backend_factories_def ethercat_backend_create_def
        split: option.splits if_splits)
  then have "bound_devices impl = []" using ec_pre_create [OF c(1)] by (simp add: bound_devices_def)
  then show ?thesis using c by (auto simp: ec_building_def ec_bound_to_def intro: ec_built.create)
qed

lemma init_ec: "ec_building S P d ds \<Longrightarrow> ec_building S P (snd (ethercat_init S P d)) ds"
  by (auto simp: ec_building_def ec_bound_to_def bound_devices_def ethercat_init_def Let_def
      split: prod.split intro: ec_built.init dest: ec_built.init)

lemma bind_ec:
  assumes "ec_building S P d ds" "ethercat_bind_device d dev desc = (0, d')"
  shows "ec_building S P d' (ds @ [desc])"
proof -
  have pre: "ec_pre d" using assms(1) ec_built_pre by (auto simp: ec_building_def)
  let ?n = "device_count d"
  let ?dev = "zero_device\<lparr>ed_cfg := Some dev, ed_desc := Some desc, slave_index := dc_expected_position dev\<rparr>"
  have c: "?n < device_capacity d" "devices d' = (devices d)[?n := ?dev]" "device_count d' = ?n + 1"
    using assms(2) by (auto simp: ethercat_bind_device_def Let_def split: if_splits)
  then have "bound_devices d' = bound_devices d @ [?dev]"
    using pre by (simp add: bound_devices_def ec_pre_def take_Suc_conv_app_nth)
  then have "ec_bound_to d' (ds @ [desc])" using assms(1) by (simp add: ec_building_def ec_bound_to_def)
  moreover have "ec_built S P d'"
    using ec_built.bind [of S P d dev desc] assms by (simp add: ec_building_def)
  ultimately show ?thesis by (simp add: ec_building_def)
qed

text \<open>A driver cannot have more devices than there are positions.\<close>

lemma ec_pre_few:
  assumes "ec_pre impl"
  shows "length (bound_devices impl) < 2 ^ 16"
proof -
  let ?xs = "map slave_index (bound_devices impl)"
  have "0 \<notin> set ?xs" "distinct ?xs" using assms by (auto simp: ec_pre_def)
  then have "card (set ?xs) < card (UNIV :: u16 set)" by (intro psubset_card_mono) auto
  moreover have "card (set ?xs) = length ?xs" using \<open>distinct ?xs\<close> by (rule distinct_card)
  moreover have "card (UNIV :: u16 set) = 2 ^ 16" using card_word [where 'a = 16] by simp
  ultimately show ?thesis by simp
qed

text \<open>The mapping keeps the descriptors and sizes the buffers by them.\<close>

lemma finalize_ec:
  assumes "ec_building S P d ds" "ethercat_finalize_mapping S P d = (0, d')"
  shows "ec_ready_for S P d' ds"
proof -
  have "ec_pre d" using ec_built_pre [of S P d] assms(1) by (simp add: ec_building_def)
  note devs = finalize_devices [OF this assms(2)]
  have "length ds < 2 ^ 16"
    using ec_pre_few [OF ec_built_pre] assms(1) unfolding ec_building_def ec_bound_to_def by (metis length_map)
  then show ?thesis
    using devs ec_run.mapped assms by (auto simp: ec_ready_for_def ec_building_def ec_bound_to_def dev_final_def)
qed

interpretation ecb: backend_builder "g_ec_ops S P" "g_backend_factories S P" "ec_building S P" "ec_ready_for S P" for S P
  by unfold_locales (auto simp: create_ec g_ec_ops_def intro: init_ec bind_ec finalize_ec)

text \<open>The images of a ready driver have the sizes of its descriptors.\<close>

lemma ec_ready_images:
  assumes r: "ec_ready_for S P impl ds" and S: "soem_image_ok S" "soem_map_ok S" and k: "k < length ds"
  shows "\<exists>img. ec_in_image impl k = Some img \<and> length img = unat (tx_bytes (ds ! k))"
    and "\<exists>img. ec_out_image impl k = Some img \<and> length img = unat (rx_bytes (ds ! k))"
proof -
  have good: "ec_good impl" using r ec_run_good S by (auto simp: ec_ready_for_def)
  have inv: "ec_inv impl" and full: "ec_full impl" and idx: "idx_ok impl" using ec_good_D [OF good] by simp_all
  have m: "map ed_desc (bound_devices impl) = map Some ds" using r by (simp add: ec_ready_for_def ec_bound_to_def)
  have len: "length (bound_devices impl) = length ds" using arg_cong [OF m, of length] by simp
  have cnt: "device_count impl = length ds" using len inv by (simp add: bound_devices_def ec_inv_def)
  have dev: "devices impl ! k \<in> set (bound_devices impl)" "ed_desc (devices impl ! k) = Some (ds ! k)"
  proof -
    have b: "bound_devices impl ! k = devices impl ! k" using k cnt by (simp add: bound_devices_def)
    then show "devices impl ! k \<in> set (bound_devices impl)" using k len by (metis nth_mem)
    have "map ed_desc (bound_devices impl) ! k = map Some ds ! k" using m by simp
    then show "ed_desc (devices impl ! k) = Some (ds ! k)" using b k len by simp
  qed
  have sz: "in_size (devices impl ! k) = tx_bytes (ds ! k)" "out_size (devices impl ! k) = rx_bytes (ds ! k)"
    using r dev by (auto simp: ec_ready_for_def)
  have d: "dev_full (devices impl ! k)" "dev_ok (devices impl ! k)"
    using full inv dev(1) by (auto simp: ec_full_def ec_inv_def)
  have p: "nat (plc_in_buffer_idx impl) < 2" "nat (active_out_buffer_idx impl) < 2" using idx by (auto simp: idx_ok_def)
  have "in_buffers (devices impl ! k) ! nat (plc_in_buffer_idx impl) \<noteq> None"
    "out_buffers (devices impl ! k) ! nat (active_out_buffer_idx impl) \<noteq> None"
    using d p unfolding dev_full_def dev_ok_def by (metis nth_mem)+
  then obtain a b where ab: "ec_in_image impl k = Some a" "ec_out_image impl k = Some b"
    using k cnt by (auto simp: ec_in_image_def ec_out_image_def)
  show "\<exists>img. ec_in_image impl k = Some img \<and> length img = unat (tx_bytes (ds ! k))"
    using ec_image_len(1) [OF inv ab(1)] ab sz by simp
  show "\<exists>img. ec_out_image impl k = Some img \<and> length img = unat (rx_bytes (ds ! k))"
    using ec_image_len(2) [OF inv ab(2)] ab sz by simp
qed

lemma ec_ready_bound: "ec_ready_for S P impl ds \<Longrightarrow> ec_run S P impl"
  by (simp add: ec_ready_for_def)

end
