(* ===== verification/Builder_Props.thy ===== *)
theory Builder_Props
  imports System_Static
begin

text \<open>
  What \<^verbatim>\<open>system_build\<close> achieves: every tag it registers is backed by a store slot or by bytes of
  a driver's image, the runtime it leaves is one the tag API's guarantees hold for, and a
  failed build leaves no driver behind.
\<close>

section \<open>Growing a table\<close>

definition grows :: "(TagEntry \<Rightarrow> bool) \<Rightarrow> TagTable \<Rightarrow> TagTable \<Rightarrow> bool" where
  "grows Q t t' \<longleftrightarrow> table_wf t' \<and> (\<exists>es. live t' = live t @ es \<and> (\<forall>e \<in> set es. Q e))"

lemma grows_refl: "table_wf t \<Longrightarrow> grows Q t t"
  by (simp add: grows_def)

lemma grows_trans: "grows Q t t1 \<Longrightarrow> grows Q t1 t2 \<Longrightarrow> grows Q t t2"
  by (auto simp: grows_def)

lemma grows_mono: "grows Q t t' \<Longrightarrow> (\<And>e. Q e \<Longrightarrow> R e) \<Longrightarrow> grows R t t'"
  by (auto simp: grows_def)

lemma grows_add:
  assumes "table_wf t" "tag_table_add t e = (rc, t')" "Q e"
  shows "grows Q t t'"
proof -
  have "table_wf t'" using tt.add_inv [OF assms(1), of e] assms(2) by simp
  then show ?thesis
    using assms(3) by (cases rule: tt.add_contents [OF assms(1,2)]) (auto simp: grows_def)
qed

lemma grows_wf: "grows Q t t' \<Longrightarrow> table_wf t'"
  by (simp add: grows_def)

lemma grows_live: "grows Q t t' \<Longrightarrow> live t = [] \<Longrightarrow> \<forall>e \<in> set (live t'). Q e"
  by (auto simp: grows_def)

section \<open>Descriptors\<close>

definition td_ref :: "TagDesc \<Rightarrow> u16 \<Rightarrow> u16 \<Rightarrow> TagIORef" where
  "td_ref td bi di = \<lparr>io_device_index = di, io_backend_index = bi, io_dir = td_dir td,
     io_byte_offset = td_offset_byte td, io_bit = td_bit_index td\<rparr>"

definition desc_image_size :: "TagDesc \<Rightarrow> DeviceDesc \<Rightarrow> u32" where
  "desc_image_size td desc = (if td_dir td = TAGDIR_IN then tx_bytes desc else rx_bytes desc)"

definition offset_small :: "TagDesc \<Rightarrow> bool" where
  "offset_small td \<longleftrightarrow> unat (td_offset_byte td) + 4 < 2 ^ 32"

lemma validate_tag_desc_iff:
  assumes "offset_small td"
  shows "validate_tag_desc td desc = 0 \<longleftrightarrow> td_name td \<noteq> None \<and> td_dir td \<in> {TAGDIR_IN, TAGDIR_OUT}
    \<and> (td_type td \<noteq> TAG_T_BOOL \<longrightarrow> td_bit_index td = 0)
    \<and> io_fits (td_type td) (td_ref td bi di) (desc_image_size td desc)"
proof -
  have plus: "unat (td_offset_byte td + n) = unat (td_offset_byte td) + unat n" if "unat n \<le> 4" for n
    using that assms by (intro unat_add_lem [THEN iffD1]) (simp add: offset_small_def)
  have fits: "(sz < td_offset_byte td + n) = (\<not> unat (td_offset_byte td) + unat n \<le> unat sz)"
    if "unat n \<le> 4" for sz n :: u32
    using plus [OF that] by (simp add: word_less_nat_alt not_le)
  show ?thesis
  proof (cases "td_type td")
    case (TAG_T_OTHER k)
    then show ?thesis by (simp add: validate_tag_desc_def builder_type_size_def io_fits_def Let_def)
  qed (auto simp: validate_tag_desc_def builder_type_size_def io_fits_def Let_def fits td_ref_def
      desc_image_size_def tag_type_size_def not_le not_less)
qed

text \<open>
  A tag descriptor passes the builder's validation exactly when it has a name and a
  direction, a bit number only if it is a bit, and its bytes lie inside the image of its
  direction, so that every later access through the tag passes the range check of the tag
  API. The sum of offset and size is taken in 32 bits: an offset at the very end of the range
  passes for every non-empty image.
\<close>

theorem validate_tag_desc_exact:
  "(offset_small td \<longrightarrow> (validate_tag_desc td desc = 0 \<longleftrightarrow>
      td_name td \<noteq> None \<and> td_dir td \<in> {TAGDIR_IN, TAGDIR_OUT}
      \<and> (td_type td \<noteq> TAG_T_BOOL \<longrightarrow> td_bit_index td = 0)
      \<and> io_fits (td_type td) (td_ref td bi di) (desc_image_size td desc)))
   \<and> (validate_tag_desc (tag_row n TAGDIR_IN TAG_T_U8 0xFFFFFFFF 0) desc = 0 \<longleftrightarrow> tx_bytes desc \<noteq> 0)"
proof
  show "offset_small td \<longrightarrow> (validate_tag_desc td desc = 0 \<longleftrightarrow>
      td_name td \<noteq> None \<and> td_dir td \<in> {TAGDIR_IN, TAGDIR_OUT}
      \<and> (td_type td \<noteq> TAG_T_BOOL \<longrightarrow> td_bit_index td = 0)
      \<and> io_fits (td_type td) (td_ref td bi di) (desc_image_size td desc))"
    using validate_tag_desc_iff by blast
  have z: "(4294967296 :: u32) = 0" by code_simp
  have "\<not> tx_bytes desc < 4294967296" unfolding z by simp
  then show "validate_tag_desc (tag_row n TAGDIR_IN TAG_T_U8 0xFFFFFFFF 0) desc = 0 \<longleftrightarrow> tx_bytes desc \<noteq> 0"
    by (simp add: validate_tag_desc_def tag_row_def builder_type_size_def Let_def)
qed

lemma validate_tag_desc_exact_witness:
  "offset_small (tag_row ''x'' TAGDIR_IN TAG_T_U16 2 0)
   \<and> (validate_tag_desc (tag_row ''x'' TAGDIR_IN TAG_T_U16 2 0) demo_desc = 0 \<longleftrightarrow> False)"
  using validate_tag_desc_exact [of "tag_row ''x'' TAGDIR_IN TAG_T_U16 2 0" demo_desc 0 0 "[]"]
  by (simp add: offset_small_def tag_row_def io_fits_def td_ref_def desc_image_size_def tag_type_size_def demo_desc_def)

section \<open>The tags of the devices\<close>

lemma build_name_Some: "build_name p n = Some full \<Longrightarrow> full = p @ ''.'' @ n \<and> length full < NAME_STORAGE"
  by (auto simp: build_name_def snprintf_def NAME_STORAGE_def not_le split: if_splits)

text \<open>An entry that refers to a device with descriptor \<open>desc\<close> and fits into its image.\<close>

definition io_entry_for :: "u16 \<Rightarrow> u16 \<Rightarrow> DeviceDesc \<Rightarrow> TagEntry \<Rightarrow> bool" where
  "io_entry_for bi di desc e \<longleftrightarrow> (\<exists>io. te_ref e = REF_IO io \<and> io_backend_index io = bi \<and> io_device_index io = di
     \<and> io_fits (te_type e) io (if io_dir io = TAGDIR_IN then tx_bytes desc else rx_bytes desc))"

lemma device_tags_loop_grows:
  "device_tags_loop tds desc name bi di t = (0, t') \<Longrightarrow> table_wf t \<Longrightarrow> \<forall>td \<in> set tds. offset_small td
   \<Longrightarrow> grows (io_entry_for bi di desc) t t'"
proof (induction tds desc name bi di t rule: device_tags_loop.induct)
  case (2 td tds desc name bi di t)
  obtain full where v: "validate_tag_desc td desc = 0"
      and f: "build_name name (case td_name td of None \<Rightarrow> [] | Some n \<Rightarrow> n) = Some full"
    using 2(2) by (auto split: if_splits option.splits)
  obtain rc t1 where a: "tag_table_add t (device_entry full td bi di) = (rc, t1)" by fastforce
  then have l: "rc = 0" "device_tags_loop tds desc name bi di t1 = (0, t')" using 2(2) v f by (auto split: if_splits)
  have "io_fits (td_type td) (td_ref td bi di) (desc_image_size td desc)"
    using validate_tag_desc_iff [of td desc bi di] v 2(4) by simp
  then have "io_entry_for bi di desc (device_entry full td bi di)"
    by (simp add: io_entry_for_def device_entry_def td_ref_def desc_image_size_def)
  then have g: "grows (io_entry_for bi di desc) t t1" by (rule grows_add [OF 2(3) a])
  have "grows (io_entry_for bi di desc) t1 t'"
    using 2(1) [OF _ f a [symmetric]] v l 2(4) grows_wf [OF g] by simp
  then show ?case by (rule grows_trans [OF g])
qed (simp add: grows_refl)

definition descs_small :: "DeviceDesc option list \<Rightarrow> bool" where
  "descs_small descs \<longleftrightarrow> (\<forall>d tds. Some d \<in> set descs \<longrightarrow> tags d = Some tds \<longrightarrow> (\<forall>td \<in> set tds. offset_small td))"

lemma build_tags_for_device_grows:
  assumes "system_build_tags_for_device config k bi di desc t = (0, t')" "table_wf t"
    and "descs_small descs" "Some desc \<in> set descs"
  shows "grows (io_entry_for bi di desc) t t'"
proof (cases "tags desc")
  case None
  then show ?thesis
    using assms(1,2) by (auto simp: system_build_tags_for_device_def grows_refl split: option.splits if_splits)
next
  case (Some tds)
  then obtain name where "device_tags_loop (take (unat (tag_count desc)) tds) desc name bi di t = (0, t')"
    using assms(1) by (auto simp: system_build_tags_for_device_def split: option.splits if_splits)
  moreover have "\<forall>td \<in> set (take (unat (tag_count desc)) tds). offset_small td"
    using assms(3,4) Some unfolding descs_small_def by (metis in_set_takeD)
  ultimately show ?thesis using device_tags_loop_grows assms(2) by blast
qed

section \<open>Positions of devices and backends\<close>

lemma find_backend_scan_Some:
  "find_backend_scan bs n i = Some k \<Longrightarrow> i \<le> k \<and> k - i < length bs \<and> bc_name (bs ! (k - i)) = Some n"
proof (induction bs n i rule: find_backend_scan.induct)
  case (2 b bs n i)
  then show ?case by (cases "bc_name b = Some n") (auto simp: nth_Cons' Suc_diff_le)
qed simp

lemma device_scan_Some:
  "device_scan ds target n i c = Some r \<Longrightarrow> i \<le> target \<and> target - i < length ds \<and> dc_backend (ds ! (target - i)) = Some n
     \<and> r = c + of_nat (length (filter (\<lambda>d. dc_backend d = Some n) (take (target - i) ds)))"
proof (induction ds target n i c rule: device_scan.induct)
  case (2 d ds target n i c)
  show ?case
  proof (cases "i = target \<and> dc_backend d = Some n")
    case False
    then have "device_scan ds target n (Suc i) (if dc_backend d = Some n then c + 1 else c) = Some r"
      using 2(3) by (auto split: if_splits)
    then have IH: "Suc i \<le> target" "target - Suc i < length ds" "dc_backend (ds ! (target - Suc i)) = Some n"
      "r = (if dc_backend d = Some n then c + 1 else c)
         + of_nat (length (filter (\<lambda>d. dc_backend d = Some n) (take (target - Suc i) ds)))"
      using 2(1,2) False by (auto split: if_splits)
    then have "target - i = Suc (target - Suc i)" by simp
    then show ?thesis using IH by simp
  qed (use 2(3) in auto)
qed simp

lemma nth_filter_take:
  assumes "k < length xs" "Q (xs ! k)"
  shows "length (filter Q (take k xs)) < length (filter Q xs) \<and> filter Q xs ! length (filter Q (take k xs)) = xs ! k"
proof -
  have "xs = take k xs @ xs ! k # drop (Suc k) xs" using assms(1) by (rule id_take_nth_drop)
  then have "filter Q xs = filter Q (take k xs) @ xs ! k # filter Q (drop (Suc k) xs)"
    using assms(2) by (metis filter.simps(2) filter_append)
  then show ?thesis by simp
qed

text \<open>
  An IO entry of a built system: its backend index is the index of a configured backend, its
  device index the position of a device among those bound to that backend.
\<close>

definition io_entry_built :: "DeviceDesc option list \<Rightarrow> SystemConfig \<Rightarrow> TagEntry \<Rightarrow> bool" where
  "io_entry_built descs config e \<longleftrightarrow> (\<exists>b di name ds. b < length (cfg_backends config)
     \<and> bc_name (cfg_backends config ! b) = Some name \<and> ds = backend_descs descs name (cfg_devices config)
     \<and> di < length ds \<and> io_entry_for (of_nat b) (of_nat di) (ds ! di) e)"

lemma devices_loop_grows:
  "devices_loop descs config ds i t = (True, t') \<Longrightarrow> table_wf t \<Longrightarrow> descs_small descs
   \<Longrightarrow> drop i (cfg_devices config) = ds \<Longrightarrow> grows (io_entry_built descs config) t t'"
proof (induction descs config ds i t rule: devices_loop.induct)
  case (2 descs config d ds i t)
  obtain desc bi di where f: "device_registry_find_in descs (dc_model d) = Some desc"
      "find_backend_index config (dc_backend d) = Some bi"
      "find_backend_device_index config i (dc_backend d) = Some di"
    using 2(2) by (auto split: option.splits)
  obtain rc t1 where b: "system_build_tags_for_device config i bi di desc t = (rc, t1)" by fastforce
  then have l: "rc = 0" "devices_loop descs config ds (Suc i) t1 = (True, t')"
    using 2(2) f by (auto split: if_splits)
  obtain n where n: "dc_backend d = Some n" using f(2) by (auto simp: find_backend_index_def split: option.splits)
  obtain k where k: "find_backend_scan (cfg_backends config) n 0 = Some k" "bi = of_nat k"
    using f(2) n by (auto simp: find_backend_index_def)
  let ?devs = "cfg_devices config" and ?Q = "\<lambda>d. dc_backend d = Some n"
  have "device_scan ?devs i n 0 0 = Some di" using f(3) n by (simp add: find_backend_device_index_def)
  then have p: "i < length ?devs" "?Q (?devs ! i)" "di = of_nat (length (filter ?Q (take i ?devs)))"
    using device_scan_Some [of ?devs i n 0 0 di] by simp_all
  have d: "?devs ! i = d" using 2(5) p(1) by (metis Cons_nth_drop_Suc list.inject)
  have pos: "length (filter ?Q (take i ?devs)) < length (filter ?Q ?devs)
      \<and> filter ?Q ?devs ! length (filter ?Q (take i ?devs)) = d"
    using nth_filter_take [of i ?devs ?Q] p d by simp
  have "Some desc \<in> set descs" using f(1) device_registry_scan_Some
    by (auto simp: device_registry_find_in_def split: option.splits)
  then have "grows (io_entry_for bi di desc) t t1"
    using build_tags_for_device_grows b l(1) 2(3,4) by blast
  then have g: "grows (io_entry_built descs config) t t1"
  proof (rule grows_mono)
    fix e assume "io_entry_for bi di desc e"
    then show "io_entry_built descs config e"
      unfolding io_entry_built_def using find_backend_scan_Some [OF k(1)] k(2) p(3) pos f(1)
      by (intro exI [of _ k] exI [of _ "length (filter ?Q (take i ?devs))"] exI [of _ n])
        (auto simp: backend_descs_def)
  qed
  have "drop (Suc i) ?devs = ds" using 2(5) by (metis drop_Suc list.sel(3) tl_drop)
  then have "grows (io_entry_built descs config) t1 t'"
    using 2(1) [OF f b [symmetric]] l grows_wf [OF g] 2(4) by simp
  then show ?case by (rule grows_trans [OF g])
qed (simp add: grows_refl)

section \<open>The tags of the stores\<close>

text \<open>The entry's slot is below \<open>n\<close> and has the entry's type.\<close>

definition proc_entry_for :: "Store \<Rightarrow> nat \<Rightarrow> TagEntry \<Rightarrow> bool" where
  "proc_entry_for st n e \<longleftrightarrow> (\<exists>k < n. te_ref e = REF_PROC (of_nat k) \<and> sv_type (st_values st ! k) = te_type e)"

definition hmi_entry_for :: "Store \<Rightarrow> nat \<Rightarrow> TagEntry \<Rightarrow> bool" where
  "hmi_entry_for st n e \<longleftrightarrow> te_kind e = TAGK_HMI_ALIAS
     \<or> (\<exists>k < n. \<exists>acc. te_ref e = REF_HMI_VAR (of_nat k) acc \<and> sv_type (st_values st ! k) = te_type e)"

definition values_wf :: "Store \<Rightarrow> bool" where
  "values_wf st \<longleftrightarrow> length (st_values st) = STORE_SIZE \<and> (\<forall>v \<in> set (st_values st). length (sv_v v) = VALUE_SIZE)"

lemma values_wf_put: "values_wf st \<Longrightarrow> values_wf (st\<lparr>st_values := (st_values st)[i := zero_value\<lparr>sv_type := ty\<rparr>]\<rparr>)"
  by (auto simp: values_wf_def zero_value_def dest!: set_update_cases)

text \<open>Slots below \<open>n\<close> are kept.\<close>

definition keeps_slots :: "nat \<Rightarrow> Store \<Rightarrow> Store \<Rightarrow> bool" where
  "keeps_slots n st st' \<longleftrightarrow> (\<forall>k < n. st_values st' ! k = st_values st ! k)"

lemma proc_loop_grows:
  "proc_loop ps i ts = (True, t', st') \<Longrightarrow> ts = (t, st) \<Longrightarrow> table_wf t \<Longrightarrow> values_wf st \<Longrightarrow> i + length ps \<le> STORE_SIZE
   \<Longrightarrow> grows (proc_entry_for st' (i + length ps)) t t' \<and> values_wf st' \<and> keeps_slots i st st'"
proof (induction ps i ts arbitrary: t st rule: proc_loop.induct)
  case (1 i t1 st1)
  then show ?case by (simp add: grows_refl keeps_slots_def)
next
  case (2 p ps i t1 st1)
  note eq = 2(3)
  obtain full where f: "build_name ''proc'' (pv_name p) = Some full" using 2(2) by (auto split: option.splits)
  let ?e = "\<lparr>full_name = Some full, te_type = pv_type p, te_ref = REF_PROC (of_nat i)\<rparr>"
  let ?st = "st\<lparr>st_values := (st_values st)[i := zero_value\<lparr>sv_type := pv_type p\<rparr>]\<rparr>"
  obtain rc t2 where a: "tag_table_add t ?e = (rc, t2)" by fastforce
  then have l: "rc = 0" "proc_loop ps (Suc i) (t2, ?st) = (True, t', st')"
    using 2(2) eq f by (auto split: if_splits)
  have t2: "table_wf t2" using tt.add_inv [OF 2(4), of ?e] a by simp
  have IH: "grows (proc_entry_for st' (Suc i + length ps)) t2 t'" "values_wf st'" "keeps_slots (Suc i) ?st st'"
    using 2(1) [OF f, of "(rc, t2)" rc t2 t2 ?st] a l t2 2(3-6) values_wf_put [OF 2(5)] by auto
  have len: "length (st_values st) = STORE_SIZE" using 2(5) by (simp add: values_wf_def)
  have "st_values st' ! i = zero_value\<lparr>sv_type := pv_type p\<rparr>" "keeps_slots i st st'"
    using IH(3) len 2(6) by (auto simp: keeps_slots_def nth_list_update)
  then have "proc_entry_for st' (i + length (p # ps)) ?e"
    unfolding proc_entry_for_def by (intro exI [of _ i]) simp
  then show ?case
    using grows_trans [OF grows_add [OF 2(4) a]] IH \<open>keeps_slots i st st'\<close> by simp
qed

lemma hmi_loop_grows:
  "hmi_loop hs v ts = (True, v', t', st') \<Longrightarrow> ts = (t, st) \<Longrightarrow> table_wf t \<Longrightarrow> values_wf st \<Longrightarrow> v \<le> STORE_SIZE
   \<Longrightarrow> grows (hmi_entry_for st' v') t t' \<and> values_wf st' \<and> keeps_slots v st st' \<and> v \<le> v' \<and> v' \<le> STORE_SIZE"
proof (induction hs arbitrary: v t st ts)
  case Nil
  then show ?case by (auto simp: grows_refl keeps_slots_def)
next
  case (Cons h hs)
  obtain full where f: "build_name ''hmi'' (hd_name h) = Some full" using Cons.prems(1,2) by (auto split: option.splits)
  note p = Cons.prems(1) [unfolded Cons.prems(2)]
  have len: "length (st_values st) = STORE_SIZE" using Cons.prems(4) by (simp add: values_wf_def)
  show ?case
  proof (cases "hd_kind h")
    case (HMI_TAG_ALIAS target)
    obtain tgt :: TagEntry and t2 where l:
        "tag_table_add t \<lparr>full_name = Some full, te_type = te_type tgt,
           te_ref = REF_HMI_ALIAS (tag_table_find_id t target) (hmi_access_code (hd_access h))\<rparr> = (0, t2)"
        "hmi_loop hs v (t2, st) = (True, v', t', st')"
      using p f HMI_TAG_ALIAS by (auto simp: Let_def split: option.splits if_splits prod.splits)
    have g: "grows (hmi_entry_for st' v') t t2"
      by (rule grows_add [OF Cons.prems(3) l(1)]) (simp add: hmi_entry_for_def te_kind_def)
    with Cons.IH [OF l(2) refl grows_wf [OF g] Cons.prems(4,5)] show ?thesis
      using grows_trans [OF g] by blast
  next
    case (HMI_TAG_VAR ty ini ret)
    let ?e = "\<lparr>full_name = Some full, te_type = ty, te_ref = REF_HMI_VAR (of_nat v) (hmi_access_code (hd_access h))\<rparr>"
    let ?st = "st\<lparr>st_values := (st_values st)[v := zero_value\<lparr>sv_type := ty\<rparr>]\<rparr>"
    obtain rc t2 where a: "tag_table_add t ?e = (rc, t2)" by fastforce
    then have l: "v < STORE_SIZE" "rc = 0" "hmi_loop hs (Suc v) (t2, ?st) = (True, v', t', st')"
      using p f HMI_TAG_VAR by (auto simp: Let_def split: if_splits)
    have t2: "table_wf t2" using tt.add_inv [OF Cons.prems(3), of ?e] a by simp
    have IH: "grows (hmi_entry_for st' v') t2 t'" "values_wf st'" "keeps_slots (Suc v) ?st st'" "Suc v \<le> v'" "v' \<le> STORE_SIZE"
      using Cons.IH [OF l(3) refl t2 values_wf_put [OF Cons.prems(4)]] l(1) by simp_all
    have "st_values st' ! v = zero_value\<lparr>sv_type := ty\<rparr>" "keeps_slots v st st'"
      using IH(3) len l(1) by (auto simp: keeps_slots_def nth_list_update)
    then have "hmi_entry_for st' v' ?e" using IH(4) by (auto simp: hmi_entry_for_def Suc_le_eq)
    then show ?thesis
      using grows_trans [OF grows_add [OF Cons.prems(3) a]] IH \<open>keeps_slots v st st'\<close> by simp
  next
    case (HMI_TAG_OTHER k)
    then show ?thesis using p f by simp
  qed
qed

section \<open>A successful build\<close>

lemma build_tags_grows:
  assumes "build_tags descs config (t, ps, hs) = (True, t', ps', hs')" "table_wf t" "store_wf ps" "store_wf hs"
    and "descs_small descs"
  shows "grows (\<lambda>e. io_entry_built descs config e \<or> proc_entry_for ps' (st_count ps') e \<or> hmi_entry_for hs' (st_count hs') e) t t'
    \<and> ((sc_process_vars config \<noteq> None \<longrightarrow> store_wf ps') \<and> (sc_hmi_tags config \<noteq> None \<longrightarrow> store_wf hs'))
    \<and> (sc_process_vars config = None \<longrightarrow> ps' = ps) \<and> (sc_hmi_tags config = None \<longrightarrow> hs' = hs)"
    (is "grows ?Q t t' \<and> _")
proof -
  obtain t1 t2 where 1: "build_proc config (t, ps) = (True, t1, ps')"
    and 2: "build_hmi config (t1, hs) = (True, t2, hs')"
    and 3: "devices_loop descs config (cfg_devices config) 0 t2 = (True, t')"
    using assms(1) by (auto simp: build_tags_def Let_def split: prod.splits if_splits)
  have v: "values_wf ps" "values_wf hs" using assms(3,4) by (simp_all add: store_wf_def values_wf_def)
  have p: "grows ?Q t t1 \<and> (sc_process_vars config \<noteq> None \<longrightarrow> store_wf ps') \<and> (sc_process_vars config = None \<longrightarrow> ps' = ps)"
  proof (cases "sc_process_vars config")
    case None
    then show ?thesis using 1 grows_refl [OF assms(2)] by (simp add: build_proc_def)
  next
    case (Some pv)
    let ?n = "sc_process_var_count config"
    obtain st where l: "proc_loop (take ?n pv) 0 (t, ps) = (True, t1, st)" "ps' = st\<lparr>st_count := ?n\<rparr>" "?n \<le> STORE_SIZE"
      using 1 Some by (auto simp: build_proc_def Let_def split: prod.splits if_splits)
    have g: "grows (proc_entry_for st (0 + length (take ?n pv))) t t1" "values_wf st"
      using proc_loop_grows [OF l(1) refl assms(2) v(1)] l(3) by simp_all
    have "proc_entry_for st (0 + length (take ?n pv)) e \<Longrightarrow> ?Q e" for e
      by (auto simp: proc_entry_for_def l(2))
    then show ?thesis using grows_mono [OF g(1)] g(2) l Some by (auto simp: store_wf_def values_wf_def)
  qed
  then have w1: "table_wf t1" using grows_wf by blast
  have h: "grows ?Q t1 t2 \<and> (sc_hmi_tags config \<noteq> None \<longrightarrow> store_wf hs') \<and> (sc_hmi_tags config = None \<longrightarrow> hs' = hs)"
  proof (cases "sc_hmi_tags config")
    case None
    then show ?thesis using 2 grows_refl [OF w1] by (simp add: build_hmi_def)
  next
    case (Some hv)
    obtain v' st where l: "hmi_loop (take (sc_hmi_tag_count config) hv) 0 (t1, hs) = (True, v', t2, st)"
        "hs' = st\<lparr>st_count := v'\<rparr>"
      using 2 Some by (auto simp: build_hmi_def Let_def split: prod.splits if_splits)
    have g: "grows (hmi_entry_for st v') t1 t2" "values_wf st" "v' \<le> STORE_SIZE"
      using hmi_loop_grows [OF l(1) refl w1 v(2)] by simp_all
    have "hmi_entry_for st v' e \<Longrightarrow> ?Q e" for e by (auto simp: hmi_entry_for_def l(2))
    then show ?thesis using grows_mono [OF g(1)] g l Some by (auto simp: store_wf_def values_wf_def)
  qed
  have "grows ?Q t2 t'"
    using devices_loop_grows [OF 3 grows_wf assms(5)] h by (auto intro: grows_mono)
  then show ?thesis using p h grows_trans by blast
qed

lemma system_build_success:
  assumes "system_build descs factories rt config = (0, ds, rt')" "runtime_wf rt"
  obtains rt1 where "build_backends descs factories config (sc_backend_count config) 0
      (rt\<lparr>backend_array := replicate MAX_BACKENDS None, backend_count := 0, backends_set := True\<rparr>) = (True, rt1)"
    "slots_ok rt1" "same_data rt rt1" "backends_set rt1" "backend_count rt1 = sc_backend_count config"
    "build_tags descs config (tag_table rt, proc_store rt, hmi_store rt) =
       (True, tag_table rt', proc_store rt', hmi_store rt')"
    "rt' = rt1\<lparr>tag_table := tag_table rt', proc_store := proc_store rt', hmi_store := hmi_store rt'\<rparr>" "ds = []"
    "sc_backend_count config \<le> MAX_BACKENDS"
proof -
  let ?rt0 = "rt\<lparr>backend_array := replicate MAX_BACKENDS None, backend_count := 0, backends_set := True\<rparr>"
  have max: "sc_backend_count config \<le> MAX_BACKENDS" using assms(1) by (auto simp: system_build_def split: if_splits)
  obtain ok rt1 where b: "build_backends descs factories config (sc_backend_count config) 0 ?rt0 = (ok, rt1)" by fastforce
  have s: "slots_ok ?rt0" by (simp add: slots_ok_def MAX_BACKENDS_def)
  note sl = build_backends_slots [OF b s]
  have fail: "build_cleanup factories x \<noteq> (0, y)" for x y by (auto simp: build_cleanup_def split: prod.split)
  obtain ok2 t ps hs where tg: "build_tags descs config (tag_table rt1, proc_store rt1, hmi_store rt1) = (ok2, t, ps, hs)"
    by (metis prod.exhaust)
  have "ok" "ok2" "rt' = rt1\<lparr>tag_table := t, proc_store := ps, hmi_store := hs\<rparr>" "ds = []"
    using assms(1) b tg fail by (auto simp: system_build_def Let_def split: if_splits)
  moreover have "same_data rt rt1" using sl max by (simp add: same_data_def)
  ultimately show thesis
    using that [of rt1] b sl tg max by (simp add: same_data_def)
qed

lemma ec_build_runtime_ok:
  assumes "system_build descs (g_backend_factories S P) rt config = (0, ds, rt')" "runtime_wf rt"
    and "soem_image_ok S" "soem_map_ok S" "descs_small descs"
  shows "ec_runtime_ok S P rt' \<and> backends_set rt' \<and> ecb.drivers_ready S P descs config rt'
    \<and> backend_count rt' = sc_backend_count config"
proof -
  let ?rt0 = "rt\<lparr>backend_array := replicate MAX_BACKENDS None, backend_count := 0, backends_set := True\<rparr>"
  obtain rt1 where r: "build_backends descs (g_backend_factories S P) config (sc_backend_count config) 0 ?rt0 = (True, rt1)"
    "slots_ok rt1" "same_data rt rt1" "backends_set rt1" "backend_count rt1 = sc_backend_count config"
    "build_tags descs config (tag_table rt, proc_store rt, hmi_store rt) =
       (True, tag_table rt', proc_store rt', hmi_store rt')"
    "rt' = rt1\<lparr>tag_table := tag_table rt', proc_store := proc_store rt', hmi_store := hmi_store rt'\<rparr>"
    "sc_backend_count config \<le> MAX_BACKENDS"
    by (rule system_build_success [OF assms(1,2)])
  have "slots_ok ?rt0" by (simp add: slots_ok_def MAX_BACKENDS_def)
  then have "ecb.drivers_ready S P descs config rt1"
    using ecb.build_backends_ready [OF r(1)] r(8) by (simp add: ecb.drivers_ready_def)
  then have d: "ecb.drivers_ready S P descs config rt'" by (subst r(7)) (simp add: ecb.drivers_ready_def)
  have wf: "table_wf (tag_table rt)" "store_wf (proc_store rt)" "store_wf (hmi_store rt)" "length (rt_uninit rt) = VALUE_SIZE"
    using assms(2) by (simp_all add: runtime_wf_def)
  note g = build_tags_grows [OF r(6) wf(1-3) assms(5)]
  have "store_wf (proc_store rt')" "store_wf (hmi_store rt')" using g wf by auto
  moreover have "table_wf (tag_table rt')" using g grows_wf by blast
  moreover have "backend_array rt' = backend_array rt1" "backend_count rt' = backend_count rt1"
    "rt_uninit rt' = rt_uninit rt1" "backends_set rt' = backends_set rt1"
    using arg_cong [OF r(7), of backend_array] arg_cong [OF r(7), of backend_count] arg_cong [OF r(7), of rt_uninit]
      arg_cong [OF r(7), of backends_set] by simp_all
  moreover have "drv_ops drv = Some (g_ec_ops S P) \<and> ec_inv (drv_impl drv)"
    if kb: "k < backend_count rt'" and kd: "backend_array rt' ! k = Some drv" for k drv
  proof -
    obtain drv' name where "backend_array rt' ! k = Some drv'" "drv_ops drv' = Some (g_ec_ops S P)"
        "ec_ready_for S P (drv_impl drv') (backend_descs descs name (cfg_devices config))"
      by (rule ecb.drivers_ready_at [OF d kb])
    then have "drv_ops drv = Some (g_ec_ops S P)" "\<exists>ds. ec_ready_for S P (drv_impl drv) ds" using kd by auto
    then show ?thesis using ec_good_D(1) [OF ec_run_good [OF _ assms(3,4)]] ec_ready_bound by blast
  qed
  ultimately show ?thesis
    using d wf r(2-5) by (auto simp: ec_runtime_ok_def runtime_wf_def slots_ok_def same_data_def)
qed

text \<open>A tag with its storage: its entry can be read.\<close>

lemma peek_io_fits: "io_fits ty io sz \<Longrightarrow> fst (peek_io ty io base sz v) = 0"
  by (simp add: peek_io_rc)

lemma built_entry_image:
  assumes "ec_runtime_ok S P rt" "backends_set rt" "ecb.drivers_ready S P descs config rt"
    and "soem_image_ok S" "soem_map_ok S" "io_entry_built descs config e"
    and "length (cfg_backends config) \<le> backend_count rt"
  shows "\<exists>io img. te_ref e = REF_IO io \<and> ec.tag_image rt io = Some img \<and> io_fits (te_type e) io (of_nat (length img))"
proof -
  obtain b di name where e: "b < length (cfg_backends config)" "bc_name (cfg_backends config ! b) = Some name"
    and di: "di < length (backend_descs descs name (cfg_devices config))"
    and f: "io_entry_for (of_nat b) (of_nat di) (backend_descs descs name (cfg_devices config) ! di) e"
    using assms(6) unfolding io_entry_built_def by blast
  let ?ds = "backend_descs descs name (cfg_devices config)"
  have "b < backend_count rt" using e(1) assms(7) by simp
  from ecb.drivers_ready_at [OF assms(3) this]
  obtain drv where drv: "backend_array rt ! b = Some drv" "ec_ready_for S P (drv_impl drv) ?ds"
    using e(2) by (metis option.inject)
  obtain io where io: "te_ref e = REF_IO io" "io_backend_index io = of_nat b" "io_device_index io = of_nat di"
    "io_fits (te_type e) io (if io_dir io = TAGDIR_IN then tx_bytes (?ds ! di) else rx_bytes (?ds ! di))"
    using f unfolding io_entry_for_def by blast
  have "b < 4" using e(1) assms(1,7) by (simp add: ec_runtime_ok_def runtime_wf_def MAX_BACKENDS_def)
  moreover have "di < 2 ^ 16" using di drv(2) by (simp add: ec_ready_for_def)
  ultimately have n: "unat (io_backend_index io) = b" "unat (io_device_index io) = di"
    by (simp_all add: io unat_of_nat_small)
  obtain a c where img: "ec_in_image (drv_impl drv) di = Some a" "length a = unat (tx_bytes (?ds ! di))"
    "ec_out_image (drv_impl drv) di = Some c" "length c = unat (rx_bytes (?ds ! di))"
    using ec_ready_images [OF drv(2) assms(4,5) di] by blast
  have "\<not> backend_count rt \<le> b" using e(1) assms(7) by simp
  then have "ec.tag_image rt io = Some (if io_dir io = TAGDIR_IN then a else c)"
    using assms(2) n drv(1) img by (simp add: ec.tag_image_def)
  then show ?thesis using io img by auto
qed

text \<open>Every registered tag that is not an alias has its storage.\<close>

definition all_readable :: "'x soem \<Rightarrow> platform \<Rightarrow> 'x EthercatDriver Runtime \<Rightarrow> bool" where
  "all_readable S P rt \<longleftrightarrow> (\<forall>e \<in> set (live (tag_table rt)). te_kind e \<noteq> TAGK_HMI_ALIAS \<longrightarrow> fst (ec.entry_read rt e) = 0)"

lemma build_all_readable:
  assumes "system_build descs (g_backend_factories S P) rt config = (0, ds, rt')" "runtime_wf rt"
    and "live (tag_table rt) = []" "soem_image_ok S" "soem_map_ok S" "descs_small descs"
  shows "all_readable S P rt'"
  unfolding all_readable_def
proof (intro ballI impI)
  note ok = ec_build_runtime_ok [OF assms(1,2,4-6)]
  fix e assume e: "e \<in> set (live (tag_table rt'))" "te_kind e \<noteq> TAGK_HMI_ALIAS"
  obtain rt1 where r: "build_tags descs config (tag_table rt, proc_store rt, hmi_store rt) =
       (True, tag_table rt', proc_store rt', hmi_store rt')"
    by (rule system_build_success [OF assms(1,2)])
  have wf: "table_wf (tag_table rt)" "store_wf (proc_store rt)" "store_wf (hmi_store rt)"
    using assms(2) by (simp_all add: runtime_wf_def)
  have w': "runtime_wf rt'" using ok by (simp add: ec_runtime_ok_def)
  consider (io) "io_entry_built descs config e" | (proc) "proc_entry_for (proc_store rt') (st_count (proc_store rt')) e"
    | (hmi) "hmi_entry_for (hmi_store rt') (st_count (hmi_store rt')) e"
    using e(1) build_tags_grows [OF r wf assms(6)] grows_live assms(3) by blast
  then show "fst (ec.entry_read rt' e) = 0"
  proof cases
    case io
    have "length (cfg_backends config) \<le> backend_count rt'" using ok by (simp add: cfg_backends_def)
    then obtain io img where "te_ref e = REF_IO io" "ec.tag_image rt' io = Some img"
        "io_fits (te_type e) io (of_nat (length img))"
      using built_entry_image ok assms(4,5) io by blast
    then show ?thesis by (simp add: ec.entry_read_def case_prod_unfold peek_io_fits)
  next
    case proc
    then obtain k where "k < st_count (proc_store rt')" "te_ref e = REF_PROC (of_nat k)"
      "sv_type (st_values (proc_store rt') ! k) = te_type e" by (auto simp: proc_entry_for_def)
    moreover have "k < 2 ^ 32" using calculation(1) w' by (simp add: runtime_wf_def store_wf_def STORE_SIZE_def)
    ultimately show ?thesis by (simp add: ec.entry_read_def get_proc_value_def unat_of_nat_small)
  next
    case hmi
    then obtain k acc where "k < st_count (hmi_store rt')" "te_ref e = REF_HMI_VAR (of_nat k) acc"
      "sv_type (st_values (hmi_store rt') ! k) = te_type e" using e(2) by (auto simp: hmi_entry_for_def)
    moreover have "k < 2 ^ 32" using calculation(1) w' by (simp add: runtime_wf_def store_wf_def STORE_SIZE_def)
    ultimately show ?thesis by (simp add: ec.entry_read_def get_hmi_value_def unat_of_nat_small)
  qed
qed

lemma readable_tag_read:
  assumes "ec_runtime_ok S P rt" "all_readable S P rt" "tag_table_get (tag_table rt) tid = Some e" "te_kind e \<noteq> TAGK_HMI_ALIAS"
    and "0 < tag_type_size (te_type e)" "tag_type_size (te_type e) \<le> m"
  shows "\<exists>bs. tag_read rt tid (Some out) m = (0, Some bs, rt)"
proof -
  have "table_wf (tag_table rt)" using assms(1) by (simp add: ec_runtime_ok_def runtime_wf_def)
  then have "e \<in> set (live (tag_table rt))" using assms(3) tt.get_contents by (auto split: if_splits)
  then have "fst (ec.entry_read rt e) = 0" using assms(2,4) by (simp add: all_readable_def)
  moreover have "te_ref e \<noteq> REF_NONE" using calculation by (auto simp: ec.entry_read_def)
  moreover have "resolve_entry rt tid False 0 = Some e"
    using assms(3,4) by (subst resolve_entry.simps) (auto simp: te_kind_def split: TagRef.split)
  ultimately show ?thesis using assms(1,5,6) by (auto simp: ec_tag_read case_prod_unfold)
qed

text \<open>
  C7. A successful build over EtherCAT backends, started from a runtime without tags, yields a
  runtime the guarantees of the tag API hold for, with one mapped driver for every configured
  backend, and every tag it registered that is not an alias can be read at once: its store
  slot exists with its type, or its bytes lie in the image of the right device of the right
  driver. The SOEM calls are assumed to behave as documented on the process image.
\<close>

theorem system_build_tags_readable:
  assumes "system_build descs (g_backend_factories S P) rt config = (0, ds, rt')" "runtime_wf rt"
    and "live (tag_table rt) = []" "soem_image_ok S" "soem_map_ok S" "descs_small descs"
  shows "ec_runtime_ok S P rt' \<and> backend_count rt' = sc_backend_count config
    \<and> (\<forall>k < backend_count rt'. \<exists>drv. backend_array rt' ! k = Some drv \<and> ec_run S P (drv_impl drv))
    \<and> (\<forall>tid e out m. tag_table_get (tag_table rt') tid = Some e \<longrightarrow> te_kind e \<noteq> TAGK_HMI_ALIAS
         \<longrightarrow> 0 < tag_type_size (te_type e) \<longrightarrow> tag_type_size (te_type e) \<le> m
         \<longrightarrow> (\<exists>bs. tag_read rt' tid (Some out) m = (0, Some bs, rt')))"
proof (intro conjI allI impI)
  note ok = ec_build_runtime_ok [OF assms(1,2,4-6)]
  show "ec_runtime_ok S P rt'" "backend_count rt' = sc_backend_count config" using ok by simp_all
  show "\<exists>drv. backend_array rt' ! k = Some drv \<and> ec_run S P (drv_impl drv)" if "k < backend_count rt'" for k
    using ok that ecb.drivers_ready_at [of S P descs config rt' k] ec_ready_bound by metis
  show "\<exists>bs. tag_read rt' tid (Some out) m = (0, Some bs, rt')"
    if "tag_table_get (tag_table rt') tid = Some e" "te_kind e \<noteq> TAGK_HMI_ALIAS"
      "0 < tag_type_size (te_type e)" "tag_type_size (te_type e) \<le> m" for tid e out m
    using readable_tag_read [OF _ build_all_readable [OF assms] that] ok by blast
qed

section \<open>A system with one device\<close>

definition demo_sys_desc :: DeviceDesc where
  "demo_sys_desc = demo_desc\<lparr>tags := Some [tag_row ''In0'' TAGDIR_IN TAG_T_U8 0 0, tag_row ''Out3'' TAGDIR_OUT TAG_T_BOOL 0 3],
     tag_count := 2\<rparr>"

definition demo_sys_config :: SystemConfig where
  "demo_sys_config = \<lparr>sc_backends = Some [demo_backend], sc_backend_count = 1, sc_devices = Some [demo_config],
     sc_device_count = 1,
     sc_process_vars = Some [\<lparr>pv_name = ''x'', pv_type = TAG_T_U32, pv_initial = [5, 0, 0, 0], pv_retain = False\<rparr>],
     sc_process_var_count = 1,
     sc_hmi_tags = Some [\<lparr>hd_name = ''x'', hd_access = HMI_RO, hd_kind = HMI_TAG_ALIAS (Some ''proc.x'')\<rparr>,
       \<lparr>hd_name = ''y'', hd_access = HMI_RW, hd_kind = HMI_TAG_VAR TAG_T_U8 [7, 0, 0, 0] False\<rparr>],
     sc_hmi_tag_count = 2, sc_base_cycle_ms = 10\<rparr>"

definition demo_fresh_rt :: "unit EthercatDriver Runtime" where
  "demo_fresh_rt = snd (runtime_init (demo_rt 1))"

definition demo_built_rt :: "unit EthercatDriver Runtime" where
  "demo_built_rt = snd (snd (system_build [Some demo_sys_desc] (g_backend_factories (demo_soem 3) demo_platform)
     demo_fresh_rt demo_sys_config))"

lemma demo_fresh_ok: "runtime_wf demo_fresh_rt" "live (tag_table demo_fresh_rt) = []" "descs_small [Some demo_sys_desc]"
proof -
  show "runtime_wf demo_fresh_rt"
    unfolding demo_fresh_rt_def by (rule runtime_init_wf) (simp add: demo_rt_def VALUE_SIZE_def)
  show "live (tag_table demo_fresh_rt) = []"
    by (simp add: demo_fresh_rt_def runtime_init_def tag_table_init_def)
  show "descs_small [Some demo_sys_desc]"
    by (auto simp: descs_small_def demo_sys_desc_def offset_small_def tag_row_def)
qed

lemma demo_build_eval:
  "fst (system_build [Some demo_sys_desc] (g_backend_factories (demo_soem 3) demo_platform) demo_fresh_rt demo_sys_config) = 0"
  "length (fst (snd (system_build [Some demo_sys_desc] (g_backend_factories (demo_soem 3) demo_platform) demo_fresh_rt demo_sys_config))) = 0"
  "map_option te_ref (tag_table_get (tag_table demo_built_rt) 4) =
     Some (REF_IO \<lparr>io_device_index = 0, io_backend_index = 0, io_dir = TAGDIR_IN, io_byte_offset = 0, io_bit = 0\<rparr>)"
  by code_simp+

lemma demo_build:
  "system_build [Some demo_sys_desc] (g_backend_factories (demo_soem 3) demo_platform) demo_fresh_rt demo_sys_config
     = (0, [], demo_built_rt)"
  using demo_build_eval(1,2) by (auto simp: demo_built_rt_def prod_eq_iff)

lemma system_build_tags_readable_witness:
  "runtime_wf demo_fresh_rt \<and> live (tag_table demo_fresh_rt) = [] \<and> backend_count demo_built_rt = 1
   \<and> (\<exists>bs. tag_read demo_built_rt 4 (Some [0]) 1 = (0, Some bs, demo_built_rt))"
proof -
  note r = system_build_tags_readable [OF demo_build demo_fresh_ok(1,2) demo_soem_ok demo_fresh_ok(3)]
  obtain e where e: "tag_table_get (tag_table demo_built_rt) 4 = Some e" "te_kind e = TAGK_IO"
    using demo_build_eval(3) by (auto simp: te_kind_def)
  have "te_type e = TAG_T_U8"
  proof -
    have "map_option te_type (tag_table_get (tag_table demo_built_rt) 4) = Some TAG_T_U8" by code_simp
    then show ?thesis using e by simp
  qed
  then have "\<exists>bs. tag_read demo_built_rt 4 (Some [0]) 1 = (0, Some bs, demo_built_rt)"
    using r e by (simp add: tag_type_size_def)
  moreover have "backend_count demo_built_rt = 1" using r by (simp add: demo_sys_config_def)
  ultimately show ?thesis using demo_fresh_ok by simp
qed

section \<open>A failing build\<close>

lemma cleanup_loop_eq:
  "i + n \<le> length (backend_array rt) \<Longrightarrow>
     fst (cleanup_loop factories n i rt) = map (backend_destroy factories) (present (take n (drop i (backend_array rt))))
   \<and> length (backend_array (snd (cleanup_loop factories n i rt))) = length (backend_array rt)
   \<and> (\<forall>k. backend_array (snd (cleanup_loop factories n i rt)) ! k
        = (if i \<le> k \<and> k < i + n then None else backend_array rt ! k))"
proof (induction n arbitrary: i rt)
  case (Suc n)
  let ?rt = "rt\<lparr>backend_array := (backend_array rt)[i := None]\<rparr>"
  obtain ds rt' where l: "cleanup_loop factories n (Suc i) ?rt = (ds, rt')" by fastforce
  have IH: "ds = map (backend_destroy factories) (present (take n (drop (Suc i) (backend_array rt))))"
    "length (backend_array rt') = length (backend_array rt)"
    "\<And>k. backend_array rt' ! k = (if Suc i \<le> k \<and> k < Suc i + n then None else (backend_array rt)[i := None] ! k)"
    using Suc.IH [of "Suc i" ?rt] Suc.prems l by (simp_all add: drop_update_cancel)
  have "drop i (backend_array rt) = backend_array rt ! i # drop (Suc i) (backend_array rt)"
    using Suc.prems by (simp add: Cons_nth_drop_Suc)
  then show ?case
    using IH Suc.prems l by (cases "backend_array rt ! i") (auto simp: nth_list_update)
qed auto

text \<open>The checks made before anything is changed, and the driver phase.\<close>

definition build_checks :: "DeviceDesc option list \<Rightarrow> SystemConfig \<Rightarrow> bool" where
  "build_checks descs config \<longleftrightarrow> sc_backends config \<noteq> None \<and> sc_devices config \<noteq> None
     \<and> sc_backend_count config \<noteq> 0 \<and> sc_device_count config \<noteq> 0
     \<and> check_devices descs config (cfg_devices config) \<and> sc_backend_count config \<le> MAX_BACKENDS"

definition driver_phase ::
  "DeviceDesc option list \<Rightarrow> 'd BackendFactoryEntry list \<Rightarrow> SystemConfig \<Rightarrow> 'd Runtime \<Rightarrow> bool \<times> 'd Runtime"
where
  "driver_phase descs factories config rt = build_backends descs factories config (sc_backend_count config) 0
     (rt\<lparr>backend_array := replicate MAX_BACKENDS None, backend_count := 0, backends_set := True\<rparr>)"

lemma build_cleanup_drivers:
  assumes "slots_ok rt" "build_cleanup factories rt = (rc, ds, rt')"
  shows "rc = -1 \<and> ds = map (backend_destroy factories) (drivers rt) \<and> backend_count rt' = 0
    \<and> (\<forall>k < MAX_BACKENDS. backend_array rt' ! k = None)"
proof (cases "backend_count rt = 0")
  case True
  then show ?thesis using assms by (auto simp: build_cleanup_def slots_ok_def drivers_present)
next
  case False
  have m: "min (backend_count rt) MAX_BACKENDS = backend_count rt" using assms(1) by (simp add: slots_ok_def)
  obtain ds1 rt1 where l: "cleanup_loop factories (backend_count rt) 0 rt = (ds1, rt1)" by fastforce
  have r: "rc = -1" "ds = ds1" "rt' = rt1\<lparr>backend_count := 0\<rparr>"
    using assms(2) False l m by (simp_all add: build_cleanup_def cleanup_backends_def)
  note c = cleanup_loop_eq [of 0 "backend_count rt" rt factories]
  have "backend_array rt' ! k = None" if "k < MAX_BACKENDS" for k
    using c assms(1) that l r(3) unfolding slots_ok_def by fastforce
  then show ?thesis using c assms(1) l r by (simp add: slots_ok_def drivers_present)
qed

text \<open>
  C38. A build that fails returns -1. If the configuration is refused by the checks at the
  beginning, nothing has changed; otherwise every driver that was created, including the one
  whose initialisation, binding or mapping failed, is stopped and destroyed exactly once, in
  order, and the runtime has no driver left.
\<close>

theorem system_build_failure_clean:
  assumes "system_build descs factories rt config = (rc, ds, rt')" "rc \<noteq> 0"
  shows "rc = -1 \<and> (if build_checks descs config
     then ds = map (backend_destroy factories) (drivers (snd (driver_phase descs factories config rt)))
       \<and> backend_count rt' = 0 \<and> (\<forall>k < MAX_BACKENDS. backend_array rt' ! k = None)
     else ds = [] \<and> rt' = rt)"
proof (cases "build_checks descs config")
  case False
  then show ?thesis using assms by (auto simp: system_build_def build_checks_def split: if_splits)
next
  case True
  obtain ok1 rt1 where d: "driver_phase descs factories config rt = (ok1, rt1)" by fastforce
  have "slots_ok (rt\<lparr>backend_array := replicate MAX_BACKENDS None, backend_count := 0, backends_set := True\<rparr>)"
    by (simp add: slots_ok_def MAX_BACKENDS_def)
  from build_backends_slots [OF d [unfolded driver_phase_def] this]
  have s: "slots_ok rt1" using True by (simp add: build_checks_def)
  obtain ok2 t ps hs where b: "build_tags descs config (tag_table rt1, proc_store rt1, hmi_store rt1) = (ok2, t, ps, hs)"
    by (metis prod.exhaust)
  let ?rt2 = "if ok1 then rt1\<lparr>tag_table := t, proc_store := ps, hmi_store := hs\<rparr> else rt1"
  have "build_cleanup factories ?rt2 = (rc, ds, rt')"
    using assms True d b
    by (auto simp: system_build_def build_checks_def driver_phase_def not_less Let_def split: if_splits)
  moreover have "slots_ok ?rt2" "drivers ?rt2 = drivers rt1" using s by (auto simp: slots_ok_def drivers_def)
  ultimately have "rc = -1 \<and> ds = map (backend_destroy factories) (drivers rt1) \<and> backend_count rt' = 0
      \<and> (\<forall>k < MAX_BACKENDS. backend_array rt' ! k = None)"
    using build_cleanup_drivers by metis
  then show ?thesis using True d by simp
qed

text \<open>The demo system on a bus whose slave has another vendor: its driver is created, refused and destroyed.\<close>

definition demo_bad_desc :: DeviceDesc where
  "demo_bad_desc = demo_sys_desc\<lparr>vendor_id := 1\<rparr>"

lemma system_build_failure_clean_witness:
  "fst (system_build [Some demo_bad_desc] (g_backend_factories (demo_soem 3) demo_platform) demo_fresh_rt demo_sys_config) = -1
   \<and> length (fst (snd (system_build [Some demo_bad_desc] (g_backend_factories (demo_soem 3) demo_platform)
       demo_fresh_rt demo_sys_config))) = 1
   \<and> build_checks [Some demo_bad_desc] demo_sys_config"
proof -
  let ?b = "system_build [Some demo_bad_desc] (g_backend_factories (demo_soem 3) demo_platform) demo_fresh_rt demo_sys_config"
  have rc: "fst ?b \<noteq> 0" by code_simp
  have chk: "build_checks [Some demo_bad_desc] demo_sys_config" by code_simp
  have n: "length (drivers (snd (driver_phase [Some demo_bad_desc] (g_backend_factories (demo_soem 3) demo_platform)
      demo_sys_config demo_fresh_rt))) = 1" by code_simp
  obtain rc' ds rt' where b: "?b = (rc', ds, rt')" by (metis prod.exhaust)
  show ?thesis using system_build_failure_clean [OF b] rc chk n b by simp
qed

end
