(* ===== verification/Config_Static.thy ===== *)
theory Config_Static
  imports System_Builder Plc_Scheduler
begin

text \<open>
  The configuration the program is built with, \<^verbatim>\<open>app/config/config_static.c\<close>, the views of the
  application (\<^verbatim>\<open>app/io/*.h\<close>) and the configuration types of the PLC tasks. The accessors that
  return an array and its length are the arrays. A \<^verbatim>\<open>float\<close> constant is its bit pattern; all
  fields of a view are 32-bit tag ids.
\<close>

section \<open>Views\<close>

definition view_layout :: "string list \<Rightarrow> layout" where
  "view_layout fs = map (\<lambda>f. (f, 4)) fs"

definition IOView :: layout where
  "IOView = view_layout [
     ''X15_Out0'', ''X12_Out1'', ''X13_Out2'', ''X3_Out3'', ''X4_Out4'', ''X14_Out5'',
     ''X1_Out6'', ''X11_Out0'', ''X10_Out1'', ''X5_Out2'', ''X6_Out3'', ''X7_Out4'',
     ''X8_Out5'', ''X9_Out6'', ''X8a_Out7'', ''X30_2_In0'', ''X30_4_In1'', ''X30_6_In2'',
     ''X30_8_In3'', ''X30_11_In4'', ''X30_13_In5'', ''X30_19_In6'', ''X30_21_In7'', ''X55_In0'',
     ''X21_CPU_Pt1_Pt_Value'', ''X21_CPU_Pt1_Pt_State'', ''X22_CPU_Pt2_Pt_Value'', ''X22_CPU_Pt2_Pt_State'', ''X23_CPU_VC1_VC_Value'', ''X23_CPU_VC1_VC_State'',
     ''X21_CPU_Pt1_Ctrl'', ''X21_CPU_Pt2_Ctrl'', ''X23_CPU_VC1_Ctrl'']"

definition HMIView :: layout where
  "HMIView = view_layout [''temp_setpoint'', ''run'', ''alarm_state'', ''alarm_code'', ''counter_test'']"

definition ProcView :: layout where
  "ProcView = view_layout [''counter_test'']"

record AppTagBind =
  ab_offset :: nat
  ab_name :: "string option"

definition view_bind :: "layout \<Rightarrow> string \<Rightarrow> string \<Rightarrow> AppTagBind" where
  "view_bind l f n = \<lparr>ab_offset = offsetof_from 0 l f, ab_name = Some n\<rparr>"

section \<open>Tasks\<close>

record PLC_TaskConfig =
  tc_name :: "string option"
  tc_period_ms :: u32
  tc_phase_ms :: u32
  tc_policy :: PlcTaskPolicy
  tc_enabled :: bool

section \<open>The configuration\<close>

definition kBackendConfigs :: "BackendConfig list" where
  "kBackendConfigs = [\<lparr>bc_type = BACKEND_TYPE_ETHERCAT, bc_name = Some ''ec0'',
     bc_ifname = Some ([CHR 0x5C] @ ''Device'' @ [CHR 0x5C] @ ''NPF_{FB092E67-7CA1-4E8F-966D-AC090D396487}''),
     bc_cycle_time_us = 5000, bc_dc_clock = False, bc_period_ns = 0, bc_spin_threshold_ns = 50000,
     bc_rt_priority = 2, bc_rt_affinity_cpu = 1, bc_rt_reserved_cpu = 1,
     bc_rt_timer_resolution_ms = 1, bc_wkc_warn_threshold = 2, bc_wkc_fail_threshold = 10,
     bc_warmup_cycles = 20, bc_state_check_period_ms = 200\<rparr>]"

definition kDeviceConfigs :: "DeviceConfig list" where
  "kDeviceConfigs = [\<lparr>dc_name = Some ''DAIO'', dc_model = Some ''L230 DAIO Micro'', dc_backend = Some ''ec0'',
     dc_expected_position = 1, dc_io_addr = 1, dc_expected_vendor_id = 0x47535953,
     dc_expected_product_code = 0x3213335\<rparr>]"

definition proc_desc :: "string \<Rightarrow> TagType \<Rightarrow> TagValue \<Rightarrow> ProcessVarDesc" where
  "proc_desc n ty v = \<lparr>pv_name = n, pv_type = ty, pv_initial = v, pv_retain = False\<rparr>"

definition kProcessVarDescs :: "ProcessVarDesc list" where
  "kProcessVarDescs = [
     proc_desc ''temp_sp'' TAG_T_REAL (u32_bytes 0x41A00000),
     proc_desc ''chamber_run_cmd'' TAG_T_BOOL [0, 0, 0, 0],
     proc_desc ''alarm_state'' TAG_T_BOOL [0, 0, 0, 0],
     proc_desc ''alarm_code'' TAG_T_U16 [0, 0, 0, 0],
     proc_desc ''counter_test'' TAG_T_U32 [0, 0, 0, 0]]"

definition hmi_alias_desc :: "string \<Rightarrow> HmiAccess \<Rightarrow> string \<Rightarrow> HmiTagDesc" where
  "hmi_alias_desc n a t = \<lparr>hd_name = n, hd_access = a, hd_kind = HMI_TAG_ALIAS (Some t)\<rparr>"

definition kHmiTagDescs :: "HmiTagDesc list" where
  "kHmiTagDescs = [
     hmi_alias_desc ''temp_setpoint'' HMI_RW ''proc.temp_sp'',
     hmi_alias_desc ''run'' HMI_RW ''proc.chamber_run_cmd'',
     hmi_alias_desc ''alarm_state'' HMI_RO ''proc.alarm_state'',
     hmi_alias_desc ''alarm_code'' HMI_RO ''proc.alarm_code'',
     hmi_alias_desc ''counter_test'' HMI_RO ''proc.counter_test'',
     \<lparr>hd_name = ''FactoryResetCmd'', hd_access = HMI_RW, hd_kind = HMI_TAG_VAR TAG_T_BOOL [0, 0, 0, 0] False\<rparr>]"

definition kIoViewBinds :: "AppTagBind list" where
  "kIoViewBinds = [
     view_bind IOView ''X15_Out0'' ''DAIO.X15_Out0'',
     view_bind IOView ''X12_Out1'' ''DAIO.X12_Out1'',
     view_bind IOView ''X13_Out2'' ''DAIO.X13_Out2'',
     view_bind IOView ''X3_Out3'' ''DAIO.X3_Out3'',
     view_bind IOView ''X4_Out4'' ''DAIO.X4_Out4'',
     view_bind IOView ''X14_Out5'' ''DAIO.X14_Out5'',
     view_bind IOView ''X1_Out6'' ''DAIO.X1_Out6'',
     view_bind IOView ''X11_Out0'' ''DAIO.X11_Out0'',
     view_bind IOView ''X10_Out1'' ''DAIO.X10_Out1'',
     view_bind IOView ''X5_Out2'' ''DAIO.X5_Out2'',
     view_bind IOView ''X6_Out3'' ''DAIO.X6_Out3'',
     view_bind IOView ''X7_Out4'' ''DAIO.X7_Out4'',
     view_bind IOView ''X8_Out5'' ''DAIO.X8_Out5'',
     view_bind IOView ''X9_Out6'' ''DAIO.X9_Out6'',
     view_bind IOView ''X8a_Out7'' ''DAIO.X8a_Out7'',
     view_bind IOView ''X30_2_In0'' ''DAIO.X30_2_In0'',
     view_bind IOView ''X30_4_In1'' ''DAIO.X30_4_In1'',
     view_bind IOView ''X30_6_In2'' ''DAIO.X30_6_In2'',
     view_bind IOView ''X30_8_In3'' ''DAIO.X30_8_In3'',
     view_bind IOView ''X30_11_In4'' ''DAIO.X30_11_In4'',
     view_bind IOView ''X30_13_In5'' ''DAIO.X30_13_In5'',
     view_bind IOView ''X30_19_In6'' ''DAIO.X30_19_In6'',
     view_bind IOView ''X30_21_In7'' ''DAIO.X30_21_In7'',
     view_bind IOView ''X55_In0'' ''DAIO.X55_In0'',
     view_bind IOView ''X21_CPU_Pt1_Pt_Value'' ''DAIO.X21_CPU_Pt1.Pt_Value'',
     view_bind IOView ''X21_CPU_Pt1_Pt_State'' ''DAIO.X21_CPU_Pt1.Pt_State'',
     view_bind IOView ''X22_CPU_Pt2_Pt_Value'' ''DAIO.X22_CPU_Pt2.Pt_Value'',
     view_bind IOView ''X22_CPU_Pt2_Pt_State'' ''DAIO.X22_CPU_Pt2.Pt_State'',
     view_bind IOView ''X23_CPU_VC1_VC_Value'' ''DAIO.X23_CPU_VC1.VC_Value'',
     view_bind IOView ''X23_CPU_VC1_VC_State'' ''DAIO.X23_CPU_VC1.VC_State'',
     view_bind IOView ''X21_CPU_Pt1_Ctrl'' ''DAIO.X21_CPU_Pt1_Ctrl'',
     view_bind IOView ''X21_CPU_Pt2_Ctrl'' ''DAIO.X22_CPU_Pt2_Ctrl'',
     view_bind IOView ''X23_CPU_VC1_Ctrl'' ''DAIO.X23_CPU_VC1_Ctrl'']"

definition kHmiViewBinds :: "AppTagBind list" where
  "kHmiViewBinds = [
     view_bind HMIView ''temp_setpoint'' ''hmi.temp_setpoint'',
     view_bind HMIView ''run'' ''hmi.run'',
     view_bind HMIView ''alarm_state'' ''hmi.alarm_state'',
     view_bind HMIView ''alarm_code'' ''hmi.alarm_code'',
     view_bind HMIView ''counter_test'' ''hmi.counter_test'']"

definition kProcViewBinds :: "AppTagBind list" where
  "kProcViewBinds = [view_bind ProcView ''counter_test'' ''proc.counter_test'']"

definition kPlcTaskConfigs :: "PLC_TaskConfig list" where
  "kPlcTaskConfigs = [
     \<lparr>tc_name = Some ''noop'', tc_period_ms = 1000, tc_phase_ms = 0, tc_policy = PLC_TASK_SKIP_ON_FAULT, tc_enabled = True\<rparr>,
     \<lparr>tc_name = Some ''heartbeat'', tc_period_ms = 500, tc_phase_ms = 0, tc_policy = PLC_TASK_ALWAYS_RUN, tc_enabled = True\<rparr>]"

definition kStaticConfig :: SystemConfig where
  "kStaticConfig = \<lparr>sc_backends = Some kBackendConfigs, sc_backend_count = length kBackendConfigs,
     sc_devices = Some kDeviceConfigs, sc_device_count = length kDeviceConfigs,
     sc_process_vars = Some kProcessVarDescs, sc_process_var_count = length kProcessVarDescs,
     sc_hmi_tags = Some kHmiTagDescs, sc_hmi_tag_count = length kHmiTagDescs, sc_base_cycle_ms = 10\<rparr>"

section \<open>Accessors\<close>

definition get_static_config :: SystemConfig where
  "get_static_config = kStaticConfig"

definition app_config_get_plc_tasks :: "PLC_TaskConfig list option \<times> nat" where
  "app_config_get_plc_tasks = (Some kPlcTaskConfigs, length kPlcTaskConfigs)"

definition app_config_get_io_view_binds :: "AppTagBind list option \<times> nat" where
  "app_config_get_io_view_binds = (Some kIoViewBinds, length kIoViewBinds)"

definition app_config_get_hmi_view_binds :: "AppTagBind list option \<times> nat" where
  "app_config_get_hmi_view_binds = (Some kHmiViewBinds, length kHmiViewBinds)"

definition app_config_get_proc_view_binds :: "AppTagBind list option \<times> nat" where
  "app_config_get_proc_view_binds = (Some kProcViewBinds, length kProcViewBinds)"

end
