(* ===== verification/Store_Init.thy ===== *)
theory Store_Init
  imports System_Builder
begin

text \<open>
  Setting the process and HMI variables to their initial values:
  \<^verbatim>\<open>app/plc/store_init.c\<close>. Retained values are not implemented there, so their functions only
  report success.
\<close>

section \<open>Retained values\<close>

definition proc_load_retained :: "'d Runtime \<Rightarrow> ProcessVarDesc list option \<Rightarrow> nat \<Rightarrow> int" where
  "proc_load_retained rt descs n = 0"

definition proc_save_retained :: "'d Runtime \<Rightarrow> ProcessVarDesc list option \<Rightarrow> nat \<Rightarrow> int" where
  "proc_save_retained rt descs n = 0"

definition proc_erase_retained_storage :: int where
  "proc_erase_retained_storage = 0"

definition hmi_load_retained :: "'d Runtime \<Rightarrow> HmiTagDesc list option \<Rightarrow> nat \<Rightarrow> int" where
  "hmi_load_retained rt descs n = 0"

definition hmi_save_retained :: "'d Runtime \<Rightarrow> HmiTagDesc list option \<Rightarrow> nat \<Rightarrow> int" where
  "hmi_save_retained rt descs n = 0"

definition hmi_erase_retained_storage :: int where
  "hmi_erase_retained_storage = 0"

section \<open>One slot\<close>

text \<open>
  The two functions differ only in where type and value come from. The type is stored even
  if the switch then refuses it; a \<^verbatim>\<open>bool\<close> member is copied as a truth value.
\<close>

definition apply_initial :: "TagType \<Rightarrow> TagValue \<Rightarrow> StoreValue \<Rightarrow> int \<times> StoreValue" where
  "apply_initial ty initial slot =
     (let slot1 = slot\<lparr>sv_type := ty\<rparr>; put = (\<lambda>bs. (0, slot1\<lparr>sv_v := overwrite bs (sv_v slot1)\<rparr>)) in
      case ty of
        TAG_T_BOOL \<Rightarrow> put [bool_byte (initial ! 0 \<noteq> 0)]
      | TAG_T_U8 \<Rightarrow> put (take 1 initial)
      | TAG_T_U16 \<Rightarrow> put (take 2 initial)
      | TAG_T_U32 \<Rightarrow> put (take 4 initial)
      | TAG_T_REAL \<Rightarrow> put (take 4 initial)
      | TAG_T_OTHER _ \<Rightarrow> (-1, slot1))"

definition proc_apply_initial :: "ProcessVarDesc \<Rightarrow> ProcValue \<Rightarrow> int \<times> ProcValue" where
  "proc_apply_initial desc slot = apply_initial (pv_type desc) (pv_initial desc) slot"

definition hmi_apply_initial :: "TagType \<Rightarrow> TagValue \<Rightarrow> HmiValue \<Rightarrow> int \<times> HmiValue" where
  "hmi_apply_initial ty initial slot = apply_initial ty initial slot"

section \<open>All variables\<close>

text \<open>One turn of each loop; every complaint is a message and the next turn.\<close>

definition proc_init_one :: "'d Runtime \<Rightarrow> ProcessVarDesc \<Rightarrow> 'd Runtime" where
  "proc_init_one rt desc =
     (case build_name ''proc'' (pv_name desc) of
        None \<Rightarrow> rt
      | Some full \<Rightarrow>
          let tid = tag_table_find_id (tag_table rt) (Some full) in
          if tid = 0 then rt
          else
            (case tag_table_get (tag_table rt) tid of
               None \<Rightarrow> rt
             | Some entry \<Rightarrow>
                 (case te_ref entry of
                    REF_PROC index \<Rightarrow>
                      if st_count (proc_store rt) \<le> unat index then rt
                      else
                        let i = unat index; (rc, slot) = proc_apply_initial desc (st_values (proc_store rt) ! i) in
                        rt\<lparr>proc_store := (proc_store rt)\<lparr>st_values := (st_values (proc_store rt))[i := slot]\<rparr>\<rparr>
                  | _ \<Rightarrow> rt)))"

definition proc_init :: "'d Runtime \<Rightarrow> ProcessVarDesc list option \<Rightarrow> nat \<Rightarrow> StartMode \<Rightarrow> int \<times> 'd Runtime" where
  "proc_init rt descs n mode =
     (if 0 < n \<and> descs = None then (-1, rt)
      else if mode = START_HMI_INIT then (0, rt)
      else
        let rc = proc_load_retained rt descs n in
        (0, foldl proc_init_one rt (take n (case descs of None \<Rightarrow> [] | Some l \<Rightarrow> l))))"

definition hmi_init_one :: "'d Runtime \<Rightarrow> HmiTagDesc \<Rightarrow> 'd Runtime" where
  "hmi_init_one rt desc =
     (case hd_kind desc of
        HMI_TAG_VAR ty initial retain \<Rightarrow>
          (case build_name ''hmi'' (hd_name desc) of
             None \<Rightarrow> rt
           | Some full \<Rightarrow>
               let tid = tag_table_find_id (tag_table rt) (Some full) in
               if tid = 0 then rt
               else
                 (case tag_table_get (tag_table rt) tid of
                    None \<Rightarrow> rt
                  | Some entry \<Rightarrow>
                      (case te_ref entry of
                         REF_HMI_VAR index access \<Rightarrow>
                           if te_type entry \<noteq> ty then rt
                           else if st_count (hmi_store rt) \<le> unat index then rt
                           else
                             let i = unat index; (rc, slot) = hmi_apply_initial ty initial (st_values (hmi_store rt) ! i) in
                             rt\<lparr>hmi_store := (hmi_store rt)\<lparr>st_values := (st_values (hmi_store rt))[i := slot]\<rparr>\<rparr>
                       | _ \<Rightarrow> rt)))
      | _ \<Rightarrow> rt)"

definition hmi_init :: "'d Runtime \<Rightarrow> HmiTagDesc list option \<Rightarrow> nat \<Rightarrow> StartMode \<Rightarrow> int \<times> 'd Runtime" where
  "hmi_init rt descs n mode =
     (if 0 < n \<and> descs = None then (-1, rt)
      else if mode = START_COLD then (0, rt)
      else
        let rc = hmi_load_retained rt descs n in
        (0, foldl hmi_init_one rt (take n (case descs of None \<Rightarrow> [] | Some l \<Rightarrow> l))))"

end
