(* ===== verification/Plc_App.thy ===== *)
theory Plc_App
  imports Config_Static Store_Init
begin

text \<open>
  The application: binding the views to tag ids (\<^verbatim>\<open>app/io/io_bind.c\<close>, \<^verbatim>\<open>hmi_view.c\<close>,
  \<^verbatim>\<open>proc_view.c\<close>), the registry of PLC tasks and the tasks (\<^verbatim>\<open>app/plc/plc_task_registry.c\<close>,
  \<^verbatim>\<open>app/plc/tasks/plc_tasks.c\<close>) and the entry points the main program uses
  (\<^verbatim>\<open>app/user_entry.c\<close>). A view is the list of its tag ids, so the field at byte offset
  \<open>o\<close> is element \<open>o div 4\<close>.
\<close>

section \<open>Views\<close>

type_synonym view = "u32 list"

record PlcApp =
  app_io :: view
  app_hmi :: view
  app_proc :: view

definition view_field :: "layout \<Rightarrow> view \<Rightarrow> string \<Rightarrow> u32" where
  "view_field l v f = v ! (offsetof_from 0 l f div 4)"

definition zero_view :: "layout \<Rightarrow> view" where
  "zero_view l = replicate (length l) 0"

fun bind_names :: "TagTable \<Rightarrow> AppTagBind list \<Rightarrow> view \<Rightarrow> int \<times> view" where
  "bind_names t [] v = (0, v)"
| "bind_names t (b # bs) v =
     (let tid = tag_table_find_id t (ab_name b) in
      if tid = 0 then (-1, v) else bind_names t bs (v[ab_offset b div 4 := tid]))"

definition bind_view_by_offset :: "view \<Rightarrow> layout \<Rightarrow> TagTable \<Rightarrow> AppTagBind list option \<times> nat \<Rightarrow> int \<times> view" where
  "bind_view_by_offset v l t binds =
     (case binds of
        (Some bs, n) \<Rightarrow> if n = 0 then (-1, v) else bind_names t (take n bs) (zero_view l)
      | (None, n) \<Rightarrow> (-1, v))"

definition io_view_bind :: "view \<Rightarrow> TagTable \<Rightarrow> int \<times> view" where
  "io_view_bind v t = bind_view_by_offset v IOView t app_config_get_io_view_binds"

definition hmi_view_bind :: "view \<Rightarrow> TagTable \<Rightarrow> int \<times> view" where
  "hmi_view_bind v t = bind_view_by_offset v HMIView t app_config_get_hmi_view_binds"

definition proc_view_bind :: "view \<Rightarrow> TagTable \<Rightarrow> int \<times> view" where
  "proc_view_bind v t = bind_view_by_offset v ProcView t app_config_get_proc_view_binds"

section \<open>Tasks\<close>

text \<open>The task functions, as the numbers the scheduler's model has for function pointers.\<close>

definition TASK_noop :: nat where "TASK_noop = 0"
definition TASK_heartbeat :: nat where "TASK_heartbeat = 1"

definition kPlcTaskRegistry :: "(string option \<times> nat) list" where
  "kPlcTaskRegistry = [(Some ''noop'', TASK_noop), (Some ''heartbeat'', TASK_heartbeat)]"

fun registry_scan :: "(string option \<times> nat) list \<Rightarrow> string \<Rightarrow> nat option" where
  "registry_scan [] n = None"
| "registry_scan ((m, f) # es) n = (if m = Some n then Some f else registry_scan es n)"

definition plc_task_registry_find :: "string option \<Rightarrow> nat option" where
  "plc_task_registry_find name = (case name of None \<Rightarrow> None | Some n \<Rightarrow> registry_scan kPlcTaskRegistry n)"

definition plc_task_noop :: "'w \<Rightarrow> int \<times> 'w" where
  "plc_task_noop w = (0, w)"

text \<open>
  The static variable \<^verbatim>\<open>state\<close> is an argument and a result; the messages are left out. The
  results of the writes are ignored.
\<close>

definition plc_task_heartbeat :: "PlcApp \<Rightarrow> bool \<Rightarrow> 'd Runtime \<Rightarrow> int \<times> bool \<times> 'd Runtime" where
  "plc_task_heartbeat app state rt =
     (let state1 = (\<not> state);
          (rc, run, rt1) = tag_read_bool rt (view_field HMIView (app_hmi app) ''run'') False
      in if rc \<noteq> 0 then (-1, state1, rt1)
         else
           let rt2 = (if run then
                  let rtA = snd (tag_write_bool rt1 (view_field IOView (app_io app) ''X15_Out0'') state1)
                  in snd (tag_write_bool rtA (view_field IOView (app_io app) ''X14_Out5'') (\<not> state1))
                else rt1);
               counter_id = view_field ProcView (app_proc app) ''counter_test'';
               (rc2, counter_val, rt3) = tag_read_u32 rt2 counter_id 0
           in if rc2 \<noteq> 0 then (-1, state1, rt3)
              else (0, state1, snd (tag_write_u32 rt3 counter_id (counter_val + 1))))"

section \<open>Entry points\<close>

definition user_get_config :: SystemConfig where
  "user_get_config = get_static_config"

definition user_bind :: "PlcApp \<Rightarrow> TagTable \<Rightarrow> int \<times> PlcApp" where
  "user_bind app t =
     (let (rc1, io) = io_view_bind (app_io app) t; app1 = app\<lparr>app_io := io\<rparr> in
      if rc1 \<noteq> 0 then (-1, app1)
      else
        let (rc2, hmi) = hmi_view_bind (app_hmi app1) t; app2 = app1\<lparr>app_hmi := hmi\<rparr> in
        if rc2 \<noteq> 0 then (-1, app2)
        else
          let (rc3, proc) = proc_view_bind (app_proc app2) t; app3 = app2\<lparr>app_proc := proc\<rparr> in
          if rc3 \<noteq> 0 then (-1, app3) else (0, app3))"

text \<open>\<open>ctx\<close> is the address of the one task context; the switch on the policy keeps known values.\<close>

definition task_policy :: "PlcTaskPolicy \<Rightarrow> PlcTaskPolicy" where
  "task_policy p = (if p = PLC_TASK_ALWAYS_RUN \<or> p = PLC_TASK_SKIP_ON_FAULT \<or> p = PLC_TASK_ONLY_WHEN_OK
     then p else PLC_TASK_SKIP_ON_FAULT)"

fun register_tasks :: "PLC_TaskConfig list \<Rightarrow> nat \<Rightarrow> int \<Rightarrow> PlcScheduler \<Rightarrow> int \<times> PlcScheduler" where
  "register_tasks [] ctx rc s = (rc, s)"
| "register_tasks (c # cs) ctx rc s =
     (if \<not> tc_enabled c then register_tasks cs ctx rc s
      else
        case plc_task_registry_find (tc_name c) of
          None \<Rightarrow> (-1, s)
        | Some f \<Rightarrow>
            let (rc1, s1) = plc_scheduler_add_task s \<lparr>tk_name = tc_name c, tk_fn = Some f, tk_ctx = ctx,
                  period_ms = tc_period_ms c, phase_ms = tc_phase_ms c, last_run_ms = 0,
                  tk_policy = task_policy (tc_policy c)\<rparr>
            in if rc1 \<noteq> 0 then (rc1, s1) else register_tasks cs ctx rc1 s1)"

definition user_register_plc_tasks :: "nat \<Rightarrow> PlcScheduler \<Rightarrow> int \<times> PlcScheduler" where
  "user_register_plc_tasks ctx s =
     (case app_config_get_plc_tasks of
        (Some cs, n) \<Rightarrow> if n = 0 then (0, s) else register_tasks (take n cs) ctx 0 s
      | (None, n) \<Rightarrow> (0, s))"

end
