(* ===== verification/Plc_Main.thy ===== *)
theory Plc_Main
  imports Plc_App Tag_Rpc
begin

text \<open>
  The main program \<^verbatim>\<open>main.c\<close>: its two cycle callbacks, the setup, and the run of
  \<^verbatim>\<open>app/plc/plc_runtime.c\<close>. The memory the PLC thread works on is one record, with the static
  variable of the heartbeat task.
\<close>

section \<open>The world of the PLC thread\<close>

record 'd AppWorld =
  aw_rt :: "'d Runtime"
  aw_rpc :: TagRpcChannel
  aw_cfg :: SystemConfig
  aw_reset :: u32
  aw_app :: PlcApp
  aw_beat :: bool

section \<open>Callbacks\<close>

text \<open>The factory reset of \<^verbatim>\<open>plc_cycle_begin\<close>.\<close>

definition factory_reset :: "SystemConfig \<Rightarrow> u32 \<Rightarrow> 'd Runtime \<Rightarrow> 'd Runtime" where
  "factory_reset cfg reset_id rt =
     (if reset_id = 0 then rt
      else
        let (rc, cmd, rt1) = tag_read_bool rt reset_id False in
        if rc = 0 \<and> cmd then
          let rt2 = snd (tag_write_bool rt1 reset_id False);
              rt3 = snd (hmi_init rt2 (sc_hmi_tags cfg) (sc_hmi_tag_count cfg) START_HMI_INIT)
          in snd (proc_init rt3 (sc_process_vars cfg) (sc_process_var_count cfg) START_COLD)
        else rt1)"

text \<open>\<open>w\<close> is the width of \<^verbatim>\<open>unsigned long\<close>, which the RPC handler's \<^verbatim>\<open>strtoul\<close> depends on.\<close>

definition plc_cycle_begin :: "nat \<Rightarrow> int \<times> 'd AppWorld \<Rightarrow> int \<times> 'd AppWorld" where
  "plc_cycle_begin w st =
     (let (h, a) = st;
          (ch, rt1) = tag_rpc_plc_poll w (aw_rpc a) (aw_rt a) 16;
          rt2 = factory_reset (aw_cfg a) (aw_reset a) rt1;
          rt3 = runtime_backends_cycle_begin rt2
      in plc_scheduler_set_health (h, a\<lparr>aw_rpc := ch, aw_rt := rt3\<rparr>) (runtime_get_health_level rt3))"

definition plc_cycle_end :: "int \<times> 'd AppWorld \<Rightarrow> int \<times> 'd AppWorld" where
  "plc_cycle_end st = (let (h, a) = st in (h, a\<lparr>aw_rt := runtime_backends_sync_outputs (aw_rt a)\<rparr>))"

text \<open>What the scheduler's function pointers stand for in this program.\<close>

definition CB_begin :: nat where "CB_begin = 0"
definition CB_end :: nat where "CB_end = 1"

definition app_code :: "nat \<Rightarrow> 'd AppWorld PlcCode" where
  "app_code w = \<lparr>
     hook_fn = (\<lambda>f u st. if f = CB_begin then plc_cycle_begin w st else if f = CB_end then plc_cycle_end st else st),
     task_fn = (\<lambda>f u st.
       if f = TASK_heartbeat then
         let (h, a) = st; (rc, beat, rt) = plc_task_heartbeat (aw_app a) (aw_beat a) (aw_rt a)
         in (rc, h, a\<lparr>aw_beat := beat, aw_rt := rt\<rparr>)
       else plc_task_noop st)\<rparr>"

section \<open>Setup\<close>

definition zero_app :: PlcApp where
  "zero_app = \<lparr>app_io = zero_view IOView, app_hmi = zero_view HMIView, app_proc = zero_view ProcView\<rparr>"

definition zero_task :: PlcTask where
  "zero_task = \<lparr>tk_name = None, tk_fn = None, tk_ctx = 0, period_ms = 0, phase_ms = 0, last_run_ms = 0,
     tk_policy = PLC_TASK_ALWAYS_RUN\<rparr>"

definition zero_sched :: PlcScheduler where
  "zero_sched = \<lparr>base_cycle_ms = 0, task_count = 0, tasks = replicate MAX_TASKS zero_task, pending_write = 0,
     pending_read = 0, pending_ready = replicate MAX_PENDING False,
     pending_tasks = replicate MAX_PENDING zero_task, sched_running = False, backend_cycle_begin = None,
     backend_cycle_end = None, backend_user = 0, on_cycle_begin = None, on_cycle_end = None, sched_user = 0\<rparr>"

text \<open>
  The first half of \<^verbatim>\<open>main\<close>: build and initialise the runtime, bind the views. The
  descriptor and factory tables and the configuration are arguments.
\<close>

definition main_build ::
  "DeviceDesc option list \<Rightarrow> 'd BackendFactoryEntry list \<Rightarrow> SystemConfig \<Rightarrow> 'd Runtime \<Rightarrow> int \<times> 'd Runtime \<times> PlcApp"
where
  "main_build descs factories cfg rt0 =
     (let rt1 = snd (runtime_init rt0);
          (rc, destroyed, rt2) = system_build descs factories rt1 cfg
      in if rc \<noteq> 0 then (rc, rt2, zero_app)
         else
           let rt3 = snd (proc_init rt2 (sc_process_vars cfg) (sc_process_var_count cfg) START_FACTORY);
               rt4 = snd (hmi_init rt3 (sc_hmi_tags cfg) (sc_hmi_tag_count cfg) START_FACTORY);
               (rc2, app) = user_bind zero_app (tag_table rt4)
           in (rc2, rt4, app))"

text \<open>The second half: the scheduler with its callbacks and tasks, and the RPC channel.\<close>

definition main_setup ::
  "DeviceDesc option list \<Rightarrow> 'd BackendFactoryEntry list \<Rightarrow> TagRpcRequest list \<Rightarrow> TagRpcResponse list \<Rightarrow> 'd Runtime
     \<Rightarrow> int \<times> PlcScheduler \<times> (int \<times> 'd AppWorld)"
where
  "main_setup descs factories req_mem rsp_mem rt0 =
     (let cfg = user_get_config;
          (rc1, rt, app) = main_build descs factories cfg rt0;
          a = \<lparr>aw_rt = rt, aw_rpc = \<lparr>req_q = zero_ring, rsp_q = zero_ring\<rparr>, aw_cfg = cfg, aw_reset = 0,
               aw_app = app, aw_beat = False\<rparr>
      in if rc1 \<noteq> 0 then (rc1, zero_sched, health_code PLC_HEALTH_OK, a)
         else
           let (rc2, h, s) = plc_scheduler_init zero_sched (sc_base_cycle_ms cfg) in
           if rc2 \<noteq> 0 then (rc2, s, h, a)
           else
             let w1 = plc_scheduler_set_health (h, a) PLC_HEALTH_OK;
                 a1 = a\<lparr>aw_reset := tag_table_find_id (tag_table rt) (Some ''hmi.FactoryResetCmd'')\<rparr>;
                 (rc3, s1) = plc_scheduler_set_callbacks s (Some CB_begin) (Some CB_end) 1
             in if rc3 \<noteq> 0 then (rc3, s1, fst w1, a1)
                else
                  let (rc4, s2) = user_register_plc_tasks 1 s1 in
                  if rc4 \<noteq> 0 then (rc4, s2, fst w1, a1)
                  else
                    let (rc5, ch) = tag_rpc_init req_mem rsp_mem (aw_rpc a1) in
                    (rc5, s2, fst w1, a1\<lparr>aw_rpc := ch\<rparr>))"

section \<open>Running\<close>

text \<open>
  \<^verbatim>\<open>plc_runtime_run\<close>: the outcomes of starting the server, of creating the scheduler thread and
  of joining it are arguments, and so is what the threads do to the runtime and the
  scheduler while the main thread sleeps, which is 3000 times one second.
\<close>

record 'd Session =
  ss_server_start :: int
  ss_thread_created :: bool
  ss_session :: "'d Runtime \<times> PlcScheduler \<Rightarrow> 'd Runtime \<times> PlcScheduler"
  ss_join :: int

definition plc_runtime_run :: "'d Session \<Rightarrow> 'd Runtime \<Rightarrow> PlcScheduler \<Rightarrow> int \<times> 'd Runtime \<times> PlcScheduler" where
  "plc_runtime_run ss rt s =
     (if ss_server_start ss \<noteq> 0 then (-1, rt, s)
      else
        let (rc, rt1) = runtime_backends_start rt in
        if rc \<noteq> 0 then (-1, rt1, s)
        else
          let (rc1, s1) = plc_scheduler_start (ss_thread_created ss) s;
              (rc2, rt2, s2) =
                (if rc1 = 0 then
                   let (rtA, sA) = ss_session ss (rt1, s1); (src, sB) = plc_scheduler_stop (ss_join ss) sA
                   in (if src \<noteq> 0 then -1 else rc1, rtA, sB)
                 else (rc1, rt1, s1));
              (stop_rc, rt3) = runtime_backends_stop rt2
          in (if rc2 = 0 \<and> stop_rc \<noteq> 0 then -1 else rc2, rt3, s2))"

text \<open>\<^verbatim>\<open>main\<close>: the exit status and the runtime at the end.\<close>

definition main_program ::
  "DeviceDesc option list \<Rightarrow> 'd BackendFactoryEntry list \<Rightarrow> TagRpcRequest list \<Rightarrow> TagRpcResponse list \<Rightarrow> 'd Session
     \<Rightarrow> 'd Runtime \<Rightarrow> int \<times> 'd Runtime"
where
  "main_program descs factories req_mem rsp_mem ss rt0 =
     (let (rc, s, h, a) = main_setup descs factories req_mem rsp_mem rt0;
          (rc1, rt1, s1) = (if rc = 0 then plc_runtime_run ss (aw_rt a) s else (rc, aw_rt a, s))
      in (if rc1 = 0 then 0 else 1, runtime_deinit rt1))"

end
