(* ===== verification/Boot_Props.thy ===== *)
theory Boot_Props
  imports Builder_Props Plc_Main
begin

text \<open>
  From the configuration to a running system: after the build and the store initialisation
  every configured variable reads its initial value, the factory reset restores it, and
  the configuration the program is linked with comes up whenever its drivers do.
\<close>

section \<open>The variables of a configuration in the table\<close>

definition cfg_proc_vars :: "SystemConfig \<Rightarrow> ProcessVarDesc list" where
  "cfg_proc_vars c = take (sc_process_var_count c) (case sc_process_vars c of None \<Rightarrow> [] | Some l \<Rightarrow> l)"

definition cfg_hmi_tags :: "SystemConfig \<Rightarrow> HmiTagDesc list" where
  "cfg_hmi_tags c = take (sc_hmi_tag_count c) (case sc_hmi_tags c of None \<Rightarrow> [] | Some l \<Rightarrow> l)"

text \<open>A variable: its full name, type and initial value.\<close>

type_synonym init_var = "string \<times> TagType \<times> TagValue"

definition proc_vars :: "ProcessVarDesc list \<Rightarrow> init_var list" where
  "proc_vars ps = map (\<lambda>p. (''proc.'' @ pv_name p, pv_type p, pv_initial p)) ps"

fun hmi_vars :: "HmiTagDesc list \<Rightarrow> init_var list" where
  "hmi_vars [] = []"
| "hmi_vars (h # hs) = (case hd_kind h of
     HMI_TAG_VAR ty ini ret \<Rightarrow> (''hmi.'' @ hd_name h, ty, ini) # hmi_vars hs | _ \<Rightarrow> hmi_vars hs)"

text \<open>The table has an entry for variable \<open>k\<close> of the list, at slot \<open>i + k\<close>.\<close>

definition proc_tags :: "TagTable \<Rightarrow> nat \<Rightarrow> init_var list \<Rightarrow> bool" where
  "proc_tags t i vs \<longleftrightarrow> (\<forall>k < length vs. case vs ! k of (n, ty, ini) \<Rightarrow>
     \<lparr>full_name = Some n, te_type = ty, te_ref = REF_PROC (of_nat (i + k))\<rparr> \<in> set (live t))"

definition hmi_tags_in :: "TagTable \<Rightarrow> nat \<Rightarrow> init_var list \<Rightarrow> bool" where
  "hmi_tags_in t i vs \<longleftrightarrow> (\<forall>k < length vs. case vs ! k of (n, ty, ini) \<Rightarrow>
     \<exists>acc. \<lparr>full_name = Some n, te_type = ty, te_ref = REF_HMI_VAR (of_nat (i + k)) acc\<rparr> \<in> set (live t))"

lemma proc_tags_Cons:
  "proc_tags t i ((n, ty, ini) # vs) \<longleftrightarrow>
     \<lparr>full_name = Some n, te_type = ty, te_ref = REF_PROC (of_nat i)\<rparr> \<in> set (live t) \<and> proc_tags t (Suc i) vs"
  by (simp add: proc_tags_def All_less_Suc2 del: of_nat_add of_nat_Suc)

lemma hmi_tags_in_Cons:
  "hmi_tags_in t i ((n, ty, ini) # vs) \<longleftrightarrow>
     (\<exists>acc. \<lparr>full_name = Some n, te_type = ty, te_ref = REF_HMI_VAR (of_nat i) acc\<rparr> \<in> set (live t))
     \<and> hmi_tags_in t (Suc i) vs"
  by (simp add: hmi_tags_in_def All_less_Suc2 del: of_nat_add of_nat_Suc)

lemma tags_in_mono:
  "set (live t) \<subseteq> set (live t') \<Longrightarrow> proc_tags t i vs \<Longrightarrow> proc_tags t' i vs"
  "set (live t) \<subseteq> set (live t') \<Longrightarrow> hmi_tags_in t i vs \<Longrightarrow> hmi_tags_in t' i vs"
  by (fastforce simp: proc_tags_def hmi_tags_in_def)+

lemma add_live:
  assumes "table_wf t" "tag_table_add t e = (0, t')"
  shows "live t' = live t @ [e]" "table_wf t'"
  using tt.add_ok [OF assms] tt.add_inv [OF assms(1), of e] assms(2) by simp_all

lemma proc_loop_tags:
  "proc_loop ps i (t, st) = (True, t', st') \<Longrightarrow> table_wf t
   \<Longrightarrow> table_wf t' \<and> set (live t) \<subseteq> set (live t') \<and> proc_tags t' i (proc_vars ps)"
proof (induction ps arbitrary: i t st)
  case Nil
  then show ?case by (simp add: proc_tags_def proc_vars_def)
next
  case (Cons p ps)
  obtain full where f: "build_name ''proc'' (pv_name p) = Some full" using Cons.prems(1) by (auto split: option.splits)
  obtain st2 t2 where a: "tag_table_add t \<lparr>full_name = Some full, te_type = pv_type p, te_ref = REF_PROC (of_nat i)\<rparr> = (0, t2)"
    and l: "proc_loop ps (Suc i) (t2, st2) = (True, t', st')"
    using Cons.prems(1) f by (auto split: prod.splits if_splits)
  note t2 = add_live [OF Cons.prems(2) a]
  have "full = ''proc.'' @ pv_name p" using build_name_Some [OF f] by simp
  then show ?case
    using Cons.IH [OF l t2(2)] t2(1) by (auto simp: proc_vars_def proc_tags_Cons)
qed

lemma hmi_loop_tags:
  "hmi_loop hs v (t, st) = (True, v', t', st') \<Longrightarrow> table_wf t
   \<Longrightarrow> table_wf t' \<and> set (live t) \<subseteq> set (live t') \<and> hmi_tags_in t' v (hmi_vars hs) \<and> v' = v + length (hmi_vars hs)"
proof (induction hs arbitrary: v t st)
  case Nil
  then show ?case by (simp add: hmi_tags_in_def)
next
  case (Cons h hs)
  obtain full where f: "build_name ''hmi'' (hd_name h) = Some full" using Cons.prems(1) by (auto split: option.splits)
  have full: "full = ''hmi.'' @ hd_name h" using build_name_Some [OF f] by simp
  show ?case
  proof (cases "hd_kind h")
    case (HMI_TAG_ALIAS target)
    obtain e t2 where l: "tag_table_add t e = (0, t2)" "hmi_loop hs v (t2, st) = (True, v', t', st')"
      using Cons.prems(1) f HMI_TAG_ALIAS by (auto simp: Let_def split: option.splits if_splits prod.splits)
    note t2 = add_live [OF Cons.prems(2) l(1)]
    show ?thesis using Cons.IH [OF l(2) t2(2)] t2(1) HMI_TAG_ALIAS by auto
  next
    case (HMI_TAG_VAR ty ini ret)
    obtain st2 t2 where l: "tag_table_add t \<lparr>full_name = Some full, te_type = ty,
          te_ref = REF_HMI_VAR (of_nat v) (hmi_access_code (hd_access h))\<rparr> = (0, t2)"
        "hmi_loop hs (Suc v) (t2, st2) = (True, v', t', st')"
      using Cons.prems(1) f HMI_TAG_VAR by (auto simp: Let_def split: option.splits if_splits prod.splits)
    note t2 = add_live [OF Cons.prems(2) l(1)]
    show ?thesis using Cons.IH [OF l(2) t2(2)] t2(1) HMI_TAG_VAR full by (auto simp: hmi_tags_in_Cons)
  next
    case (HMI_TAG_OTHER k)
    then show ?thesis using Cons.prems(1) f by simp
  qed
qed

text \<open>What the build leaves for the variables.\<close>

definition configured :: "SystemConfig \<Rightarrow> 'd Runtime \<Rightarrow> bool" where
  "configured cfg rt \<longleftrightarrow> table_wf (tag_table rt) \<and> store_wf (proc_store rt) \<and> store_wf (hmi_store rt)
     \<and> proc_tags (tag_table rt) 0 (proc_vars (cfg_proc_vars cfg))
     \<and> hmi_tags_in (tag_table rt) 0 (hmi_vars (cfg_hmi_tags cfg))
     \<and> length (cfg_proc_vars cfg) \<le> st_count (proc_store rt)
     \<and> length (hmi_vars (cfg_hmi_tags cfg)) \<le> st_count (hmi_store rt)"

lemma build_tags_configured:
  assumes "build_tags descs cfg (tag_table rt, proc_store rt, hmi_store rt) =
      (True, tag_table rt', proc_store rt', hmi_store rt')"
    and "runtime_wf rt" "descs_small descs"
  shows "configured cfg rt'"
proof -
  have wf: "table_wf (tag_table rt)" "store_wf (proc_store rt)" "store_wf (hmi_store rt)"
    using assms(2) by (simp_all add: runtime_wf_def)
  obtain t1 t2 where 1: "build_proc cfg (tag_table rt, proc_store rt) = (True, t1, proc_store rt')"
    and 2: "build_hmi cfg (t1, hmi_store rt) = (True, t2, hmi_store rt')"
    and 3: "devices_loop descs cfg (cfg_devices cfg) 0 t2 = (True, tag_table rt')"
    using assms(1) by (auto simp: build_tags_def Let_def split: prod.splits if_splits)
  have p: "table_wf t1 \<and> proc_tags t1 0 (proc_vars (cfg_proc_vars cfg)) \<and> length (cfg_proc_vars cfg) \<le> st_count (proc_store rt')"
  proof (cases "sc_process_vars cfg")
    case None
    then show ?thesis using 1 wf by (simp add: build_proc_def cfg_proc_vars_def proc_vars_def proc_tags_def)
  next
    case (Some pv)
    then obtain st where l: "proc_loop (cfg_proc_vars cfg) 0 (tag_table rt, proc_store rt) = (True, t1, st)"
        "proc_store rt' = st\<lparr>st_count := sc_process_var_count cfg\<rparr>"
      using 1 by (auto simp: build_proc_def cfg_proc_vars_def Let_def split: prod.splits if_splits)
    then show ?thesis using proc_loop_tags [OF l(1) wf(1)] by (simp add: cfg_proc_vars_def)
  qed
  have h: "table_wf t2 \<and> set (live t1) \<subseteq> set (live t2) \<and> hmi_tags_in t2 0 (hmi_vars (cfg_hmi_tags cfg))
      \<and> length (hmi_vars (cfg_hmi_tags cfg)) \<le> st_count (hmi_store rt')"
  proof (cases "sc_hmi_tags cfg")
    case None
    then show ?thesis using 2 p by (simp add: build_hmi_def cfg_hmi_tags_def hmi_tags_in_def)
  next
    case (Some hv)
    then obtain v st where l: "hmi_loop (cfg_hmi_tags cfg) 0 (t1, hmi_store rt) = (True, v, t2, st)"
        "hmi_store rt' = st\<lparr>st_count := v\<rparr>"
      using 2 by (auto simp: build_hmi_def cfg_hmi_tags_def Let_def split: prod.splits if_splits)
    then show ?thesis using hmi_loop_tags [OF l(1)] p by simp
  qed
  have g: "grows (io_entry_built descs cfg) t2 (tag_table rt')"
    using devices_loop_grows [OF 3 _ assms(3)] h by simp
  then have "set (live t2) \<subseteq> set (live (tag_table rt'))" "table_wf (tag_table rt')" by (auto simp: grows_def)
  moreover have "store_wf (proc_store rt')" "store_wf (hmi_store rt')"
    using build_tags_grows [OF assms(1) wf assms(3)] wf by auto
  ultimately show ?thesis
    using p h tags_in_mono [of t2 "tag_table rt'"] tags_in_mono [of t1 t2] by (auto simp: configured_def)
qed

section \<open>Initialising the stores\<close>

definition known_type :: "TagType \<Rightarrow> bool" where
  "known_type ty \<longleftrightarrow> tag_type_size ty \<noteq> 0"

text \<open>The bytes an initial value has in its slot.\<close>

definition init_bytes :: "TagType \<Rightarrow> TagValue \<Rightarrow> u8 list" where
  "init_bytes ty ini = (if ty = TAG_T_BOOL then [bool_byte (ini ! 0 \<noteq> 0)] else take (tag_type_size ty) ini)"

fun put_all :: "init_var list \<Rightarrow> nat \<Rightarrow> StoreValue list \<Rightarrow> StoreValue list" where
  "put_all [] i vs = vs"
| "put_all ((n, ty, ini) # ds) i vs = put_all ds (Suc i) (vs[i := snd (apply_initial ty ini (vs ! i))])"

lemma length_put_all [simp]: "length (put_all ds i vs) = length vs"
  by (induction ds i vs rule: put_all.induct) simp_all

lemma nth_put_all:
  "i + length ds \<le> length vs \<Longrightarrow> put_all ds i vs ! j = (if i \<le> j \<and> j < i + length ds
     then (case ds ! (j - i) of (n, ty, ini) \<Rightarrow> snd (apply_initial ty ini (vs ! j))) else vs ! j)"
proof (induction ds i vs rule: put_all.induct)
  case (2 n ty ini ds i vs)
  then show ?case by (auto simp: nth_Cons' nth_list_update Suc_diff_le split: prod.split)
qed auto

lemma apply_initial_known:
  assumes "known_type ty" "length ini = VALUE_SIZE" "length (sv_v sv) = VALUE_SIZE"
  shows "sv_type (snd (apply_initial ty ini sv)) = ty"
    and "take (tag_type_size ty) (sv_v (snd (apply_initial ty ini sv))) = init_bytes ty ini"
  using assms by (cases ty; simp add: apply_initial_def Let_def known_type_def tag_type_size_def init_bytes_def
      overwrite_def VALUE_SIZE_def)+

lemma apply_initial_len:
  "length (sv_v sv) = VALUE_SIZE \<Longrightarrow> length (sv_v (snd (apply_initial ty ini sv))) = VALUE_SIZE"
  by (cases ty) (simp_all add: apply_initial_def Let_def overwrite_def VALUE_SIZE_def)

lemma put_all_wf:
  "store_wf st \<Longrightarrow> store_wf (st\<lparr>st_values := put_all ds i (st_values st)\<rparr>)"
proof (induction ds i "st_values st" arbitrary: st rule: put_all.induct)
  case (2 n ty ini ds i st)
  let ?st = "st\<lparr>st_values := (st_values st)[i := snd (apply_initial ty ini (st_values st ! i))]\<rparr>"
  have "store_wf ?st"
  proof (cases "i < length (st_values st)")
    case True
    then show ?thesis
      using 2(2) apply_initial_len by (auto simp: store_wf_def dest!: set_update_cases)
  qed (use 2(2) in \<open>simp add: store_wf_def list_update_beyond\<close>)
  from 2(1) [OF _ this] show ?case by simp
qed simp

lemma find_entry:
  assumes "table_wf t" "e \<in> set (live t)" "full_name e = Some n"
  shows "tag_table_find_id t (Some n) \<noteq> 0 \<and> tag_table_get t (tag_table_find_id t (Some n)) = Some e"
proof -
  obtain i where i: "i < length (live t)" "live t ! i = e" using assms(2) by (auto simp: in_set_conv_nth)
  have "i < 256" using i(1) live_bound [OF assms(1)] by simp
  then have "unat (of_nat i + 1 :: u32) = Suc i" by (rule of_nat_index)
  moreover have "tag_table_find_id t (Some n) = of_nat i + 1"
    using tt.find_hit [OF assms(1) i(1)] i(2) assms(3) by simp
  ultimately have u: "unat (tag_table_find_id t (Some n)) = Suc i" by simp
  then have "tag_table_find_id t (Some n) \<noteq> 0" by auto
  then show ?thesis using u tt.get_contents [OF assms(1)] i by simp
qed

lemma entry_name_short: "table_wf t \<Longrightarrow> e \<in> set (live t) \<Longrightarrow> full_name e = Some n \<Longrightarrow> length n < NAME_STORAGE"
  by (auto simp: table_wf_def entry_named_def)

lemma build_name_fits:
  "length (p @ ''.'' @ n) < NAME_STORAGE \<Longrightarrow> build_name p n = Some (p @ ''.'' @ n)"
  by (simp add: build_name_def snprintf_def NAME_STORAGE_def)

lemma proc_init_all:
  "table_wf (tag_table rt) \<Longrightarrow> proc_tags (tag_table rt) i (proc_vars ps) \<Longrightarrow> i + length ps \<le> st_count (proc_store rt)
   \<Longrightarrow> st_count (proc_store rt) \<le> STORE_SIZE
   \<Longrightarrow> foldl proc_init_one rt ps =
     rt\<lparr>proc_store := (proc_store rt)\<lparr>st_values := put_all (proc_vars ps) i (st_values (proc_store rt))\<rparr>\<rparr>"
proof (induction ps arbitrary: i rt)
  case (Cons p ps)
  let ?e = "\<lparr>full_name = Some (''proc.'' @ pv_name p), te_type = pv_type p, te_ref = REF_PROC (of_nat i)\<rparr>"
  have e: "?e \<in> set (live (tag_table rt))" and tl: "proc_tags (tag_table rt) (Suc i) (proc_vars ps)"
    using Cons.prems(2) by (simp_all add: proc_vars_def proc_tags_Cons)
  have "build_name ''proc'' (pv_name p) = Some (''proc.'' @ pv_name p)"
    using build_name_fits [of "''proc''" "pv_name p"] entry_name_short [OF Cons.prems(1) e] by simp
  moreover have "unat (of_nat i :: u32) = i"
    using Cons.prems(3,4) by (intro unat_of_nat_small) (simp add: STORE_SIZE_def)
  ultimately have one: "proc_init_one rt p = rt\<lparr>proc_store := (proc_store rt)\<lparr>st_values :=
      (st_values (proc_store rt))[i := snd (apply_initial (pv_type p) (pv_initial p) (st_values (proc_store rt) ! i))]\<rparr>\<rparr>"
    using find_entry [OF Cons.prems(1) e] Cons.prems(3)
    by (simp add: proc_init_one_def Let_def proc_apply_initial_def case_prod_unfold)
  show ?case
    using Cons.IH [of "proc_init_one rt p" "Suc i"] Cons.prems tl by (simp add: one proc_vars_def)
qed (simp add: proc_vars_def)

lemma hmi_init_all:
  "table_wf (tag_table rt) \<Longrightarrow> hmi_tags_in (tag_table rt) i (hmi_vars hs)
   \<Longrightarrow> i + length (hmi_vars hs) \<le> st_count (hmi_store rt) \<Longrightarrow> st_count (hmi_store rt) \<le> STORE_SIZE
   \<Longrightarrow> foldl hmi_init_one rt hs =
     rt\<lparr>hmi_store := (hmi_store rt)\<lparr>st_values := put_all (hmi_vars hs) i (st_values (hmi_store rt))\<rparr>\<rparr>"
proof (induction hs arbitrary: i rt)
  case (Cons h hs)
  show ?case
  proof (cases "hd_kind h")
    case (HMI_TAG_VAR ty ini ret)
    let ?n = "''hmi.'' @ hd_name h"
    have tl: "hmi_tags_in (tag_table rt) (Suc i) (hmi_vars hs)"
      using Cons.prems(2) HMI_TAG_VAR by (simp add: hmi_tags_in_Cons)
    obtain acc where e: "\<lparr>full_name = Some ?n, te_type = ty, te_ref = REF_HMI_VAR (of_nat i) acc\<rparr> \<in> set (live (tag_table rt))"
      using Cons.prems(2) HMI_TAG_VAR by (auto simp: hmi_tags_in_Cons)
    have "build_name ''hmi'' (hd_name h) = Some ?n"
      using build_name_fits [of "''hmi''" "hd_name h"] entry_name_short [OF Cons.prems(1) e] by simp
    moreover have "unat (of_nat i :: u32) = i"
      using Cons.prems(3,4) HMI_TAG_VAR by (intro unat_of_nat_small) (simp add: STORE_SIZE_def)
    ultimately have one: "hmi_init_one rt h = rt\<lparr>hmi_store := (hmi_store rt)\<lparr>st_values :=
        (st_values (hmi_store rt))[i := snd (apply_initial ty ini (st_values (hmi_store rt) ! i))]\<rparr>\<rparr>"
      using find_entry [OF Cons.prems(1) e] Cons.prems(3) HMI_TAG_VAR
      by (simp add: hmi_init_one_def Let_def hmi_apply_initial_def case_prod_unfold)
    show ?thesis
      using Cons.IH [of "hmi_init_one rt h" "Suc i"] Cons.prems tl HMI_TAG_VAR by (simp add: one)
  next
    case (HMI_TAG_ALIAS target)
    then have one: "hmi_init_one rt h = rt" by (simp add: hmi_init_one_def)
    show ?thesis using Cons.IH [of rt i] Cons.prems HMI_TAG_ALIAS by (simp add: one)
  next
    case (HMI_TAG_OTHER k)
    then have one: "hmi_init_one rt h = rt" by (simp add: hmi_init_one_def)
    show ?thesis using Cons.IH [of rt i] Cons.prems HMI_TAG_OTHER by (simp add: one)
  qed
qed simp

section \<open>Reading the initial values\<close>

text \<open>Slot \<open>k\<close> of a store holds the initial value of variable \<open>k\<close>.\<close>

definition slots_initial :: "Store \<Rightarrow> init_var list \<Rightarrow> bool" where
  "slots_initial st vs \<longleftrightarrow> (\<forall>k < length vs. case vs ! k of (n, ty, ini) \<Rightarrow> known_type ty \<longrightarrow>
     sv_type (st_values st ! k) = ty \<and> take (tag_type_size ty) (sv_v (st_values st ! k)) = init_bytes ty ini)"

definition reads_initial :: "'d Runtime \<Rightarrow> init_var list \<Rightarrow> bool" where
  "reads_initial rt vs \<longleftrightarrow> (\<forall>(n, ty, ini) \<in> set vs. known_type ty \<longrightarrow>
     (\<forall>out. tag_read rt (tag_table_find_id (tag_table rt) (Some n)) (Some out) (tag_type_size ty)
        = (0, Some (overwrite (init_bytes ty ini) out), rt)))"

definition initials_ok :: "init_var list \<Rightarrow> bool" where
  "initials_ok vs \<longleftrightarrow> (\<forall>(n, ty, ini) \<in> set vs. length ini = VALUE_SIZE)"

lemma slots_initial_put_all:
  assumes "store_wf st" "length vs \<le> st_count st" "initials_ok vs"
  shows "slots_initial (st\<lparr>st_values := put_all vs 0 (st_values st)\<rparr>) vs"
  unfolding slots_initial_def
proof (intro allI impI)
  fix k assume k: "k < length vs"
  obtain n ty ini where v: "vs ! k = (n, ty, ini)" by (metis prod.exhaust)
  have len: "length vs \<le> length (st_values st)" using assms(1,2) by (simp add: store_wf_def)
  have "length (sv_v (st_values st ! k)) = VALUE_SIZE" using assms(1) k len by (simp add: store_wf_def)
  moreover have "(n, ty, ini) \<in> set vs" using k v by (metis nth_mem)
  then have "length ini = VALUE_SIZE" using assms(3) by (auto simp: initials_ok_def)
  ultimately show "case vs ! k of (n, ty, ini) \<Rightarrow> known_type ty \<longrightarrow>
      sv_type (st_values (st\<lparr>st_values := put_all vs 0 (st_values st)\<rparr>) ! k) = ty
      \<and> take (tag_type_size ty) (sv_v (st_values (st\<lparr>st_values := put_all vs 0 (st_values st)\<rparr>) ! k)) = init_bytes ty ini"
    using k v len apply_initial_known by (simp add: nth_put_all)
qed

lemma slot_tag_read:
  assumes ok: "ec_runtime_ok S P rt" and e: "e \<in> set (live (tag_table rt))" "full_name e = Some n"
    and k: "k < STORE_SIZE" and ty: "known_type (te_type e)"
    and st: "(te_ref e = REF_PROC (of_nat k) \<and> st = proc_store rt) \<or> (te_ref e = REF_HMI_VAR (of_nat k) acc \<and> st = hmi_store rt)"
    and slot: "k < st_count st" "sv_type (st_values st ! k) = te_type e"
  shows "tag_read rt (tag_table_find_id (tag_table rt) (Some n)) (Some out) (tag_type_size (te_type e)) =
    (0, Some (overwrite (take (tag_type_size (te_type e)) (sv_v (st_values st ! k))) out), rt)"
proof -
  have wf: "table_wf (tag_table rt)" using ok by (simp add: ec_runtime_ok_def runtime_wf_def)
  note f = find_entry [OF wf e]
  have u: "unat (of_nat k :: u32) = k" using k by (intro unat_of_nat_small) (simp add: STORE_SIZE_def)
  have r: "resolve_entry rt (tag_table_find_id (tag_table rt) (Some n)) False 0 = Some e"
    using f st by (subst resolve_entry.simps) auto
  have "ec.entry_read rt e = (0, take (tag_type_size (te_type e)) (sv_v (st_values st ! k)))"
    using st slot u by (auto simp: ec.entry_read_def get_proc_value_def get_hmi_value_def store_get_def)
  then show ?thesis using r ty by (simp add: ec_tag_read [OF ok] known_type_def)
qed

lemma reads_initialI:
  assumes "ec_runtime_ok S P rt" "configured cfg rt"
  shows "slots_initial (proc_store rt) (proc_vars (cfg_proc_vars cfg)) \<Longrightarrow> reads_initial rt (proc_vars (cfg_proc_vars cfg))"
    and "slots_initial (hmi_store rt) (hmi_vars (cfg_hmi_tags cfg)) \<Longrightarrow> reads_initial rt (hmi_vars (cfg_hmi_tags cfg))"
proof -
  note c = assms(2) [unfolded configured_def]
  have len: "length (proc_vars (cfg_proc_vars cfg)) \<le> st_count (proc_store rt)" using c by (simp add: proc_vars_def)
  have wf: "st_count (proc_store rt) \<le> STORE_SIZE" "st_count (hmi_store rt) \<le> STORE_SIZE" using c by (simp_all add: store_wf_def)
  show "reads_initial rt (proc_vars (cfg_proc_vars cfg))" if s: "slots_initial (proc_store rt) (proc_vars (cfg_proc_vars cfg))"
    unfolding reads_initial_def
  proof (clarify)
    fix n ty ini out assume v: "(n, ty, ini) \<in> set (proc_vars (cfg_proc_vars cfg))" and ty: "known_type ty"
    then obtain k where k: "k < length (proc_vars (cfg_proc_vars cfg))" "proc_vars (cfg_proc_vars cfg) ! k = (n, ty, ini)"
      by (auto simp: in_set_conv_nth)
    have e: "\<lparr>full_name = Some n, te_type = ty, te_ref = REF_PROC (of_nat k)\<rparr> \<in> set (live (tag_table rt))"
      using c k by (auto simp: proc_tags_def)
    have sl: "sv_type (st_values (proc_store rt) ! k) = ty"
        "take (tag_type_size ty) (sv_v (st_values (proc_store rt) ! k)) = init_bytes ty ini"
      using s k ty by (auto simp: slots_initial_def)
    show "tag_read rt (tag_table_find_id (tag_table rt) (Some n)) (Some out) (tag_type_size ty) =
        (0, Some (overwrite (init_bytes ty ini) out), rt)"
      using slot_tag_read [OF assms(1) e, of n k "proc_store rt" 0 out] ty sl k(1) len wf by simp
  qed
  show "reads_initial rt (hmi_vars (cfg_hmi_tags cfg))" if s: "slots_initial (hmi_store rt) (hmi_vars (cfg_hmi_tags cfg))"
    unfolding reads_initial_def
  proof (clarify)
    fix n ty ini out assume v: "(n, ty, ini) \<in> set (hmi_vars (cfg_hmi_tags cfg))" and ty: "known_type ty"
    then obtain k where k: "k < length (hmi_vars (cfg_hmi_tags cfg))" "hmi_vars (cfg_hmi_tags cfg) ! k = (n, ty, ini)"
      by (auto simp: in_set_conv_nth)
    obtain acc where e: "\<lparr>full_name = Some n, te_type = ty, te_ref = REF_HMI_VAR (of_nat k) acc\<rparr> \<in> set (live (tag_table rt))"
      using c k by (fastforce simp: hmi_tags_in_def)
    have sl: "sv_type (st_values (hmi_store rt) ! k) = ty"
        "take (tag_type_size ty) (sv_v (st_values (hmi_store rt) ! k)) = init_bytes ty ini"
      using s k ty by (auto simp: slots_initial_def)
    show "tag_read rt (tag_table_find_id (tag_table rt) (Some n)) (Some out) (tag_type_size ty) =
        (0, Some (overwrite (init_bytes ty ini) out), rt)"
      using slot_tag_read [OF assms(1) e, of n k "hmi_store rt" acc out] ty sl k(1) c wf by simp
  qed
qed

text \<open>The two initialisations of a configured runtime.\<close>

lemma proc_init_ok:
  assumes "ec_runtime_ok S P rt" "configured cfg rt" "initials_ok (proc_vars (cfg_proc_vars cfg))"
    and "mode \<noteq> START_HMI_INIT" "sc_process_vars cfg = None \<longrightarrow> sc_process_var_count cfg = 0"
  obtains st where "proc_init rt (sc_process_vars cfg) (sc_process_var_count cfg) mode = (0, rt\<lparr>proc_store := st\<rparr>)"
    "ec_runtime_ok S P (rt\<lparr>proc_store := st\<rparr>)" "configured cfg (rt\<lparr>proc_store := st\<rparr>)"
    "slots_initial st (proc_vars (cfg_proc_vars cfg))"
    "st = (proc_store rt)\<lparr>st_values := put_all (proc_vars (cfg_proc_vars cfg)) 0 (st_values (proc_store rt))\<rparr>"
proof -
  let ?vs = "proc_vars (cfg_proc_vars cfg)"
  let ?st = "(proc_store rt)\<lparr>st_values := put_all ?vs 0 (st_values (proc_store rt))\<rparr>"
  note c = assms(2) [unfolded configured_def]
  have "foldl proc_init_one rt (cfg_proc_vars cfg) = rt\<lparr>proc_store := ?st\<rparr>"
    using proc_init_all [of rt 0 "cfg_proc_vars cfg"] c by (simp add: store_wf_def)
  then have "proc_init rt (sc_process_vars cfg) (sc_process_var_count cfg) mode = (0, rt\<lparr>proc_store := ?st\<rparr>)"
    using assms(4,5) by (auto simp: proc_init_def cfg_proc_vars_def)
  moreover have "store_wf ?st" using put_all_wf c by blast
  then have "ec_runtime_ok S P (rt\<lparr>proc_store := ?st\<rparr>)" "configured cfg (rt\<lparr>proc_store := ?st\<rparr>)"
    using assms(1) c by (simp_all add: ec_runtime_ok_def runtime_wf_def configured_def)
  moreover have "slots_initial ?st ?vs"
    using slots_initial_put_all c assms(3) by (simp add: proc_vars_def)
  ultimately show thesis using that by blast
qed

lemma hmi_init_ok:
  assumes "ec_runtime_ok S P rt" "configured cfg rt" "initials_ok (hmi_vars (cfg_hmi_tags cfg))"
    and "mode \<noteq> START_COLD" "sc_hmi_tags cfg = None \<longrightarrow> sc_hmi_tag_count cfg = 0"
  obtains st where "hmi_init rt (sc_hmi_tags cfg) (sc_hmi_tag_count cfg) mode = (0, rt\<lparr>hmi_store := st\<rparr>)"
    "ec_runtime_ok S P (rt\<lparr>hmi_store := st\<rparr>)" "configured cfg (rt\<lparr>hmi_store := st\<rparr>)"
    "slots_initial st (hmi_vars (cfg_hmi_tags cfg))"
    "st = (hmi_store rt)\<lparr>st_values := put_all (hmi_vars (cfg_hmi_tags cfg)) 0 (st_values (hmi_store rt))\<rparr>"
proof -
  let ?vs = "hmi_vars (cfg_hmi_tags cfg)"
  let ?st = "(hmi_store rt)\<lparr>st_values := put_all ?vs 0 (st_values (hmi_store rt))\<rparr>"
  note c = assms(2) [unfolded configured_def]
  have "foldl hmi_init_one rt (cfg_hmi_tags cfg) = rt\<lparr>hmi_store := ?st\<rparr>"
    using hmi_init_all [of rt 0 "cfg_hmi_tags cfg"] c by (simp add: store_wf_def)
  then have "hmi_init rt (sc_hmi_tags cfg) (sc_hmi_tag_count cfg) mode = (0, rt\<lparr>hmi_store := ?st\<rparr>)"
    using assms(4,5) by (auto simp: hmi_init_def cfg_hmi_tags_def)
  moreover have "store_wf ?st" using put_all_wf c by blast
  then have "ec_runtime_ok S P (rt\<lparr>hmi_store := ?st\<rparr>)" "configured cfg (rt\<lparr>hmi_store := ?st\<rparr>)"
    using assms(1) c by (simp_all add: ec_runtime_ok_def runtime_wf_def configured_def)
  moreover have "slots_initial ?st ?vs" using slots_initial_put_all c assms(3) by simp
  ultimately show thesis using that by blast
qed

text \<open>Initialising keeps the types of the slots, so every tag stays readable.\<close>

definition same_slots :: "Store \<Rightarrow> Store \<Rightarrow> bool" where
  "same_slots st st' \<longleftrightarrow> st_count st' = st_count st \<and> (\<forall>k. sv_type (st_values st' ! k) = sv_type (st_values st ! k))"

lemma all_readable_cong:
  assumes "all_readable S P rt" "tag_table rt' = tag_table rt" "same_slots (proc_store rt) (proc_store rt')"
    and "same_slots (hmi_store rt) (hmi_store rt')" "\<And>io. map_option length (ec.tag_image rt' io) = map_option length (ec.tag_image rt io)"
  shows "all_readable S P rt'"
proof -
  have p: "get_proc_value rt' e = get_proc_value rt e" "get_hmi_value rt' e = get_hmi_value rt e" for e
    using assms(3,4) by (auto simp: get_proc_value_def get_hmi_value_def same_slots_def split: TagRef.split)
  have io: "fst (ec.entry_read rt' e) = fst (ec.entry_read rt e)" if "te_ref e = REF_IO io" for e io
    using assms(5) [of io] that
    by (cases "ec.tag_image rt' io"; cases "ec.tag_image rt io") (simp_all add: ec.entry_read_def case_prod_unfold peek_io_rc)
  have "fst (ec.entry_read rt' e) = fst (ec.entry_read rt e)" for e
    using io [of e] p [of e] by (cases "te_ref e") (auto simp: ec.entry_read_def split: option.split)
  then show ?thesis using assms(1,2) by (simp add: all_readable_def)
qed

lemma same_slots_refl [simp]: "same_slots st st"
  by (simp add: same_slots_def)

lemma sv_type_apply_initial [simp]: "sv_type (snd (apply_initial ty ini sv)) = ty"
  by (cases ty) (simp_all add: apply_initial_def Let_def)

lemma put_all_same_slots:
  assumes "length vs \<le> length (st_values st)"
    and "\<forall>k < length vs. case vs ! k of (n, ty, ini) \<Rightarrow> sv_type (st_values st ! k) = ty"
  shows "same_slots st (st\<lparr>st_values := put_all vs 0 (st_values st)\<rparr>)"
  using assms by (auto simp: same_slots_def nth_put_all split: prod.splits)

lemma init_same_slots:
  assumes "all_readable S P rt" "configured cfg rt"
  shows "same_slots (proc_store rt) ((proc_store rt)\<lparr>st_values := put_all (proc_vars (cfg_proc_vars cfg)) 0 (st_values (proc_store rt))\<rparr>)"
    and "same_slots (hmi_store rt) ((hmi_store rt)\<lparr>st_values := put_all (hmi_vars (cfg_hmi_tags cfg)) 0 (st_values (hmi_store rt))\<rparr>)"
proof -
  note c = assms(2) [unfolded configured_def]
  have u: "unat (of_nat k :: u32) = k" if "k < STORE_SIZE" for k
    using that by (intro unat_of_nat_small) (simp add: STORE_SIZE_def)
  have len: "length (proc_vars (cfg_proc_vars cfg)) \<le> STORE_SIZE" "length (hmi_vars (cfg_hmi_tags cfg)) \<le> STORE_SIZE"
    using c by (auto simp: proc_vars_def store_wf_def)
  show "same_slots (proc_store rt) ((proc_store rt)\<lparr>st_values := put_all (proc_vars (cfg_proc_vars cfg)) 0 (st_values (proc_store rt))\<rparr>)"
  proof (rule put_all_same_slots)
    show "length (proc_vars (cfg_proc_vars cfg)) \<le> length (st_values (proc_store rt))" using len c by (simp add: store_wf_def)
    show "\<forall>k < length (proc_vars (cfg_proc_vars cfg)). case proc_vars (cfg_proc_vars cfg) ! k of (n, ty, ini) \<Rightarrow>
        sv_type (st_values (proc_store rt) ! k) = ty"
    proof (intro allI impI, clarify)
      fix k n ty ini assume k: "k < length (proc_vars (cfg_proc_vars cfg))" "proc_vars (cfg_proc_vars cfg) ! k = (n, ty, ini)"
      let ?e = "\<lparr>full_name = Some n, te_type = ty, te_ref = REF_PROC (of_nat k)\<rparr>"
      have "?e \<in> set (live (tag_table rt))" using c k by (auto simp: proc_tags_def)
      then have "fst (ec.entry_read rt ?e) = 0" using assms(1) by (auto simp: all_readable_def te_kind_def)
      then show "sv_type (st_values (proc_store rt) ! k) = ty"
        using u [of k] k(1) len by (auto simp: ec.entry_read_def get_proc_value_def split: if_splits)
    qed
  qed
  show "same_slots (hmi_store rt) ((hmi_store rt)\<lparr>st_values := put_all (hmi_vars (cfg_hmi_tags cfg)) 0 (st_values (hmi_store rt))\<rparr>)"
  proof (rule put_all_same_slots)
    show "length (hmi_vars (cfg_hmi_tags cfg)) \<le> length (st_values (hmi_store rt))" using len c by (simp add: store_wf_def)
    show "\<forall>k < length (hmi_vars (cfg_hmi_tags cfg)). case hmi_vars (cfg_hmi_tags cfg) ! k of (n, ty, ini) \<Rightarrow>
        sv_type (st_values (hmi_store rt) ! k) = ty"
    proof (intro allI impI, clarify)
      fix k n ty ini assume k: "k < length (hmi_vars (cfg_hmi_tags cfg))" "hmi_vars (cfg_hmi_tags cfg) ! k = (n, ty, ini)"
      then obtain acc where "\<lparr>full_name = Some n, te_type = ty, te_ref = REF_HMI_VAR (of_nat k) acc\<rparr> \<in> set (live (tag_table rt))"
        using c by (fastforce simp: hmi_tags_in_def)
      then have "fst (ec.entry_read rt \<lparr>full_name = Some n, te_type = ty, te_ref = REF_HMI_VAR (of_nat k) acc\<rparr>) = 0"
        using assms(1) by (auto simp: all_readable_def te_kind_def)
      then show "sv_type (st_values (hmi_store rt) ! k) = ty"
        using u [of k] k(1) len by (auto simp: ec.entry_read_def get_hmi_value_def split: if_splits)
    qed
  qed
qed

lemma build_tags_arrays:
  assumes "build_tags descs cfg ts = (True, ts')"
  shows "(sc_process_vars cfg = None \<longrightarrow> sc_process_var_count cfg = 0) \<and> (sc_hmi_tags cfg = None \<longrightarrow> sc_hmi_tag_count cfg = 0)"
  using assms by (auto simp: build_tags_def build_proc_def build_hmi_def Let_def split: prod.splits if_splits)

lemma main_build_ok:
  assumes "main_build descs (g_backend_factories S P) cfg rt0 = (0, rt, app)" "length (rt_uninit rt0) = VALUE_SIZE"
    and "soem_image_ok S" "soem_map_ok S" "descs_small descs"
    and "initials_ok (proc_vars (cfg_proc_vars cfg))" "initials_ok (hmi_vars (cfg_hmi_tags cfg))"
  shows "ec_runtime_ok S P rt \<and> configured cfg rt
    \<and> reads_initial rt (proc_vars (cfg_proc_vars cfg)) \<and> reads_initial rt (hmi_vars (cfg_hmi_tags cfg))
    \<and> all_readable S P rt \<and> backends_set rt \<and> ecb.drivers_ready S P descs cfg rt \<and> backend_count rt = sc_backend_count cfg"
proof -
  let ?rt1 = "snd (runtime_init rt0)"
  have wf: "runtime_wf ?rt1" by (rule runtime_init_wf [OF assms(2)])
  obtain rc ds rt2 where b: "system_build descs (g_backend_factories S P) ?rt1 cfg = (rc, ds, rt2)" by (metis prod.exhaust)
  have "rc = 0" using assms(1) b by (auto simp: main_build_def Let_def split: if_splits)
  then have b0: "system_build descs (g_backend_factories S P) ?rt1 cfg = (0, ds, rt2)" using b by simp
  note bo = ec_build_runtime_ok [OF b0 wf assms(3-5)]
  have ok2: "ec_runtime_ok S P rt2" using bo by simp
  obtain rt1' where t: "build_tags descs cfg (tag_table ?rt1, proc_store ?rt1, hmi_store ?rt1) =
      (True, tag_table rt2, proc_store rt2, hmi_store rt2)"
    by (rule system_build_success [OF b0 wf])
  note arr = build_tags_arrays [OF t]
  have c2: "configured cfg rt2" by (rule build_tags_configured [OF t wf assms(5)])
  obtain st3 where 3: "proc_init rt2 (sc_process_vars cfg) (sc_process_var_count cfg) START_FACTORY = (0, rt2\<lparr>proc_store := st3\<rparr>)"
    "ec_runtime_ok S P (rt2\<lparr>proc_store := st3\<rparr>)" "configured cfg (rt2\<lparr>proc_store := st3\<rparr>)"
    "slots_initial st3 (proc_vars (cfg_proc_vars cfg))"
    "st3 = (proc_store rt2)\<lparr>st_values := put_all (proc_vars (cfg_proc_vars cfg)) 0 (st_values (proc_store rt2))\<rparr>"
    using proc_init_ok [OF ok2 c2 assms(6), of START_FACTORY] arr by auto
  obtain st4 where 4: "hmi_init (rt2\<lparr>proc_store := st3\<rparr>) (sc_hmi_tags cfg) (sc_hmi_tag_count cfg) START_FACTORY
      = (0, rt2\<lparr>proc_store := st3, hmi_store := st4\<rparr>)"
    "ec_runtime_ok S P (rt2\<lparr>proc_store := st3, hmi_store := st4\<rparr>)" "configured cfg (rt2\<lparr>proc_store := st3, hmi_store := st4\<rparr>)"
    "slots_initial st4 (hmi_vars (cfg_hmi_tags cfg))"
    "st4 = (hmi_store rt2)\<lparr>st_values := put_all (hmi_vars (cfg_hmi_tags cfg)) 0 (st_values (hmi_store rt2))\<rparr>"
    using hmi_init_ok [OF 3(2,3) assms(7), of START_FACTORY] arr by auto
  have rt: "rt = rt2\<lparr>proc_store := st3, hmi_store := st4\<rparr>"
    using assms(1) b \<open>rc = 0\<close> 3(1) 4(1) by (auto simp: main_build_def Let_def split: prod.splits)
  have "live (tag_table ?rt1) = []" by (simp add: runtime_init_def tag_table_init_def)
  then have r2: "all_readable S P rt2" using build_all_readable [OF b0 wf _ assms(3-5)] by blast
  have "all_readable S P rt"
    by (rule all_readable_cong [OF r2]) (use 3(5) 4(5) rt init_same_slots [OF r2 c2] in \<open>simp_all add: ec.tag_image_def\<close>)
  moreover have "backends_set rt" "ecb.drivers_ready S P descs cfg rt" "backend_count rt = sc_backend_count cfg"
    using bo rt by (simp_all add: ecb.drivers_ready_def)
  ultimately show ?thesis using 3 4 rt reads_initialI [OF 4(2,3)] by simp
qed

text \<open>
  C9. After a successful start-up of an arbitrary configuration over EtherCAT backends, every
  process variable and every HMI variable it describes is registered under its full name
  and reads its configured initial value, and the runtime is one the guarantees of the tag
  API hold for.
\<close>

theorem main_build_initial_values:
  assumes "main_build descs (g_backend_factories S P) cfg rt0 = (0, rt, app)" "length (rt_uninit rt0) = VALUE_SIZE"
    and "soem_image_ok S" "soem_map_ok S" "descs_small descs"
    and "initials_ok (proc_vars (cfg_proc_vars cfg))" "initials_ok (hmi_vars (cfg_hmi_tags cfg))"
  shows "ec_runtime_ok S P rt \<and> configured cfg rt
    \<and> reads_initial rt (proc_vars (cfg_proc_vars cfg)) \<and> reads_initial rt (hmi_vars (cfg_hmi_tags cfg))"
  using main_build_ok [OF assms] by blast

section \<open>The factory reset\<close>

lemma tag_write_counts:
  "tag_write rt tid inp n = (rc, rt') \<Longrightarrow> st_count (proc_store rt') = st_count (proc_store rt)
     \<and> st_count (hmi_store rt') = st_count (hmi_store rt)"
  by (auto simp: tag_write_def store_put_def Let_def write_io_value_def get_io_write_base_def call_data_def
      image_store_def split: option.splits if_splits TagKind.splits TagRef.splits prod.splits)

lemma ec_write_keeps:
  assumes "ec_runtime_ok S P rt" "tag_write rt tid (Some buf) n = (rc, rt')" "n \<le> length buf"
  shows "ec_runtime_ok S P rt' \<and> tag_table rt' = tag_table rt"
proof (cases "rc = 0")
  case True
  then have w: "tag_write rt tid (Some buf) n = (0, rt')" using assms(2) by simp
  show ?thesis by (rule ec_tag_write_ok [OF assms(1) w assms(3)]) simp
next
  case False
  then show ?thesis using ec.tag_write_fail [OF assms(1) [unfolded ec_runtime_ok_iff] assms(2)] assms(1) by simp
qed

text \<open>
  C10. A factory reset requested by an operator is complete: if the command tag reads true at
  the start of a cycle, then afterwards every process variable and every HMI variable reads
  its initial value again, whatever was written to it before; the tags themselves stay as
  they are. If the command reads false, nothing changes.
\<close>

theorem factory_reset_restores:
  assumes "ec_runtime_ok S P rt" "configured cfg rt"
    and "initials_ok (proc_vars (cfg_proc_vars cfg))" "initials_ok (hmi_vars (cfg_hmi_tags cfg))"
    and "sc_process_vars cfg = None \<longrightarrow> sc_process_var_count cfg = 0" "sc_hmi_tags cfg = None \<longrightarrow> sc_hmi_tag_count cfg = 0"
    and "reset_id \<noteq> 0" "tag_read_bool rt reset_id False = (0, cmd, rt)"
  shows "if cmd
    then ec_runtime_ok S P (factory_reset cfg reset_id rt) \<and> configured cfg (factory_reset cfg reset_id rt)
      \<and> tag_table (factory_reset cfg reset_id rt) = tag_table rt
      \<and> reads_initial (factory_reset cfg reset_id rt) (proc_vars (cfg_proc_vars cfg))
      \<and> reads_initial (factory_reset cfg reset_id rt) (hmi_vars (cfg_hmi_tags cfg))
    else factory_reset cfg reset_id rt = rt"
proof (cases cmd)
  case False
  then show ?thesis using assms(7,8) by (simp add: factory_reset_def)
next
  case True
  obtain rc rt2 where w: "tag_write rt reset_id (Some [bool_byte False]) 1 = (rc, rt2)" by fastforce
  have k: "ec_runtime_ok S P rt2" "tag_table rt2 = tag_table rt" using ec_write_keeps [OF assms(1) w] by simp_all
  have c2: "configured cfg rt2"
    using assms(2) k tag_write_counts [OF w] by (simp add: configured_def ec_runtime_ok_def runtime_wf_def)
  obtain st3 where 3: "hmi_init rt2 (sc_hmi_tags cfg) (sc_hmi_tag_count cfg) START_HMI_INIT = (0, rt2\<lparr>hmi_store := st3\<rparr>)"
    "ec_runtime_ok S P (rt2\<lparr>hmi_store := st3\<rparr>)" "configured cfg (rt2\<lparr>hmi_store := st3\<rparr>)"
    "slots_initial st3 (hmi_vars (cfg_hmi_tags cfg))"
    using hmi_init_ok [OF k(1) c2 assms(4), of START_HMI_INIT] assms(6) by auto
  obtain st4 where 4: "proc_init (rt2\<lparr>hmi_store := st3\<rparr>) (sc_process_vars cfg) (sc_process_var_count cfg) START_COLD
      = (0, rt2\<lparr>hmi_store := st3, proc_store := st4\<rparr>)"
    "ec_runtime_ok S P (rt2\<lparr>hmi_store := st3, proc_store := st4\<rparr>)" "configured cfg (rt2\<lparr>hmi_store := st3, proc_store := st4\<rparr>)"
    "slots_initial st4 (proc_vars (cfg_proc_vars cfg))"
    using proc_init_ok [OF 3(2,3) assms(3), of START_COLD] assms(5) by auto
  have "factory_reset cfg reset_id rt = rt2\<lparr>hmi_store := st3, proc_store := st4\<rparr>"
    using assms(7,8) True w 3(1) 4(1) by (simp add: factory_reset_def tag_write_bool_def)
  then show ?thesis using True k(2) 3 4 reads_initialI [OF 4(2,3)] by simp
qed

end
