(* ===== verification/Static_Boot.thy ===== *)
theory Static_Boot
  imports Boot_Props
begin

text \<open>
  The configuration the program is linked with. The table it produces is computed as a list of
  entries; the builder's loops are shown to add exactly these entries whenever there is room
  for them, so nothing has to be evaluated on the table's array.
\<close>

section \<open>When the loops succeed\<close>

definition room :: "TagTable \<Rightarrow> TagEntry list \<Rightarrow> bool" where
  "room t es \<longleftrightarrow> table_wf t \<and> (\<forall>e \<in> set es. entry_named e) \<and> distinct (map full_name (live t @ es))
     \<and> length (live t @ es) \<le> 256"

lemma room_add:
  assumes "room t (e # es)"
  shows "\<exists>t'. tag_table_add t e = (0, t') \<and> live t' = live t @ [e] \<and> room t' es"
proof -
  have wf: "table_wf t" and "add_accepts t e"
    using assms by (auto simp: room_def add_accepts_def)
  then have "fst (tag_table_add t e) = 0" "live (snd (tag_table_add t e)) = live t @ [e]" "table_wf (snd (tag_table_add t e))"
    using tag_table_add_live [OF wf, of e] tag_table_add_wf [OF wf] by simp_all
  then show ?thesis using assms by (intro exI [of _ "snd (tag_table_add t e)"]) (auto simp: room_def prod_eq_iff)
qed

lemma named_short: "entry_named \<lparr>full_name = Some n, te_type = ty, te_ref = r\<rparr> \<Longrightarrow> length n < NAME_STORAGE"
  by (simp add: entry_named_def)

fun proc_entries :: "nat \<Rightarrow> ProcessVarDesc list \<Rightarrow> TagEntry list" where
  "proc_entries i [] = []"
| "proc_entries i (p # ps) =
     \<lparr>full_name = Some (''proc.'' @ pv_name p), te_type = pv_type p, te_ref = REF_PROC (of_nat i)\<rparr> # proc_entries (Suc i) ps"

lemma proc_loop_success:
  "room t (proc_entries i ps @ es) \<Longrightarrow>
     \<exists>t' st'. proc_loop ps i (t, st) = (True, t', st') \<and> live t' = live t @ proc_entries i ps \<and> room t' es"
proof (induction ps arbitrary: i t st)
  case (Cons p ps)
  let ?n = "''proc.'' @ pv_name p"
  let ?e = "\<lparr>full_name = Some ?n, te_type = pv_type p, te_ref = REF_PROC (of_nat i)\<rparr>"
  obtain t1 where a: "tag_table_add t ?e = (0, t1)" "live t1 = live t @ [?e]" "room t1 (proc_entries (Suc i) ps @ es)"
    using room_add [of t ?e] Cons.prems by auto
  have "entry_named ?e" using Cons.prems by (simp add: room_def)
  then have "build_name ''proc'' (pv_name p) = Some ?n"
    using build_name_fits [of "''proc''" "pv_name p"] named_short by fastforce
  then show ?case
    using Cons.IH [OF a(3), of "st\<lparr>st_values := (st_values st)[i := zero_value\<lparr>sv_type := pv_type p\<rparr>]\<rparr>"] a(1,2) by auto
qed simp

text \<open>The entries of the HMI tags; the targets are looked up in the list so far.\<close>

fun hmi_entries :: "TagEntry list \<Rightarrow> nat \<Rightarrow> HmiTagDesc list \<Rightarrow> TagEntry list option" where
  "hmi_entries L v [] = Some []"
| "hmi_entries L v (h # hs) = (case hd_kind h of
     HMI_TAG_ALIAS (Some target) \<Rightarrow>
       (case tag_table_scan L target 0 of
          None \<Rightarrow> None
        | Some i \<Rightarrow>
            let e = \<lparr>full_name = Some (''hmi.'' @ hd_name h), te_type = te_type (L ! i),
                     te_ref = REF_HMI_ALIAS (of_nat i + 1) (hmi_access_code (hd_access h))\<rparr>
            in map_option ((#) e) (hmi_entries (L @ [e]) v hs))
   | HMI_TAG_VAR ty ini ret \<Rightarrow>
       let e = \<lparr>full_name = Some (''hmi.'' @ hd_name h), te_type = ty,
                te_ref = REF_HMI_VAR (of_nat v) (hmi_access_code (hd_access h))\<rparr>
       in map_option ((#) e) (hmi_entries (L @ [e]) (Suc v) hs)
   | _ \<Rightarrow> None)"

lemma hmi_loop_success:
  "hmi_entries (live t) v hs = Some hes \<Longrightarrow> room t (hes @ es) \<Longrightarrow> v + length hs \<le> STORE_SIZE \<Longrightarrow>
     \<exists>v' t' st'. hmi_loop hs v (t, st) = (True, v', t', st') \<and> live t' = live t @ hes \<and> room t' es"
proof (induction hs arbitrary: v t st hes)
  case (Cons h hs)
  let ?n = "''hmi.'' @ hd_name h"
  have fits: "build_name ''hmi'' (hd_name h) = Some ?n"
    if "entry_named \<lparr>full_name = Some ?n, te_type = ty, te_ref = r\<rparr>" for ty r
    using build_name_fits [of "''hmi''" "hd_name h"] named_short [OF that] by simp
  have wf: "table_wf t" using Cons.prems(2) by (simp add: room_def)
  show ?case
  proof (cases "hd_kind h")
    case (HMI_TAG_ALIAS alias_of)
    then obtain target i where t: "alias_of = Some target" "tag_table_scan (live t) target 0 = Some i"
      using Cons.prems(1) by (auto split: option.splits)
    let ?e = "\<lparr>full_name = Some ?n, te_type = te_type (live t ! i),
        te_ref = REF_HMI_ALIAS (of_nat i + 1) (hmi_access_code (hd_access h))\<rparr>"
    obtain hes1 where h: "hmi_entries (live t @ [?e]) v hs = Some hes1" "hes = ?e # hes1"
      using Cons.prems(1) HMI_TAG_ALIAS t by (auto simp: Let_def)
    obtain t1 where a: "tag_table_add t ?e = (0, t1)" "live t1 = live t @ [?e]" "room t1 (hes1 @ es)"
      using room_add [of t ?e] Cons.prems(2) h(2) by auto
    have f: "build_name ''hmi'' (hd_name h) = Some ?n" using Cons.prems(2) h(2) by (intro fits) (auto simp: room_def)
    have i: "i < length (live t)" "full_name (live t ! i) = Some target"
      using tag_table_scan_Some [of "live t" target 0 i] t(2) by auto
    have fd: "tag_table_find_id t (Some target) = of_nat i + 1" using t(2) by (simp add: tag_table_find_id_def)
    have nz: "tag_table_find_id t (Some target) \<noteq> 0 \<and> tag_table_get t (tag_table_find_id t (Some target)) = Some (live t ! i)"
      using find_entry [OF wf, of "live t ! i"] i by simp
    obtain v' t' st' where "hmi_loop hs v (t1, st) = (True, v', t', st')" "live t' = live t1 @ hes1" "room t' es"
      using Cons.IH [of t1 v hes1 st] h(1) a(2,3) Cons.prems(3) by auto
    then show ?thesis using HMI_TAG_ALIAS t(1) f nz fd a h(2) by (simp add: Let_def)
  next
    case (HMI_TAG_VAR ty ini ret)
    let ?e = "\<lparr>full_name = Some ?n, te_type = ty, te_ref = REF_HMI_VAR (of_nat v) (hmi_access_code (hd_access h))\<rparr>"
    obtain hes1 where h: "hmi_entries (live t @ [?e]) (Suc v) hs = Some hes1" "hes = ?e # hes1"
      using Cons.prems(1) HMI_TAG_VAR by (auto simp: Let_def)
    obtain t1 where a: "tag_table_add t ?e = (0, t1)" "live t1 = live t @ [?e]" "room t1 (hes1 @ es)"
      using room_add [of t ?e] Cons.prems(2) h(2) by auto
    have f: "build_name ''hmi'' (hd_name h) = Some ?n" using Cons.prems(2) h(2) by (intro fits) (auto simp: room_def)
    obtain v' t' st' where "hmi_loop hs (Suc v) (t1, st\<lparr>st_values := (st_values st)[v := zero_value\<lparr>sv_type := ty\<rparr>]\<rparr>)
        = (True, v', t', st')" "live t' = live t1 @ hes1" "room t' es"
      using Cons.IH [of t1 "Suc v" hes1] h(1) a(2,3) Cons.prems(3) by fastforce
    then show ?thesis using HMI_TAG_VAR f a h(2) Cons.prems(3) by (simp add: Let_def)
  next
    case (HMI_TAG_OTHER k)
    then show ?thesis using Cons.prems(1) by simp
  qed
qed simp

definition device_entries :: "string \<Rightarrow> u16 \<Rightarrow> u16 \<Rightarrow> TagDesc list \<Rightarrow> TagEntry list" where
  "device_entries name bi di tds = map (\<lambda>td. device_entry (name @ ''.'' @ the (td_name td)) td bi di) tds"

lemma device_tags_loop_success:
  "list_all (\<lambda>td. validate_tag_desc td desc = 0) tds \<Longrightarrow> room t (device_entries name bi di tds @ es) \<Longrightarrow>
     \<exists>t'. device_tags_loop tds desc name bi di t = (0, t') \<and> live t' = live t @ device_entries name bi di tds \<and> room t' es"
proof (induction tds arbitrary: t)
  case (Cons td tds)
  obtain n where n: "td_name td = Some n"
    using Cons.prems(1) by (cases "td_name td") (simp_all add: validate_tag_desc_def)
  let ?e = "device_entry (name @ ''.'' @ n) td bi di"
  obtain t1 where a: "tag_table_add t ?e = (0, t1)" "live t1 = live t @ [?e]" "room t1 (device_entries name bi di tds @ es)"
    using room_add [of t ?e] Cons.prems(2) n by (auto simp: device_entries_def)
  have "entry_named ?e" using Cons.prems(2) n by (simp add: room_def device_entries_def)
  then have "build_name name n = Some (name @ ''.'' @ n)"
    using build_name_fits [of name n] named_short by (fastforce simp: device_entry_def)
  then show ?case using Cons.IH [OF _ a(3)] a(1,2) Cons.prems(1) n by (auto simp: device_entries_def)
qed (simp add: device_entries_def)

section \<open>The table of the linked configuration\<close>

definition static_entries :: "TagEntry list" where
  "static_entries = (let ps = proc_entries 0 kProcessVarDescs; hs = the (hmi_entries ps 0 kHmiTagDescs) in
     ps @ hs @ device_entries ''DAIO'' 0 0 L230_TAGS)"

lemma static_eval:
  "hmi_entries (proc_entries 0 kProcessVarDescs) 0 kHmiTagDescs \<noteq> None"
  "list_all (\<lambda>td. validate_tag_desc td DEVICE_DESC_L230 = 0) L230_TAGS"
  "distinct (map full_name static_entries)"
  "list_all (\<lambda>e. case full_name e of None \<Rightarrow> False | Some n \<Rightarrow> n \<noteq> [] \<and> length n < 128) static_entries"
  "length static_entries = 45"
  by code_simp+

lemma static_devices:
  "cfg_devices kStaticConfig = kDeviceConfigs" "dc_name (hd kDeviceConfigs) = Some ''DAIO''"
  "device_registry_find_in g_device_descs (dc_model (hd kDeviceConfigs)) = Some DEVICE_DESC_L230"
  "find_backend_index kStaticConfig (dc_backend (hd kDeviceConfigs)) = Some 0"
  "find_backend_device_index kStaticConfig 0 (dc_backend (hd kDeviceConfigs)) = Some 0"
  "length kDeviceConfigs = 1" "length kProcessVarDescs = 5" "length kHmiTagDescs = 6"
proof -
  show "cfg_devices kStaticConfig = kDeviceConfigs" by (simp add: cfg_devices_def kStaticConfig_def)
  have find: "map_option model (device_registry_find_in g_device_descs (dc_model (hd kDeviceConfigs))) = Some (model DEVICE_DESC_L230)"
    "model DEVICE_DESC_L230 \<noteq> model DEVICE_DESC_L400" by code_simp+
  then obtain d where d: "device_registry_find_in g_device_descs (dc_model (hd kDeviceConfigs)) = Some d" "model d = model DEVICE_DESC_L230"
    by auto
  moreover have "d = DEVICE_DESC_L230 \<or> d = DEVICE_DESC_L400"
  proof -
    have "Some d \<in> set g_device_descs"
      using d(1) device_registry_scan_Some unfolding device_registry_find_in_def by (auto split: option.splits)
    then show ?thesis unfolding g_device_descs_def by simp
  qed
  ultimately show "device_registry_find_in g_device_descs (dc_model (hd kDeviceConfigs)) = Some DEVICE_DESC_L230"
    using find(2) by auto
qed (code_simp+)

lemma l230_desc: "tags DEVICE_DESC_L230 = Some L230_TAGS" "take (unat (tag_count DEVICE_DESC_L230)) L230_TAGS = L230_TAGS"
proof -
  show "tags DEVICE_DESC_L230 = Some L230_TAGS" by (simp add: DEVICE_DESC_L230_def)
  have "unat (tag_count DEVICE_DESC_L230) = length L230_TAGS" by code_simp
  then show "take (unat (tag_count DEVICE_DESC_L230)) L230_TAGS = L230_TAGS" by simp
qed

lemma static_build_tags:
  assumes "table_wf t" "live t = []"
  shows "\<exists>t' ps' hs'. build_tags g_device_descs kStaticConfig (t, ps, hs) = (True, t', ps', hs') \<and> live t' = static_entries"
proof -
  let ?pe = "proc_entries 0 kProcessVarDescs"
  obtain he where he: "hmi_entries ?pe 0 kHmiTagDescs = Some he" using static_eval(1) by auto
  let ?de = "device_entries ''DAIO'' 0 0 L230_TAGS"
  have all: "static_entries = ?pe @ he @ ?de" by (simp add: static_entries_def he)
  have r: "room t (?pe @ he @ ?de @ [])"
    using assms static_eval(3-5) by (auto simp: room_def all [symmetric] list_all_iff entry_named_def NAME_STORAGE_def
        split: option.splits)
  obtain t1 st1 where 1: "proc_loop kProcessVarDescs 0 (t, ps) = (True, t1, st1)" "live t1 = ?pe" "room t1 (he @ ?de @ [])"
    using proc_loop_success [OF r, of ps] assms(2) by fastforce
  obtain v t2 st2 where 2: "hmi_loop kHmiTagDescs 0 (t1, hs) = (True, v, t2, st2)" "live t2 = ?pe @ he" "room t2 (?de @ [])"
    using hmi_loop_success [of t1 0 kHmiTagDescs he "?de @ []" hs] he 1(2,3) static_devices(8) by (auto simp: STORE_SIZE_def)
  obtain t3 where 3: "device_tags_loop L230_TAGS DEVICE_DESC_L230 ''DAIO'' 0 0 t2 = (0, t3)" "live t3 = static_entries"
    using device_tags_loop_success [OF static_eval(2) 2(3)] 2(2) all by auto
  have d: "cfg_devices kStaticConfig = [hd kDeviceConfigs]" and d0: "kDeviceConfigs ! 0 = hd kDeviceConfigs"
    unfolding static_devices(1) by (simp_all add: kDeviceConfigs_def)
  have cnt: "sc_device_count kStaticConfig = 1" using static_devices(6) by (simp add: kStaticConfig_def)
  have "system_build_tags_for_device kStaticConfig 0 0 0 DEVICE_DESC_L230 t2 = (0, t3)"
    using 3(1)
    by (simp add: system_build_tags_for_device_def l230_desc cnt static_devices(1) d0 static_devices(2) del: hd_conv_nth)
  then have dl: "devices_loop g_device_descs kStaticConfig (cfg_devices kStaticConfig) 0 t2 = (True, t3)"
    unfolding d by (simp add: static_devices(3-5))
  have "build_proc kStaticConfig (t, ps) = (True, t1, st1\<lparr>st_count := 5\<rparr>)"
    using 1(1) static_devices(7) by (simp add: build_proc_def kStaticConfig_def STORE_SIZE_def)
  moreover have "build_hmi kStaticConfig (t1, hs) = (True, t2, st2\<lparr>st_count := v\<rparr>)"
    using 2(1) by (simp add: build_hmi_def kStaticConfig_def)
  ultimately have "build_tags g_device_descs kStaticConfig (t, ps, hs) = (True, t3, st1\<lparr>st_count := 5\<rparr>, st2\<lparr>st_count := v\<rparr>)"
    using dl by (simp add: build_tags_def)
  then show ?thesis using 3(2) by blast
qed

section \<open>Views\<close>

text \<open>Lookups depend only on the entries; this table has them without the empty rest of the array.\<close>

definition static_table :: TagTable where
  "static_table = \<lparr>tt_entries = static_entries, tt_count = 45\<rparr>"

lemma live_static_table: "live static_table = static_entries"
proof -
  have "unat (45 :: u32) = 45" by simp
  then show ?thesis using static_eval(5) by (simp add: live_def static_table_def)
qed

lemma find_id_cong: "live t = live t' \<Longrightarrow> tag_table_find_id t n = tag_table_find_id t' n"
  by (drule arg_cong [of _ _ "\<lambda>l. case n of None \<Rightarrow> 0 | Some m \<Rightarrow> (case tag_table_scan l m 0 of None \<Rightarrow> 0 | Some i \<Rightarrow> of_nat i + 1)"])
    (simp only: tag_table_find_id_def)

lemma bind_names_cong: "live t = live t' \<Longrightarrow> bind_names t bs v = bind_names t' bs v"
  using find_id_cong [of t t'] by (induction bs arbitrary: v) (simp_all add: Let_def)

lemma bind_view_cong: "live t = live t' \<Longrightarrow> bind_view_by_offset v l t bs = bind_view_by_offset v l t' bs"
  using bind_names_cong [of t t'] by (auto simp: bind_view_by_offset_def split: prod.split option.split)

lemma user_bind_cong: "live t = live t' \<Longrightarrow> user_bind app t = user_bind app t'"
  using bind_view_cong [of t t']
  by (simp add: user_bind_def io_view_bind_def hmi_view_bind_def proc_view_bind_def Let_def case_prod_unfold)

definition static_app :: PlcApp where
  "static_app = \<lparr>
     app_io = [27, 28, 29, 30, 31, 32, 33, 34, 35, 36, 37, 38, 39, 40, 41, 12, 13,
       14, 15, 16, 17, 18, 19, 20, 21, 22, 23, 24, 25, 26, 42, 43, 44],
     app_hmi = [6, 7, 8, 9, 10], app_proc = [5]\<rparr>"

lemma static_reset_eval: "tag_table_find_id static_table (Some ''hmi.FactoryResetCmd'') = 11"
  by code_simp

lemma static_app_eval: "user_bind zero_app static_table = (0, static_app)"
  by code_simp

end
