(* ===== verification/Static_Props.thy ===== *)
theory Static_Props
  imports Static_Boot
begin

text \<open>The start-up of the program with its linked configuration.\<close>

section \<open>The scheduler after the setup\<close>

definition static_sched :: PlcScheduler where
  "static_sched = snd (user_register_plc_tasks 1 (snd (plc_scheduler_set_callbacks
     (snd (snd (plc_scheduler_init zero_sched 10))) (Some CB_begin) (Some CB_end) 1)))"

definition static_task :: "string \<Rightarrow> nat \<Rightarrow> u32 \<Rightarrow> PlcTaskPolicy \<Rightarrow> PlcTask" where
  "static_task n f p pol = \<lparr>tk_name = Some n, tk_fn = Some f, tk_ctx = 1, period_ms = p, phase_ms = 0,
     last_run_ms = 0, tk_policy = pol\<rparr>"

definition static_tasks :: "PlcTask list" where
  "static_tasks = [static_task ''noop'' TASK_noop 1000 PLC_TASK_SKIP_ON_FAULT,
     static_task ''heartbeat'' TASK_heartbeat 500 PLC_TASK_ALWAYS_RUN]"

lemma static_sched_eval:
  "fst (user_register_plc_tasks 1 (snd (plc_scheduler_set_callbacks
     (snd (snd (plc_scheduler_init zero_sched 10))) (Some CB_begin) (Some CB_end) 1))) = 0"
  "task_count static_sched = 2" "take 2 (tasks static_sched) = static_tasks" "base_cycle_ms static_sched = 10"
  "backend_cycle_begin static_sched = Some CB_begin" "backend_cycle_end static_sched = Some CB_end"
  "on_cycle_begin static_sched = Some CB_begin" "on_cycle_end static_sched = Some CB_end"
  "sched_running static_sched = False" "length (tasks static_sched) = 32"
  by code_simp+

lemma proc_init_table: "tag_table (snd (proc_init rt ds n mode)) = tag_table rt"
proof -
  have one: "tag_table (proc_init_one r d) = tag_table r" for r :: "'a Runtime" and d
    by (simp add: proc_init_one_def Let_def split: option.split TagRef.split prod.split)
  have "tag_table (foldl proc_init_one r l) = tag_table r" for r :: "'a Runtime" and l
    by (induction l arbitrary: r) (simp_all add: one)
  then show ?thesis by (simp add: proc_init_def Let_def)
qed

lemma hmi_init_table: "tag_table (snd (hmi_init rt ds n mode)) = tag_table rt"
proof -
  have one: "tag_table (hmi_init_one r d) = tag_table r" for r :: "'a Runtime" and d
    by (simp add: hmi_init_one_def Let_def split: HmiTagKind.split option.split TagRef.split prod.split)
  have "tag_table (foldl hmi_init_one r l) = tag_table r" for r :: "'a Runtime" and l
    by (induction l arbitrary: r) (simp_all add: one)
  then show ?thesis by (simp add: hmi_init_def Let_def)
qed

lemma static_checks: "build_checks g_device_descs kStaticConfig"
proof -
  have "check_devices g_device_descs kStaticConfig [hd kDeviceConfigs]"
  proof -
    have "dc_backend (hd kDeviceConfigs) = Some ''ec0''" "dc_model (hd kDeviceConfigs) = Some ''L230 DAIO Micro''"
      by (simp_all add: kDeviceConfigs_def)
    moreover have "find_backend_scan (cfg_backends kStaticConfig) ''ec0'' 0 \<noteq> None" by code_simp
    ultimately show ?thesis using static_devices(3) by simp
  qed
  moreover have "cfg_devices kStaticConfig = [hd kDeviceConfigs]"
    unfolding static_devices(1) by (simp add: kDeviceConfigs_def)
  ultimately show ?thesis
    by (simp add: build_checks_def) (simp add: kStaticConfig_def kBackendConfigs_def kDeviceConfigs_def MAX_BACKENDS_def)
qed

lemma static_system_build:
  assumes "fst (driver_phase g_device_descs factories kStaticConfig rt)" "runtime_wf rt" "live (tag_table rt) = []"
  shows "\<exists>rt'. system_build g_device_descs factories rt kStaticConfig = (0, [], rt') \<and> live (tag_table rt') = static_entries"
proof -
  obtain rt1 where d: "driver_phase g_device_descs factories kStaticConfig rt = (True, rt1)"
    using assms(1) by (metis prod.collapse)
  have "slots_ok (rt\<lparr>backend_array := replicate MAX_BACKENDS None, backend_count := 0, backends_set := True\<rparr>)"
    by (simp add: slots_ok_def MAX_BACKENDS_def)
  from build_backends_slots [OF d [unfolded driver_phase_def] this]
  have "same_data rt rt1" using static_checks by (simp add: build_checks_def same_data_def)
  then have t: "table_wf (tag_table rt1)" "live (tag_table rt1) = []"
    using assms(2,3) by (simp_all add: same_data_def runtime_wf_def)
  obtain t' ps' hs' where b: "build_tags g_device_descs kStaticConfig (tag_table rt1, proc_store rt1, hmi_store rt1)
      = (True, t', ps', hs')" "live t' = static_entries"
    using static_build_tags [OF t] by blast
  show ?thesis
    using static_checks d b by (auto simp: system_build_def build_checks_def driver_phase_def not_less)
qed

lemma static_setup:
  assumes "fst (driver_phase g_device_descs (g_backend_factories S P) kStaticConfig (snd (runtime_init rt0)))"
    and "length (rt_uninit rt0) = VALUE_SIZE"
  shows "\<exists>a. main_setup g_device_descs (g_backend_factories S P) req_mem rsp_mem rt0 = (0, static_sched, 0, a)
    \<and> main_build g_device_descs (g_backend_factories S P) kStaticConfig rt0 = (0, aw_rt a, aw_app a)
    \<and> live (tag_table (aw_rt a)) = static_entries \<and> aw_app a = static_app \<and> aw_cfg a = kStaticConfig
    \<and> aw_reset a = 11 \<and> aw_beat a = False
    \<and> user_bind zero_app (tag_table (aw_rt a)) = (0, static_app)
    \<and> take (unat (task_count static_sched)) (tasks static_sched) = static_tasks \<and> base_cycle_ms static_sched = 10"
proof -
  let ?rt1 = "snd (runtime_init rt0)" and ?F = "g_backend_factories S P"
  have wf: "runtime_wf ?rt1" by (rule runtime_init_wf [OF assms(2)])
  have "live (tag_table ?rt1) = []" by (simp add: runtime_init_def tag_table_init_def)
  then obtain rt2 where b: "system_build g_device_descs ?F ?rt1 kStaticConfig = (0, [], rt2)"
      "live (tag_table rt2) = static_entries"
    using static_system_build [OF assms(1) wf] by blast
  define rt4 where "rt4 = snd (hmi_init (snd (proc_init rt2 (sc_process_vars kStaticConfig)
      (sc_process_var_count kStaticConfig) START_FACTORY)) (sc_hmi_tags kStaticConfig) (sc_hmi_tag_count kStaticConfig) START_FACTORY)"
  have live: "live (tag_table rt4) = static_entries" by (simp add: rt4_def hmi_init_table proc_init_table b(2))
  have cong: "user_bind zero_app (tag_table rt4) = (0, static_app)"
    using user_bind_cong [of "tag_table rt4" static_table] live live_static_table static_app_eval by simp
  have mb: "main_build g_device_descs ?F kStaticConfig rt0 = (0, rt4, static_app)"
    using cong by (simp add: main_build_def b(1) rt4_def [symmetric])
  have reset: "tag_table_find_id (tag_table rt4) (Some ''hmi.FactoryResetCmd'') = 11"
    using find_id_cong [of "tag_table rt4" static_table] live live_static_table static_reset_eval by simp
  obtain ch where ch: "tag_rpc_init req_mem rsp_mem \<lparr>req_q = zero_ring, rsp_q = zero_ring\<rparr> = (0, ch)"
    by (simp add: tag_rpc_init_def spsc_ring_init_def Let_def TAG_RPC_CAPACITY_def TAGRPC_NAME_MAX_def
        TAGRPC_VALUE_MAX_def TAGRPC_TYPE_MAX_def TAGRPC_ERRMSG_MAX_def)
  have base: "sc_base_cycle_ms kStaticConfig = 10" by (simp add: kStaticConfig_def)
  obtain s0 where s: "plc_scheduler_init zero_sched 10 = (0, 0, s0)" "\<not> sched_running s0"
    by (simp add: plc_scheduler_init_def)
  obtain s1 where s1: "plc_scheduler_set_callbacks s0 (Some CB_begin) (Some CB_end) 1 = (0, s1)"
    using s(2) by (simp add: plc_scheduler_set_callbacks_def Let_def)
  have s2: "user_register_plc_tasks 1 s1 = (0, static_sched)"
    using static_sched_eval(1) s s1 by (simp add: static_sched_def prod_eq_iff)
  let ?a = "\<lparr>aw_rt = rt4, aw_rpc = ch, aw_cfg = kStaticConfig, aw_reset = 11, aw_app = static_app, aw_beat = False\<rparr>"
  have "main_setup g_device_descs ?F req_mem rsp_mem rt0 = (0, static_sched, 0, ?a)"
    by (simp only: main_setup_def user_get_config_def get_static_config_def mb base s(1) s1 s2 Let_def prod.case)
      (simp add: plc_scheduler_set_health_def reset ch)
  then show ?thesis using mb live cong static_sched_eval(2-4) by (intro exI [of _ ?a]) simp
qed

text \<open>
  C8. The program comes up. With the configuration and the device table it is linked with, if
  the EtherCAT driver can be created, initialised, bound and mapped, then everything after
  that succeeds: all tags are registered, every field of the three views is bound to the tag
  its binding names, the factory reset command is found, both configured tasks are
  registered with their periods and policies, and the callbacks are installed on a scheduler
  with the configured base cycle.
\<close>

theorem static_config_boots:
  assumes "fst (driver_phase g_device_descs (g_backend_factories S P) kStaticConfig (snd (runtime_init rt0)))"
    and "length (rt_uninit rt0) = VALUE_SIZE"
  shows "\<exists>a. main_setup g_device_descs (g_backend_factories S P) req_mem rsp_mem rt0 = (0, static_sched, 0, a)
    \<and> main_build g_device_descs (g_backend_factories S P) kStaticConfig rt0 = (0, aw_rt a, aw_app a)
    \<and> live (tag_table (aw_rt a)) = static_entries \<and> aw_app a = static_app \<and> aw_cfg a = kStaticConfig
    \<and> aw_reset a = 11 \<and> aw_beat a = False
    \<and> user_bind zero_app (tag_table (aw_rt a)) = (0, static_app)
    \<and> take (unat (task_count static_sched)) (tasks static_sched) = static_tasks \<and> base_cycle_ms static_sched = 10"
  using static_setup [OF assms] .

section \<open>A bus with the configured device\<close>

definition l230_slave :: ec_slave where
  "l230_slave = demo_slave\<lparr>sl_inputs := Some 0, sl_outputs := Some (unat (tx_bytes DEVICE_DESC_L230)),
     sl_Ibytes := tx_bytes DEVICE_DESC_L230, sl_Obytes := rx_bytes DEVICE_DESC_L230,
     sl_eep_man := 0x47535953, sl_eep_id := 0x3213335\<rparr>"

definition l230_context :: "unit ecx_context" where
  "l230_context = demo_context\<lparr>slavelist := [l230_slave, l230_slave]\<rparr>"

definition l230_soem :: "unit soem" where
  "l230_soem = (demo_soem 3)\<lparr>ecx_config_init := (\<lambda>c. (1, l230_context)),
     ecx_config_map_group := (\<lambda>c m.
       let n = unat (tx_bytes DEVICE_DESC_L230) + unat (rx_bytes DEVICE_DESC_L230)
       in (if length m < n then 0 else int n, l230_context, m))\<rparr>"

lemma l230_soem_ok: "soem_image_ok l230_soem" "soem_map_ok l230_soem"
  by (auto simp: soem_image_ok_def soem_map_ok_def l230_soem_def demo_soem_def same_size_def l230_context_def
      demo_context_def l230_slave_def slave_mapped_def option.map_comp comp_def Let_def split: if_splits)

lemma l230_driver_phase:
  "fst (driver_phase g_device_descs (g_backend_factories l230_soem demo_platform) kStaticConfig (snd (runtime_init (demo_rt 1))))"
  by code_simp

lemma demo_rt_uninit: "length (rt_uninit (demo_rt 1)) = VALUE_SIZE"
  by (simp add: demo_rt_def VALUE_SIZE_def)

lemma static_config_boots_witness:
  "\<exists>a. main_setup g_device_descs (g_backend_factories l230_soem demo_platform) [] [] (demo_rt 1) = (0, static_sched, 0, a)
     \<and> aw_reset a = 11"
  using static_config_boots [OF l230_driver_phase demo_rt_uninit, of "[]" "[]"] by blast

lemma static_data_ok:
  "descs_small g_device_descs" "initials_ok (proc_vars (cfg_proc_vars kStaticConfig))"
  "initials_ok (hmi_vars (cfg_hmi_tags kStaticConfig))"
proof -
  have "td_offset_byte td \<le> 10000 \<Longrightarrow> offset_small td" for td
    by (simp add: offset_small_def word_le_nat_alt)
  moreover have "list_all (\<lambda>td. td_offset_byte td \<le> 10000) L230_TAGS" "list_all (\<lambda>td. td_offset_byte td \<le> 10000) L400_TAGS"
    by code_simp+
  moreover have "tags DEVICE_DESC_L400 = Some L400_TAGS" by (simp add: DEVICE_DESC_L400_def)
  ultimately show "descs_small g_device_descs"
    using l230_desc(1) by (auto simp: descs_small_def g_device_descs_def list_all_iff)
  show "initials_ok (proc_vars (cfg_proc_vars kStaticConfig))"
    by (simp add: initials_ok_def proc_vars_def cfg_proc_vars_def kStaticConfig_def kProcessVarDescs_def proc_desc_def
        VALUE_SIZE_def u32_bytes_def)
  show "initials_ok (hmi_vars (cfg_hmi_tags kStaticConfig))"
    by (simp add: initials_ok_def cfg_hmi_tags_def kStaticConfig_def kHmiTagDescs_def hmi_alias_desc_def VALUE_SIZE_def)
qed

text \<open>The linked program on this bus.\<close>

lemma l230_boot:
  obtains rt where "main_build g_device_descs (g_backend_factories l230_soem demo_platform) kStaticConfig (demo_rt 1)
      = (0, rt, static_app)" "live (tag_table rt) = static_entries"
proof -
  obtain a :: "unit EthercatDriver AppWorld" where
      "main_build g_device_descs (g_backend_factories l230_soem demo_platform) kStaticConfig (demo_rt 1)
      = (0, aw_rt a, aw_app a)" "live (tag_table (aw_rt a)) = static_entries" "aw_app a = static_app"
    using static_setup [OF l230_driver_phase demo_rt_uninit, of "[]" "[]"] by blast
  then show thesis using that by simp
qed

lemma main_build_initial_values_witness:
  "\<exists>rt. main_build g_device_descs (g_backend_factories l230_soem demo_platform) kStaticConfig (demo_rt 1) = (0, rt, static_app)
     \<and> tag_read rt (tag_table_find_id (tag_table rt) (Some ''proc.temp_sp'')) (Some [1, 2, 3, 4]) 4
        = (0, Some (u32_bytes 0x41A00000), rt)"
proof -
  obtain rt where b: "main_build g_device_descs (g_backend_factories l230_soem demo_platform) kStaticConfig (demo_rt 1)
      = (0, rt, static_app)" by (rule l230_boot)
  have "reads_initial rt (proc_vars (cfg_proc_vars kStaticConfig))"
    using main_build_initial_values [OF b demo_rt_uninit l230_soem_ok static_data_ok] by simp
  moreover have "(''proc.temp_sp'', TAG_T_REAL, u32_bytes 0x41A00000) \<in> set (proc_vars (cfg_proc_vars kStaticConfig))"
    by (simp add: proc_vars_def cfg_proc_vars_def kStaticConfig_def kProcessVarDescs_def proc_desc_def)
  ultimately have "tag_read rt (tag_table_find_id (tag_table rt) (Some ''proc.temp_sp'')) (Some [1, 2, 3, 4]) 4
        = (0, Some (overwrite (init_bytes TAG_T_REAL (u32_bytes 0x41A00000)) [1, 2, 3, 4]), rt)"
    by (force simp: reads_initial_def known_type_def tag_type_size_def)
  then show ?thesis using b by (intro exI [of _ rt]) (simp add: init_bytes_def overwrite_def u32_bytes_def tag_type_size_def)
qed

text \<open>The same runtime with the command's slot set.\<close>

definition with_command :: "'d Runtime \<Rightarrow> 'd Runtime" where
  "with_command rt = rt\<lparr>hmi_store := (hmi_store rt)\<lparr>st_values :=
     (st_values (hmi_store rt))[0 := \<lparr>sv_type = TAG_T_BOOL, sv_v = [1, 0, 0, 0]\<rparr>]\<rparr>\<rparr>"

lemma static_command_entry:
  "list_ex (\<lambda>e. full_name e = Some ''hmi.FactoryResetCmd'' \<and> te_type e = TAG_T_BOOL \<and> te_ref e = REF_HMI_VAR 0 1) static_entries"
  by code_simp

lemma with_command_ok:
  assumes "ec_runtime_ok S P rt" "configured kStaticConfig rt" "live (tag_table rt) = static_entries"
  shows "ec_runtime_ok S P (with_command rt)" "configured kStaticConfig (with_command rt)"
    "tag_read_bool (with_command rt) 11 False = (0, True, with_command rt)"
proof -
  let ?rt = "with_command rt"
  have wf: "store_wf (hmi_store ?rt)"
    using assms(2) by (auto simp: configured_def with_command_def store_wf_def VALUE_SIZE_def dest!: set_update_cases)
  then show ok: "ec_runtime_ok S P ?rt" and c: "configured kStaticConfig ?rt"
    using assms(1,2) by (auto simp: ec_runtime_ok_def runtime_wf_def configured_def with_command_def)
  obtain e where e: "e \<in> set static_entries" "full_name e = Some ''hmi.FactoryResetCmd''" "te_type e = TAG_T_BOOL"
      "te_ref e = REF_HMI_VAR (of_nat 0) 1"
    using static_command_entry by (auto simp: list_ex_iff)
  have "hmi_vars (cfg_hmi_tags kStaticConfig) \<noteq> []"
    by (simp add: cfg_hmi_tags_def kStaticConfig_def kHmiTagDescs_def hmi_alias_desc_def)
  then have "0 < length (hmi_vars (cfg_hmi_tags kStaticConfig))" by simp
  also have "\<dots> \<le> st_count (hmi_store ?rt)" using c by (simp add: configured_def)
  finally have n: "0 < st_count (hmi_store ?rt)" .
  have sl: "st_values (hmi_store ?rt) ! 0 = \<lparr>sv_type = TAG_T_BOOL, sv_v = [1, 0, 0, 0]\<rparr>"
    using wf by (simp add: with_command_def store_wf_def STORE_SIZE_def)
  have l: "live (tag_table ?rt) = static_entries" using assms(3) by (simp add: with_command_def)
  have id: "tag_table_find_id (tag_table ?rt) (Some ''hmi.FactoryResetCmd'') = 11"
    using find_id_cong [of "tag_table ?rt" static_table] l live_static_table static_reset_eval by simp
  have "tag_read ?rt 11 (Some [0]) 1 = (0, Some [1], ?rt)"
    using slot_tag_read [OF ok, of e "''hmi.FactoryResetCmd''" 0 "hmi_store ?rt" 1 "[0]"] e l n sl id
    by (simp add: known_type_def tag_type_size_def STORE_SIZE_def overwrite_def)
  then show "tag_read_bool ?rt 11 False = (0, True, ?rt)" by (simp add: tag_read_bool_def bool_byte_def)
qed

text \<open>The linked program on this bus, started up.\<close>

lemma l230_booted:
  obtains rt where "main_build g_device_descs (g_backend_factories l230_soem demo_platform) kStaticConfig (demo_rt 1)
      = (0, rt, static_app)"
    "ec_runtime_ok l230_soem demo_platform rt" "configured kStaticConfig rt" "live (tag_table rt) = static_entries"
    "all_readable l230_soem demo_platform rt" "backends_set rt" "backend_count rt = 1"
    "ecb.drivers_ready l230_soem demo_platform g_device_descs kStaticConfig rt"
proof -
  obtain rt where b: "main_build g_device_descs (g_backend_factories l230_soem demo_platform) kStaticConfig (demo_rt 1)
      = (0, rt, static_app)" and l: "live (tag_table rt) = static_entries"
    by (rule l230_boot)
  have "sc_backend_count kStaticConfig = 1" by (simp add: kStaticConfig_def kBackendConfigs_def)
  then show thesis
    using that [OF b] l main_build_ok [OF b demo_rt_uninit l230_soem_ok static_data_ok] by simp
qed

lemma factory_reset_restores_witness:
  "\<exists>rt. tag_read_bool rt 11 False = (0, True, rt) \<and> tag_table (factory_reset kStaticConfig 11 rt) = tag_table rt
     \<and> reads_initial (factory_reset kStaticConfig 11 (rt :: unit EthercatDriver Runtime)) (proc_vars (cfg_proc_vars kStaticConfig))"
proof -
  obtain rt where r: "ec_runtime_ok l230_soem demo_platform rt" "configured kStaticConfig rt"
      "live (tag_table rt) = static_entries"
    by (rule l230_booted)
  note w = with_command_ok [OF r]
  have arr: "sc_process_vars kStaticConfig = None \<longrightarrow> sc_process_var_count kStaticConfig = 0"
    "sc_hmi_tags kStaticConfig = None \<longrightarrow> sc_hmi_tag_count kStaticConfig = 0"
    by (simp_all add: kStaticConfig_def)
  have "(11 :: u32) \<noteq> 0" by simp
  from factory_reset_restores [OF w(1,2) static_data_ok(2,3) arr this w(3)]
  show ?thesis using w(3) by (intro exI [of _ "with_command rt"]) simp
qed

end
