(* ===== verification/Plc_Task_Props.thy ===== *)
theory Plc_Task_Props
  imports Static_Props
begin

text \<open>
  What the application's task does to the tags, and how its outputs travel to the network.
\<close>

section \<open>Writes that succeed\<close>

context process_image
begin

lemma write_rc:
  assumes "rt_ok rt" "resolve_entry rt tid True 0 = Some e" "fst (entry_read rt e) = 0"
    and "\<And>io. te_ref e = REF_IO io \<Longrightarrow> io_dir io = TAGDIR_OUT"
    and "0 < tag_type_size (te_type e)" "tag_type_size (te_type e) \<le> n"
  shows "fst (tag_write rt tid (Some buf) n) = 0"
proof (cases "te_ref e")
  case (REF_IO io)
  then obtain img where img: "tag_image rt io = Some img" "io_fits (te_type e) io (of_nat (length img))"
    using assms(3) by (auto simp: entry_read_def case_prod_unfold peek_io_rc split: option.splits if_splits TagType.splits)
  obtain a where "get_io_write_base rt e = (Some a, of_nat (length img), rt)"
    using write_base_Some [OF assms(1) REF_IO img(1) assms(4) [OF REF_IO]] by blast
  then show ?thesis
    using assms(2,5,6) REF_IO img(2)
    by (simp add: tag_write_def Let_def te_kind_def write_io_value_def entry_io_def case_prod_unfold poke_io_rc)
qed (use assms(2,3,5,6) in \<open>auto simp: tag_write_def Let_def te_kind_def entry_read_def split: option.splits\<close>)

lemma entry_rc_stable:
  assumes "rt_ok rt" "tag_write rt tid (Some buf) n = (0, rt')" "n \<le> length buf"
  shows "fst (entry_read rt' e2) = fst (entry_read rt e2)"
proof -
  obtain e where e: "resolve_entry rt tid True 0 = Some e" "tag_type_size (te_type e) \<noteq> 0" "tag_type_size (te_type e) \<le> n"
    using assms(2) by (auto simp: tag_write_def Let_def split: option.splits if_splits)
  let ?v = "overwrite (take (tag_type_size (te_type e)) buf) (rt_uninit rt)"
  have v: "length ?v = VALUE_SIZE"
    using e assms(1,3) tag_type_size_le [of "te_type e"] by (simp add: overwrite_def rt_ok_def runtime_wf_def)
  have put: "get_proc_value (rt\<lparr>proc_store := store_put (proc_store rt) i w\<rparr>) x = get_proc_value rt x"
    "get_hmi_value (rt\<lparr>hmi_store := store_put (hmi_store rt) i w\<rparr>) x = get_hmi_value rt x"
    "get_hmi_value (rt\<lparr>proc_store := st\<rparr>) x = get_hmi_value rt x" "get_proc_value (rt\<lparr>hmi_store := st\<rparr>) x = get_proc_value rt x"
    for i w x st
    by (auto simp: get_proc_value_def get_hmi_value_def store_put_def nth_update_cases split: TagRef.split)
  consider (proc) i where "rt' = rt\<lparr>proc_store := store_put (proc_store rt) i ?v\<rparr>"
    | (hmi) i where "rt' = rt\<lparr>hmi_store := store_put (hmi_store rt) i ?v\<rparr>"
    | (io) io where "te_ref e = REF_IO io" "write_io_value rt e ?v = (0, rt')"
    using assms(2) e
    by (cases "te_ref e") (auto simp: tag_write_def te_kind_def Let_def split: option.splits if_splits)
  then show ?thesis
  proof cases
    case proc
    then show ?thesis
      using put by (cases "te_ref e2") (auto simp: entry_read_def case_prod_unfold peek_io_rc split: option.split)
  next
    case hmi
    then show ?thesis
      using put by (cases "te_ref e2") (auto simp: entry_read_def case_prod_unfold peek_io_rc split: option.split)
  next
    case io
    obtain img where img: "tag_image rt io = Some img"
      "\<And>io2. tag_image rt' io2 =
        (if io_dir io2 \<noteq> TAGDIR_IN \<and> unat (io_backend_index io2) = unat (io_backend_index io)
            \<and> unat (io_device_index io2) = unat (io_device_index io)
         then Some (snd (poke_io (te_type e) io img (of_nat (length img)) ?v)) else tag_image rt io2)"
      "proc_store rt' = proc_store rt" "hmi_store rt' = hmi_store rt" "io_dir io = TAGDIR_OUT"
      by (rule write_io_value_ok [OF assms(1) io(1) v io(2)]) blast
    have len: "length (snd (poke_io (te_type e) io img (of_nat (length img)) ?v)) = length img"
      by (rule poke_io_length [OF tag_image_len [OF assms(1) img(1)] v])
    have same: "map_option length (tag_image rt' io2) = map_option length (tag_image rt io2)" for io2
    proof (cases "io_dir io2 \<noteq> TAGDIR_IN \<and> unat (io_backend_index io2) = unat (io_backend_index io)
            \<and> unat (io_device_index io2) = unat (io_device_index io)")
      case True
      then have ix: "unat (io_backend_index io2) = unat (io_backend_index io)" "unat (io_device_index io2) = unat (io_device_index io)"
        "io_dir io2 \<noteq> TAGDIR_IN" by simp_all
      have "tag_image rt io2 = tag_image rt io"
        unfolding tag_image_def ix(1,2) using ix(3) img(5) by simp
      then show ?thesis using True img(1,2) len by simp
    next
      case False
      show ?thesis unfolding img(2) if_not_P [OF False] by (rule refl)
    qed
    have gp: "get_proc_value rt' x = get_proc_value rt x" "get_hmi_value rt' x = get_hmi_value rt x" for x
      by (auto simp: img(3,4) get_proc_value_def get_hmi_value_def split: TagRef.split)
    show ?thesis
    proof (cases "te_ref e2")
      case (REF_IO io2)
      then show ?thesis
        using same [of io2] by (cases "tag_image rt' io2"; cases "tag_image rt io2")
          (simp_all add: entry_read_def case_prod_unfold peek_io_rc)
    qed (use gp [of e2] in \<open>auto simp: entry_read_def split: option.split\<close>)
  qed
qed

end

lemma ec_write_step:
  assumes "ec_runtime_ok S P rt" "all_readable S P rt" "resolve_entry rt tid True 0 = Some e"
    and "\<And>io. te_ref e = REF_IO io \<Longrightarrow> io_dir io = TAGDIR_OUT" "0 < tag_type_size (te_type e)"
    and "length buf = tag_type_size (te_type e)"
  obtains rt' where "tag_write rt tid (Some buf) (length buf) = (0, rt')" "ec_runtime_ok S P rt'" "all_readable S P rt'"
    "tag_table rt' = tag_table rt" "ec.entry_read rt' e = (0, stored_bytes e buf)"
    "\<And>e2. entry_cells e2 \<inter> entry_cells e = {} \<Longrightarrow> ec.entry_read rt' e2 = ec.entry_read rt e2"
proof -
  have wf: "table_wf (tag_table rt)" using assms(1) by (simp add: ec_runtime_ok_def runtime_wf_def)
  have "fst (ec.entry_read rt e) = 0"
    using assms(2) resolve_entry_live [OF wf assms(3)] resolve_entry_kind [OF assms(3)] by (simp add: all_readable_def)
  then have "fst (tag_write rt tid (Some buf) (length buf)) = 0"
    using ec.write_rc [OF assms(1) [unfolded ec_runtime_ok_iff] assms(3) _ assms(4,5)] assms(6) by simp
  then obtain rt' where w: "tag_write rt tid (Some buf) (length buf) = (0, rt')" by (metis prod.collapse)
  have e': "ec_runtime_ok S P rt' \<and> tag_table rt' = tag_table rt \<and> ec.entry_read rt' e = (0, stored_bytes e buf)
      \<and> (\<forall>e2. entry_cells e2 \<inter> entry_cells e = {} \<longrightarrow> ec.entry_read rt' e2 = ec.entry_read rt e2)"
    by (rule ec_tag_write_ok [OF assms(1) w order_refl]) (use assms(3) in simp)
  have "all_readable S P rt'"
    using assms(2) e' ec.entry_rc_stable [OF assms(1) [unfolded ec_runtime_ok_iff] w order_refl]
    by (simp add: all_readable_def)
  then show thesis using that [OF w] e' by simp
qed

section \<open>The tags of the heartbeat task\<close>

definition CNT :: u32 where "CNT = view_field ProcView (app_proc static_app) ''counter_test''"
definition RUN :: u32 where "RUN = view_field HMIView (app_hmi static_app) ''run''"
definition OUT0 :: u32 where "OUT0 = view_field IOView (app_io static_app) ''X15_Out0''"
definition OUT5 :: u32 where "OUT5 = view_field IOView (app_io static_app) ''X14_Out5''"

definition beat_out :: "u8 \<Rightarrow> TagRef" where
  "beat_out b = REF_IO \<lparr>io_device_index = 0, io_backend_index = 0, io_dir = TAGDIR_OUT, io_byte_offset = 0, io_bit = b\<rparr>"

lemma beat_ids: "CNT = 5" "RUN = 7" "OUT0 = 27" "OUT5 = 32"
  by code_simp+

lemma beat_entries:
  "map (\<lambda>i. (te_type (static_entries ! i), te_ref (static_entries ! i))) [1, 4, 6, 26, 31] =
     [(TAG_T_BOOL, REF_PROC 1), (TAG_T_U32, REF_PROC 4), (TAG_T_BOOL, REF_HMI_ALIAS 2 1),
      (TAG_T_BOOL, beat_out 0), (TAG_T_BOOL, beat_out 5)]"
  by code_simp

lemma static_get:
  assumes "table_wf (tag_table rt)" "live (tag_table rt) = static_entries" "i < 45"
  shows "tag_table_get (tag_table rt) (of_nat i + 1) = Some (static_entries ! i)"
  using assms of_nat_index [of i] by (simp add: tt.get_contents [OF assms(1)] static_eval(5))

lemma beat_resolve:
  assumes "table_wf (tag_table rt)" "live (tag_table rt) = static_entries"
  shows "resolve_entry rt CNT w 0 = Some (static_entries ! 4)" "resolve_entry rt RUN w 0 = Some (static_entries ! 1)"
    "resolve_entry rt OUT0 w 0 = Some (static_entries ! 26)" "resolve_entry rt OUT5 w 0 = Some (static_entries ! 31)"
proof -
  note g = static_get [OF assms]
  have t: "tag_table_get (tag_table rt) 5 = Some (static_entries ! 4)" "tag_table_get (tag_table rt) 7 = Some (static_entries ! 6)"
    "tag_table_get (tag_table rt) 2 = Some (static_entries ! 1)" "tag_table_get (tag_table rt) 27 = Some (static_entries ! 26)"
    "tag_table_get (tag_table rt) 32 = Some (static_entries ! 31)"
    using g [of 4] g [of 6] g [of 1] g [of 26] g [of 31] by simp_all
  show "resolve_entry rt CNT w 0 = Some (static_entries ! 4)"
    using t beat_entries by (subst resolve_entry.simps) (simp add: beat_ids)
  show "resolve_entry rt RUN w 0 = Some (static_entries ! 1)"
    using t beat_entries by (subst resolve_entry.simps, subst resolve_entry.simps) (simp add: beat_ids)
  show "resolve_entry rt OUT0 w 0 = Some (static_entries ! 26)"
    using t beat_entries by (subst resolve_entry.simps) (simp add: beat_ids beat_out_def)
  show "resolve_entry rt OUT5 w 0 = Some (static_entries ! 31)"
    using t beat_entries by (subst resolve_entry.simps) (simp add: beat_ids beat_out_def)
qed

lemma beat_cells:
  "entry_cells (static_entries ! 1) = {ProcCell 1}" "entry_cells (static_entries ! 4) = {ProcCell 4}"
  "entry_cells (static_entries ! 26) = {OutBit 0 0 0}" "entry_cells (static_entries ! 31) = {OutBit 0 0 5}"
  using beat_entries by (simp_all add: entry_cells_def beat_out_def io_bits_def)

text \<open>The state the heartbeat task runs on.\<close>

definition running :: "'x soem \<Rightarrow> platform \<Rightarrow> 'x EthercatDriver Runtime \<Rightarrow> bool" where
  "running S P rt \<longleftrightarrow> ec_runtime_ok S P rt \<and> all_readable S P rt \<and> live (tag_table rt) = static_entries"

lemma running_wf: "running S P rt \<Longrightarrow> table_wf (tag_table rt)"
  by (simp add: running_def ec_runtime_ok_def runtime_wf_def)

lemma running_read:
  assumes "running S P rt" "resolve_entry rt tid False 0 = Some e" "ec.entry_read rt e = (0, bs)"
    and "length bs = tag_type_size (te_type e)" "0 < tag_type_size (te_type e)"
  shows "tag_read rt tid (Some out) (tag_type_size (te_type e)) = (0, Some (overwrite bs out), rt)"
  using assms ec_tag_read [of S P rt] by (simp add: running_def)

lemma running_write:
  assumes "running S P rt" "resolve_entry rt tid True 0 = Some e"
    and "\<And>io. te_ref e = REF_IO io \<Longrightarrow> io_dir io = TAGDIR_OUT" "0 < tag_type_size (te_type e)"
    and "length buf = tag_type_size (te_type e)"
  obtains rt' where "tag_write rt tid (Some buf) (length buf) = (0, rt')" "running S P rt'"
    "ec.entry_read rt' e = (0, stored_bytes e buf)"
    "\<And>e2. entry_cells e2 \<inter> entry_cells e = {} \<Longrightarrow> ec.entry_read rt' e2 = ec.entry_read rt e2"
proof -
  have r: "ec_runtime_ok S P rt" "all_readable S P rt" using assms(1) by (simp_all add: running_def)
  show thesis
  proof (rule ec_write_step [OF r assms(2-5)])
    fix rt' assume w: "tag_write rt tid (Some buf) (length buf) = (0, rt')" "ec_runtime_ok S P rt'" "all_readable S P rt'"
      "tag_table rt' = tag_table rt" "ec.entry_read rt' e = (0, stored_bytes e buf)"
      "\<And>e2. entry_cells e2 \<inter> entry_cells e = {} \<Longrightarrow> ec.entry_read rt' e2 = ec.entry_read rt e2"
    show thesis using that [OF w(1) _ w(5,6)] w(2-4) assms(1) by (simp add: running_def)
  qed
qed

lemma beat_types:
  "te_type (static_entries ! 1) = TAG_T_BOOL" "te_type (static_entries ! 4) = TAG_T_U32"
  "te_type (static_entries ! 26) = TAG_T_BOOL" "te_type (static_entries ! 31) = TAG_T_BOOL"
  "te_ref (static_entries ! 1) = REF_PROC 1" "te_ref (static_entries ! 4) = REF_PROC 4"
  "te_ref (static_entries ! 26) = beat_out 0" "te_ref (static_entries ! 31) = beat_out 5"
  using beat_entries by simp_all

text \<open>Writing one of the outputs, and the counter.\<close>

lemma beat_write_out:
  assumes "running S P rt" "(tid = OUT0 \<and> i = 26) \<or> (tid = OUT5 \<and> i = 31)"
  obtains rt' where "tag_write_bool rt tid v = (0, rt')" "running S P rt'"
    "ec.entry_read rt' (static_entries ! i) = (0, [bool_byte v])"
    "\<And>e2. entry_cells e2 \<inter> entry_cells (static_entries ! i) = {} \<Longrightarrow> ec.entry_read rt' e2 = ec.entry_read rt e2"
proof -
  have l: "live (tag_table rt) = static_entries" using assms(1) by (simp add: running_def)
  let ?e = "static_entries ! i"
  have e: "resolve_entry rt tid True 0 = Some ?e" "te_type ?e = TAG_T_BOOL" "te_ref ?e = beat_out 0 \<or> te_ref ?e = beat_out 5"
    using beat_resolve [OF running_wf [OF assms(1)] l] beat_types assms(2) by auto
  have d: "te_ref ?e = REF_IO io \<Longrightarrow> io_dir io = TAGDIR_OUT" for io using e(3) by (auto simp: beat_out_def)
  have "te_kind ?e = TAGK_IO" using e(3) by (auto simp: beat_out_def te_kind_def)
  then have st: "stored_bytes ?e [bool_byte v] = [bool_byte v]"
    using e(2) by (cases v) (simp_all add: stored_bytes_def io_value_def tag_type_size_def bool_byte_def)
  show thesis
    by (rule running_write [OF assms(1) e(1) d, of "[bool_byte v]"])
      (use that st e(2) in \<open>auto simp: tag_write_bool_def tag_type_size_def\<close>)
qed

lemma beat_write_cnt:
  assumes "running S P rt"
  obtains rt' where "tag_write_u32 rt CNT v = (0, rt')" "running S P rt'"
    "ec.entry_read rt' (static_entries ! 4) = (0, u32_bytes v)"
    "\<And>e2. entry_cells e2 \<inter> entry_cells (static_entries ! 4) = {} \<Longrightarrow> ec.entry_read rt' e2 = ec.entry_read rt e2"
proof -
  have l: "live (tag_table rt) = static_entries" using assms(1) by (simp add: running_def)
  note e = beat_resolve(1) [OF running_wf [OF assms(1)] l]
  have st: "stored_bytes (static_entries ! 4) (u32_bytes v) = u32_bytes v"
    using beat_types by (simp add: stored_bytes_def te_kind_def tag_type_size_def u32_bytes_def)
  show thesis
    by (rule running_write [OF assms e, of "u32_bytes v"])
      (use that st beat_types in \<open>auto simp: tag_write_u32_def tag_type_size_def\<close>)
qed

lemma beat_reads:
  assumes "running S P rt"
  shows "ec.entry_read rt (static_entries ! 1) = (0, [b]) \<Longrightarrow> tag_read_bool rt RUN x = (0, b \<noteq> 0, rt)"
    and "ec.entry_read rt (static_entries ! 4) = (0, bs) \<Longrightarrow> length bs = 4 \<Longrightarrow> tag_read_u32 rt CNT y = (0, bytes_u32 bs, rt)"
    and "ec.entry_read rt (static_entries ! 26) = (0, [b]) \<Longrightarrow> tag_read_bool rt OUT0 x = (0, b \<noteq> 0, rt)"
    and "ec.entry_read rt (static_entries ! 31) = (0, [b]) \<Longrightarrow> tag_read_bool rt OUT5 x = (0, b \<noteq> 0, rt)"
proof -
  have l: "live (tag_table rt) = static_entries" using assms by (simp add: running_def)
  note e = beat_resolve [OF running_wf [OF assms] l, of False]
  have one: "tag_read_bool rt tid x = (0, b \<noteq> 0, rt)"
    if "resolve_entry rt tid False 0 = Some en" "te_type en = TAG_T_BOOL" "ec.entry_read rt en = (0, [b])" for tid en
    using running_read [OF assms that(1,3), of "[bool_byte x]"] that(2)
    by (simp add: tag_read_bool_def tag_type_size_def overwrite_def)
  show "ec.entry_read rt (static_entries ! 1) = (0, [b]) \<Longrightarrow> tag_read_bool rt RUN x = (0, b \<noteq> 0, rt)"
    and "ec.entry_read rt (static_entries ! 26) = (0, [b]) \<Longrightarrow> tag_read_bool rt OUT0 x = (0, b \<noteq> 0, rt)"
    and "ec.entry_read rt (static_entries ! 31) = (0, [b]) \<Longrightarrow> tag_read_bool rt OUT5 x = (0, b \<noteq> 0, rt)"
    using one e beat_types by blast+
  show "ec.entry_read rt (static_entries ! 4) = (0, bs) \<Longrightarrow> length bs = 4 \<Longrightarrow> tag_read_u32 rt CNT y = (0, bytes_u32 bs, rt)"
    using running_read [OF assms e(1), of bs "u32_bytes y"] beat_types
    by (simp add: tag_read_u32_def tag_type_size_def overwrite_def)
qed

text \<open>What the two tags of the task hold.\<close>

lemma running_entry:
  assumes "running S P rt" "i < 45" "te_kind (static_entries ! i) \<noteq> TAGK_HMI_ALIAS"
  shows "fst (ec.entry_read rt (static_entries ! i)) = 0"
proof -
  have "static_entries ! i \<in> set static_entries" using assms(2) static_eval(5) by simp
  then show ?thesis using assms by (auto simp: running_def all_readable_def)
qed

lemma running_len:
  assumes "running S P rt" "ec.entry_read rt e = (0, bs)" "te_ref e = REF_PROC i"
  shows "length bs = tag_type_size (te_type e)"
proof -
  have wf: "store_wf (proc_store rt)" using assms(1) by (simp add: running_def ec_runtime_ok_def runtime_wf_def)
  obtain k where k: "get_proc_value rt e = Some k" "bs = take (tag_type_size (te_type e)) (store_get (proc_store rt) k)"
    using assms(2,3) by (auto simp: ec.entry_read_def split: option.splits)
  then have "length (store_get (proc_store rt) k) = VALUE_SIZE"
    using store_get_len [OF wf] ec.get_value_Some(1) by blast
  then show ?thesis using k(2) ec.tag_type_size_le [of "te_type e"] by simp
qed


lemma beat_proc_reads:
  assumes "running S P rt"
  obtains b bs where "ec.entry_read rt (static_entries ! 1) = (0, [b])"
    "ec.entry_read rt (static_entries ! 4) = (0, bs)" "length bs = 4"
proof -
  have z: "fst (ec.entry_read rt (static_entries ! 1)) = 0" "fst (ec.entry_read rt (static_entries ! 4)) = 0"
    using running_entry [OF assms, of 1] running_entry [OF assms, of 4] beat_types by (simp_all add: te_kind_def)
  obtain as bs where r: "ec.entry_read rt (static_entries ! 1) = (0, as)" "ec.entry_read rt (static_entries ! 4) = (0, bs)"
    using z by (metis prod.collapse)
  have "length as = 1" "length bs = 4"
    using running_len [OF assms r(1) beat_types(5)] running_len [OF assms r(2) beat_types(6)] beat_types
    by (simp_all add: tag_type_size_def)
  then show thesis using that r by (metis One_nat_def length_0_conv length_Suc_conv)
qed

section \<open>One run of the heartbeat task\<close>

text \<open>The two outputs are complementary: after a run with the run tag set, X15_Out0 and
  X14_Out5 hold the new state and its negation, and every entry sharing no cell with them is unchanged.\<close>

lemma beat_outputs:
  assumes "running S P rt"
  obtains rtA rtB where "tag_write_bool rt OUT0 v = (0, rtA)" "tag_write_bool rtA OUT5 w = (0, rtB)" "running S P rtB"
    "ec.entry_read rtB (static_entries ! 26) = (0, [bool_byte v])" "ec.entry_read rtB (static_entries ! 31) = (0, [bool_byte w])"
    "\<And>e. entry_cells e \<inter> {OutBit 0 0 0, OutBit 0 0 5} = {} \<Longrightarrow> ec.entry_read rtB e = ec.entry_read rt e"
proof -
  obtain rtA where a: "tag_write_bool rt OUT0 v = (0, rtA)" "running S P rtA"
    "ec.entry_read rtA (static_entries ! 26) = (0, [bool_byte v])"
    "\<And>e2. entry_cells e2 \<inter> entry_cells (static_entries ! 26) = {} \<Longrightarrow> ec.entry_read rtA e2 = ec.entry_read rt e2"
    using beat_write_out [OF assms, of OUT0 26 v] by blast
  obtain rtB where b: "tag_write_bool rtA OUT5 w = (0, rtB)" "running S P rtB"
    "ec.entry_read rtB (static_entries ! 31) = (0, [bool_byte w])"
    "\<And>e2. entry_cells e2 \<inter> entry_cells (static_entries ! 31) = {} \<Longrightarrow> ec.entry_read rtB e2 = ec.entry_read rtA e2"
    using beat_write_out [OF a(2), of OUT5 31 w] by blast
  have f: "ec.entry_read rtB e = ec.entry_read rt e" if "entry_cells e \<inter> {OutBit 0 0 0, OutBit 0 0 5} = {}" for e
    using a(4) [of e] b(4) [of e] that beat_cells by auto
  show thesis using that [OF a(1) b(1,2) _ b(3) f] a(3) b(4) [of "static_entries ! 26"] beat_cells by simp
qed

lemma heartbeat_run:
  assumes "running S P rt"
  shows "\<exists>run n rt'. tag_read_bool rt RUN False = (0, run, rt) \<and> tag_read_u32 rt CNT 0 = (0, n, rt) \<and>
     plc_task_heartbeat static_app st rt = (0, \<not> st, rt') \<and> running S P rt' \<and>
     tag_read_u32 rt' CNT 0 = (0, n + 1, rt') \<and> tag_read_bool rt' RUN False = (0, run, rt') \<and>
     (run \<longrightarrow> tag_read_bool rt' OUT0 False = (0, \<not> st, rt') \<and> tag_read_bool rt' OUT5 False = (0, st, rt')) \<and>
     (\<forall>e. entry_cells e \<inter> ({ProcCell 4} \<union> (if run then {OutBit 0 0 0, OutBit 0 0 5} else {})) = {} \<longrightarrow>
        ec.entry_read rt' e = ec.entry_read rt e)"
proof -
  obtain b bs where r: "ec.entry_read rt (static_entries ! 1) = (0, [b])"
    "ec.entry_read rt (static_entries ! 4) = (0, bs)" "length bs = 4" by (rule beat_proc_reads [OF assms])
  let ?run = "b \<noteq> 0" and ?n = "bytes_u32 bs"
  have rd: "tag_read_bool rt RUN False = (0, ?run, rt)" "tag_read_u32 rt CNT 0 = (0, ?n, rt)"
    using beat_reads(1,2) [OF assms] r by blast+
  define rt2 where "rt2 = (if ?run then snd (tag_write_bool (snd (tag_write_bool rt OUT0 (\<not> st))) OUT5 st) else rt)"
  have o: "running S P rt2 \<and> (?run \<longrightarrow> ec.entry_read rt2 (static_entries ! 26) = (0, [bool_byte (\<not> st)])
        \<and> ec.entry_read rt2 (static_entries ! 31) = (0, [bool_byte st]))
      \<and> (\<forall>e. entry_cells e \<inter> (if ?run then {OutBit 0 0 0, OutBit 0 0 5} else {}) = {} \<longrightarrow> ec.entry_read rt2 e = ec.entry_read rt e)"
  proof (cases ?run)
    case True
    show ?thesis by (rule beat_outputs [OF assms, of "\<not> st" st]) (use True in \<open>simp add: rt2_def\<close>)
  qed (use assms in \<open>simp add: rt2_def\<close>)
  have c2: "ec.entry_read rt2 (static_entries ! 4) = (0, bs)" using o r beat_cells by auto
  note c2r = beat_reads(2) [OF _ c2 r(3), of S P 0]
  obtain rt' where w: "tag_write_u32 rt2 CNT (?n + 1) = (0, rt')" "running S P rt'"
    "ec.entry_read rt' (static_entries ! 4) = (0, u32_bytes (?n + 1))"
    "\<And>e2. entry_cells e2 \<inter> entry_cells (static_entries ! 4) = {} \<Longrightarrow> ec.entry_read rt' e2 = ec.entry_read rt2 e2"
    using beat_write_cnt [of S P rt2 "?n + 1"] o by blast
  have "plc_task_heartbeat static_app st rt =
      (case tag_read_u32 rt2 CNT 0 of (rc2, c, rt3) \<Rightarrow>
        if rc2 \<noteq> 0 then (-1, \<not> st, rt3) else (0, \<not> st, snd (tag_write_u32 rt3 CNT (c + 1))))"
    using rd(1) by (simp add: plc_task_heartbeat_def rt2_def Let_def flip: CNT_def RUN_def OUT0_def OUT5_def)
  then have step: "plc_task_heartbeat static_app st rt = (0, \<not> st, rt')" using c2r o w(1) by simp
  have e: "ec.entry_read rt' e = ec.entry_read rt e"
    if "entry_cells e \<inter> ({ProcCell 4} \<union> (if ?run then {OutBit 0 0 0, OutBit 0 0 5} else {})) = {}" for e
    using o w(4) [of e] that beat_cells by auto
  have e1: "ec.entry_read rt' (static_entries ! 1) = (0, [b])" using e [of "static_entries ! 1"] r beat_cells by simp
  have outs: "tag_read_bool rt' OUT0 False = (0, \<not> st, rt') \<and> tag_read_bool rt' OUT5 False = (0, st, rt')" if ?run
    using o that w(4) [of "static_entries ! 26"] w(4) [of "static_entries ! 31"] beat_cells
      beat_reads(3,4) [OF w(2)] by (cases st) (auto simp: bool_byte_def)
  show ?thesis
    using rd step w(2) beat_reads(2) [OF w(2,3), of 0] beat_reads(1) [OF w(2) e1] outs e
    by (intro exI [of _ ?run] exI [of _ ?n] exI [of _ rt']) auto
qed

text \<open>
  C11. One run of the heartbeat task on the linked configuration: whenever the driver is running on well formed
  state, the task succeeds, flips its own state, increments the counter tag by one (modulo 2 to the 32), leaves
  the HMI run flag alone, and exactly when that flag is set drives X15 Out0 with the new state and X14 Out5
  with its negation; every other tag keeps its value.
\<close>

theorem heartbeat_step:
  assumes "running S P rt"
  shows "\<exists>run n rt'. tag_read_bool rt RUN False = (0, run, rt) \<and> tag_read_u32 rt CNT 0 = (0, n, rt) \<and>
     plc_task_heartbeat static_app st rt = (0, \<not> st, rt') \<and> running S P rt' \<and>
     tag_read_u32 rt' CNT 0 = (0, n + 1, rt') \<and> tag_read_bool rt' RUN False = (0, run, rt') \<and>
     (run \<longrightarrow> tag_read_bool rt' OUT0 False = (0, \<not> st, rt') \<and> tag_read_bool rt' OUT5 False = (0, st, rt')) \<and>
     (\<forall>e. entry_cells e \<inter> ({ProcCell 4} \<union> (if run then {OutBit 0 0 0, OutBit 0 0 5} else {})) = {} \<longrightarrow>
        ec.entry_read rt' e = ec.entry_read rt e)"
  using assms by (rule heartbeat_run)

lemma heartbeat_step_witness:
  "\<exists>rt rt' n. plc_task_heartbeat static_app False (rt :: unit EthercatDriver Runtime) = (0, True, rt')
     \<and> tag_read_u32 rt CNT 0 = (0, n, rt) \<and> tag_read_u32 rt' CNT 0 = (0, n + 1, rt')"
proof -
  obtain rt where "ec_runtime_ok l230_soem demo_platform rt" "live (tag_table rt) = static_entries"
    "all_readable l230_soem demo_platform rt" by (rule l230_booted)
  then have "running l230_soem demo_platform rt" by (simp add: running_def)
  from heartbeat_step [OF this, of False] show ?thesis by auto
qed

end
