(* ===== verification/Plant.thy ===== *)
theory Plant
  imports Plc_Task_Props Tag_Rpc_Props
begin

text \<open>
  The whole program as a transition system: the PLC thread's callbacks and tasks, the real-time
  threads of the drivers, the requests of the clients, and start and stop. Every step is one
  call; what holds in every reachable state is what the application can rely on at run time.
\<close>

section \<open>What no driver operation changes\<close>

text \<open>The image sizes of a driver's devices.\<close>

definition image_sizes :: "'x EthercatDriver \<Rightarrow> (u32 \<times> u32) list" where
  "image_sizes impl = map (\<lambda>d. (in_size d, out_size d)) (bound_devices impl)"

lemma image_sizes_fixed: "image_sizes impl = map (\<lambda>d. (in_size d, out_size d)) (fixed impl)"
  by (simp add: image_sizes_def fixed_def dev_fixed_def)

lemma sizes_fixed: "fixed impl' = fixed impl \<Longrightarrow> image_sizes impl' = image_sizes impl"
  by (simp add: image_sizes_fixed)

text \<open>The steps a driver takes, all of them within \<open>ec_run\<close> and the same image sizes.\<close>

definition driver_inv :: "'x soem \<Rightarrow> platform \<Rightarrow> (u32 \<times> u32) list \<Rightarrow> 'x EthercatDriver \<Rightarrow> bool" where
  "driver_inv S P zs impl \<longleftrightarrow> ec_run S P impl \<and> image_sizes impl = zs"

lemma driver_inv_ops:
  assumes "driver_inv S P zs impl" "soem_image_ok S" "soem_map_ok S"
  shows "driver_inv S P zs (snd (ethercat_start S P impl))" "driver_inv S P zs (snd (ethercat_stop S impl))"
    "driver_inv S P zs (ethercat_cycle_begin impl)" "driver_inv S P zs (ethercat_cycle_end impl)"
    "driver_inv S P zs (snd (rt_thread_enter now impl))" "driver_inv S P zs (snd (rt_cycle S now (loc, impl)))"
    "driver_inv S P zs (rt_thread_exit S impl)"
proof -
  have r: "ec_run S P impl" and z: "image_sizes impl = zs" using assms(1) by (simp_all add: driver_inv_def)
  have g: "ec_good impl" by (rule ec_run_good [OF r assms(2,3)])
  note kept = fixed_start [OF g] fixed_stop [OF g assms(2)] fixed_cycle_begin [OF g] fixed_cycle_end [of impl] fixed_rt_cycle [OF g assms(2)]
    fixed_exit [OF ec_good_D(1) [OF g]]
  show "driver_inv S P zs (snd (ethercat_start S P impl))" "driver_inv S P zs (snd (ethercat_stop S impl))"
    "driver_inv S P zs (ethercat_cycle_begin impl)" "driver_inv S P zs (ethercat_cycle_end impl)"
    "driver_inv S P zs (rt_thread_exit S impl)"
    using r z ec_run.start [OF r] ec_run.stop [OF r] ec_run.cycle_begin [OF r] ec_run.cycle_end [OF r] ec_run.thread_exit [OF r]
      kept [THEN sizes_fixed]
    by (simp_all add: driver_inv_def)
  show "driver_inv S P zs (snd (rt_cycle S now (loc, impl)))"
    using ec_run.thread_cycle [OF r] kept(5) [THEN sizes_fixed] z by (simp add: driver_inv_def)
  obtain l d where e: "rt_thread_enter now impl = (l, d)" by fastforce
  then have "image_sizes d = zs" using z by (auto simp: rt_thread_enter_def image_sizes_def bound_devices_def)
  then show "driver_inv S P zs (snd (rt_thread_enter now impl))" using ec_run.thread_enter [OF r e] e by (simp add: driver_inv_def)
qed

lemma driver_inv_store:
  assumes "driver_inv S P zs impl" "soem_image_ok S" "soem_map_ok S"
    and "ethercat_get_output_data impl dev = (Some a, sz, impl)" "length bs = unat sz"
  shows "driver_inv S P zs (ec_buf_store impl a bs)"
  using assms ec_run.store [of S P impl dev a sz impl bs] by (simp add: driver_inv_def sizes_fixed [OF fixed_store])

section \<open>The runtime during operation\<close>

definition sys_ok :: "'x soem \<Rightarrow> platform \<Rightarrow> (u32 \<times> u32) list list \<Rightarrow> 'x EthercatDriver Runtime \<Rightarrow> bool" where
  "sys_ok S P zss rt \<longleftrightarrow> runtime_wf rt \<and> backends_set rt \<and> backend_count rt = length zss
     \<and> (\<forall>k < backend_count rt. \<exists>drv. backend_array rt ! k = Some drv \<and> drv_ops drv = Some (g_ec_ops S P)
          \<and> driver_inv S P (zss ! k) (drv_impl drv))"

text \<open>What a step may do to the rest: new values in the slots of the stores.\<close>

definition keeps_tags :: "'d Runtime \<Rightarrow> 'd Runtime \<Rightarrow> bool" where
  "keeps_tags rt rt' \<longleftrightarrow> tag_table rt' = tag_table rt \<and> same_slots (proc_store rt) (proc_store rt')
     \<and> same_slots (hmi_store rt) (hmi_store rt')"

lemma keeps_tags_refl [simp]: "keeps_tags rt rt"
  by (simp add: keeps_tags_def)

lemma keeps_tags_trans: "keeps_tags rt rt1 \<Longrightarrow> keeps_tags rt1 rt2 \<Longrightarrow> keeps_tags rt rt2"
  by (simp add: keeps_tags_def same_slots_def)

lemma sys_driver:
  assumes "sys_ok S P zss rt" "k < backend_count rt"
  obtains drv where "backend_array rt ! k = Some drv" "drv_ops drv = Some (g_ec_ops S P)"
    "driver_inv S P (zss ! k) (drv_impl drv)"
  using assms by (auto simp: sys_ok_def)

lemma sys_runtime_ok:
  assumes "sys_ok S P zss rt" "soem_image_ok S" "soem_map_ok S"
  shows "ec_runtime_ok S P rt"
proof -
  have "drv_ops drv = Some (g_ec_ops S P) \<and> ec_inv (drv_impl drv)"
    if "k < backend_count rt" "backend_array rt ! k = Some drv" for k drv
  proof -
    have "drv_ops drv = Some (g_ec_ops S P) \<and> ec_run S P (drv_impl drv)"
      using assms(1) that by (auto simp: sys_ok_def driver_inv_def)
    then show ?thesis using ec_good_D(1) [OF ec_run_good [OF _ assms(2,3)]] by blast
  qed
  then show ?thesis using assms(1) by (auto simp: ec_runtime_ok_def sys_ok_def)
qed

text \<open>The images have the sizes the invariant records, so they are the same in every state.\<close>

lemma sys_image_length:
  assumes "sys_ok S P zss rt" "soem_image_ok S" "soem_map_ok S"
  shows "map_option length (ec.tag_image rt io) =
    (let k = unat (io_backend_index io); i = unat (io_device_index io) in
     if k < length zss \<and> i < length (zss ! k)
     then Some (if io_dir io = TAGDIR_IN then unat (fst (zss ! k ! i)) else unat (snd (zss ! k ! i))) else None)"
proof (cases "unat (io_backend_index io) < length zss")
  case True
  let ?k = "unat (io_backend_index io)" and ?i = "unat (io_device_index io)"
  have cnt: "backend_count rt = length zss" "backends_set rt" using assms(1) by (simp_all add: sys_ok_def)
  then obtain drv where d: "backend_array rt ! ?k = Some drv" "driver_inv S P (zss ! ?k) (drv_impl drv)"
    using sys_driver [OF assms(1)] True by metis
  let ?impl = "drv_impl drv"
  have g: "ec_good ?impl" using d(2) ec_run_good assms by (auto simp: driver_inv_def)
  note inv = ec_good_D [OF g]
  have z: "image_sizes ?impl = zss ! ?k" using d(2) by (simp add: driver_inv_def)
  have len: "length (zss ! ?k) = device_count ?impl"
    using inv(1) unfolding z [symmetric] by (simp add: image_sizes_def bound_devices_def ec_inv_def)
  have sz: "?i < device_count ?impl \<Longrightarrow> zss ! ?k ! ?i = (in_size (devices ?impl ! ?i), out_size (devices ?impl ! ?i))"
    using inv(1) unfolding z [symmetric] by (simp add: image_sizes_def bound_devices_def ec_inv_def)
  have idx: "nat (plc_in_buffer_idx ?impl) \<le> 1" "nat (active_out_buffer_idx ?impl) \<le> 1"
    using inv(3) by (auto simp: idx_ok_def)
  have t: "ec.tag_image rt io = (if io_dir io = TAGDIR_IN then ec_in_image else ec_out_image) ?impl ?i"
    using True cnt d(1) by (simp add: ec.tag_image_def)
  show ?thesis
  proof (cases "?i < device_count ?impl")
    case i: True
    obtain a where "ec_in_image ?impl ?i = Some a" "length a = unat (in_size (devices ?impl ! ?i))"
      by (rule ec_ready_buffer [OF ec_good_ready [OF g] i idx(1)]) (use i in \<open>simp add: ec_in_image_def\<close>)
    moreover obtain b where "ec_out_image ?impl ?i = Some b" "length b = unat (out_size (devices ?impl ! ?i))"
      by (rule ec_ready_buffer [OF ec_good_ready [OF g] i idx(2)]) (use i in \<open>simp add: ec_out_image_def\<close>)
    ultimately show ?thesis using i len True sz [OF i] unfolding t by (simp add: Let_def)
  next
    case False
    then show ?thesis using len unfolding t by (simp add: ec_in_image_def ec_out_image_def Let_def)
  qed
next
  case False
  then show ?thesis using assms(1) by (auto simp: ec.tag_image_def Let_def sys_ok_def)
qed

lemma sys_all_readable:
  assumes "all_readable S P rt" "sys_ok S P zss rt" "sys_ok S P zss rt'" "keeps_tags rt rt'" "soem_image_ok S" "soem_map_ok S"
  shows "all_readable S P rt'"
  by (rule all_readable_cong [OF assms(1)])
    (use assms in \<open>simp_all add: keeps_tags_def sys_image_length [of S P zss]\<close>)

section \<open>Steps that change the drivers\<close>

lemma sys_slot_step:
  assumes "sys_ok S P zss rt" "k < backend_count rt"
    and "\<And>drv. drv_ops drv = Some (g_ec_ops S P) \<Longrightarrow> driver_inv S P (zss ! k) (drv_impl drv)
       \<Longrightarrow> drv_ops (f drv) = Some (g_ec_ops S P) \<and> driver_inv S P (zss ! k) (drv_impl (f drv))"
  shows "sys_ok S P zss (slot_step f k rt)" "keeps_tags rt (slot_step f k rt)"
    "backend_count (slot_step f k rt) = backend_count rt"
proof -
  obtain drv where d: "backend_array rt ! k = Some drv" "drv_ops drv = Some (g_ec_ops S P)"
    "driver_inv S P (zss ! k) (drv_impl drv)"
    by (rule sys_driver [OF assms(1,2)])
  have st: "slot_step f k rt = set_driver rt k (f drv)" by (simp add: slot_step_def d(1))
  have "k < length (backend_array rt)" using assms(1,2) by (simp add: sys_ok_def runtime_wf_def)
  then show "sys_ok S P zss (slot_step f k rt)"
    using assms(1) assms(3) [OF d(2,3)] unfolding st by (auto simp: sys_ok_def nth_list_update)
  show "keeps_tags rt (slot_step f k rt)" by (simp add: st keeps_tags_def)
qed simp

definition sys_step :: "'x soem \<Rightarrow> platform \<Rightarrow> (u32 \<times> u32) list list \<Rightarrow> 'x EthercatDriver Runtime \<Rightarrow> 'x EthercatDriver Runtime \<Rightarrow> bool" where
  "sys_step S P zss rt rt' \<longleftrightarrow> sys_ok S P zss rt' \<and> keeps_tags rt rt' \<and> backend_count rt' = backend_count rt"

lemma sys_step_refl: "sys_ok S P zss rt \<Longrightarrow> sys_step S P zss rt rt"
  by (simp add: sys_step_def)

lemma sys_step_trans: "sys_step S P zss rt rt1 \<Longrightarrow> sys_step S P zss rt1 rt2 \<Longrightarrow> sys_step S P zss rt rt2"
  by (auto simp: sys_step_def intro: keeps_tags_trans)

lemma sys_slot_ops:
  assumes "sys_ok S P zss rt" "k < backend_count rt" "soem_image_ok S" "soem_map_ok S"
  shows "sys_step S P zss rt (slot_step (call_drv op_start) k rt)" "sys_step S P zss rt (slot_step (call_drv op_stop) k rt)"
    "sys_step S P zss rt (slot_step (apply_op op_cycle_begin) k rt)" "sys_step S P zss rt (slot_step (apply_op op_cycle_end) k rt)"
  unfolding sys_step_def
  by (intro conjI sys_slot_step [OF assms(1,2)];
      simp add: call_drv_def apply_op_def driver_op_def g_ec_ops_def driver_inv_ops [OF _ assms(3,4)])+

lemma sys_stop_down:
  assumes "soem_image_ok S" "soem_map_ok S"
  shows "sys_ok S P zss rt \<Longrightarrow> n \<le> backend_count rt \<Longrightarrow> sys_step S P zss rt (stop_down n rt)"
proof (induction n arbitrary: rt)
  case (Suc n)
  have s: "sys_step S P zss rt (slot_step (call_drv op_stop) n rt)" using sys_slot_ops [OF Suc.prems(1) _ assms, of n] Suc.prems(2) by simp
  then have "sys_step S P zss (slot_step (call_drv op_stop) n rt) (stop_down n (slot_step (call_drv op_stop) n rt))"
    using Suc.prems(2) by (intro Suc.IH) (simp_all add: sys_step_def)
  then show ?case using sys_step_trans [OF s] by (simp only: stop_down_Suc)
qed (simp add: sys_step_refl)

lemma sys_start_loop:
  assumes "soem_image_ok S" "soem_map_ok S"
  shows "sys_ok S P zss rt \<Longrightarrow> i + n \<le> backend_count rt \<Longrightarrow> s \<le> i \<Longrightarrow> sys_step S P zss rt (snd (start_loop n i s rt))"
proof (induction n arbitrary: i s rt)
  case (Suc n)
  let ?rt = "slot_step (call_drv op_start) i rt"
  have i: "i < backend_count rt" using Suc.prems(2) by simp
  obtain drv where d: "backend_array rt ! i = Some drv" "drv_ops drv = Some (g_ec_ops S P)"
    by (rule sys_driver [OF Suc.prems(1) i])
  have o: "driver_op op_start drv = Some (ethercat_start S P)" using d(2) by (simp add: driver_op_def g_ec_ops_def)
  have st: "sys_step S P zss rt ?rt" by (rule sys_slot_ops(1) [OF Suc.prems(1) i assms])
  then have ok: "sys_ok S P zss ?rt" "backend_count ?rt = backend_count rt" by (simp_all add: sys_step_def)
  have "sys_step S P zss ?rt (stop_down s ?rt)" using sys_stop_down [OF assms ok(1), of s] ok(2) Suc.prems(2,3) by simp
  moreover have "sys_step S P zss ?rt (snd (start_loop n (Suc i) (Suc s) ?rt))"
    using Suc.prems(2,3) ok by (intro Suc.IH) simp_all
  ultimately show ?case
    using d(1) o sys_step_trans [OF st] by (simp add: start_loop_Suc del: start_loop.simps)
qed (simp add: sys_step_refl)

lemma sys_stop_loop:
  assumes "soem_image_ok S" "soem_map_ok S"
  shows "sys_ok S P zss rt \<Longrightarrow> i + n \<le> backend_count rt \<Longrightarrow> sys_step S P zss rt (snd (stop_loop n i rc rt))"
proof (induction n arbitrary: i rc rt)
  case (Suc n)
  let ?rt = "slot_step (call_drv op_stop) i rt"
  have i: "i < backend_count rt" using Suc.prems(2) by simp
  obtain drv where d: "backend_array rt ! i = Some drv" "drv_ops drv = Some (g_ec_ops S P)"
    by (rule sys_driver [OF Suc.prems(1) i])
  have st: "sys_step S P zss rt ?rt" by (rule sys_slot_ops(2) [OF Suc.prems(1) i assms])
  then have "sys_step S P zss ?rt (snd (stop_loop n (Suc i) rc' ?rt))" for rc'
    using Suc.prems(2) by (intro Suc.IH) (simp_all add: sys_step_def)
  then show ?case
    using d sys_step_trans [OF st]
    by (simp add: slot_step_def call_drv_def driver_op_def g_ec_ops_def case_prod_unfold Let_def)
qed (simp add: sys_step_refl)

lemma cycle_loop_slot: "cycle_loop sel (Suc n) i rt = cycle_loop sel n (Suc i) (slot_step (apply_op sel) i rt)"
  by (auto simp: slot_step_def apply_op_def set_driver_id split: option.split)

lemma sys_cycle_loop:
  assumes "soem_image_ok S" "soem_map_ok S" "sel = op_cycle_begin \<or> sel = op_cycle_end"
  shows "sys_ok S P zss rt \<Longrightarrow> i + n \<le> backend_count rt \<Longrightarrow> sys_step S P zss rt (cycle_loop sel n i rt)"
proof (induction n arbitrary: i rt)
  case (Suc n)
  have st: "sys_step S P zss rt (slot_step (apply_op sel) i rt)"
    using sys_slot_ops(3,4) [OF Suc.prems(1) _ assms(1,2), of i] Suc.prems(2) assms(3) by auto
  then have "sys_step S P zss (slot_step (apply_op sel) i rt) (cycle_loop sel n (Suc i) (slot_step (apply_op sel) i rt))"
    using Suc.prems(2) by (intro Suc.IH) (simp_all add: sys_step_def)
  then show ?case using sys_step_trans [OF st] by (simp only: cycle_loop_slot)
qed (simp add: sys_step_refl)

lemma sys_backends:
  assumes "sys_ok S P zss rt" "soem_image_ok S" "soem_map_ok S"
  shows "sys_step S P zss rt (snd (runtime_backends_start rt))" "sys_step S P zss rt (snd (runtime_backends_stop rt))"
    "sys_step S P zss rt (runtime_backends_cycle_begin rt)" "sys_step S P zss rt (runtime_backends_sync_outputs rt)"
  using assms(1) sys_start_loop [OF assms(2,3,1), of 0] sys_stop_loop [OF assms(2,3,1), of 0] sys_cycle_loop [OF assms(2,3) _ assms(1), of _ 0]
  by (simp_all add: runtime_backends_start_def runtime_backends_stop_def runtime_backends_cycle_begin_def
      runtime_backends_sync_outputs_def sys_step_refl)

section \<open>Steps that write tags\<close>

lemma sys_ok_stores:
  "sys_ok S P zss rt \<Longrightarrow> runtime_wf rt' \<Longrightarrow> backends_set rt' = backends_set rt \<Longrightarrow> backend_count rt' = backend_count rt
     \<Longrightarrow> backend_array rt' = backend_array rt \<Longrightarrow> sys_ok S P zss rt'"
  by (simp add: sys_ok_def)

lemma same_slots_put: "same_slots st (store_put st i v)"
  by (simp add: same_slots_def store_put_def nth_update_cases)

lemma sys_write_io:
  assumes "sys_ok S P zss rt" "soem_image_ok S" "soem_map_ok S" "te_ref e = REF_IO io" "length v = VALUE_SIZE"
    and "write_io_value rt e v = (0, rt')"
  shows "sys_step S P zss rt rt'"
proof -
  have r: "ec.rt_ok S P rt" using sys_runtime_ok [OF assms(1-3)] by (simp add: ec_runtime_ok_iff)
  let ?k = "unat (io_backend_index io)" and ?dev = "io_device_index io"
  obtain img where img: "ec.tag_image rt io = Some img" "io_dir io = TAGDIR_OUT"
    by (rule ec.write_io_value_ok [OF r assms(4-6)]) blast
  obtain a where a: "get_io_write_base rt e = (Some a, of_nat (length img), rt)" "image_load rt ?k a = img"
    using ec.write_base_Some [OF r assms(4) img] by blast
  have kc: "?k < backend_count rt" "backends_set rt" using img(1) by (auto simp: ec.tag_image_def split: if_splits)
  obtain drv where d: "backend_array rt ! ?k = Some drv" "drv_ops drv = Some (g_ec_ops S P)"
    "driver_inv S P (zss ! ?k) (drv_impl drv)"
    by (rule sys_driver [OF assms(1) kc(1)])
  have idx: "idx_ok (drv_impl drv)" using d(3) ec_good_D(3) ec_run_good assms(2,3) by (auto simp: driver_inv_def)
  obtain sz d' where o: "ethercat_get_output_data (drv_impl drv) ?dev = (Some a, sz, d')" "sz = of_nat (length img)"
    using a(1) assms(4) img(2) kc d(1,2)
    by (auto simp: get_io_write_base_def driver_op_def g_ec_ops_def call_data_def case_prod_unfold prod_eq_iff
        Let_def split: if_splits)
  then have o': "ethercat_get_output_data (drv_impl drv) ?dev = (Some a, sz, drv_impl drv)"
    using get_output_idx [OF idx, of ?dev] by (auto split: if_splits)
  define bs where "bs = snd (poke_io (te_type e) io img (of_nat (length img)) v)"
  have sz: "unat (of_nat (length img) :: u32) = length img" by (rule ec.tag_image_len [OF r img(1)])
  have bs: "length bs = unat sz" using poke_io_length [OF sz assms(5)] sz o(2) by (simp add: bs_def)
  have "rt' = image_store rt ?k a bs"
    using assms(6) a assms(4) by (auto simp: write_io_value_def entry_io_def bs_def Let_def case_prod_unfold split: if_splits)
  then have rt': "rt' = slot_step (\<lambda>drv. set_impl drv (ec_buf_store (drv_impl drv) a bs)) ?k rt"
    using d(1,2) by (simp add: image_store_def slot_step_def g_ec_ops_def)
  have di: "driver_inv S P (zss ! ?k) (ec_buf_store (drv_impl drv) a bs)"
    by (rule driver_inv_store [OF d(3) assms(2,3) o' bs])
  have "?k < length (backend_array rt)" using assms(1) kc by (simp add: sys_ok_def runtime_wf_def)
  then show ?thesis
    using assms(1) d di unfolding rt'
    by (auto simp: sys_step_def slot_step_def sys_ok_def keeps_tags_def nth_list_update)
qed

lemma sys_tag_write:
  assumes "sys_ok S P zss rt" "soem_image_ok S" "soem_map_ok S" "tag_write rt tid (Some buf) n = (rc, rt')" "n \<le> length buf"
  shows "sys_step S P zss rt rt'"
proof -
  have ok: "ec_runtime_ok S P rt" by (rule sys_runtime_ok [OF assms(1-3)])
  have wf: "runtime_wf rt'" using ec_write_keeps [OF ok assms(4,5)] by (simp add: ec_runtime_ok_def)
  show ?thesis
  proof (cases "rc = 0")
    case False
    then have "rt' = rt" using ec.tag_write_fail [OF ok [unfolded ec_runtime_ok_iff] assms(4)] by simp
    then show ?thesis using assms(1) by (simp add: sys_step_refl)
  next
    case True
    obtain e where e: "resolve_entry rt tid True 0 = Some e" "tag_type_size (te_type e) \<noteq> 0" "tag_type_size (te_type e) \<le> n"
      using assms(4) True by (auto simp: tag_write_def Let_def split: option.splits if_splits)
    let ?v = "overwrite (take (tag_type_size (te_type e)) buf) (rt_uninit rt)"
    have v: "length ?v = VALUE_SIZE"
      using e assms(1,5) ec.tag_type_size_le [of "te_type e"] by (simp add: overwrite_def sys_ok_def runtime_wf_def)
    consider (proc) i where "rt' = rt\<lparr>proc_store := store_put (proc_store rt) i ?v\<rparr>"
      | (hmi) i where "rt' = rt\<lparr>hmi_store := store_put (hmi_store rt) i ?v\<rparr>"
      | (io) io where "te_ref e = REF_IO io" "write_io_value rt e ?v = (0, rt')"
      using assms(4) True e
      by (cases "te_ref e") (auto simp: tag_write_def te_kind_def Let_def split: option.splits if_splits)
    then show ?thesis
    proof cases
      case io
      then show ?thesis using sys_write_io [OF assms(1-3) _ v] by blast
    qed (use sys_ok_stores [OF assms(1) wf] in \<open>auto simp: sys_step_def keeps_tags_def same_slots_put\<close>)
  qed
qed

lemma sys_rpc_serve:
  assumes "sys_ok S P zss rt" "soem_image_ok S" "soem_map_ok S"
  shows "sys_step S P zss rt (snd (rpc_serve w req rt))"
proof -
  let ?tid = "tag_table_find_id (tag_table rt) (Some (rq_name req))"
  have ok: "ec_runtime_ok S P rt" by (rule sys_runtime_ok [OF assms])
  have rd: "snd (handle_read rt e i t) = rt" for e i t using handle_read_unchanged [OF ok] by (metis prod.collapse)
  have wr: "sys_step S P zss rt (snd (handle_write w rt e i t q))" for e i t q
  proof -
    obtain rc rt1 where e: "rpc_write_effect w rt e t q = (rc, rt1)" by fastforce
    then have "snd (handle_write w rt e i t q) = rt1" by (simp add: handle_write_effect Let_def)
    moreover have "sys_step S P zss rt rt1"
      using e by (cases rule: rpc_write_effect_cases) (use assms(1) sys_step_refl sys_tag_write [OF assms _ order_refl] in blast)+
    ultimately show ?thesis by simp
  qed
  show ?thesis using rd wr sys_step_refl [OF assms(1)] by (simp add: rpc_serve_def Let_def split: option.split)
qed

lemma sys_poll:
  assumes "soem_image_ok S" "soem_map_ok S"
  shows "sys_ok S P zss rt \<Longrightarrow> sys_step S P zss rt (snd (rpc_poll_loop w n ch rt))"
proof (induction n arbitrary: ch rt)
  case (Suc n)
  have s: "sys_step S P zss rt (snd (rpc_serve w req rt))" for req by (rule sys_rpc_serve [OF Suc.prems assms])
  then have "sys_step S P zss (snd (rpc_serve w req rt)) (snd (rpc_poll_loop w n c (snd (rpc_serve w req rt))))" for req c
    by (intro Suc.IH) (simp add: sys_step_def)
  with s have "sys_step S P zss rt (snd (rpc_poll_loop w n c (snd (rpc_serve w req rt))))" for req c
    by (rule sys_step_trans)
  then show ?case using sys_step_refl [OF Suc.prems] by (auto simp: Let_def case_prod_unfold split: option.split)
qed (simp add: sys_step_refl)

lemma sys_typed_writes:
  assumes "sys_ok S P zss rt" "soem_image_ok S" "soem_map_ok S"
  shows "sys_step S P zss rt (snd (tag_write_bool rt tid b))" "sys_step S P zss rt (snd (tag_write_u32 rt tid x))"
  using sys_tag_write [OF assms, of tid "[bool_byte b]" 1] sys_tag_write [OF assms, of tid "u32_bytes x" 4]
  by (simp_all add: tag_write_bool_def tag_write_u32_def prod_eq_iff)

lemma sys_heartbeat:
  assumes "sys_ok S P zss rt" "soem_image_ok S" "soem_map_ok S"
  shows "sys_step S P zss rt (snd (snd (plc_task_heartbeat app st rt)))"
proof -
  have op: "sys_step S P zss rt (snd (snd (tag_read_bool r t b)))" "sys_step S P zss rt (snd (snd (tag_read_u32 r t x)))"
    "sys_step S P zss rt (snd (tag_write_bool r t b))" "sys_step S P zss rt (snd (tag_write_u32 r t x))"
    if s: "sys_step S P zss rt r" for r t b x
  proof -
    have r: "sys_ok S P zss r" using s by (simp add: sys_step_def)
    have "snd (snd (tag_read_bool r t b)) = r" "snd (snd (tag_read_u32 r t x)) = r"
      using tag_read_typed_unchanged [OF sys_runtime_ok [OF r assms(2,3)]] by (metis prod.collapse)+
    then show "sys_step S P zss rt (snd (snd (tag_read_bool r t b)))" "sys_step S P zss rt (snd (snd (tag_read_u32 r t x)))"
      using s by simp_all
    show "sys_step S P zss rt (snd (tag_write_bool r t b))"
      by (rule sys_step_trans [OF s sys_typed_writes(1) [OF r assms(2,3)]])
    show "sys_step S P zss rt (snd (tag_write_u32 r t x))"
      by (rule sys_step_trans [OF s sys_typed_writes(2) [OF r assms(2,3)]])
  qed
  then show ?thesis
    using sys_step_refl [OF assms(1)] by (simp add: plc_task_heartbeat_def Let_def case_prod_unfold)
qed

section \<open>The factory reset\<close>

text \<open>The state of the running program.\<close>

definition plant_ok :: "'x soem \<Rightarrow> platform \<Rightarrow> (u32 \<times> u32) list list \<Rightarrow> 'x EthercatDriver Runtime \<Rightarrow> bool" where
  "plant_ok S P zss rt \<longleftrightarrow> sys_ok S P zss rt \<and> all_readable S P rt \<and> configured kStaticConfig rt
     \<and> live (tag_table rt) = static_entries"

lemma plant_ok_step:
  assumes "plant_ok S P zss rt" "sys_step S P zss rt rt'" "soem_image_ok S" "soem_map_ok S"
  shows "plant_ok S P zss rt'"
proof -
  have s: "sys_ok S P zss rt" "sys_ok S P zss rt'" "keeps_tags rt rt'" using assms(1,2) by (simp_all add: plant_ok_def sys_step_def)
  have "all_readable S P rt'" using sys_all_readable [OF _ s assms(3,4)] assms(1) by (simp add: plant_ok_def)
  moreover have "configured kStaticConfig rt'"
    using assms(1) s(2,3) by (simp add: plant_ok_def configured_def keeps_tags_def same_slots_def sys_ok_def runtime_wf_def)
  ultimately show ?thesis using assms(1) s by (simp add: plant_ok_def keeps_tags_def)
qed

lemma static_arrays:
  "sc_process_vars kStaticConfig = None \<longrightarrow> sc_process_var_count kStaticConfig = 0"
  "sc_hmi_tags kStaticConfig = None \<longrightarrow> sc_hmi_tag_count kStaticConfig = 0"
  by (simp_all add: kStaticConfig_def)

lemma plant_init:
  assumes "plant_ok S P zss rt" "soem_image_ok S" "soem_map_ok S"
  shows "sys_step S P zss rt (snd (hmi_init rt (sc_hmi_tags kStaticConfig) (sc_hmi_tag_count kStaticConfig) START_HMI_INIT))"
    and "sys_step S P zss rt (snd (proc_init rt (sc_process_vars kStaticConfig) (sc_process_var_count kStaticConfig) START_COLD))"
proof -
  have p: "sys_ok S P zss rt" "all_readable S P rt" "configured kStaticConfig rt" using assms(1) by (simp_all add: plant_ok_def)
  have ok: "ec_runtime_ok S P rt" by (rule sys_runtime_ok [OF p(1) assms(2,3)])
  note sl = init_same_slots [OF p(2,3)]
  obtain sth where h: "hmi_init rt (sc_hmi_tags kStaticConfig) (sc_hmi_tag_count kStaticConfig) START_HMI_INIT = (0, rt\<lparr>hmi_store := sth\<rparr>)"
    "ec_runtime_ok S P (rt\<lparr>hmi_store := sth\<rparr>)"
    "sth = (hmi_store rt)\<lparr>st_values := put_all (hmi_vars (cfg_hmi_tags kStaticConfig)) 0 (st_values (hmi_store rt))\<rparr>"
    using hmi_init_ok [OF ok p(3) static_data_ok(3), of START_HMI_INIT] static_arrays by auto
  obtain stp where v: "proc_init rt (sc_process_vars kStaticConfig) (sc_process_var_count kStaticConfig) START_COLD = (0, rt\<lparr>proc_store := stp\<rparr>)"
    "ec_runtime_ok S P (rt\<lparr>proc_store := stp\<rparr>)"
    "stp = (proc_store rt)\<lparr>st_values := put_all (proc_vars (cfg_proc_vars kStaticConfig)) 0 (st_values (proc_store rt))\<rparr>"
    using proc_init_ok [OF ok p(3) static_data_ok(2), of START_COLD] static_arrays by auto
  have sh: "sys_ok S P zss (rt\<lparr>hmi_store := sth\<rparr>)" and sp: "sys_ok S P zss (rt\<lparr>proc_store := stp\<rparr>)"
    using sys_ok_stores [OF p(1)] h(2) v(2) by (simp_all add: ec_runtime_ok_def)
  show "sys_step S P zss rt (snd (hmi_init rt (sc_hmi_tags kStaticConfig) (sc_hmi_tag_count kStaticConfig) START_HMI_INIT))"
    using h(1,3) sh sl(2) by (simp add: sys_step_def keeps_tags_def)
  show "sys_step S P zss rt (snd (proc_init rt (sc_process_vars kStaticConfig) (sc_process_var_count kStaticConfig) START_COLD))"
    using v(1,3) sp sl(1) by (simp add: sys_step_def keeps_tags_def)
qed

lemma plant_reset:
  assumes "plant_ok S P zss rt" "soem_image_ok S" "soem_map_ok S"
  shows "sys_step S P zss rt (factory_reset kStaticConfig reset_id rt)"
proof -
  have ok: "sys_ok S P zss rt" using assms(1) by (simp add: plant_ok_def)
  have rd: "snd (snd (tag_read_bool rt reset_id False)) = rt"
    using tag_read_typed_unchanged(1) [OF sys_runtime_ok [OF ok assms(2,3)]] by (metis prod.collapse)
  define rt2 where "rt2 = snd (tag_write_bool rt reset_id False)"
  define rt3 where "rt3 = snd (hmi_init rt2 (sc_hmi_tags kStaticConfig) (sc_hmi_tag_count kStaticConfig) START_HMI_INIT)"
  define rt4 where "rt4 = snd (proc_init rt3 (sc_process_vars kStaticConfig) (sc_process_var_count kStaticConfig) START_COLD)"
  have 2: "sys_step S P zss rt rt2" unfolding rt2_def by (rule sys_typed_writes(1) [OF ok assms(2,3)])
  have p2: "plant_ok S P zss rt2" by (rule plant_ok_step [OF assms(1) 2 assms(2,3)])
  have 3: "sys_step S P zss rt2 rt3" unfolding rt3_def by (rule plant_init(1) [OF p2 assms(2,3)])
  have p3: "plant_ok S P zss rt3" by (rule plant_ok_step [OF p2 3 assms(2,3)])
  have "sys_step S P zss rt3 rt4" unfolding rt4_def by (rule plant_init(2) [OF p3 assms(2,3)])
  then have "sys_step S P zss rt rt4" using sys_step_trans 2 3 by blast
  then show ?thesis
    using rd sys_step_refl [OF ok]
    by (simp add: factory_reset_def Let_def case_prod_unfold flip: rt2_def rt3_def rt4_def)
qed

section \<open>The transition system\<close>

text \<open>
  The states the program can be in from the end of its setup on. The PLC thread runs its
  callbacks and tasks and the backends are started and stopped; a client can put the RPC
  channel into any state; the thread of any driver can enter its loop, run a cycle and leave
  it at any point between two of these calls, with any local state and clock. \<open>w\<close> is the width
  of \<^verbatim>\<open>unsigned long\<close>.
\<close>

abbreviation on_driver :: "'d AppWorld \<Rightarrow> nat \<Rightarrow> ('d \<Rightarrow> 'd) \<Rightarrow> 'd AppWorld" where
  "on_driver a k f \<equiv> a\<lparr>aw_rt := slot_step (\<lambda>drv. set_impl drv (f (drv_impl drv))) k (aw_rt a)\<rparr>"

inductive plant :: "nat \<Rightarrow> 'x soem \<Rightarrow> platform \<Rightarrow> int \<times> 'x EthercatDriver AppWorld \<Rightarrow> bool" for w S P where
  boot: "main_setup g_device_descs (g_backend_factories S P) req_mem rsp_mem rt0 = (0, sched, st)
    \<Longrightarrow> length (rt_uninit rt0) = VALUE_SIZE \<Longrightarrow> plant w S P st"
| start: "plant w S P (h, a) \<Longrightarrow> plant w S P (h, a\<lparr>aw_rt := snd (runtime_backends_start (aw_rt a))\<rparr>)"
| stop: "plant w S P (h, a) \<Longrightarrow> plant w S P (h, a\<lparr>aw_rt := snd (runtime_backends_stop (aw_rt a))\<rparr>)"
| client: "plant w S P (h, a) \<Longrightarrow> plant w S P (h, a\<lparr>aw_rpc := ch\<rparr>)"
| cycle_begin: "plant w S P st \<Longrightarrow> plant w S P (hook_fn (app_code w) CB_begin u st)"
| cycle_end: "plant w S P st \<Longrightarrow> plant w S P (hook_fn (app_code w) CB_end u st)"
| task: "plant w S P st \<Longrightarrow> plant w S P (snd (task_fn (app_code w) f u st))"
| rt_enter: "plant w S P (h, a) \<Longrightarrow> k < backend_count (aw_rt a)
    \<Longrightarrow> plant w S P (h, on_driver a k (\<lambda>impl. snd (rt_thread_enter now impl)))"
| rt_step: "plant w S P (h, a) \<Longrightarrow> k < backend_count (aw_rt a)
    \<Longrightarrow> plant w S P (h, on_driver a k (\<lambda>impl. snd (rt_cycle S now (loc, impl))))"
| rt_exit: "plant w S P (h, a) \<Longrightarrow> k < backend_count (aw_rt a)
    \<Longrightarrow> plant w S P (h, on_driver a k (rt_thread_exit S))"

definition world_ok :: "'x soem \<Rightarrow> platform \<Rightarrow> (u32 \<times> u32) list list \<Rightarrow> int \<times> 'x EthercatDriver AppWorld \<Rightarrow> bool" where
  "world_ok S P zss st \<longleftrightarrow> plant_ok S P zss (aw_rt (snd st)) \<and> aw_cfg (snd st) = kStaticConfig \<and> aw_app (snd st) = static_app
     \<and> length zss = 1"

lemma world_ok_rt:
  "world_ok S P zss (h, a) \<Longrightarrow> sys_step S P zss (aw_rt a) rt' \<Longrightarrow> soem_image_ok S \<Longrightarrow> soem_map_ok S
     \<Longrightarrow> world_ok S P zss (h', a\<lparr>aw_rt := rt'\<rparr>)"
  using plant_ok_step by (fastforce simp: world_ok_def)

lemma boot_ok:
  assumes "main_setup g_device_descs (g_backend_factories S P) req_mem rsp_mem rt0 = (0, sched, st)"
    and "length (rt_uninit rt0) = VALUE_SIZE" "soem_image_ok S" "soem_map_ok S"
  shows "\<exists>zss. world_ok S P zss st"
proof -
  let ?F = "g_backend_factories S P" and ?rt1 = "snd (runtime_init rt0)"
  obtain rc rt app where b: "main_build g_device_descs ?F kStaticConfig rt0 = (rc, rt, app)" by (metis prod.exhaust)
  have "rc = 0"
    using assms(1) b by (auto simp: main_setup_def user_get_config_def get_static_config_def Let_def split: if_splits)
  then obtain ds rt2 where sb: "system_build g_device_descs ?F ?rt1 kStaticConfig = (0, ds, rt2)"
    using b by (auto simp: main_build_def Let_def split: if_splits prod.splits)
  obtain r where "build_backends g_device_descs ?F kStaticConfig (sc_backend_count kStaticConfig) 0
      (?rt1\<lparr>backend_array := replicate MAX_BACKENDS None, backend_count := 0, backends_set := True\<rparr>) = (True, r)"
    by (rule system_build_success [OF sb runtime_init_wf [OF assms(2)]])
  then have ph: "fst (driver_phase g_device_descs ?F kStaticConfig ?rt1)" by (simp add: driver_phase_def)
  obtain a where a: "st = (0, a)" "main_build g_device_descs ?F kStaticConfig rt0 = (0, aw_rt a, aw_app a)"
    "live (tag_table (aw_rt a)) = static_entries" "aw_app a = static_app" "aw_cfg a = kStaticConfig"
    using static_setup [OF ph assms(2), of req_mem rsp_mem] assms(1) by auto
  note m = main_build_ok [OF a(2) assms(2-4) static_data_ok]
  let ?rt = "aw_rt a"
  define zss where "zss = map (\<lambda>k. image_sizes (drv_impl (the (backend_array ?rt ! k)))) [0..<backend_count ?rt]"
  have "\<exists>drv. backend_array ?rt ! k = Some drv \<and> drv_ops drv = Some (g_ec_ops S P) \<and> driver_inv S P (zss ! k) (drv_impl drv)"
    if k: "k < backend_count ?rt" for k
  proof -
    obtain drv name where "backend_array ?rt ! k = Some drv" "drv_ops drv = Some (g_ec_ops S P)"
        "ec_ready_for S P (drv_impl drv) (backend_descs g_device_descs name (cfg_devices kStaticConfig))"
      using ecb.drivers_ready_at [of S P g_device_descs kStaticConfig ?rt k] m k by blast
    then show ?thesis using k by (simp add: driver_inv_def zss_def ec_ready_for_def)
  qed
  then have "sys_ok S P zss ?rt" using m by (simp add: sys_ok_def ec_runtime_ok_def zss_def)
  moreover have "length zss = 1" using m by (simp add: zss_def kStaticConfig_def kBackendConfigs_def)
  ultimately show ?thesis using a m by (intro exI [of _ zss]) (simp add: world_ok_def plant_ok_def)
qed

lemma sys_on_driver:
  assumes "sys_ok S P zss rt" "k < backend_count rt"
    and "\<And>impl. driver_inv S P (zss ! k) impl \<Longrightarrow> driver_inv S P (zss ! k) (f impl)"
  shows "sys_step S P zss rt (slot_step (\<lambda>drv. set_impl drv (f (drv_impl drv))) k rt)"
  unfolding sys_step_def by (intro conjI sys_slot_step [OF assms(1,2)]; simp add: assms(3))+

lemma world_on_driver:
  assumes "world_ok S P zss (h, a)" "k < backend_count (aw_rt a)" "soem_image_ok S" "soem_map_ok S"
    and "\<And>zs impl. driver_inv S P zs impl \<Longrightarrow> driver_inv S P zs (f impl)"
  shows "world_ok S P zss (h, on_driver a k f)"
proof -
  have "sys_ok S P zss (aw_rt a)" using assms(1) by (simp add: world_ok_def plant_ok_def)
  from world_ok_rt [OF assms(1) sys_on_driver [OF this assms(2,5)] assms(3,4)] show ?thesis .
qed

lemma plant_world_ok:
  assumes "plant w S P st" "soem_image_ok S" "soem_map_ok S"
  shows "\<exists>zss. world_ok S P zss st"
  using assms(1)
proof induction
  case (boot req_mem rsp_mem rt0 sched st)
  then show ?case by (rule boot_ok [OF _ _ assms(2,3)])
next
  case (client h a ch)
  then show ?case by (simp add: world_ok_def)
next
  case (cycle_begin st u)
  then obtain zss where z: "world_ok S P zss st" by blast
  obtain h a where st: "st = (h, a)" by fastforce
  obtain ch rt1 where p: "tag_rpc_plc_poll w (aw_rpc a) (aw_rt a) 16 = (ch, rt1)" by fastforce
  have p0: "plant_ok S P zss (aw_rt a)" and c: "aw_cfg a = kStaticConfig" using z st by (simp_all add: world_ok_def)
  have s0: "sys_ok S P zss (aw_rt a)" using p0 by (simp add: plant_ok_def)
  have 1: "sys_step S P zss (aw_rt a) rt1"
    using sys_poll [OF assms(2,3) s0, of w "unat (16::u32)" "aw_rpc a"] p by (simp add: tag_rpc_plc_poll_def)
  have p1: "plant_ok S P zss rt1" by (rule plant_ok_step [OF p0 1 assms(2,3)])
  let ?rt2 = "factory_reset kStaticConfig (aw_reset a) rt1"
  have 2: "sys_step S P zss rt1 ?rt2" by (rule plant_reset [OF p1 assms(2,3)])
  have p2: "plant_ok S P zss ?rt2" by (rule plant_ok_step [OF p1 2 assms(2,3)])
  then have "sys_step S P zss ?rt2 (runtime_backends_cycle_begin ?rt2)"
    by (intro sys_backends(3) assms(2,3)) (simp add: plant_ok_def)
  then have "plant_ok S P zss (runtime_backends_cycle_begin ?rt2)" by (rule plant_ok_step [OF p2 _ assms(2,3)])
  then have "world_ok S P zss (plc_cycle_begin w st)"
    using z st p c by (simp add: world_ok_def plc_cycle_begin_def plc_scheduler_set_health_def Let_def)
  then show ?case by (auto simp: app_code_def)
next
  case (cycle_end st u)
  then obtain zss where z: "world_ok S P zss st" by blast
  obtain h a where st: "st = (h, a)" by fastforce
  have "sys_ok S P zss (aw_rt a)" using z st by (simp add: world_ok_def plant_ok_def)
  from world_ok_rt [OF z [unfolded st] sys_backends(4) [OF this assms(2,3)] assms(2,3)]
  show ?case unfolding st by (auto simp: app_code_def plc_cycle_end_def CB_begin_def CB_end_def)
next
  case (task st f u)
  then obtain zss where z: "world_ok S P zss st" by blast
  obtain h a where st: "st = (h, a)" by fastforce
  have s: "sys_ok S P zss (aw_rt a)" using z st by (simp add: world_ok_def plant_ok_def)
  obtain rc b rt' where p: "plc_task_heartbeat (aw_app a) (aw_beat a) (aw_rt a) = (rc, b, rt')" by (metis prod.exhaust)
  have "sys_step S P zss (aw_rt a) rt'" using sys_heartbeat [OF s assms(2,3), of "aw_app a" "aw_beat a"] p by simp
  from world_ok_rt [OF z [unfolded st] this assms(2,3), of h]
  have "world_ok S P zss (h, a\<lparr>aw_beat := b, aw_rt := rt'\<rparr>)" by (simp add: world_ok_def)
  then show ?case using z st p by (auto simp: app_code_def plc_task_noop_def)
next
  case (start h a)
  then obtain zss where z: "world_ok S P zss (h, a)" by blast
  then have "sys_ok S P zss (aw_rt a)" by (simp add: world_ok_def plant_ok_def)
  from world_ok_rt [OF z sys_backends(1) [OF this assms(2,3)] assms(2,3)] show ?case by blast
next
  case (stop h a)
  then obtain zss where z: "world_ok S P zss (h, a)" by blast
  then have "sys_ok S P zss (aw_rt a)" by (simp add: world_ok_def plant_ok_def)
  from world_ok_rt [OF z sys_backends(2) [OF this assms(2,3)] assms(2,3)] show ?case by blast
next
  case (rt_enter h a k now)
  then obtain zss where "world_ok S P zss (h, a)" by blast
  from world_on_driver [OF this rt_enter.hyps(2) assms(2,3) driver_inv_ops(5) [OF _ assms(2,3)]] show ?case ..
next
  case (rt_step h a k now loc)
  then obtain zss where "world_ok S P zss (h, a)" by blast
  from world_on_driver [OF this rt_step.hyps(2) assms(2,3) driver_inv_ops(6) [OF _ assms(2,3)]] show ?case ..
next
  case (rt_exit h a k)
  then obtain zss where "world_ok S P zss (h, a)" by blast
  from world_on_driver [OF this rt_exit.hyps(2) assms(2,3) driver_inv_ops(7) [OF _ assms(2,3)]] show ?case ..
qed

end
