(* ===== verification/Plant_Props.thy ===== *)
theory Plant_Props
  imports Plant
begin

text \<open>
  What holds of the running program as a whole: in every state it can reach its tags are
  served and its task succeeds, outputs travel from a tag to the frame on the network, and the end of
  the run leaves the outputs safe.
\<close>

section \<open>Service in every reachable state\<close>

lemma plant_driver:
  assumes "plant w S P (h, a)" "soem_image_ok S" "soem_map_ok S"
  obtains drv where "backend_count (aw_rt a) = 1" "backend_array (aw_rt a) ! 0 = Some drv" "drv_ops drv = Some (g_ec_ops S P)"
    "ec_run S P (drv_impl drv)"
proof -
  obtain zss where z: "world_ok S P zss (h, a)" using plant_world_ok [OF assms] by blast
  then have s: "sys_ok S P zss (aw_rt a)" "backend_count (aw_rt a) = 1" by (auto simp: world_ok_def plant_ok_def sys_ok_def)
  then show thesis using that sys_driver [OF s(1), of 0] by (auto simp: driver_inv_def)
qed

lemma plant_running:
  assumes "plant w S P (h, a)" "soem_image_ok S" "soem_map_ok S"
  shows "running S P (aw_rt a)" "aw_app a = static_app"
proof -
  obtain zss where z: "world_ok S P zss (h, a)" using plant_world_ok [OF assms] by blast
  then show "running S P (aw_rt a)" "aw_app a = static_app"
    using sys_runtime_ok [OF _ assms(2,3)] by (auto simp: world_ok_def plant_ok_def running_def)
qed

text \<open>
  C12. The program stays in service. From its setup on, however the cycles and tasks of the PLC
  thread, starts and stops, client requests and the cycles of the real-time thread follow one
  another, the tag table is the one the configuration describes, the one EtherCAT driver is
  in a state that satisfies the guarantees of its interface, every tag that is not an alias
  can be read, and the heartbeat task succeeds.
\<close>

theorem plant_in_service:
  assumes "plant w S P (h, a)" "soem_image_ok S" "soem_map_ok S"
  shows "live (tag_table (aw_rt a)) = static_entries
    \<and> (\<exists>drv. backend_count (aw_rt a) = 1 \<and> backend_array (aw_rt a) ! 0 = Some drv \<and> ec_run S P (drv_impl drv))
    \<and> (\<forall>tid e out m. tag_table_get (tag_table (aw_rt a)) tid = Some e \<longrightarrow> te_kind e \<noteq> TAGK_HMI_ALIAS
         \<longrightarrow> 0 < tag_type_size (te_type e) \<longrightarrow> tag_type_size (te_type e) \<le> m
         \<longrightarrow> (\<exists>bs. tag_read (aw_rt a) tid (Some out) m = (0, Some bs, aw_rt a)))
    \<and> fst (plc_task_heartbeat (aw_app a) (aw_beat a) (aw_rt a)) = 0"
proof -
  note r = plant_running [OF assms]
  have "\<exists>drv. backend_count (aw_rt a) = 1 \<and> backend_array (aw_rt a) ! 0 = Some drv \<and> ec_run S P (drv_impl drv)"
    by (rule plant_driver [OF assms]) blast
  moreover have "fst (plc_task_heartbeat (aw_app a) (aw_beat a) (aw_rt a)) = 0"
    using heartbeat_run [OF r(1), of "aw_beat a"] r(2) by auto
  ultimately show ?thesis
    using r(1) readable_tag_read [of S P "aw_rt a"] unfolding running_def by blast
qed

text \<open>The linked program on the example bus, after its setup.\<close>

lemma l230_plant:
  obtains a where "plant w l230_soem demo_platform (0, a)"
proof -
  obtain a where "main_setup g_device_descs (g_backend_factories l230_soem demo_platform) [] [] (demo_rt 1) = (0, static_sched, 0, a)"
    using static_setup [OF l230_driver_phase demo_rt_uninit, of "[]" "[]"] by blast
  then show thesis using plant.boot [OF _ demo_rt_uninit] that by blast
qed

lemma plant_in_service_witness:
  "\<exists>a. plant 64 l230_soem demo_platform (0, a) \<and> live (tag_table (aw_rt a)) = static_entries
     \<and> fst (plc_task_heartbeat (aw_app a) (aw_beat a) (aw_rt a)) = 0"
proof -
  obtain a where "plant 64 l230_soem demo_platform (0, a)" by (rule l230_plant)
  then have p: "plant 64 l230_soem demo_platform (0, a\<lparr>aw_rt := snd (runtime_backends_start (aw_rt a))\<rparr>)" by (rule plant.start)
  from p plant_in_service [OF p l230_soem_ok] show ?thesis by blast
qed

section \<open>The end of the run\<close>

lemma driver_stop_safe:
  assumes "ec_run S P impl" "soem_image_ok S" "soem_map_ok S"
  shows "\<not> rt_should_run (snd (ethercat_stop S impl)) \<and> \<not> in_op (snd (ethercat_stop S impl))
    \<and> (\<forall>i < device_count (snd (ethercat_stop S impl)). \<forall>k \<le> 1. out_buffers (devices (snd (ethercat_stop S impl)) ! i) ! k =
        Some (replicate (unat (out_size (devices (snd (ethercat_stop S impl)) ! i))) 0))"
proof -
  have c: "device_count (snd (ethercat_stop S impl)) = device_count impl"
    by (simp add: ethercat_stop_def rt_thread_exit_def Let_def case_prod_unfold)
  have s: "\<not> rt_should_run (snd (ethercat_stop S impl)) \<and> \<not> in_op (snd (ethercat_stop S impl))"
    by (rule ethercat_stop_cases [of S impl]) simp
  show ?thesis using s c stop_zeroes [OF assms] by simp
qed

text \<open>
  C14. The run ends with safe outputs. Whenever the backends were started, and whatever the
  threads and clients do while the main thread sleeps, whether the scheduler thread could be
  created and joined or not, \<^verbatim>\<open>plc_runtime_run\<close> returns with its driver stopped: its thread is
  told to end, it is not operational, and both output buffers of every device are zero.
\<close>

theorem plc_run_ends_safe:
  assumes "plant w S P (h, a)" "soem_image_ok S" "soem_map_ok S"
    and "\<forall>h1 a1 s1. plant w S P (h1, a1) \<longrightarrow> (\<exists>h2 a2. plant w S P (h2, a2) \<and> fst (ss_session ss (aw_rt a1, s1)) = aw_rt a2)"
    and "ss_server_start ss = 0" "fst (runtime_backends_start (aw_rt a)) = 0"
  shows "\<exists>rc rt' s' drv. plc_runtime_run ss (aw_rt a) s = (rc, rt', s') \<and> backend_count rt' = 1
    \<and> backend_array rt' ! 0 = Some drv \<and> \<not> rt_should_run (drv_impl drv) \<and> \<not> in_op (drv_impl drv)
    \<and> (\<forall>i < device_count (drv_impl drv). \<forall>k \<le> 1. out_buffers (devices (drv_impl drv) ! i) ! k =
         Some (replicate (unat (out_size (devices (drv_impl drv) ! i))) 0))"
proof -
  define rt1 where "rt1 = snd (runtime_backends_start (aw_rt a))"
  have st: "runtime_backends_start (aw_rt a) = (0, rt1)" using assms(6) by (simp add: rt1_def prod_eq_iff)
  have p1: "plant w S P (h, a\<lparr>aw_rt := rt1\<rparr>)" unfolding rt1_def by (rule plant.start [OF assms(1)])
  obtain rc1 s1 where sc: "plc_scheduler_start (ss_thread_created ss) s = (rc1, s1)" by fastforce
  obtain rtA sA where ses: "ss_session ss (rt1, s1) = (rtA, sA)" by fastforce
  obtain h2 a2 where p2: "plant w S P (h2, a2)" "rtA = aw_rt a2"
    using assms(4) p1 ses by (metis AppWorld.select_convs(1) AppWorld.surjective AppWorld.update_convs(1) fst_conv)
  define a3 where "a3 = (if rc1 = 0 then a2 else a\<lparr>aw_rt := rt1\<rparr>)"
  obtain h3 where p3: "plant w S P (h3, a3)" using p1 p2(1) by (cases "rc1 = 0") (auto simp: a3_def)
  obtain drv where d: "backend_count (aw_rt a3) = 1" "backend_array (aw_rt a3) ! 0 = Some drv" "drv_ops drv = Some (g_ec_ops S P)"
      "ec_run S P (drv_impl drv)"
    by (rule plant_driver [OF p3 assms(2,3)])
  have wf: "backends_set (aw_rt a3)" "0 < length (backend_array (aw_rt a3))"
    using plant_world_ok [OF p3 assms(2,3)]
    by (auto simp: world_ok_def plant_ok_def sys_ok_def runtime_wf_def MAX_BACKENDS_def)
  have stop: "snd (runtime_backends_stop (aw_rt a3)) = set_driver (aw_rt a3) 0 (set_impl drv (snd (ethercat_stop S (drv_impl drv))))"
    using d(1-3) wf(1) by (simp add: runtime_backends_stop_def driver_op_def g_ec_ops_def case_prod_unfold Let_def)
  have "\<exists>rc s'. plc_runtime_run ss (aw_rt a) s = (rc, snd (runtime_backends_stop (aw_rt a3)), s')"
    using assms(5) st sc ses p2(2) by (simp add: plc_runtime_run_def case_prod_unfold Let_def a3_def)
  then show ?thesis using d(1) wf(2) driver_stop_safe [OF d(4) assms(2,3)] unfolding stop by auto
qed

lemma l230_starts:
  assumes "plant w l230_soem demo_platform (h, a)"
  shows "fst (runtime_backends_start (aw_rt a)) = 0"
proof -
  obtain drv where d: "backend_count (aw_rt a) = 1" "backend_array (aw_rt a) ! 0 = Some drv"
      "drv_ops drv = Some (g_ec_ops l230_soem demo_platform)" "ec_run l230_soem demo_platform (drv_impl drv)"
    by (rule plant_driver [OF assms l230_soem_ok])
  have "iomap (drv_impl drv) \<noteq> None" using ec_run_good [OF d(4) l230_soem_ok] by (simp add: ec_good_def)
  then have "fst (ethercat_start l230_soem demo_platform (drv_impl drv)) = 0"
    by (auto simp: ethercat_start_def ec_soem_request_op_def numeral_eq_Suc l230_soem_def demo_soem_def demo_platform_def Let_def
        case_prod_unfold)
  moreover have "backends_set (aw_rt a)"
    using plant_world_ok [OF assms l230_soem_ok] by (auto simp: world_ok_def plant_ok_def sys_ok_def)
  ultimately show ?thesis
    using d(1-3) by (simp add: runtime_backends_start_def driver_op_def g_ec_ops_def case_prod_unfold Let_def)
qed

definition quiet_session :: "'d Session" where
  "quiet_session = \<lparr>ss_server_start = 0, ss_thread_created = True, ss_session = (\<lambda>x. x), ss_join = 0\<rparr>"

lemma plc_run_ends_safe_witness:
  "\<exists>a rc rt' s' drv. plc_runtime_run quiet_session (aw_rt (a :: unit EthercatDriver AppWorld)) static_sched = (rc, rt', s')
     \<and> backend_array rt' ! 0 = Some drv \<and> \<not> in_op (drv_impl drv)"
proof -
  obtain a where p: "plant 64 l230_soem demo_platform (0, a)" by (rule l230_plant)
  have "\<forall>h1 a1 s1. plant 64 l230_soem demo_platform (h1, a1) \<longrightarrow>
      (\<exists>h2 a2. plant 64 l230_soem demo_platform (h2, a2) \<and> fst (ss_session quiet_session (aw_rt a1, s1)) = aw_rt a2)"
    by (auto simp: quiet_session_def)
  from plc_run_ends_safe [OF p l230_soem_ok this _ l230_starts [OF p], of static_sched]
  show ?thesis by (fastforce simp: quiet_session_def)
qed

section \<open>From the tag to the network\<close>

lemma peek_io_any:
  assumes "fst (peek_io ty io base sz u) = 0" "unat sz = length base"
  shows "peek_io ty io base sz v = (0, overwrite (take (tag_type_size ty) (snd (peek_io ty io base sz u))) v)"
  using assms
  by (cases ty) (auto simp: peek_io_def Let_def tag_type_size_def overwrite_def mem_get_def not_less min_def
      split: if_splits intro!: arg_cong2 [of _ _ _ _ drop])

text \<open>
  C13. An output written by its tag is what the network gets. After a successful write of an
  output tag, the end of the PLC cycle hands its device's bytes to the real-time thread, and
  the next cycle of that thread puts a frame together. In it, the region of the device, which is as
  long as the descriptor's receive PDO, is the PLC's output image of the device, and the value of the tag, read at its
  place there, is the value written. While a fault is latched every byte of that region is zero instead.
  The regions of the devices that SOEM has assigned must not overlap.
\<close>

theorem output_reaches_bus:
  assumes "sys_ok S P zss rt" "soem_image_ok S" "soem_map_ok S"
    and "tag_write rt tid (Some buf) n = (0, rt1)" "n \<le> length buf"
    and "resolve_entry rt tid True 0 = Some e" "te_ref e = REF_IO io"
    and "backend_array rt1 ! unat (io_backend_index io) = Some drv" "regions_apart (bound_devices (drv_impl drv))"
    and "soem_outputs (devices (drv_impl drv) ! unat (io_device_index io)) = Some off"
  shows "\<exists>drv2 desc. backend_array (runtime_backends_sync_outputs rt1) ! unat (io_backend_index io) = Some drv2
    \<and> ed_desc (devices (drv_impl drv) ! unat (io_device_index io)) = Some desc
    \<and> (let region = mem_get off (unat (rx_bytes desc)) (the (iomap (rt_outputs (drv_impl drv2))))
       in length region = unat (rx_bytes desc)
         \<and> (if fault_latched (drv_impl drv) = 0
            then ec_out_image (drv_impl drv) (unat (io_device_index io)) = Some region
              \<and> peek_io (te_type e) io region (rx_bytes desc) v = (0, overwrite (stored_bytes e buf) v)
            else region = replicate (unat (rx_bytes desc)) 0))"
proof -
  let ?k = "unat (io_backend_index io)" and ?i = "unat (io_device_index io)" and ?impl = "drv_impl drv"
  have s1: "sys_ok S P zss rt1" using sys_tag_write [OF assms(1-5)] by (simp add: sys_step_def)
  have w: "ec.entry_read rt1 e = (0, stored_bytes e buf)"
    by (rule ec_tag_write_ok [OF sys_runtime_ok [OF assms(1-3)] assms(4,5)]) (use assms(6) in simp)
  have dir: "io_dir io = TAGDIR_OUT"
    using assms(4,6,7) by (auto simp: tag_write_def te_kind_def write_io_value_def get_io_write_base_def Let_def split: if_splits)
  obtain img where img: "ec.tag_image rt1 io = Some img" "fst (peek_io (te_type e) io img (of_nat (length img)) (rt_uninit rt1)) = 0"
    "take (tag_type_size (te_type e)) (snd (peek_io (te_type e) io img (of_nat (length img)) (rt_uninit rt1))) = stored_bytes e buf"
    using w assms(7) by (auto simp: ec.entry_read_def case_prod_unfold Let_def split: option.splits)
  have k: "?k < backend_count rt1" "backends_set rt1" and im: "ec_out_image ?impl ?i = Some img"
    using img(1) assms(8) dir by (auto simp: ec.tag_image_def split: if_splits)
  obtain d where d: "backend_array rt1 ! ?k = Some d" "drv_ops d = Some (g_ec_ops S P)" "driver_inv S P (zss ! ?k) (drv_impl d)"
    by (rule sys_driver [OF s1 k(1)])
  then have r: "ec_run S P ?impl" "drv_ops drv = Some (g_ec_ops S P)" using assms(8) by (simp_all add: driver_inv_def)
  have len: "length (backend_array rt1) = MAX_BACKENDS" "backend_count rt1 \<le> MAX_BACKENDS"
    using s1 by (simp_all add: sys_ok_def runtime_wf_def)
  have sync: "backend_array (runtime_backends_sync_outputs rt1) ! ?k = Some (set_impl drv (ethercat_cycle_end ?impl))"
    using k len assms(8) r(2)
    by (simp add: runtime_backends_sync_outputs_def cycle_loop_map nth_map_drivers apply_op_def driver_op_def g_ec_ops_def)
  have i: "?i < device_count ?impl" using im by (simp add: ec_out_image_def split: if_splits)
  note reg = published_region [OF r(1) assms(2,3,9) i assms(10) im]
  have inv: "ec_inv ?impl" by (rule ec_good_D(1) [OF ec_run_good [OF r(1) assms(2,3)]])
  obtain desc where desc: "ed_desc (devices ?impl ! ?i) = Some desc" "out_size (devices ?impl ! ?i) = rx_bytes desc"
    using ec_run_described [OF r(1) assms(2,3)] bound_nth [OF i] inv by (auto simp: described_def ec_inv_def)
  have n: "length img = unat (rx_bytes desc)" using ec_image_len(2) [OF inv im] desc(2) by simp
  have "peek_io (te_type e) io img (of_nat (length img)) v = (0, overwrite (stored_bytes e buf) v)"
    using peek_io_any [OF img(2) ec.tag_image_len [OF sys_runtime_ok [OF s1 assms(2,3), unfolded ec_runtime_ok_iff] img(1)]] img(3)
    by simp
  moreover have "of_nat (length img) = rx_bytes desc" unfolding n by simp
  ultimately have pk: "peek_io (te_type e) io img (rx_bytes desc) v = (0, overwrite (stored_bytes e buf) v)" by metis
  let ?region = "mem_get off (unat (rx_bytes desc)) (the (iomap (rt_outputs (ethercat_cycle_end ?impl))))"
  have "?region = (if fault_latched ?impl = 0 then img else replicate (unat (rx_bytes desc)) 0)" using reg by (simp only: n)
  then have "length ?region = unat (rx_bytes desc) \<and> (if fault_latched ?impl = 0
      then ec_out_image ?impl ?i = Some ?region \<and> peek_io (te_type e) io ?region (rx_bytes desc) v = (0, overwrite (stored_bytes e buf) v)
      else ?region = replicate (unat (rx_bytes desc)) 0)"
    using pk im n by (simp only: if_split length_replicate) simp
  then have out: "length ?region = unat (rx_bytes desc)" "if fault_latched ?impl = 0
      then ec_out_image ?impl ?i = Some ?region \<and> peek_io (te_type e) io ?region (rx_bytes desc) v = (0, overwrite (stored_bytes e buf) v)
      else ?region = replicate (unat (rx_bytes desc)) 0" by blast+
  show ?thesis
    unfolding Let_def
    by (intro exI [of _ "set_impl drv (ethercat_cycle_end ?impl)"] exI [of _ desc] conjI, unfold set_impl_simps)
      (rule sync desc(1) out)+
qed

lemma demo_written:
  "\<not> Option.is_none (backend_array (snd (tag_write (demo_rt 1) 1 (Some [9]) 1)) ! 0)"
  "regions_apart (bound_devices (drv_impl (the (backend_array (snd (tag_write (demo_rt 1) 1 (Some [9]) 1)) ! 0))))"
  "soem_outputs (devices (drv_impl (the (backend_array (snd (tag_write (demo_rt 1) 1 (Some [9]) 1)) ! 0))) ! 0) = Some 1"
  "fault_latched (drv_impl (the (backend_array (snd (tag_write (demo_rt 1) 1 (Some [9]) 1)) ! 0))) = 0"
  "stored_bytes demo_io_entry [9] = [1]"
  "ed_desc (devices (drv_impl (the (backend_array (snd (tag_write (demo_rt 1) 1 (Some [9]) 1)) ! 0))) ! 0) = Some demo_desc"
  by code_simp+

lemma output_reaches_bus_witness:
  "\<exists>drv2. backend_array (runtime_backends_sync_outputs (snd (tag_write (demo_rt 1) 1 (Some [9]) 1))) ! 0 = Some drv2
     \<and> peek_io TAG_T_BOOL \<lparr>io_device_index = 0, io_backend_index = 0, io_dir = TAGDIR_OUT, io_byte_offset = 0, io_bit = 3\<rparr>
         (mem_get 1 1 (the (iomap (rt_outputs (drv_impl drv2))))) 1 [0, 0, 0, 0] = (0, [1, 0, 0, 0])"
proof -
  let ?rt1 = "snd (tag_write (demo_rt 1) 1 (Some [9]) 1)"
  have wf: "runtime_wf (demo_rt 1)" using demo_rt_ok [of 1] by (simp add: ec_runtime_ok_def)
  have sys: "sys_ok (demo_soem 3) demo_platform [image_sizes (demo_driver 3)] (demo_rt 1)"
    using wf demo_run(1) by (simp add: sys_ok_def driver_inv_def) (simp add: demo_rt_def)
  have w: "tag_write (demo_rt 1) 1 (Some [9]) 1 = (0, ?rt1)" using demo_rt_eval(1) by (simp add: prod_eq_iff)
  obtain drv where d: "backend_array ?rt1 ! 0 = Some drv" using demo_written(1) by (auto simp: Option.is_none_def)
  have "fault_latched (drv_impl drv) = 0" "soem_outputs (devices (drv_impl drv) ! 0) = Some 1"
    "regions_apart (bound_devices (drv_impl drv))" "ed_desc (devices (drv_impl drv) ! 0) = Some demo_desc"
    using demo_written(2-4,6) d by simp_all
  from output_reaches_bus [OF sys demo_soem_ok w _ demo_rt_eval(5), of _ drv 1 "[0, 0, 0, 0]"] d this
  show ?thesis using demo_written(5) by (auto simp: demo_io_entry_def overwrite_def demo_desc_def Let_def)
qed

end
