(* ===== verification/Ec_Concurrent.thy ===== *)
theory Ec_Concurrent
  imports Ec_Props
begin

text \<open>
  The EtherCAT driver with its two threads interleaved inside their cycles. The PLC's thread
  runs \<^verbatim>\<open>ethercat_cycle_begin\<close>, stores and loads through the pointers of the data functions, and
  \<^verbatim>\<open>ethercat_cycle_end\<close>; the real-time thread runs the loop of \<^verbatim>\<open>ethercat_rt_thread\<close>. Every
  access of a buffer index and of the fault flag is a step, and every \<^verbatim>\<open>memcpy\<close> and \<^verbatim>\<open>memset\<close>
  on the buffers is a step per byte, in any order. What only one thread uses, the network
  exchange, the counters and the clock, is one step.
\<close>

section \<open>Bytes of the buffers and of the process image\<close>

abbreviation edev :: "'x EthercatDriver \<Rightarrow> nat \<Rightarrow> EthercatDevice" where
  "edev impl i \<equiv> devices impl ! i"

definition outb :: "'x EthercatDriver \<Rightarrow> nat \<Rightarrow> nat \<Rightarrow> u8 list" where
  "outb impl i k = the (out_buffers (edev impl i) ! k)"

definition inb :: "'x EthercatDriver \<Rightarrow> nat \<Rightarrow> nat \<Rightarrow> u8 list" where
  "inb impl i k = the (in_buffers (edev impl i) ! k)"

definition put_out :: "nat \<Rightarrow> nat \<Rightarrow> nat \<Rightarrow> u8 \<Rightarrow> 'x EthercatDriver \<Rightarrow> 'x EthercatDriver" where
  "put_out i k j v impl = impl\<lparr>devices := (devices impl)[i := (edev impl i)\<lparr>out_buffers :=
     (out_buffers (edev impl i))[k := map_option (\<lambda>b. b[j := v]) (out_buffers (edev impl i) ! k)]\<rparr>]\<rparr>"

definition put_in :: "nat \<Rightarrow> nat \<Rightarrow> nat \<Rightarrow> u8 \<Rightarrow> 'x EthercatDriver \<Rightarrow> 'x EthercatDriver" where
  "put_in i k j v impl = impl\<lparr>devices := (devices impl)[i := (edev impl i)\<lparr>in_buffers :=
     (in_buffers (edev impl i))[k := map_option (\<lambda>b. b[j := v]) (in_buffers (edev impl i) ! k)]\<rparr>]\<rparr>"

definition put_map :: "nat \<Rightarrow> u8 \<Rightarrow> 'x EthercatDriver \<Rightarrow> 'x EthercatDriver" where
  "put_map o' v impl = impl\<lparr>iomap := map_option (\<lambda>m. m[o' := v]) (iomap impl)\<rparr>"

definition out_off :: "'x EthercatDriver \<Rightarrow> nat \<Rightarrow> nat" where
  "out_off impl i = the (soem_outputs (edev impl i))"

definition in_off :: "'x EthercatDriver \<Rightarrow> nat \<Rightarrow> nat" where
  "in_off impl i = the (soem_inputs (edev impl i))"

text \<open>The bytes that the copies run over: the device and the position in its buffer.\<close>

definition to_map :: "'x EthercatDriver \<Rightarrow> (nat \<times> nat) set" where
  "to_map impl = {(i, j). i < device_count impl \<and> soem_outputs (edev impl i) \<noteq> None \<and> j < unat (out_size (edev impl i))}"

definition from_map :: "'x EthercatDriver \<Rightarrow> nat \<Rightarrow> (nat \<times> nat) set" where
  "from_map impl k = {(i, j). i < device_count impl \<and> soem_inputs (edev impl i) \<noteq> None
     \<and> in_buffers (edev impl i) ! k \<noteq> None \<and> j < unat (in_size (edev impl i))}"

definition between :: "'x EthercatDriver \<Rightarrow> nat \<Rightarrow> nat \<Rightarrow> (nat \<times> nat) set" where
  "between impl src dst = {(i, j). i < device_count impl \<and> out_buffers (edev impl i) ! src \<noteq> None
     \<and> out_buffers (edev impl i) ! dst \<noteq> None \<and> j < unat (out_size (edev impl i))}"

text \<open>What \<^verbatim>\<open>ethercat_zero_output_buffers\<close> clears: buffer 0 and 1, and, as 2, the image.\<close>

definition to_zero :: "'x EthercatDriver \<Rightarrow> (nat \<times> nat \<times> nat) set" where
  "to_zero impl = {(i, b, j). i < device_count impl \<and> j < unat (out_size (edev impl i))
     \<and> (b < 2 \<and> out_buffers (edev impl i) ! b \<noteq> None \<or> b = 2 \<and> soem_outputs (edev impl i) \<noteq> None)}"

definition zero_byte :: "nat \<Rightarrow> nat \<Rightarrow> nat \<Rightarrow> 'x EthercatDriver \<Rightarrow> 'x EthercatDriver" where
  "zero_byte i b j impl = (if b < 2 then put_out i b j 0 impl else put_map (out_off impl i + j) 0 impl)"

section \<open>The threads\<close>

text \<open>
  The PLC's thread: between two cycles; in \<^verbatim>\<open>cycle_begin\<close> with the input index taken, with
  \<^verbatim>\<open>rt_out_idx\<close> loaded, copying; running its tasks; in \<^verbatim>\<open>cycle_end\<close> before and after the
  exchange.
\<close>

datatype plc_pc =
    PL_Idle
  | PL_Rt
  | PL_Plc nat
  | PL_Copy nat nat "(nat \<times> nat) set"
  | PL_Run
  | PL_Xchg int
  | PL_Store int

text \<open>
  The real-time thread: at the top of the loop; with \<^verbatim>\<open>out_idx\<close> loaded; copying to the image,
  with the fault flag; before the exchange with the network; before the inputs; copying
  them; before the supervision; clearing the outputs; at the end of the cycle. The second
  argument of the first three is a ghost, the number of publications when the index was loaded.
\<close>

datatype rt_pc =
    RT_Top
  | RT_Fault nat nat
  | RT_Out nat nat bool "(nat \<times> nat) set"
  | RT_Send nat nat bool
  | RT_Load int
  | RT_In int nat "(nat \<times> nat) set"
  | RT_Sup int
  | RT_Zero "(nat \<times> nat \<times> nat) set"
  | RT_Time

text \<open>
  Ghosts: \<open>cc_pubs\<close> are the output images the PLC has published and \<open>cc_rcvs\<close> the input
  regions of the frames the real-time thread has published, oldest first, each per device;
  \<open>cc_wrote\<close> and \<open>cc_stored\<close> are the numbers of these when the PLC last wrote an output byte
  and the real-time thread an input byte; \<open>cc_latched\<close> is the number of input images when the
  PLC took its index.
\<close>

record 'x EcConc =
  cc_drv :: "'x EthercatDriver"
  cc_loc :: rt_locals
  cc_plc :: plc_pc
  cc_rt :: rt_pc
  cc_pubs :: "(nat \<Rightarrow> u8 list) list"
  cc_rcvs :: "(nat \<Rightarrow> u8 list) list"
  cc_wrote :: nat
  cc_stored :: nat
  cc_latched :: nat

inductive plc_step :: "'x EcConc \<Rightarrow> 'x EcConc \<Rightarrow> bool" where
  p_latch: "cc_plc c = PL_Idle \<Longrightarrow> k = ethercat_load_buffer_index (active_in_buffer_idx (cc_drv c)) 0 \<Longrightarrow>
    plc_step c (c\<lparr>cc_plc := PL_Rt, cc_latched := length (cc_rcvs c),
      cc_drv := (cc_drv c)\<lparr>active_in_buffer_idx := k, plc_in_buffer_idx := k\<rparr>\<rparr>)"
| p_load_rt: "cc_plc c = PL_Rt \<Longrightarrow> k = ethercat_load_buffer_index (rt_out_buffer_idx (cc_drv c)) 0 \<Longrightarrow>
    plc_step c (c\<lparr>cc_plc := PL_Plc (nat k), cc_drv := (cc_drv c)\<lparr>rt_out_buffer_idx := k\<rparr>\<rparr>)"
| p_load_plc: "cc_plc c = PL_Plc src \<Longrightarrow> k = ethercat_load_buffer_index (active_out_buffer_idx (cc_drv c)) 1 \<Longrightarrow>
    plc_step c (c\<lparr>cc_plc := (if src = nat k then PL_Run else PL_Copy src (nat k) {}),
      cc_drv := (cc_drv c)\<lparr>active_out_buffer_idx := k\<rparr>\<rparr>)"
| p_copy: "cc_plc c = PL_Copy src dst D \<Longrightarrow> (i, j) \<in> between (cc_drv c) src dst - D \<Longrightarrow>
    plc_step c (c\<lparr>cc_plc := PL_Copy src dst (insert (i, j) D), cc_wrote := length (cc_pubs c),
      cc_drv := put_out i dst j (outb (cc_drv c) i src ! j) (cc_drv c)\<rparr>)"
| p_copied: "cc_plc c = PL_Copy src dst D \<Longrightarrow> D = between (cc_drv c) src dst \<Longrightarrow>
    plc_step c (c\<lparr>cc_plc := PL_Run\<rparr>)"
| p_store: "cc_plc c = PL_Run \<Longrightarrow> ethercat_get_output_data (cc_drv c) dev = (Some (OutBuf i k), sz, impl) \<Longrightarrow> j < unat sz \<Longrightarrow>
    plc_step c (c\<lparr>cc_wrote := length (cc_pubs c), cc_drv := put_out i k j v impl\<rparr>)"
| p_load_out: "cc_plc c = PL_Run \<Longrightarrow> k = ethercat_load_buffer_index (active_out_buffer_idx (cc_drv c)) 1 \<Longrightarrow>
    plc_step c (c\<lparr>cc_plc := PL_Xchg k, cc_drv := (cc_drv c)\<lparr>active_out_buffer_idx := k\<rparr>\<rparr>)"
| p_publish: "cc_plc c = PL_Xchg k \<Longrightarrow>
    plc_step c (c\<lparr>cc_plc := PL_Store (let prev = rt_out_buffer_idx (cc_drv c) in
        if prev < 0 \<or> prev > 1 then (if k = 0 then 1 else 0) else prev),
      cc_pubs := cc_pubs c @ [\<lambda>i. outb (cc_drv c) i (nat k)],
      cc_drv := (cc_drv c)\<lparr>rt_out_buffer_idx := k\<rparr>\<rparr>)"
| p_end: "cc_plc c = PL_Store prev \<Longrightarrow>
    plc_step c (c\<lparr>cc_plc := PL_Idle, cc_drv := (cc_drv c)\<lparr>active_out_buffer_idx := prev\<rparr>\<rparr>)"

text \<open>The counter of bad cycles after a cycle, as in \<open>rt_supervise\<close>.\<close>

definition bad_count :: "rt_locals \<Rightarrow> int \<Rightarrow> 'x EthercatDriver \<Rightarrow> u32" where
  "bad_count loc wkc impl =
     (if rt_bad_cycle loc wkc impl
      then (if dowkccheck impl < - 1 then dowkccheck impl + 1 else dowkccheck impl) else 0)"

inductive rt_step :: "'x soem \<Rightarrow> 'x EcConc \<Rightarrow> 'x EcConc \<Rightarrow> bool" for S where
  r_load_out: "cc_rt c = RT_Top \<Longrightarrow> rt_should_run (cc_drv c) \<Longrightarrow>
    k = ethercat_load_buffer_index (rt_out_buffer_idx (cc_drv c)) 0 \<Longrightarrow>
    rt_step S c (c\<lparr>cc_rt := RT_Fault (nat k) (length (cc_pubs c)), cc_drv := (cc_drv c)\<lparr>rt_out_buffer_idx := k\<rparr>\<rparr>)"
| r_load_fault: "cc_rt c = RT_Fault k n \<Longrightarrow>
    rt_step S c (c\<lparr>cc_rt := RT_Out k n (fault_latched (cc_drv c) \<noteq> 0) {}\<rparr>)"
| r_byte: "cc_rt c = RT_Out k n z D \<Longrightarrow> (i, j) \<in> to_map (cc_drv c) - D \<Longrightarrow>
    v = (if z \<or> out_buffers (edev (cc_drv c) i) ! k = None then 0 else outb (cc_drv c) i k ! j) \<Longrightarrow>
    rt_step S c (c\<lparr>cc_rt := RT_Out k n z (insert (i, j) D), cc_drv := put_map (out_off (cc_drv c) i + j) v (cc_drv c)\<rparr>)"
| r_copied: "cc_rt c = RT_Out k n z D \<Longrightarrow> D = to_map (cc_drv c) \<Longrightarrow> rt_step S c (c\<lparr>cc_rt := RT_Send k n z\<rparr>)"
| r_exchange: "cc_rt c = RT_Send k n z \<Longrightarrow> ec_exchange S (cc_drv c) = (wkc, impl) \<Longrightarrow>
    rt_step S c (c\<lparr>cc_rt := RT_Load wkc, cc_drv := rt_state_check S (impl\<lparr>last_wkc := wkc\<rparr>)\<rparr>)"
| r_load_in: "cc_rt c = RT_Load wkc \<Longrightarrow> k = ethercat_load_buffer_index (active_in_buffer_idx (cc_drv c)) 0 \<Longrightarrow>
    rt_step S c (c\<lparr>cc_rt := RT_In wkc (nat (1 - k)) {}, cc_drv := (cc_drv c)\<lparr>active_in_buffer_idx := k\<rparr>\<rparr>)"
| r_in_byte: "cc_rt c = RT_In wkc k D \<Longrightarrow> (i, j) \<in> from_map (cc_drv c) k - D \<Longrightarrow>
    rt_step S c (c\<lparr>cc_rt := RT_In wkc k (insert (i, j) D), cc_stored := length (cc_rcvs c),
      cc_drv := put_in i k j (the (iomap (cc_drv c)) ! (in_off (cc_drv c) i + j)) (cc_drv c)\<rparr>)"
| r_in_publish: "cc_rt c = RT_In wkc k D \<Longrightarrow> D = from_map (cc_drv c) k \<Longrightarrow>
    rt_step S c (c\<lparr>cc_rt := RT_Sup wkc, cc_drv := (cc_drv c)\<lparr>active_in_buffer_idx := int k\<rparr>,
      cc_rcvs := cc_rcvs c @ [\<lambda>i. mem_get (in_off (cc_drv c) i) (unat (in_size (edev (cc_drv c) i))) (the (iomap (cc_drv c)))]\<rparr>)"
| r_quiet: "cc_rt c = RT_Sup wkc \<Longrightarrow>
    \<not> (rl_fail_threshold (cc_loc c) \<le> bad_count (cc_loc c) wkc (cc_drv c) \<and> fault_latched (cc_drv c) = 0) \<Longrightarrow>
    rt_step S c (c\<lparr>cc_rt := RT_Time, cc_drv := rt_supervise (cc_loc c) wkc (cc_drv c)\<rparr>)"
| r_fault: "cc_rt c = RT_Sup wkc \<Longrightarrow>
    rl_fail_threshold (cc_loc c) \<le> bad_count (cc_loc c) wkc (cc_drv c) \<Longrightarrow> fault_latched (cc_drv c) = 0 \<Longrightarrow>
    rt_step S c (c\<lparr>cc_rt := RT_Zero {},
      cc_drv := (cc_drv c)\<lparr>dowkccheck := bad_count (cc_loc c) wkc (cc_drv c), fault_latched := 1\<rparr>\<rparr>)"
| r_zero: "cc_rt c = RT_Zero D \<Longrightarrow> (i, b, j) \<in> to_zero (cc_drv c) - D \<Longrightarrow>
    rt_step S c (c\<lparr>cc_rt := RT_Zero (insert (i, b, j) D), cc_drv := zero_byte i b j (cc_drv c)\<rparr>)"
| r_zeroed: "cc_rt c = RT_Zero D \<Longrightarrow> D = to_zero (cc_drv c) \<Longrightarrow>
    rt_step S c (c\<lparr>cc_rt := RT_Time, cc_drv := (cc_drv c)\<lparr>in_op :=
      ec_state (cc_drv c) = EC_STATE_OPERATIONAL \<and> dowkccheck (cc_drv c) < rl_warn_threshold (cc_loc c)\<rparr>\<rparr>)"
| r_time: "cc_rt c = RT_Time \<Longrightarrow> rt_timing now (cc_loc c) (cc_drv c) = (loc, impl) \<Longrightarrow>
    rt_step S c (c\<lparr>cc_rt := RT_Top, cc_loc := loc, cc_drv := impl\<rparr>)"

text \<open>The threads start on a driver whose real-time thread has just entered its loop.\<close>

definition conc_begin :: "rt_locals \<Rightarrow> 'x EthercatDriver \<Rightarrow> 'x EcConc" where
  "conc_begin loc impl = \<lparr>cc_drv = impl, cc_loc = loc, cc_plc = PL_Idle, cc_rt = RT_Top,
     cc_pubs = [\<lambda>i. outb impl i (nat (rt_out_buffer_idx impl))],
     cc_rcvs = [\<lambda>i. inb impl i (nat (active_in_buffer_idx impl))],
     cc_wrote = 0, cc_stored = 0, cc_latched = 0\<rparr>"

inductive ec_conc :: "'x soem \<Rightarrow> rt_locals \<Rightarrow> 'x EthercatDriver \<Rightarrow> 'x EcConc \<Rightarrow> bool" for S loc impl where
  ec_conc_begin: "ec_conc S loc impl (conc_begin loc impl)"
| ec_conc_plc: "ec_conc S loc impl c \<Longrightarrow> plc_step c c' \<Longrightarrow> ec_conc S loc impl c'"
| ec_conc_rt: "ec_conc S loc impl c \<Longrightarrow> rt_step S c c' \<Longrightarrow> ec_conc S loc impl c'"

section \<open>Single bytes\<close>

lemma put_keeps [simp]:
  "device_count (put_out i k j v impl) = device_count impl" "device_count (put_in i k j v impl) = device_count impl"
  "device_count (put_map a v impl) = device_count impl"
  "length (devices (put_out i k j v impl)) = length (devices impl)"
  "length (devices (put_in i k j v impl)) = length (devices impl)" "devices (put_map a v impl) = devices impl"
  "iomap (put_out i k j v impl) = iomap impl" "iomap (put_in i k j v impl) = iomap impl"
  "fault_latched (put_out i k j v impl) = fault_latched impl" "fault_latched (put_in i k j v impl) = fault_latched impl"
  "fault_latched (put_map a v impl) = fault_latched impl"
  "active_in_buffer_idx (put_out i k j v impl) = active_in_buffer_idx impl"
  "active_in_buffer_idx (put_in i k j v impl) = active_in_buffer_idx impl"
  "active_in_buffer_idx (put_map a v impl) = active_in_buffer_idx impl"
  "active_out_buffer_idx (put_out i k j v impl) = active_out_buffer_idx impl"
  "active_out_buffer_idx (put_in i k j v impl) = active_out_buffer_idx impl"
  "active_out_buffer_idx (put_map a v impl) = active_out_buffer_idx impl"
  "rt_out_buffer_idx (put_out i k j v impl) = rt_out_buffer_idx impl"
  "rt_out_buffer_idx (put_in i k j v impl) = rt_out_buffer_idx impl"
  "rt_out_buffer_idx (put_map a v impl) = rt_out_buffer_idx impl"
  "plc_in_buffer_idx (put_out i k j v impl) = plc_in_buffer_idx impl"
  "plc_in_buffer_idx (put_in i k j v impl) = plc_in_buffer_idx impl"
  "plc_in_buffer_idx (put_map a v impl) = plc_in_buffer_idx impl"
  by (simp_all add: put_out_def put_in_def put_map_def)

lemma put_devices [simp]:
  "soem_outputs (edev (put_out i k j v impl) i') = soem_outputs (edev impl i')"
  "soem_inputs (edev (put_out i k j v impl) i') = soem_inputs (edev impl i')"
  "out_size (edev (put_out i k j v impl) i') = out_size (edev impl i')"
  "in_size (edev (put_out i k j v impl) i') = in_size (edev impl i')"
  "in_buffers (edev (put_out i k j v impl) i') = in_buffers (edev impl i')"
  "soem_outputs (edev (put_in i k j v impl) i') = soem_outputs (edev impl i')"
  "soem_inputs (edev (put_in i k j v impl) i') = soem_inputs (edev impl i')"
  "out_size (edev (put_in i k j v impl) i') = out_size (edev impl i')"
  "in_size (edev (put_in i k j v impl) i') = in_size (edev impl i')"
  "out_buffers (edev (put_in i k j v impl) i') = out_buffers (edev impl i')"
  by (simp_all add: put_out_def put_in_def nth_update_cases)

text \<open>The shape of the memory: every buffer is there with its size, every region lies in the image.\<close>

definition fits :: "'x EthercatDriver \<Rightarrow> bool" where
  "fits impl \<longleftrightarrow> device_count impl \<le> length (devices impl) \<and> iomap impl \<noteq> None
     \<and> (\<forall>i < device_count impl. length (in_buffers (edev impl i)) = 2 \<and> length (out_buffers (edev impl i)) = 2
          \<and> (\<forall>k \<le> 1. in_buffers (edev impl i) ! k \<noteq> None \<and> length (inb impl i k) = unat (in_size (edev impl i))
               \<and> out_buffers (edev impl i) ! k \<noteq> None \<and> length (outb impl i k) = unat (out_size (edev impl i)))
          \<and> (soem_inputs (edev impl i) \<noteq> None \<longrightarrow> in_off impl i + unat (in_size (edev impl i)) \<le> length (the (iomap impl)))
          \<and> (soem_outputs (edev impl i) \<noteq> None \<longrightarrow> out_off impl i + unat (out_size (edev impl i)) \<le> length (the (iomap impl))))
     \<and> inj_on (\<lambda>(i, j). out_off impl i + j) (to_map impl)"

lemma fitsD:
  assumes "fits impl"
  shows "device_count impl \<le> length (devices impl)" "iomap impl \<noteq> None"
    "i < device_count impl \<Longrightarrow> length (in_buffers (edev impl i)) = 2"
    "i < device_count impl \<Longrightarrow> length (out_buffers (edev impl i)) = 2"
    "i < device_count impl \<Longrightarrow> k \<le> 1 \<Longrightarrow> in_buffers (edev impl i) ! k \<noteq> None"
    "i < device_count impl \<Longrightarrow> k \<le> 1 \<Longrightarrow> length (inb impl i k) = unat (in_size (edev impl i))"
    "i < device_count impl \<Longrightarrow> k \<le> 1 \<Longrightarrow> out_buffers (edev impl i) ! k \<noteq> None"
    "i < device_count impl \<Longrightarrow> k \<le> 1 \<Longrightarrow> length (outb impl i k) = unat (out_size (edev impl i))"
    "i < device_count impl \<Longrightarrow> soem_inputs (edev impl i) \<noteq> None \<Longrightarrow> in_off impl i + unat (in_size (edev impl i)) \<le> length (the (iomap impl))"
    "i < device_count impl \<Longrightarrow> soem_outputs (edev impl i) \<noteq> None \<Longrightarrow> out_off impl i + unat (out_size (edev impl i)) \<le> length (the (iomap impl))"
    "(i, j) \<in> to_map impl \<Longrightarrow> (i', j') \<in> to_map impl \<Longrightarrow> out_off impl i + j = out_off impl i' + j' \<Longrightarrow> (i, j) = (i', j')"
proof -
  show "(i, j) \<in> to_map impl \<Longrightarrow> (i', j') \<in> to_map impl \<Longrightarrow> out_off impl i + j = out_off impl i' + j' \<Longrightarrow> (i, j) = (i', j')"
    using assms unfolding fits_def inj_on_def by fastforce
qed (use assms in \<open>simp_all add: fits_def\<close>)

lemma offs_put [simp]:
  "out_off (put_out i k j v impl) = out_off impl" "out_off (put_in i k j v impl) = out_off impl"
  "out_off (put_map a v impl) = out_off impl" "in_off (put_out i k j v impl) = in_off impl"
  "in_off (put_in i k j v impl) = in_off impl" "in_off (put_map a v impl) = in_off impl"
  by (simp_all add: out_off_def in_off_def fun_eq_iff)

lemma bytes_put [simp]:
  "inb (put_out i k j v impl) = inb impl" "inb (put_map a v impl) = inb impl"
  "outb (put_in i k j v impl) = outb impl" "outb (put_map a v impl) = outb impl"
  by (simp_all add: outb_def inb_def fun_eq_iff)

lemma out_none_put [simp]:
  "(out_buffers (edev (put_out i k j v impl) i') ! k' = None) = (out_buffers (edev impl i') ! k' = None)"
  "length (out_buffers (edev (put_out i k j v impl) i')) = length (out_buffers (edev impl i'))"
  by (simp_all add: put_out_def nth_update_cases)

lemma in_none_put [simp]:
  "(in_buffers (edev (put_in i k j v impl) i') ! k' = None) = (in_buffers (edev impl i') ! k' = None)"
  "length (in_buffers (edev (put_in i k j v impl) i')) = length (in_buffers (edev impl i'))"
  by (simp_all add: put_in_def nth_update_cases)

lemma sets_put [simp]:
  "to_map (put_out i k j v impl) = to_map impl" "to_map (put_in i k j v impl) = to_map impl"
  "to_map (put_map a v impl) = to_map impl" "from_map (put_out i k j v impl) = from_map impl"
  "from_map (put_map a v impl) = from_map impl" "from_map (put_in i k j v impl) = from_map impl"
  by (simp_all add: to_map_def from_map_def fun_eq_iff set_eq_iff)

lemma outb_put:
  "fits impl \<Longrightarrow> i < device_count impl \<Longrightarrow> k \<le> 1 \<Longrightarrow>
     outb (put_out i k j v impl) i' k' = (if i' = i \<and> k' = k then (outb impl i k)[j := v] else outb impl i' k')"
proof -
  assume a: "fits impl" "i < device_count impl" "k \<le> 1"
  then have "i < length (devices impl)" using fitsD(1) [OF a(1)] by simp
  moreover have "k < length (out_buffers (edev impl i))" using fitsD(4) [OF a(1,2)] a(3) by simp
  moreover obtain b where "out_buffers (edev impl i) ! k = Some b" using fitsD(7) [OF a] by blast
  ultimately show ?thesis by (simp add: put_out_def outb_def nth_update_cases)
qed

lemma inb_put:
  "fits impl \<Longrightarrow> i < device_count impl \<Longrightarrow> k \<le> 1 \<Longrightarrow>
     inb (put_in i k j v impl) i' k' = (if i' = i \<and> k' = k then (inb impl i k)[j := v] else inb impl i' k')"
proof -
  assume a: "fits impl" "i < device_count impl" "k \<le> 1"
  then have "i < length (devices impl)" using fitsD(1) [OF a(1)] by simp
  moreover have "k < length (in_buffers (edev impl i))" using fitsD(3) [OF a(1,2)] a(3) by simp
  moreover obtain b where "in_buffers (edev impl i) ! k = Some b" using fitsD(5) [OF a] by blast
  ultimately show ?thesis by (simp add: put_in_def inb_def nth_update_cases)
qed

lemma iomap_put_map [simp]:
  "(iomap (put_map a v impl) = None) = (iomap impl = None)"
  "iomap impl \<noteq> None \<Longrightarrow> the (iomap (put_map a v impl)) = (the (iomap impl))[a := v]"
  by (auto simp: put_map_def)

lemma fits_put:
  assumes "fits impl"
  shows "fits (put_map a v impl)"
    "i < device_count impl \<Longrightarrow> k \<le> 1 \<Longrightarrow> fits (put_out i k j v impl)"
    "i < device_count impl \<Longrightarrow> k \<le> 1 \<Longrightarrow> fits (put_in i k j v impl)"
proof -
  have "iomap impl \<noteq> None" by (rule fitsD(2) [OF assms])
  then show "fits (put_map a v impl)" using assms by (simp add: fits_def)
  show "fits (put_out i k j v impl)" if "i < device_count impl" "k \<le> 1"
    using assms outb_put [OF assms that, of j v] by (simp add: fits_def)
  show "fits (put_in i k j v impl)" if "i < device_count impl" "k \<le> 1"
    using assms inb_put [OF assms that, of j v] by (simp add: fits_def)
qed

text \<open>A change of the bookkeeping changes no byte.\<close>

definition same_bytes :: "'x EthercatDriver \<Rightarrow> 'x EthercatDriver \<Rightarrow> bool" where
  "same_bytes impl impl' \<longleftrightarrow> devices impl' = devices impl \<and> device_count impl' = device_count impl"

lemma same_bytesD:
  assumes "same_bytes impl impl'"
  shows "outb impl' = outb impl" "inb impl' = inb impl" "out_off impl' = out_off impl" "in_off impl' = in_off impl"
    "to_map impl' = to_map impl" "from_map impl' = from_map impl" "between impl' = between impl" "to_zero impl' = to_zero impl"
    "devices impl' = devices impl" "device_count impl' = device_count impl"
  using assms
  by (simp_all add: same_bytes_def outb_def inb_def out_off_def in_off_def to_map_def from_map_def between_def to_zero_def fun_eq_iff)

lemma fits_same_bytes:
  "same_bytes impl impl' \<Longrightarrow> same_size (iomap impl) (iomap impl') \<Longrightarrow> fits impl \<Longrightarrow> fits impl'"
  using same_bytesD [of impl impl']
  by (cases "iomap impl"; cases "iomap impl'") (auto simp: fits_def same_size_def)

section \<open>The invariant\<close>

text \<open>
  The indices: outside the exchange of \<^verbatim>\<open>cycle_end\<close> the PLC's buffer and the real-time
  thread's are different ones.
\<close>

definition idx_inv :: "plc_pc \<Rightarrow> 'x EthercatDriver \<Rightarrow> bool" where
  "idx_inv pc impl \<longleftrightarrow> active_in_buffer_idx impl \<in> {0, 1} \<and> rt_out_buffer_idx impl \<in> {0, 1}
     \<and> (case pc of
          PL_Store prev \<Rightarrow> active_out_buffer_idx impl = rt_out_buffer_idx impl \<and> prev = 1 - rt_out_buffer_idx impl
        | _ \<Rightarrow> active_out_buffer_idx impl = 1 - rt_out_buffer_idx impl)
     \<and> (case pc of
          PL_Plc src \<Rightarrow> int src = rt_out_buffer_idx impl
        | PL_Copy src dst D \<Rightarrow> int src = rt_out_buffer_idx impl \<and> int dst = active_out_buffer_idx impl
        | PL_Xchg k \<Rightarrow> k = active_out_buffer_idx impl
        | _ \<Rightarrow> True)"

text \<open>
  The buffer \<open>k\<close> the real-time thread took after \<open>n\<close> publications: until the next publication it
  is the one the PLC does not write to, and until the PLC writes again after that
  it keeps the \<open>n\<close>-th image.
\<close>

definition held :: "'x EthercatDriver \<Rightarrow> (nat \<Rightarrow> u8 list) list \<Rightarrow> nat \<Rightarrow> nat \<Rightarrow> nat \<Rightarrow> bool" where
  "held impl pubs wrote k n \<longleftrightarrow> 0 < n \<and> n \<le> length pubs \<and> k \<le> 1 \<and> (length pubs = n \<longrightarrow> int k = rt_out_buffer_idx impl)
     \<and> (wrote \<le> n \<and> fault_latched impl = 0 \<longrightarrow> (\<forall>i < device_count impl. outb impl i k = (pubs ! (n - 1)) i))"

text \<open>The bytes of the image that have been written for the frame.\<close>

definition framed :: "'x EthercatDriver \<Rightarrow> (nat \<Rightarrow> u8 list) list \<Rightarrow> nat \<Rightarrow> nat \<Rightarrow> bool \<Rightarrow> (nat \<times> nat) set \<Rightarrow> bool" where
  "framed impl pubs wrote n z D \<longleftrightarrow> D \<subseteq> to_map impl \<and> 0 < n \<and> n \<le> length pubs
     \<and> (\<not> z \<longrightarrow> fault_latched impl = 0)
     \<and> (\<forall>(i, j) \<in> D. (z \<longrightarrow> the (iomap impl) ! (out_off impl i + j) = 0)
          \<and> (\<not> z \<and> wrote \<le> n \<longrightarrow> the (iomap impl) ! (out_off impl i + j) = (pubs ! (n - 1)) i ! j))"

definition rt_inv :: "'x EthercatDriver \<Rightarrow> (nat \<Rightarrow> u8 list) list \<Rightarrow> nat \<Rightarrow> rt_pc \<Rightarrow> bool" where
  "rt_inv impl pubs wrote pc = (case pc of
      RT_Fault k n \<Rightarrow> held impl pubs wrote k n
    | RT_Out k n z D \<Rightarrow> held impl pubs wrote k n \<and> framed impl pubs wrote n z D
    | RT_Send k n z \<Rightarrow> framed impl pubs wrote n z (to_map impl)
    | RT_In wkc k D \<Rightarrow> int k = 1 - active_in_buffer_idx impl \<and> D \<subseteq> from_map impl k
        \<and> (\<forall>(i, j) \<in> D. inb impl i k ! j = the (iomap impl) ! (in_off impl i + j))
    | RT_Zero D \<Rightarrow> fault_latched impl \<noteq> 0
    | _ \<Rightarrow> True)"

definition has_input :: "'x EthercatDriver \<Rightarrow> nat \<Rightarrow> bool" where
  "has_input impl i \<longleftrightarrow> i < device_count impl \<and> soem_inputs (edev impl i) \<noteq> None"

text \<open>The input buffer the PLC took after \<open>n\<close> publications keeps the \<open>n\<close>-th frame in the same way.\<close>

definition latch_inv :: "'x EthercatDriver \<Rightarrow> (nat \<Rightarrow> u8 list) list \<Rightarrow> nat \<Rightarrow> nat \<Rightarrow> bool" where
  "latch_inv impl rcvs stored n \<longleftrightarrow> n = 0 \<or> n \<le> length rcvs \<and> plc_in_buffer_idx impl \<in> {0, 1}
     \<and> (length rcvs = n \<longrightarrow> plc_in_buffer_idx impl = active_in_buffer_idx impl)
     \<and> (stored \<le> n \<longrightarrow> (\<forall>i. has_input impl i \<longrightarrow> inb impl i (nat (plc_in_buffer_idx impl)) = (rcvs ! (n - 1)) i))"

definition pubs_inv :: "'x EthercatDriver \<Rightarrow> (nat \<Rightarrow> u8 list) list \<Rightarrow> nat \<Rightarrow> bool" where
  "pubs_inv impl pubs wrote \<longleftrightarrow> pubs \<noteq> [] \<and> wrote \<le> length pubs
     \<and> (\<forall>p \<in> set pubs. \<forall>i < device_count impl. length (p i) = unat (out_size (edev impl i)))
     \<and> (fault_latched impl = 0 \<longrightarrow>
     (\<forall>i < device_count impl. outb impl i (nat (rt_out_buffer_idx impl)) = last pubs i))"

definition rcvs_inv :: "'x EthercatDriver \<Rightarrow> (nat \<Rightarrow> u8 list) list \<Rightarrow> nat \<Rightarrow> bool" where
  "rcvs_inv impl rcvs stored \<longleftrightarrow> rcvs \<noteq> [] \<and> stored \<le> length rcvs
     \<and> (\<forall>i. has_input impl i \<longrightarrow> inb impl i (nat (active_in_buffer_idx impl)) = last rcvs i)"

definition conc_ok :: "'x EcConc \<Rightarrow> bool" where
  "conc_ok c \<longleftrightarrow> fits (cc_drv c) \<and> idx_inv (cc_plc c) (cc_drv c)
     \<and> pubs_inv (cc_drv c) (cc_pubs c) (cc_wrote c) \<and> rt_inv (cc_drv c) (cc_pubs c) (cc_wrote c) (cc_rt c)
     \<and> rcvs_inv (cc_drv c) (cc_rcvs c) (cc_stored c) \<and> latch_inv (cc_drv c) (cc_rcvs c) (cc_stored c) (cc_latched c)"

lemma load_index_01 [simp]: "i \<in> {0, 1} \<Longrightarrow> ethercat_load_buffer_index i k = i"
  by (auto simp: ethercat_load_buffer_index_def)

lemma conc_okD:
  assumes "conc_ok c"
  shows "fits (cc_drv c)" "idx_inv (cc_plc c) (cc_drv c)" "pubs_inv (cc_drv c) (cc_pubs c) (cc_wrote c)"
    "rt_inv (cc_drv c) (cc_pubs c) (cc_wrote c) (cc_rt c)" "rcvs_inv (cc_drv c) (cc_rcvs c) (cc_stored c)"
    "latch_inv (cc_drv c) (cc_rcvs c) (cc_stored c) (cc_latched c)"
    "active_in_buffer_idx (cc_drv c) \<in> {0, 1}" "rt_out_buffer_idx (cc_drv c) \<in> {0, 1}"
    "active_out_buffer_idx (cc_drv c) \<in> {0, 1}"
  using assms by (auto simp: conc_ok_def idx_inv_def split: plc_pc.splits)

text \<open>An invariant depends on the bytes and on the fields it names.\<close>

lemma invs_cong:
  assumes "same_bytes impl impl'" "(fault_latched impl' = 0) = (fault_latched impl = 0)" "rt_out_buffer_idx impl' = rt_out_buffer_idx impl"
    and "active_in_buffer_idx impl' = active_in_buffer_idx impl" "plc_in_buffer_idx impl' = plc_in_buffer_idx impl"
  shows "held impl' = held impl" "pubs_inv impl' = pubs_inv impl" "rcvs_inv impl' = rcvs_inv impl" "latch_inv impl' = latch_inv impl"
    "iomap impl' = iomap impl \<Longrightarrow> rt_inv impl' = rt_inv impl"
proof -
  note sb = same_bytesD [OF assms(1)]
  show held: "held impl' = held impl" by (simp add: held_def fun_eq_iff sb assms)
  show "pubs_inv impl' = pubs_inv impl" by (simp add: pubs_inv_def fun_eq_iff sb assms)
  have hi: "has_input impl' = has_input impl" by (simp add: has_input_def fun_eq_iff sb)
  then show "rcvs_inv impl' = rcvs_inv impl" by (simp add: rcvs_inv_def fun_eq_iff sb assms)
  show "latch_inv impl' = latch_inv impl" by (simp add: latch_inv_def fun_eq_iff sb assms hi)
  show "rt_inv impl' = rt_inv impl" if "iomap impl' = iomap impl"
    using that held by (simp add: rt_inv_def framed_def fun_eq_iff sb assms split: rt_pc.split)
qed

text \<open>A step that leaves the bytes and the buffer indices of the real-time side alone.\<close>

lemma conc_move:
  assumes "conc_ok c" "same_bytes (cc_drv c) (cc_drv c')" "same_size (iomap (cc_drv c)) (iomap (cc_drv c'))"
    and "(fault_latched (cc_drv c') = 0) = (fault_latched (cc_drv c) = 0)"
    and "rt_out_buffer_idx (cc_drv c') = rt_out_buffer_idx (cc_drv c)"
    and "active_in_buffer_idx (cc_drv c') = active_in_buffer_idx (cc_drv c)"
    and "plc_in_buffer_idx (cc_drv c') = plc_in_buffer_idx (cc_drv c)"
    and "idx_inv (cc_plc c') (cc_drv c')" "rt_inv (cc_drv c') (cc_pubs c) (cc_wrote c) (cc_rt c')"
    and "cc_pubs c' = cc_pubs c" "cc_wrote c' = cc_wrote c" "cc_rcvs c' = cc_rcvs c" "cc_stored c' = cc_stored c"
    and "cc_latched c' = cc_latched c"
  shows "conc_ok c'"
  using fits_same_bytes [OF assms(2,3) conc_okD(1) [OF assms(1)]]
    conc_okD(3-6) [OF assms(1)] assms(8-14) invs_cong [OF assms(2,4-7)]
  by (simp add: conc_ok_def)

lemma same_size_refl [simp]: "same_size m m"
  by (simp add: same_size_def)

lemma has_input_put [simp]:
  "has_input (put_out i k j v impl) = has_input impl" "has_input (put_in i k j v impl) = has_input impl"
  "has_input (put_map a v impl) = has_input impl"
  by (simp_all add: has_input_def fun_eq_iff)

lemma idx_inv_put [simp]:
  "idx_inv pc (put_out i k j v impl) = idx_inv pc impl" "idx_inv pc (put_in i k j v impl) = idx_inv pc impl"
  "idx_inv pc (put_map a v impl) = idx_inv pc impl"
  by (simp_all add: idx_inv_def cong: plc_pc.case_cong)

section \<open>The PLC's steps keep the invariant\<close>

text \<open>A byte written to the PLC's output buffer.\<close>

lemma plc_write:
  assumes "conc_ok c" "i < device_count (cc_drv c)" "int k = 1 - rt_out_buffer_idx (cc_drv c)" "idx_inv pc (cc_drv c)"
  shows "conc_ok (c\<lparr>cc_plc := pc, cc_wrote := length (cc_pubs c), cc_drv := put_out i k j v (cc_drv c)\<rparr>)"
proof -
  let ?impl = "cc_drv c" and ?impl' = "put_out i k j v (cc_drv c)"
  note ok = conc_okD [OF assms(1)]
  have k: "k \<le> 1" "k \<noteq> nat (rt_out_buffer_idx ?impl)" using ok(8) assms(3) by auto
  note outb = outb_put [OF ok(1) assms(2) k(1), of j v]
  have old: "cc_wrote c \<le> length (cc_pubs c)" using ok(3) by (simp add: pubs_inv_def)
  have "held ?impl' (cc_pubs c) (length (cc_pubs c)) k' n" if "held ?impl (cc_pubs c) (cc_wrote c) k' n" for k' n
  proof -
    have "k \<noteq> k'" if "length (cc_pubs c) \<le> n" using that \<open>held ?impl _ _ k' n\<close> assms(3) ok(8) by (auto simp: held_def)
    then show ?thesis using that old by (auto simp: held_def outb)
  qed
  moreover have "framed ?impl' (cc_pubs c) (length (cc_pubs c)) n z D" if "framed ?impl (cc_pubs c) (cc_wrote c) n z D" for n z D
    using that old by (fastforce simp: framed_def)
  ultimately have "rt_inv ?impl' (cc_pubs c) (length (cc_pubs c)) (cc_rt c)"
    using ok(4) by (auto simp: rt_inv_def split: rt_pc.splits)
  moreover have "pubs_inv ?impl' (cc_pubs c) (length (cc_pubs c))" using ok(3) k(2) by (simp add: pubs_inv_def outb)
  moreover have "rcvs_inv ?impl' (cc_rcvs c) (cc_stored c)" using ok(5) by (simp add: rcvs_inv_def)
  moreover have "latch_inv ?impl' (cc_rcvs c) (cc_stored c) (cc_latched c)" using ok(6) by (simp add: latch_inv_def)
  ultimately show ?thesis using fits_put(2) [OF ok(1) assms(2) k(1)] assms(4) by (simp add: conc_ok_def)
qed

lemma publish_inv:
  assumes "conc_ok c" "cc_plc c = PL_Xchg k"
  shows "conc_ok (c\<lparr>cc_plc := PL_Store (rt_out_buffer_idx (cc_drv c)), cc_pubs := cc_pubs c @ [\<lambda>i. outb (cc_drv c) i (nat k)],
      cc_drv := (cc_drv c)\<lparr>rt_out_buffer_idx := k\<rparr>\<rparr>)"
proof -
  let ?impl = "cc_drv c" and ?impl' = "(cc_drv c)\<lparr>rt_out_buffer_idx := k\<rparr>"
  let ?pubs = "cc_pubs c @ [\<lambda>i. outb (cc_drv c) i (nat k)]"
  note ok = conc_okD [OF assms(1)]
  have k: "k = active_out_buffer_idx ?impl" "active_out_buffer_idx ?impl = 1 - rt_out_buffer_idx ?impl"
    using ok(2) assms(2) by (simp_all add: idx_inv_def)
  have sb: "same_bytes ?impl ?impl'" by (simp add: same_bytes_def)
  note sbD = same_bytesD [OF sb]
  have "held ?impl' ?pubs (cc_wrote c) k' n" if "held ?impl (cc_pubs c) (cc_wrote c) k' n" for k' n
    using that by (auto simp: held_def sbD nth_append)
  moreover have "framed ?impl' ?pubs (cc_wrote c) n z D" if "framed ?impl (cc_pubs c) (cc_wrote c) n z D" for n z D
    using that by (fastforce simp: framed_def sbD nth_append)
  ultimately have "rt_inv ?impl' ?pubs (cc_wrote c) (cc_rt c)"
    using ok(4) by (auto simp: rt_inv_def sbD split: rt_pc.splits)
  moreover have "nat k \<le> 1" using k ok(9) by auto
  then have "pubs_inv ?impl' ?pubs (cc_wrote c)" using ok(3) fitsD(8) [OF ok(1)] by (auto simp: pubs_inv_def sbD)
  moreover have hi: "has_input ?impl' = has_input ?impl" by (simp add: has_input_def fun_eq_iff)
  have "rcvs_inv ?impl' (cc_rcvs c) (cc_stored c)" using ok(5) by (simp add: rcvs_inv_def sbD hi)
  moreover have "latch_inv ?impl' (cc_rcvs c) (cc_stored c) (cc_latched c)" using ok(6) by (simp add: latch_inv_def sbD hi)
  moreover have "fits ?impl'" by (rule fits_same_bytes [OF sb _ ok(1)]) (simp add: same_size_def)
  moreover have "idx_inv (PL_Store (rt_out_buffer_idx ?impl)) ?impl'" using k ok(7-9) by (auto simp: idx_inv_def)
  ultimately show ?thesis by (simp add: conc_ok_def)
qed

lemma get_output_data:
  assumes "ethercat_get_output_data impl dev = (Some (OutBuf i k), sz, impl')" "active_out_buffer_idx impl \<in> {0, 1}"
  shows "i = unat dev" "i < device_count impl" "int k = active_out_buffer_idx impl" "impl' = impl"
  using assms by (auto simp: ethercat_get_output_data_def Let_def buffer_addr_def split: if_splits option.splits)

lemma plc_step_ok:
  assumes "plc_step c c'" "conc_ok c"
  shows "conc_ok c'"
proof -
  note ok = conc_okD [OF assms(2)]
  have move: "conc_ok c''"
    if "cc_drv c'' = (cc_drv c)\<lparr>active_out_buffer_idx := k\<rparr>" "idx_inv (cc_plc c'') (cc_drv c'')" "cc_rt c'' = cc_rt c"
      "cc_pubs c'' = cc_pubs c" "cc_wrote c'' = cc_wrote c" "cc_rcvs c'' = cc_rcvs c" "cc_stored c'' = cc_stored c"
      "cc_latched c'' = cc_latched c" for c'' k
  proof -
    have sb: "same_bytes (cc_drv c) (cc_drv c'')" using that(1) by (simp add: same_bytes_def)
    have "rt_inv (cc_drv c'') = rt_inv (cc_drv c)" by (rule invs_cong(5) [OF sb]) (use that(1) in simp_all)
    then show ?thesis
      using that ok(4) by (intro conc_move [OF assms(2) sb]) simp_all
  qed
  from assms(1) show ?thesis
  proof (cases rule: plc_step.cases)
    case (p_latch k)
    let ?impl' = "(cc_drv c)\<lparr>plc_in_buffer_idx := active_in_buffer_idx (cc_drv c)\<rparr>"
    have k: "k = active_in_buffer_idx (cc_drv c)" using p_latch ok(7) by simp
    have sb: "same_bytes (cc_drv c) ?impl'" by (simp add: same_bytes_def)
    note sbD = same_bytesD [OF sb]
    have hi: "has_input ?impl' = has_input (cc_drv c)" by (simp add: has_input_def fun_eq_iff)
    have "latch_inv ?impl' (cc_rcvs c) (cc_stored c) (length (cc_rcvs c))"
      using ok(5,7) k by (simp add: latch_inv_def rcvs_inv_def sbD hi last_conv_nth)
    moreover have "held ?impl' = held (cc_drv c)" by (simp add: held_def fun_eq_iff sbD)
    then have "rt_inv ?impl' = rt_inv (cc_drv c)" by (simp add: rt_inv_def framed_def fun_eq_iff sbD k split: rt_pc.split)
    moreover have "fits ?impl'" by (rule fits_same_bytes [OF sb _ ok(1)]) (simp add: same_size_def)
    ultimately show ?thesis using ok(2-5) k p_latch
      by (simp add: conc_ok_def idx_inv_def pubs_inv_def rcvs_inv_def sbD hi)
  next
    case (p_load_rt k)
    then have "k = rt_out_buffer_idx (cc_drv c)" using ok(8) by simp
    then show ?thesis using ok(2,8) p_load_rt by (intro move [of _ "active_out_buffer_idx (cc_drv c)"]) (auto simp: idx_inv_def)
  next
    case (p_load_plc src k)
    then have "k = active_out_buffer_idx (cc_drv c)" using ok(9) by simp
    then have "idx_inv (if src = nat k then PL_Run else PL_Copy src (nat k) {}) ((cc_drv c)\<lparr>active_out_buffer_idx := k\<rparr>)"
      using ok(2,9) p_load_plc by (auto simp: idx_inv_def)
    then show ?thesis using p_load_plc by (intro move) simp_all
  next
    case (p_copy src dst D i j)
    then have "i < device_count (cc_drv c)" by (simp add: between_def)
    moreover have "int dst = 1 - rt_out_buffer_idx (cc_drv c)" "idx_inv (PL_Copy src dst (insert (i, j) D)) (cc_drv c)"
      using p_copy ok(2) by (auto simp: idx_inv_def)
    ultimately show ?thesis using plc_write [OF assms(2)] p_copy by simp
  next
    case (p_copied src dst D)
    then show ?thesis using ok(2) by (intro move [of _ "active_out_buffer_idx (cc_drv c)"]) (simp_all add: idx_inv_def)
  next
    case (p_store dev i k sz impl j v)
    note g = get_output_data [OF p_store(3) ok(9)]
    have "int k = 1 - rt_out_buffer_idx (cc_drv c)" using g(3) ok(2) p_store(2) by (simp add: idx_inv_def)
    then show ?thesis using plc_write [OF assms(2) g(2) _ ok(2), of k j v] p_store g(4) by (simp add: conc_ok_def)
  next
    case (p_load_out k)
    then have "k = active_out_buffer_idx (cc_drv c)" using ok(9) by simp
    then have "idx_inv (PL_Xchg k) ((cc_drv c)\<lparr>active_out_buffer_idx := k\<rparr>)" using ok(2) p_load_out by (simp add: idx_inv_def)
    then show ?thesis using p_load_out by (intro move) simp_all
  next
    case (p_publish k)
    then show ?thesis using publish_inv [OF assms(2) p_publish(2)] ok(8) by (auto simp: Let_def)
  next
    case (p_end prev)
    then have "idx_inv PL_Idle ((cc_drv c)\<lparr>active_out_buffer_idx := prev\<rparr>)" using ok(2) by (simp add: idx_inv_def)
    then show ?thesis using p_end by (intro move) simp_all
  qed
qed

section \<open>The real-time thread's steps keep the invariant\<close>

lemma rt_supervise_quiet:
  assumes "\<not> (rl_fail_threshold loc \<le> bad_count loc wkc impl \<and> fault_latched impl = 0)" "impl' = rt_supervise loc wkc impl"
  shows "same_bytes impl impl'" "iomap impl' = iomap impl" "(fault_latched impl' = 0) = (fault_latched impl = 0)"
    "rt_out_buffer_idx impl' = rt_out_buffer_idx impl" "active_in_buffer_idx impl' = active_in_buffer_idx impl"
    "plc_in_buffer_idx impl' = plc_in_buffer_idx impl" "active_out_buffer_idx impl' = active_out_buffer_idx impl"
  using assms by (auto simp: rt_supervise_def Let_def bad_count_def same_bytes_def)

lemma rt_exchange_frame:
  assumes "ec_exchange S impl = (wkc, impl1)" "soem_image_ok S" "impl' = rt_state_check S (impl1\<lparr>last_wkc := wkc\<rparr>)"
  shows "same_bytes impl impl'" "same_size (iomap impl) (iomap impl')" "(fault_latched impl' = 0) = (fault_latched impl = 0)"
    "rt_out_buffer_idx impl' = rt_out_buffer_idx impl" "active_in_buffer_idx impl' = active_in_buffer_idx impl"
    "plc_in_buffer_idx impl' = plc_in_buffer_idx impl" "active_out_buffer_idx impl' = active_out_buffer_idx impl"
  using assms
  by (auto simp: ec_exchange_def rt_state_check_def Let_def same_bytes_def soem_image_ok_def case_prod_unfold split: if_splits)

lemma rt_timing_frame:
  assumes "rt_timing now loc impl = (loc', impl')"
  shows "same_bytes impl impl'" "iomap impl' = iomap impl" "(fault_latched impl' = 0) = (fault_latched impl = 0)"
    "rt_out_buffer_idx impl' = rt_out_buffer_idx impl" "active_in_buffer_idx impl' = active_in_buffer_idx impl"
    "plc_in_buffer_idx impl' = plc_in_buffer_idx impl" "active_out_buffer_idx impl' = active_out_buffer_idx impl"
  using assms by (auto simp: rt_timing_def Let_def same_bytes_def)

lemma idx_inv_cong:
  assumes "rt_out_buffer_idx impl' = rt_out_buffer_idx impl" "active_in_buffer_idx impl' = active_in_buffer_idx impl"
    "active_out_buffer_idx impl' = active_out_buffer_idx impl"
  shows "idx_inv pc impl' = idx_inv pc impl"
  by (simp add: idx_inv_def assms cong: plc_pc.case_cong)

text \<open>A byte of the frame.\<close>

lemma frame_byte:
  assumes "conc_ok c" "cc_rt c = RT_Out k n z D" "(i, j) \<in> to_map (cc_drv c) - D"
    and "v = (if z \<or> out_buffers (edev (cc_drv c) i) ! k = None then 0 else outb (cc_drv c) i k ! j)"
  shows "conc_ok (c\<lparr>cc_rt := RT_Out k n z (insert (i, j) D), cc_drv := put_map (out_off (cc_drv c) i + j) v (cc_drv c)\<rparr>)"
proof -
  let ?impl = "cc_drv c" and ?impl' = "put_map (out_off (cc_drv c) i + j) v (cc_drv c)"
  note ok = conc_okD [OF assms(1)]
  have rt: "held ?impl (cc_pubs c) (cc_wrote c) k n" "framed ?impl (cc_pubs c) (cc_wrote c) n z D"
    using ok(4) assms(2) by (simp_all add: rt_inv_def)
  have i: "i < device_count ?impl" "soem_outputs (edev ?impl i) \<noteq> None" "j < unat (out_size (edev ?impl i))"
    using assms(3) by (auto simp: to_map_def)
  then have pos: "out_off ?impl i + j < length (the (iomap ?impl))" using fitsD(10) [OF ok(1) i(1,2)] by simp
  have at: "the (iomap ?impl') ! (out_off ?impl i' + j') = (if i' = i \<and> j' = j then v else the (iomap ?impl) ! (out_off ?impl i' + j'))"
    if "(i', j') \<in> to_map ?impl" for i' j'
    using fitsD(11) [OF ok(1) that, of i j] assms(3) pos fitsD(2) [OF ok(1)] by (auto simp: nth_list_update)
  have v: "z \<longrightarrow> v = 0" "\<not> z \<and> cc_wrote c \<le> n \<longrightarrow> v = (cc_pubs c ! (n - 1)) i ! j"
    using rt fitsD(7) [OF ok(1) i(1), of k] i(1) by (auto simp: assms(4) held_def framed_def)
  have "D \<subseteq> to_map ?impl" using rt(2) by (simp add: framed_def)
  then have "framed ?impl' (cc_pubs c) (cc_wrote c) n z (insert (i, j) D)"
    using rt(2) assms(3) unfolding framed_def
  proof (intro conjI ballI)
    fix x assume "x \<in> insert (i, j) D"
    obtain i' j' where x: "x = (i', j')" by (cases x)
    then have "(i', j') \<in> to_map ?impl" using \<open>x \<in> insert (i, j) D\<close> \<open>D \<subseteq> to_map ?impl\<close> assms(3) by auto
    note at = at [OF this]
    have old: "i' = i \<and> j' = j \<or> (z \<longrightarrow> the (iomap ?impl) ! (out_off ?impl i' + j') = 0)
        \<and> (\<not> z \<and> cc_wrote c \<le> n \<longrightarrow> the (iomap ?impl) ! (out_off ?impl i' + j') = (cc_pubs c ! (n - 1)) i' ! j')"
      using rt(2) \<open>x \<in> insert (i, j) D\<close> x unfolding framed_def by blast
    show "case x of (i, j) \<Rightarrow> (z \<longrightarrow> the (iomap ?impl') ! (out_off ?impl' i + j) = 0)
        \<and> (\<not> z \<and> cc_wrote c \<le> n \<longrightarrow> the (iomap ?impl') ! (out_off ?impl' i + j) = (cc_pubs c ! (n - 1)) i ! j)"
      unfolding x prod.case offs_put at using old v by (cases "i' = i \<and> j' = j") simp_all
  qed simp_all
  moreover have "held ?impl' (cc_pubs c) (cc_wrote c) k n" using rt(1) by (simp add: held_def)
  moreover have "pubs_inv ?impl' (cc_pubs c) (cc_wrote c)" using ok(3) by (simp add: pubs_inv_def)
  moreover have "rcvs_inv ?impl' (cc_rcvs c) (cc_stored c)" using ok(5) by (simp add: rcvs_inv_def)
  moreover have "latch_inv ?impl' (cc_rcvs c) (cc_stored c) (cc_latched c)" using ok(6) by (simp add: latch_inv_def)
  ultimately show ?thesis using fits_put(1) [OF ok(1)] ok(2) by (simp add: conc_ok_def rt_inv_def)
qed

text \<open>A byte of the inputs.\<close>

lemma input_byte:
  assumes "conc_ok c" "cc_rt c = RT_In wkc k D" "(i, j) \<in> from_map (cc_drv c) k - D"
    and "v = the (iomap (cc_drv c)) ! (in_off (cc_drv c) i + j)"
  shows "conc_ok (c\<lparr>cc_rt := RT_In wkc k (insert (i, j) D), cc_stored := length (cc_rcvs c), cc_drv := put_in i k j v (cc_drv c)\<rparr>)"
proof -
  let ?impl = "cc_drv c" and ?impl' = "put_in i k j v (cc_drv c)"
  note ok = conc_okD [OF assms(1)]
  have rt: "int k = 1 - active_in_buffer_idx ?impl" "D \<subseteq> from_map ?impl k"
    "\<And>i j. (i, j) \<in> D \<Longrightarrow> inb ?impl i k ! j = the (iomap ?impl) ! (in_off ?impl i + j)"
    using ok(4) assms(2) by (auto simp: rt_inv_def)
  have k: "k \<le> 1" "k \<noteq> nat (active_in_buffer_idx ?impl)" using rt(1) ok(7) by auto
  have i: "i < device_count ?impl" "j < unat (in_size (edev ?impl i))" using assms(3) by (auto simp: from_map_def)
  note inb = inb_put [OF ok(1) i(1) k(1), of j v]
  have j: "j < length (inb ?impl i k)" using i(2) fitsD(6) [OF ok(1) i(1) k(1)] by simp
  have "rt_inv ?impl' (cc_pubs c) (cc_wrote c) (RT_In wkc k (insert (i, j) D))"
    using rt assms(3) assms(4) [symmetric] j by (auto simp: rt_inv_def inb nth_list_update)
  moreover have "pubs_inv ?impl' (cc_pubs c) (cc_wrote c)" using ok(3) by (simp add: pubs_inv_def)
  moreover have "rcvs_inv ?impl' (cc_rcvs c) (length (cc_rcvs c))" using ok(5) k(2) by (simp add: rcvs_inv_def inb)
  moreover have "latch_inv ?impl' (cc_rcvs c) (length (cc_rcvs c)) (cc_latched c)"
  proof (cases "cc_latched c = length (cc_rcvs c)")
    case True
    then show ?thesis using ok(5,6) k(2) by (auto simp: latch_inv_def rcvs_inv_def inb)
  next
    case False
    then show ?thesis using ok(6) by (auto simp: latch_inv_def)
  qed
  ultimately show ?thesis using fits_put(3) [OF ok(1) i(1) k(1)] ok(2) by (simp add: conc_ok_def)
qed

lemma input_publish:
  assumes "conc_ok c" "cc_rt c = RT_In wkc k (from_map (cc_drv c) k)"
  shows "conc_ok (c\<lparr>cc_rt := RT_Sup wkc, cc_drv := (cc_drv c)\<lparr>active_in_buffer_idx := int k\<rparr>,
      cc_rcvs := cc_rcvs c @ [\<lambda>i. mem_get (in_off (cc_drv c) i) (unat (in_size (edev (cc_drv c) i))) (the (iomap (cc_drv c)))]\<rparr>)"
proof -
  let ?impl = "cc_drv c" and ?impl' = "(cc_drv c)\<lparr>active_in_buffer_idx := int k\<rparr>"
  let ?x = "\<lambda>i. mem_get (in_off (cc_drv c) i) (unat (in_size (edev (cc_drv c) i))) (the (iomap (cc_drv c)))"
  note ok = conc_okD [OF assms(1)]
  have rt: "int k = 1 - active_in_buffer_idx ?impl"
    "\<And>i j. (i, j) \<in> from_map ?impl k \<Longrightarrow> inb ?impl i k ! j = the (iomap ?impl) ! (in_off ?impl i + j)"
    using ok(4) assms(2) by (auto simp: rt_inv_def)
  then have k: "k \<le> 1" using ok(7) by auto
  have sb: "same_bytes ?impl ?impl'" by (simp add: same_bytes_def)
  note sbD = same_bytesD [OF sb]
  have hi: "has_input ?impl' = has_input ?impl" by (simp add: has_input_def fun_eq_iff)
  have new: "inb ?impl i k = ?x i" if "has_input ?impl i" for i
  proof (rule nth_equalityI)
    have i: "i < device_count ?impl" "soem_inputs (edev ?impl i) \<noteq> None" using that by (auto simp: has_input_def)
    note len = fitsD(6) [OF ok(1) i(1) k] and room = fitsD(9) [OF ok(1) i]
    show "length (inb ?impl i k) = length (?x i)" using len room by simp
    show "inb ?impl i k ! j = ?x i ! j" if "j < length (inb ?impl i k)" for j
      using rt(2) [of i j] that len room i fitsD(5) [OF ok(1) i(1) k] by (simp add: from_map_def mem_get_def)
  qed
  have "rcvs_inv ?impl' (cc_rcvs c @ [?x]) (cc_stored c)" using ok(5) new by (simp add: rcvs_inv_def sbD hi)
  moreover have "latch_inv ?impl' (cc_rcvs c @ [?x]) (cc_stored c) (cc_latched c)"
    using ok(6) by (auto simp: latch_inv_def sbD hi nth_append)
  moreover have "pubs_inv ?impl' (cc_pubs c) (cc_wrote c)" using ok(3) by (simp add: pubs_inv_def sbD)
  moreover have "fits ?impl'" by (rule fits_same_bytes [OF sb _ ok(1)]) simp
  moreover have "idx_inv (cc_plc c) ?impl'" using ok(2) rt(1) by (auto simp: idx_inv_def cong: plc_pc.case_cong)
  ultimately show ?thesis by (simp add: conc_ok_def rt_inv_def)
qed

lemma rt_step_ok:
  assumes "rt_step S c c'" "conc_ok c" "soem_image_ok S"
  shows "conc_ok c'"
proof -
  note ok = conc_okD [OF assms(2)]
  have stay: "conc_ok (c\<lparr>cc_rt := rpc\<rparr>)" if "rt_inv (cc_drv c) (cc_pubs c) (cc_wrote c) rpc" for rpc
    using assms(2) that by (simp add: conc_ok_def)
  from assms(1) show ?thesis
  proof (cases rule: rt_step.cases)
    case (r_load_out k)
    then have "k = rt_out_buffer_idx (cc_drv c)" using ok(8) by simp
    moreover have "held (cc_drv c) (cc_pubs c) (cc_wrote c) (nat (rt_out_buffer_idx (cc_drv c))) (length (cc_pubs c))"
      using ok(3,8) by (auto simp: held_def pubs_inv_def last_conv_nth)
    ultimately show ?thesis using stay [of "RT_Fault (nat k) (length (cc_pubs c))"] r_load_out by (simp add: rt_inv_def)
  next
    case (r_load_fault k n)
    then have "held (cc_drv c) (cc_pubs c) (cc_wrote c) k n" using ok(4) by (simp add: rt_inv_def)
    then show ?thesis using stay [of "RT_Out k n (fault_latched (cc_drv c) \<noteq> 0) {}"] r_load_fault
      by (simp add: rt_inv_def framed_def held_def)
  next
    case (r_byte k n z D i j v)
    then show ?thesis using frame_byte [OF assms(2)] by simp
  next
    case (r_copied k n z D)
    then show ?thesis using stay [of "RT_Send k n z"] ok(4) by (simp add: rt_inv_def)
  next
    case (r_exchange k n z wkc impl)
    note fr = rt_exchange_frame [OF r_exchange(3) assms(3) refl]
    then show ?thesis using fr idx_inv_cong [OF fr(4,5,7)] ok(2) r_exchange
      by (intro conc_move [OF assms(2)]) (simp_all add: rt_inv_def)
  next
    case (r_load_in wkc k)
    then have "k = active_in_buffer_idx (cc_drv c)" using ok(7) by simp
    then show ?thesis using stay [of "RT_In wkc (nat (1 - k)) {}"] r_load_in ok(7) by (auto simp: rt_inv_def)
  next
    case (r_in_byte wkc k D i j)
    then show ?thesis using input_byte [OF assms(2)] by simp
  next
    case (r_in_publish wkc k D)
    then show ?thesis using input_publish [OF assms(2)] by simp
  next
    case (r_quiet wkc)
    note fr = rt_supervise_quiet [OF r_quiet(3) refl]
    then show ?thesis using fr idx_inv_cong [OF fr(4,5,7)] ok(2) r_quiet
      by (intro conc_move [OF assms(2)]) (simp_all add: rt_inv_def)
  next
    case (r_fault wkc)
    let ?impl' = "(cc_drv c)\<lparr>dowkccheck := bad_count (cc_loc c) wkc (cc_drv c), fault_latched := 1\<rparr>"
    have sb: "same_bytes (cc_drv c) ?impl'" by (simp add: same_bytes_def)
    have hi: "has_input ?impl' = has_input (cc_drv c)" by (simp add: has_input_def fun_eq_iff)
    have "fits ?impl'" by (rule fits_same_bytes [OF sb _ ok(1)]) simp
    then show ?thesis using ok(2-6) r_fault same_bytesD [OF sb] idx_inv_cong [of ?impl' "cc_drv c"]
      by (simp add: conc_ok_def rt_inv_def pubs_inv_def rcvs_inv_def latch_inv_def hi)
  next
    case (r_zero D i b j)
    have f: "fault_latched (cc_drv c) \<noteq> 0" using ok(4) r_zero by (simp add: rt_inv_def)
    have i: "i < device_count (cc_drv c)" "b \<le> 2" using r_zero by (auto simp: to_zero_def)
    show ?thesis
    proof (cases "b < 2")
      case True
      then have "fits (put_out i b j 0 (cc_drv c))" using fits_put(2) [OF ok(1) i(1), of b] by simp
      then show ?thesis using True ok(2-6) f r_zero
        by (simp add: zero_byte_def conc_ok_def rt_inv_def pubs_inv_def rcvs_inv_def latch_inv_def)
    next
      case False
      then show ?thesis using ok(2-6) f r_zero fits_put(1) [OF ok(1)]
        by (simp add: zero_byte_def conc_ok_def rt_inv_def pubs_inv_def rcvs_inv_def latch_inv_def)
    qed
  next
    case (r_zeroed D)
    let ?impl' = "(cc_drv c)\<lparr>in_op := ec_state (cc_drv c) = EC_STATE_OPERATIONAL \<and> dowkccheck (cc_drv c) < rl_warn_threshold (cc_loc c)\<rparr>"
    have "same_bytes (cc_drv c) ?impl'" by (simp add: same_bytes_def)
    then show ?thesis using ok(2) idx_inv_cong [of ?impl' "cc_drv c"] r_zeroed
      by (intro conc_move [OF assms(2)]) (simp_all add: rt_inv_def)
  next
    case (r_time now loc impl)
    note fr = rt_timing_frame [OF r_time(3)]
    then show ?thesis using fr idx_inv_cong [OF fr(4,5,7)] ok(2) r_time
      by (intro conc_move [OF assms(2)]) (simp_all add: rt_inv_def)
  qed
qed

section \<open>Reachable states\<close>

lemma regions_apart_nth:
  "regions_apart ds \<Longrightarrow> i < length ds \<Longrightarrow> j < length ds \<Longrightarrow> i \<noteq> j \<Longrightarrow> out_region (ds ! i) \<inter> out_region (ds ! j) = {}"
proof (induction ds arbitrary: i j)
  case (Cons d ds)
  then show ?case by (cases i; cases j) (auto simp: Int_commute)
qed simp

lemma good_fits:
  assumes "ec_good impl" "regions_apart (bound_devices impl)"
  shows "fits impl"
proof -
  have len: "device_count impl \<le> length (devices impl)" and map: "iomap impl \<noteq> None"
    using assms(1) by (auto simp: ec_good_def ec_ok_def ec_inv_def)
  have dev: "dev_ok (edev impl i)" "dev_mapped (length (the (iomap impl))) (edev impl i)" if "i < device_count impl" for i
    using ec_inv_dev [OF ec_good_D(1) [OF assms(1)] that] ec_good_D(2) [OF assms(1)] map bound_nth [OF that len]
    by (auto simp: ec_mapped_def)
  have buf: "in_buffers (edev impl i) ! k \<noteq> None \<and> length (inb impl i k) = unat (in_size (edev impl i))
      \<and> out_buffers (edev impl i) ! k \<noteq> None \<and> length (outb impl i k) = unat (out_size (edev impl i))"
    if "i < device_count impl" "k \<le> 1" for i k
    by (rule ec_ready_buffer [OF ec_good_ready [OF assms(1)] that]) (simp add: inb_def outb_def)
  have "inj_on (\<lambda>(i, j). out_off impl i + j) (to_map impl)"
  proof (rule inj_onI, clarify)
    fix i j i' j' assume m: "(i, j) \<in> to_map impl" "(i', j') \<in> to_map impl" "out_off impl i + j = out_off impl i' + j'"
    have "i = i'"
    proof (rule ccontr)
      assume "i \<noteq> i'"
      then have "out_region (edev impl i) \<inter> out_region (edev impl i') = {}"
        using regions_apart_nth [OF assms(2), of i i'] m(1,2) len by (simp add: to_map_def bound_devices_def)
      moreover have "out_off impl i + j \<in> out_region (edev impl i)" "out_off impl i + j \<in> out_region (edev impl i')"
        using m by (auto simp: to_map_def out_region_def out_off_def)
      ultimately show False by blast
    qed
    then show "i = i' \<and> j = j'" using m(3) by simp
  qed
  moreover have "length (in_buffers (edev impl i)) = 2 \<and> length (out_buffers (edev impl i)) = 2
      \<and> (soem_inputs (edev impl i) \<noteq> None \<longrightarrow> in_off impl i + unat (in_size (edev impl i)) \<le> length (the (iomap impl)))
      \<and> (soem_outputs (edev impl i) \<noteq> None \<longrightarrow> out_off impl i + unat (out_size (edev impl i)) \<le> length (the (iomap impl)))"
    if "i < device_count impl" for i
    using dev [OF that] by (auto simp: dev_ok_def dev_mapped_def in_off_def out_off_def)
  ultimately show ?thesis using len map buf unfolding fits_def by blast
qed

lemma conc_begin_ok:
  assumes "ec_good impl" "regions_apart (bound_devices impl)"
  shows "conc_ok (conc_begin loc impl)"
proof -
  have idx: "idx_ok impl" by (rule ec_good_D(3) [OF assms(1)])
  note fits = good_fits [OF assms]
  have "nat (rt_out_buffer_idx impl) \<le> 1" using idx by (auto simp: idx_ok_def)
  then have "pubs_inv impl [\<lambda>i. outb impl i (nat (rt_out_buffer_idx impl))] 0"
    using fitsD(8) [OF fits] by (simp add: pubs_inv_def)
  moreover have "idx_inv PL_Idle impl" using idx by (auto simp: idx_inv_def idx_ok_def)
  ultimately show ?thesis using fits
    by (simp add: conc_ok_def conc_begin_def rt_inv_def rcvs_inv_def latch_inv_def)
qed

lemma ec_conc_ok:
  assumes "ec_conc S loc impl c" "ec_good impl" "regions_apart (bound_devices impl)" "soem_image_ok S"
  shows "conc_ok c"
  using assms(1)
  by induction (use assms(2-4) conc_begin_ok plc_step_ok rt_step_ok in auto)

section \<open>Properties\<close>

text \<open>
  C18. With both threads interleaved byte by byte, in any order, a frame is never a mixture of two
  output images and an input snapshot never a mixture of two frames, as long as neither thread overtakes the
  other. When the real-time thread is about to send, the region of every device is zero if
  a fault was latched, and otherwise the image that was the latest published one when
  the thread took its buffer index, provided the PLC has not written an output since a
  later publication. While the PLC's tasks run, every device's inputs are those of the frame
  that was the latest when the PLC took its index, provided the real-time thread has not stored an input
  since it published a later one.
\<close>

theorem ec_buffers_untorn:
  assumes "ec_run S P impl" "soem_image_ok S" "soem_map_ok S" "regions_apart (bound_devices impl)" "ec_conc S loc impl c"
  shows "(cc_rt c = RT_Send k n z \<longrightarrow> i < device_count (cc_drv c) \<longrightarrow> soem_outputs (devices (cc_drv c) ! i) = Some off \<longrightarrow>
        (let region = mem_get off (unat (out_size (devices (cc_drv c) ! i))) (the (iomap (cc_drv c))) in
           (z \<longrightarrow> region = replicate (unat (out_size (devices (cc_drv c) ! i))) 0)
           \<and> (\<not> z \<and> cc_wrote c \<le> n \<longrightarrow> 0 < n \<and> n \<le> length (cc_pubs c) \<and> region = (cc_pubs c ! (n - 1)) i)))
    \<and> (cc_plc c = PL_Run \<longrightarrow> 0 < cc_latched c \<longrightarrow> cc_stored c \<le> cc_latched c \<longrightarrow> i < device_count (cc_drv c) \<longrightarrow>
        soem_inputs (devices (cc_drv c) ! i) \<noteq> None \<longrightarrow>
        cc_latched c \<le> length (cc_rcvs c) \<and> ec_in_image (cc_drv c) i = Some ((cc_rcvs c ! (cc_latched c - 1)) i))"
proof -
  have inv: "conc_ok c" by (rule ec_conc_ok [OF assms(5) ec_run_good [OF assms(1-3)] assms(4,2)])
  note ok = conc_okD [OF inv]
  let ?impl = "cc_drv c"
  let ?sz = "unat (out_size (edev ?impl i))"
  have out: "(let region = mem_get off ?sz (the (iomap ?impl)) in (z \<longrightarrow> region = replicate ?sz 0)
      \<and> (\<not> z \<and> cc_wrote c \<le> n \<longrightarrow> 0 < n \<and> n \<le> length (cc_pubs c) \<and> region = (cc_pubs c ! (n - 1)) i))"
    if "cc_rt c = RT_Send k n z" "i < device_count ?impl" "soem_outputs (edev ?impl i) = Some off"
  proof -
    have f: "framed ?impl (cc_pubs c) (cc_wrote c) n z (to_map ?impl)" using ok(4) that(1) by (simp add: rt_inv_def)
    then have n: "0 < n" "n \<le> length (cc_pubs c)" by (simp_all add: framed_def)
    have off: "out_off ?impl i = off" "off + ?sz \<le> length (the (iomap ?impl))"
      using fitsD(10) [OF ok(1) that(2)] that(3) by (simp_all add: out_off_def)
    have at: "mem_get off ?sz (the (iomap ?impl)) ! j = the (iomap ?impl) ! (out_off ?impl i + j)" "(i, j) \<in> to_map ?impl"
      if "j < ?sz" for j
      using that off \<open>i < _\<close> \<open>soem_outputs _ = _\<close> by (simp_all add: mem_get_def to_map_def)
    have "length ((cc_pubs c ! (n - 1)) i) = ?sz" using ok(3) n that(2) by (auto simp: pubs_inv_def)
    moreover have "(z \<longrightarrow> mem_get off ?sz (the (iomap ?impl)) ! j = 0)
        \<and> (\<not> z \<and> cc_wrote c \<le> n \<longrightarrow> mem_get off ?sz (the (iomap ?impl)) ! j = (cc_pubs c ! (n - 1)) i ! j)" if "j < ?sz" for j
      using f at(2) [OF that] unfolding framed_def at(1) [OF that] by blast
    ultimately show ?thesis using n off(2) unfolding Let_def by (auto intro!: nth_equalityI)
  qed
  have "cc_latched c \<le> length (cc_rcvs c) \<and> ec_in_image ?impl i = Some ((cc_rcvs c ! (cc_latched c - 1)) i)"
    if "0 < cc_latched c" "cc_stored c \<le> cc_latched c" "i < device_count ?impl" "soem_inputs (edev ?impl i) \<noteq> None"
  proof -
    have l: "cc_latched c \<le> length (cc_rcvs c)" "plc_in_buffer_idx ?impl \<in> {0, 1}"
      "inb ?impl i (nat (plc_in_buffer_idx ?impl)) = (cc_rcvs c ! (cc_latched c - 1)) i"
      using ok(6) that by (auto simp: latch_inv_def has_input_def)
    moreover have "in_buffers (edev ?impl i) ! nat (plc_in_buffer_idx ?impl) \<noteq> None"
      by (rule fitsD(5) [OF ok(1) that(3)]) (use l(2) in auto)
    ultimately show ?thesis using that(3) by (auto simp: ec_in_image_def inb_def)
  qed
  then show ?thesis using out by blast
qed

text \<open>A run on the example driver: a frame is ready and the tasks run.\<close>

definition demo_started :: "unit EthercatDriver" where
  "demo_started = snd (ethercat_start (demo_soem 3) demo_platform (demo_driver 3))"

lemma demo_started_run: "ec_run (demo_soem 3) demo_platform demo_started"
  unfolding demo_started_def by (rule ec_run.start [OF demo_run(1)])

lemma demo_started_facts:
  "rt_should_run demo_started" "fault_latched demo_started = 0" "rt_out_buffer_idx demo_started = 0"
  "active_out_buffer_idx demo_started = 1" "active_in_buffer_idx demo_started = 0" "device_count demo_started = 1"
  "soem_outputs (edev demo_started 0) = Some 1" "soem_inputs (edev demo_started 0) = Some 0" "out_size (edev demo_started 0) = 1"
  "in_size (edev demo_started 0) = 1" "regions_apart (bound_devices demo_started)"
  by code_simp+

lemma demo_conc:
  obtains c where "ec_conc (demo_soem 3) demo_locals demo_started c" "cc_rt c = RT_Send 0 1 False" "cc_plc c = PL_Run"
    "cc_wrote c = 1" "cc_latched c = 1" "cc_stored c = 0" "device_count (cc_drv c) = 1" "soem_outputs (edev (cc_drv c) 0) = Some 1"
    "soem_inputs (edev (cc_drv c) 0) = Some 0" "out_size (edev (cc_drv c) 0) = 1" "cc_pubs c = [\<lambda>i. outb demo_started i 0]"
proof -
  let ?S = "demo_soem 3" and ?d = demo_started and ?c0 = "conc_begin demo_locals demo_started"
  let ?v = "outb demo_started 0 0 ! 0"
  let ?d1 = "put_map (Suc 0) ?v ?d"
  let ?d2 = "?d1\<lparr>plc_in_buffer_idx := 0\<rparr>"
  let ?d3 = "put_out 0 (Suc 0) 0 (outb ?d2 0 0 ! 0) ?d2"
  note f = demo_started_facts
  have ok: "fits ?d" by (rule good_fits [OF ec_run_good [OF demo_started_run demo_soem_ok] f(11)])
  have buf: "out_buffers (edev ?d 0) ! k \<noteq> None" if "k \<le> 1" for k by (rule fitsD(7) [OF ok _ that]) (simp add: f)
  have m: "to_map ?d = {(0, 0)}" "out_off ?d 0 = 1" by (auto simp: to_map_def out_off_def f)
  have b: "between ?d2 0 (Suc 0) = {(0, 0)}" using buf [of 0] buf [of 1] by (auto simp: between_def f)
  have b3: "between ?d3 0 (Suc 0) = between ?d2 0 (Suc 0)" by (simp add: between_def)
  have keep: "?d\<lparr>rt_out_buffer_idx := 0\<rparr> = ?d" "?d1\<lparr>active_in_buffer_idx := 0\<rparr> = ?d1" "?d2\<lparr>rt_out_buffer_idx := 0\<rparr> = ?d2"
    "?d2\<lparr>active_out_buffer_idx := 1\<rparr> = ?d2"
    using f by (simp_all add: put_map_def)
  have "ec_conc ?S demo_locals ?d (?c0\<lparr>cc_rt := RT_Fault 0 1\<rparr>)"
    using ec_conc_rt [OF ec_conc_begin r_load_out [OF _ _ refl], of demo_locals ?d ?S] by (simp add: conc_begin_def f keep)
  from ec_conc_rt [OF this r_load_fault] have "ec_conc ?S demo_locals ?d (?c0\<lparr>cc_rt := RT_Out 0 1 False {}\<rparr>)"
    by (simp add: conc_begin_def f)
  from ec_conc_rt [OF this r_byte [of _ 0 1 False "{}" 0 0, OF _ _ refl]]
  have "ec_conc ?S demo_locals ?d (?c0\<lparr>cc_rt := RT_Out 0 1 False {(0, 0)}, cc_drv := ?d1\<rparr>)"
    using buf [of 0] by (simp add: conc_begin_def m)
  from ec_conc_rt [OF this r_copied [of _ 0 1 False, OF _ refl]]
  have "ec_conc ?S demo_locals ?d (?c0\<lparr>cc_rt := RT_Send 0 1 False, cc_drv := ?d1\<rparr>)"
    by (simp add: conc_begin_def m)
  from ec_conc_plc [OF this p_latch [OF _ refl]]
  have "ec_conc ?S demo_locals ?d (?c0\<lparr>cc_rt := RT_Send 0 1 False, cc_plc := PL_Rt, cc_latched := 1, cc_drv := ?d2\<rparr>)"
    by (simp add: conc_begin_def f keep)
  from ec_conc_plc [OF this p_load_rt [OF _ refl]]
  have "ec_conc ?S demo_locals ?d (?c0\<lparr>cc_rt := RT_Send 0 1 False, cc_plc := PL_Plc 0, cc_latched := 1, cc_drv := ?d2\<rparr>)"
    by (simp add: conc_begin_def f keep)
  from ec_conc_plc [OF this p_load_plc [of _ 0, OF _ refl]]
  have "ec_conc ?S demo_locals ?d (?c0\<lparr>cc_rt := RT_Send 0 1 False, cc_plc := PL_Copy 0 1 {}, cc_latched := 1, cc_drv := ?d2\<rparr>)"
    by (simp add: conc_begin_def f keep)
  from ec_conc_plc [OF this p_copy [of _ 0 1 "{}" 0 0]]
  have "ec_conc ?S demo_locals ?d (?c0\<lparr>cc_rt := RT_Send 0 1 False, cc_plc := PL_Copy 0 1 {(0, 0)}, cc_latched := 1,
      cc_wrote := 1, cc_drv := ?d3\<rparr>)"
    by (simp add: conc_begin_def b)
  from ec_conc_plc [OF this p_copied [of _ 0 1 "{(0, 0)}"]]
  have "ec_conc ?S demo_locals ?d (?c0\<lparr>cc_rt := RT_Send 0 1 False, cc_plc := PL_Run, cc_latched := 1, cc_wrote := 1, cc_drv := ?d3\<rparr>)"
    using b b3 by (simp add: conc_begin_def)
  then show thesis by (rule that) (simp_all add: conc_begin_def f)
qed

lemma ec_buffers_untorn_witness:
  "\<exists>c. ec_conc (demo_soem 3) demo_locals demo_started c \<and> cc_rt c = RT_Send 0 1 False \<and> cc_plc c = PL_Run
     \<and> mem_get 1 1 (the (iomap (cc_drv c))) = outb demo_started 0 0
     \<and> ec_in_image (cc_drv c) 0 = Some ((cc_rcvs c ! 0) 0)"
proof -
  obtain c where c: "ec_conc (demo_soem 3) demo_locals demo_started c" "cc_rt c = RT_Send 0 1 False" "cc_plc c = PL_Run"
    "cc_wrote c = 1" "cc_latched c = 1" "cc_stored c = 0" "device_count (cc_drv c) = 1" "soem_outputs (edev (cc_drv c) 0) = Some 1"
    "soem_inputs (edev (cc_drv c) 0) = Some 0" "out_size (edev (cc_drv c) 0) = 1" "cc_pubs c = [\<lambda>i. outb demo_started i 0]"
    by (rule demo_conc)
  show ?thesis
    using ec_buffers_untorn [OF demo_started_run demo_soem_ok demo_started_facts(11) c(1), of 0 1 False 0 1] c
    by (intro exI [of _ c]) (simp add: Let_def)
qed

end
