(* ===== verification/Ec_Race.thy ===== *)
theory Ec_Race
  imports Ec_Concurrent
begin

text \<open>
  What happens when the PLC's thread overtakes the real-time thread: a run of the two threads, step
  by step, in which the frame that is sent mixes the bytes of two published output images. It is also a
  run of the model on concrete states, every byte of which can be followed.
\<close>

section \<open>A driver with two output bytes\<close>

text \<open>The buffers hold \<open>a\<close> and \<open>b\<close>, the process image \<open>m\<close>; \<open>r\<close> and \<open>ac\<close> are the indices of the two sides.\<close>

definition race_driver :: "u8 list \<Rightarrow> u8 list \<Rightarrow> u8 list \<Rightarrow> int \<Rightarrow> int \<Rightarrow> unit EthercatDriver" where
  "race_driver a b m r ac = demo_started\<lparr>devices := [(edev demo_started 0)\<lparr>soem_outputs := Some 0, out_size := 2,
     out_buffers := [Some a, Some b]\<rparr>], iomap := Some m, rt_out_buffer_idx := r, active_out_buffer_idx := ac,
     plc_in_buffer_idx := 0\<rparr>"

definition race_state :: "unit EthercatDriver \<Rightarrow> plc_pc \<Rightarrow> rt_pc \<Rightarrow> (nat \<Rightarrow> u8 list) list \<Rightarrow> nat \<Rightarrow> nat \<Rightarrow> unit EcConc" where
  "race_state d plc rt pubs wrote latched = \<lparr>cc_drv = d, cc_loc = demo_locals, cc_plc = plc, cc_rt = rt, cc_pubs = pubs,
     cc_rcvs = [\<lambda>i. inb (race_driver [1, 1] [1, 1] [0, 0] 0 1) i 0], cc_wrote = wrote, cc_stored = 0, cc_latched = latched\<rparr>"

lemma race_driver_simps [simp]:
  "rt_should_run (race_driver a b m r ac)" "fault_latched (race_driver a b m r ac) = 0"
  "rt_out_buffer_idx (race_driver a b m r ac) = r" "active_out_buffer_idx (race_driver a b m r ac) = ac"
  "active_in_buffer_idx (race_driver a b m r ac) = 0" "iomap (race_driver a b m r ac) = Some m"
  "plc_in_buffer_idx (race_driver a b m r ac) = 0"
  "out_buffers (edev (race_driver a b m r ac) 0) = [Some a, Some b]"
  "outb (race_driver a b m r ac) 0 0 = a" "outb (race_driver a b m r ac) 0 (Suc 0) = b"
  "out_off (race_driver a b m r ac) 0 = 0"
  "(race_driver a b m r ac)\<lparr>rt_out_buffer_idx := r'\<rparr> = race_driver a b m r' ac"
  "(race_driver a b m r ac)\<lparr>active_out_buffer_idx := ac'\<rparr> = race_driver a b m r ac'"
  "(race_driver a b m r ac)\<lparr>active_in_buffer_idx := 0\<rparr> = race_driver a b m r ac"
  "(race_driver a b m r ac)\<lparr>plc_in_buffer_idx := 0\<rparr> = race_driver a b m r ac"
  "put_out 0 0 j v (race_driver a b m r ac) = race_driver (a[j := v]) b m r ac"
  "put_out 0 (Suc 0) j v (race_driver a b m r ac) = race_driver a (b[j := v]) m r ac"
  "put_map p v (race_driver a b m r ac) = race_driver a b (m[p := v]) r ac"
  using demo_started_facts
  by (simp_all add: race_driver_def outb_def out_off_def put_out_def put_map_def)

lemma race_driver_sets [simp]:
  "to_map (race_driver a b m r ac) = {(0, 0), (0, 1)}" "between (race_driver a b m r ac) 0 (Suc 0) = {(0, 0), (0, 1)}"
  "between (race_driver a b m r ac) (Suc 0) 0 = {(0, 0), (0, 1)}"
  using demo_started_facts by (auto simp: to_map_def between_def race_driver_def)

lemma race_output_data [simp]:
  "ethercat_get_output_data (race_driver a b m r 1) 0 = (Some (OutBuf 0 (Suc 0)), 2, race_driver a b m r 1)"
  using demo_started_facts(6)
  by (simp add: ethercat_get_output_data_def race_driver_def ethercat_load_buffer_index_def buffer_addr_def Let_def)

abbreviation image0 :: "nat \<Rightarrow> u8 list" where "image0 \<equiv> \<lambda>i. outb (race_driver [1, 1] [1, 1] [0, 0] 0 1) i 0"
abbreviation image1 :: "nat \<Rightarrow> u8 list" where "image1 \<equiv> \<lambda>i. outb (race_driver [1, 1] [2, 2] [0, 1] 0 1) i (Suc 0)"

section \<open>The run\<close>

abbreviation race_run :: "unit EthercatDriver \<Rightarrow> plc_pc \<Rightarrow> rt_pc \<Rightarrow> (nat \<Rightarrow> u8 list) list \<Rightarrow> nat \<Rightarrow> nat \<Rightarrow> bool" where
  "race_run d plc rt pubs wrote latched \<equiv>
     ec_conc (demo_soem 3) demo_locals (race_driver [1, 1] [1, 1] [0, 0] 0 1) (race_state d plc rt pubs wrote latched)"

lemmas race_rules = race_state_def ethercat_load_buffer_index_def

lemma race_begin: "conc_begin demo_locals (race_driver [1, 1] [1, 1] [0, 0] 0 1) = race_state (race_driver [1, 1] [1, 1] [0, 0] 0 1) PL_Idle RT_Top [image0] 0 0"
  by (simp add: conc_begin_def race_state_def)

text \<open>The real-time thread copies the second byte; the PLC starts its cycle and copies the published image.\<close>

lemma race_first_byte:
  "race_run (race_driver [1, 1] [1, 1] [0, 1] 0 1) PL_Run (RT_Out 0 1 False {(0, 1)}) [image0] 1 1"
proof -
  from ec_conc_rt [OF ec_conc_begin [of "demo_soem 3" demo_locals "race_driver [1, 1] [1, 1] [0, 0] 0 1", unfolded race_begin] r_load_out [OF _ _ refl]]
  have "race_run (race_driver [1, 1] [1, 1] [0, 0] 0 1) PL_Idle (RT_Fault 0 1) [image0] 0 0" by (simp add: race_rules)
  from ec_conc_rt [OF this r_load_fault [of _ 0 1]]
  have "race_run (race_driver [1, 1] [1, 1] [0, 0] 0 1) PL_Idle (RT_Out 0 1 False {}) [image0] 0 0" by (simp add: race_rules)
  from ec_conc_rt [OF this r_byte [of _ 0 1 False "{}" 0 1, OF _ _ refl]]
  have "race_run (race_driver [1, 1] [1, 1] [0, 1] 0 1) PL_Idle (RT_Out 0 1 False {(0, 1)}) [image0] 0 0" by (simp add: race_rules)
  from ec_conc_plc [OF this p_latch [OF _ refl]]
  have "race_run (race_driver [1, 1] [1, 1] [0, 1] 0 1) PL_Rt (RT_Out 0 1 False {(0, 1)}) [image0] 0 1" by (simp add: race_rules)
  from ec_conc_plc [OF this p_load_rt [OF _ refl]]
  have "race_run (race_driver [1, 1] [1, 1] [0, 1] 0 1) (PL_Plc 0) (RT_Out 0 1 False {(0, 1)}) [image0] 0 1" by (simp add: race_rules)
  from ec_conc_plc [OF this p_load_plc [of _ 0, OF _ refl]]
  have "race_run (race_driver [1, 1] [1, 1] [0, 1] 0 1) (PL_Copy 0 1 {}) (RT_Out 0 1 False {(0, 1)}) [image0] 0 1" by (simp add: race_rules)
  from ec_conc_plc [OF this p_copy [of _ 0 1 "{}" 0 1]]
  have "race_run (race_driver [1, 1] [1, 1] [0, 1] 0 1) (PL_Copy 0 1 {(0, 1)}) (RT_Out 0 1 False {(0, 1)}) [image0] 1 1" by (simp add: race_rules)
  from ec_conc_plc [OF this p_copy [of _ 0 1 "{(0, 1)}" 0 0]]
  have "race_run (race_driver [1, 1] [1, 1] [0, 1] 0 1) (PL_Copy 0 1 {(0, 0), (0, 1)}) (RT_Out 0 1 False {(0, 1)}) [image0] 1 1" by (simp add: race_rules)
  from ec_conc_plc [OF this p_copied [of _ 0 1 "{(0, 0), (0, 1)}"]]
  show ?thesis by (simp add: race_rules)
qed

text \<open>The tasks write both bytes and the PLC publishes.\<close>

lemma race_published:
  "race_run (race_driver [1, 1] [2, 2] [0, 1] 1 0) PL_Idle (RT_Out 0 1 False {(0, 1)}) [image0, image1] 1 1"
proof -
  from ec_conc_plc [OF race_first_byte p_store [of _ 0 0 1 2 "race_driver [1, 1] [1, 1] [0, 1] 0 1" 0 2]]
  have "race_run (race_driver [1, 1] [2, 1] [0, 1] 0 1) PL_Run (RT_Out 0 1 False {(0, 1)}) [image0] 1 1" by (simp add: race_rules)
  from ec_conc_plc [OF this p_store [of _ 0 0 1 2 "race_driver [1, 1] [2, 1] [0, 1] 0 1" 1 2]]
  have "race_run (race_driver [1, 1] [2, 2] [0, 1] 0 1) PL_Run (RT_Out 0 1 False {(0, 1)}) [image0] 1 1" by (simp add: race_rules)
  from ec_conc_plc [OF this p_load_out [OF _ refl]]
  have "race_run (race_driver [1, 1] [2, 2] [0, 1] 0 1) (PL_Xchg 1) (RT_Out 0 1 False {(0, 1)}) [image0] 1 1" by (simp add: race_rules)
  from ec_conc_plc [OF this p_publish [of _ 1]]
  have "race_run (race_driver [1, 1] [2, 2] [0, 1] 1 1) (PL_Store 0) (RT_Out 0 1 False {(0, 1)}) [image0, image1] 1 1" by (simp add: race_rules)
  from ec_conc_plc [OF this p_end [of _ 0]]
  show ?thesis by (simp add: race_rules)
qed

text \<open>The PLC's next cycle writes to the buffer the real-time thread is still reading; it copies the first byte.\<close>

lemma race_torn:
  "race_run (race_driver [2, 1] [2, 2] [2, 1] 1 0) (PL_Copy 1 0 {(0, 0)}) (RT_Send 0 1 False) [image0, image1] (Suc (Suc 0)) 1"
proof -
  from ec_conc_plc [OF race_published p_latch [OF _ refl]]
  have "race_run (race_driver [1, 1] [2, 2] [0, 1] 1 0) PL_Rt (RT_Out 0 1 False {(0, 1)}) [image0, image1] 1 1" by (simp add: race_rules)
  from ec_conc_plc [OF this p_load_rt [OF _ refl]]
  have "race_run (race_driver [1, 1] [2, 2] [0, 1] 1 0) (PL_Plc 1) (RT_Out 0 1 False {(0, 1)}) [image0, image1] 1 1" by (simp add: race_rules)
  from ec_conc_plc [OF this p_load_plc [of _ 1, OF _ refl]]
  have "race_run (race_driver [1, 1] [2, 2] [0, 1] 1 0) (PL_Copy 1 0 {}) (RT_Out 0 1 False {(0, 1)}) [image0, image1] 1 1" by (simp add: race_rules)
  from ec_conc_plc [OF this p_copy [of _ 1 0 "{}" 0 0]]
  have "race_run (race_driver [2, 1] [2, 2] [0, 1] 1 0) (PL_Copy 1 0 {(0, 0)}) (RT_Out 0 1 False {(0, 1)}) [image0, image1] (Suc (Suc 0)) 1" by (simp add: race_rules)
  from ec_conc_rt [OF this r_byte [of _ 0 1 False "{(0, 1)}" 0 0, OF _ _ refl]]
  have "race_run (race_driver [2, 1] [2, 2] [2, 1] 1 0) (PL_Copy 1 0 {(0, 0)}) (RT_Out 0 1 False {(0, 0), (0, 1)}) [image0, image1] (Suc (Suc 0)) 1" by (simp add: race_rules)
  from ec_conc_rt [OF this r_copied [of _ 0 1 False "{(0, 0), (0, 1)}"]]
  show ?thesis by (simp add: race_rules)
qed

section \<open>Properties\<close>

text \<open>
  C99. The guarantee needs its proviso: when the PLC ends a cycle and begins the next one while
  the real-time thread is copying a frame, the frame that is sent can be a mixture. From buffers
  holding \<open>1, 1\<close> a run reaches a state in which the published images are \<open>1, 1\<close> and \<open>2, 2\<close>, no fault is
  latched, and the frame about to be sent is \<open>2, 1\<close>.
\<close>

theorem ec_frame_can_tear:
  "\<exists>c. ec_conc (demo_soem 3) demo_locals (race_driver [1, 1] [1, 1] [0, 0] 0 1) c \<and> cc_rt c = RT_Send 0 1 False
     \<and> fault_latched (cc_drv c) = 0 \<and> map (\<lambda>p. p 0) (cc_pubs c) = [[1, 1], [2, 2]]
     \<and> mem_get 0 (unat (out_size (devices (cc_drv c) ! 0))) (the (iomap (cc_drv c))) = [2, 1]"
proof -
  have "out_size (edev (race_driver a b m r ac) 0) = 2" for a b m r ac by (simp add: race_driver_def)
  then show ?thesis using race_torn by (intro exI conjI) (assumption | simp add: race_state_def mem_get_def)+
qed

end
