(* ===== verification/Ec_Alone.thy ===== *)
theory Ec_Alone
  imports Ec_Concurrent
begin

text \<open>
  The interleaved model of the driver against the sequential one: a thread that is not
  interrupted does in its single steps what \<^verbatim>\<open>rt_cycle\<close>, \<^verbatim>\<open>ethercat_cycle_begin\<close> and
  \<^verbatim>\<open>ethercat_cycle_end\<close> do in one. A driver is taken apart into its bytes, which the
  single steps change one at a time, and the rest, which the copies leave alone.
\<close>

section \<open>A driver is its bytes and the rest\<close>

datatype byte_at = In_Byte nat nat nat | Out_Byte nat nat nat | Map_Byte nat

definition buf_byte :: "u8 list option \<Rightarrow> nat \<Rightarrow> u8 option" where
  "buf_byte b j = (case b of None \<Rightarrow> None | Some bs \<Rightarrow> if j < length bs then Some (bs ! j) else None)"

definition bufs_byte :: "u8 list option list \<Rightarrow> nat \<Rightarrow> nat \<Rightarrow> u8 option" where
  "bufs_byte bs k j = (if k < length bs then buf_byte (bs ! k) j else None)"

fun byte_get :: "'x EthercatDriver \<Rightarrow> byte_at \<Rightarrow> u8 option" where
  "byte_get impl (In_Byte i k j) = (if i < length (devices impl) then bufs_byte (in_buffers (edev impl i)) k j else None)"
| "byte_get impl (Out_Byte i k j) = (if i < length (devices impl) then bufs_byte (out_buffers (edev impl i)) k j else None)"
| "byte_get impl (Map_Byte a) = buf_byte (iomap impl) a"

definition blank_buf :: "u8 list option \<Rightarrow> u8 list option" where
  "blank_buf = map_option (\<lambda>b. replicate (length b) 0)"

definition blank_dev :: "EthercatDevice \<Rightarrow> EthercatDevice" where
  "blank_dev d = d\<lparr>in_buffers := map blank_buf (in_buffers d), out_buffers := map blank_buf (out_buffers d)\<rparr>"

definition blank :: "'x EthercatDriver \<Rightarrow> 'x EthercatDriver" where
  "blank impl = impl\<lparr>devices := map blank_dev (devices impl), iomap := blank_buf (iomap impl)\<rparr>"

lemma blank_buf_length: "blank_buf b = blank_buf b' \<longleftrightarrow> map_option length b = map_option length b'"
  by (cases b; cases b') (auto simp: blank_buf_def dest: arg_cong [of _ _ length])

lemma buf_eqI: "blank_buf b = blank_buf b' \<Longrightarrow> (\<And>j. buf_byte b j = buf_byte b' j) \<Longrightarrow> b = b'"
proof -
  assume a: "blank_buf b = blank_buf b'" "\<And>j. buf_byte b j = buf_byte b' j"
  show ?thesis
  proof (cases b)
    case (Some x)
    then obtain y where y: "b' = Some y" "length x = length y" using a(1) by (cases b') (auto simp: blank_buf_length)
    have "x ! j = y ! j" if "j < length x" for j using a(2) [of j] that y Some by (simp add: buf_byte_def)
    then show ?thesis using y Some by (auto intro: nth_equalityI)
  qed (use a(1) in \<open>cases b'; auto simp: blank_buf_length\<close>)
qed

lemma bufs_eqI:
  assumes "map blank_buf bs = map blank_buf bs'" "\<And>k j. bufs_byte bs k j = bufs_byte bs' k j"
  shows "bs = bs'"
proof -
  have l: "length bs = length bs'" using arg_cong [OF assms(1), of length] by simp
  then show ?thesis
  proof (rule nth_equalityI)
    fix k assume k: "k < length bs"
    then have "blank_buf (bs ! k) = blank_buf (bs' ! k)" using l arg_cong [OF assms(1), of "\<lambda>xs. xs ! k"] by simp
    moreover have "buf_byte (bs ! k) j = buf_byte (bs' ! k) j" for j using assms(2) [of k j] k l by (simp add: bufs_byte_def)
    ultimately show "bs ! k = bs' ! k" by (rule buf_eqI)
  qed
qed

lemma blank_dev_eqI:
  assumes "blank_dev d = blank_dev d'" "in_buffers d = in_buffers d'" "out_buffers d = out_buffers d'"
  shows "d = d'"
  using assms by (cases d; cases d') (simp add: blank_dev_def)

lemma blankD:
  assumes "blank d = blank t"
  shows "map blank_dev (devices d) = map blank_dev (devices t)" "blank_buf (iomap d) = blank_buf (iomap t)"
    "length (devices d) = length (devices t)" "i < length (devices d) \<Longrightarrow> blank_dev (edev d i) = blank_dev (edev t i)"
proof -
  show b: "map blank_dev (devices d) = map blank_dev (devices t)" "blank_buf (iomap d) = blank_buf (iomap t)"
    using arg_cong [OF assms, of devices] arg_cong [OF assms, of iomap] by (simp_all add: blank_def)
  show l: "length (devices d) = length (devices t)" using arg_cong [OF b(1), of length] by simp
  show "i < length (devices d) \<Longrightarrow> blank_dev (edev d i) = blank_dev (edev t i)"
    using l arg_cong [OF b(1), of "\<lambda>xs. xs ! i"] by simp
qed

lemma driver_eqI:
  assumes "blank impl = blank impl'" "\<And>a. byte_get impl a = byte_get impl' a"
  shows "impl = impl'"
proof -
  note b = blankD [OF assms(1)]
  have "buf_byte (iomap impl) j = buf_byte (iomap impl') j" for j using assms(2) [of "Map_Byte j"] by simp
  then have "iomap impl = iomap impl'" by (rule buf_eqI [OF b(2)])
  moreover have "devices impl = devices impl'"
  proof (rule nth_equalityI [OF b(3)])
    fix i assume i: "i < length (devices impl)"
    note d = b(4) [OF i] and l = b(3)
    have "bufs_byte (in_buffers (edev impl i)) k j = bufs_byte (in_buffers (edev impl' i)) k j"
      "bufs_byte (out_buffers (edev impl i)) k j = bufs_byte (out_buffers (edev impl' i)) k j" for k j
      using assms(2) [of "In_Byte i k j"] assms(2) [of "Out_Byte i k j"] i l by simp_all
    note bytes = this
    have "map blank_buf (in_buffers (edev impl i)) = map blank_buf (in_buffers (edev impl' i))"
      "map blank_buf (out_buffers (edev impl i)) = map blank_buf (out_buffers (edev impl' i))"
      using arg_cong [OF d, of in_buffers] arg_cong [OF d, of out_buffers] by (simp_all add: blank_dev_def)
    then show "edev impl i = edev impl' i"
      using bufs_eqI [OF _ bytes(1)] bufs_eqI [OF _ bytes(2)] by (intro blank_dev_eqI [OF d]) simp_all
  qed
  moreover note \<open>iomap impl = iomap impl'\<close>
  ultimately have "(blank impl)\<lparr>devices := devices impl, iomap := iomap impl\<rparr> = (blank impl')\<lparr>devices := devices impl', iomap := iomap impl'\<rparr>"
    using assms(1) by simp
  then show ?thesis by (simp add: blank_def)
qed

section \<open>One byte changes\<close>

lemma buf_byte_update: "buf_byte (map_option (\<lambda>bs. bs[j := v]) b) j' = (if j' = j then map_option (\<lambda>_. v) (buf_byte b j) else buf_byte b j')"
  by (cases b) (auto simp: buf_byte_def)

lemma bufs_byte_update:
  "bufs_byte (bs[k := map_option (\<lambda>b. b[j := v]) (bs ! k)]) k' j' =
     (if k' = k \<and> j' = j then map_option (\<lambda>_. v) (bufs_byte bs k j) else bufs_byte bs k' j')"
  by (cases "k' = k") (auto simp: bufs_byte_def buf_byte_update)

lemma blank_buf_update: "blank_buf (map_option (\<lambda>b. b[j := v]) b) = blank_buf b"
  by (cases b) (simp_all add: blank_buf_def)

lemma map_blank_update: "map blank_buf (bs[k := map_option (\<lambda>b. b[j := v]) (bs ! k)]) = map blank_buf bs"
  by (rule nth_equalityI) (auto simp: nth_update_cases blank_buf_update)

lemma blank_put [simp]:
  "blank (put_out i k j v impl) = blank impl" "blank (put_in i k j v impl) = blank impl" "blank (put_map a v impl) = blank impl"
proof -
  have "map blank_dev ((devices impl)[i := d]) = map blank_dev (devices impl)" if "blank_dev d = blank_dev (edev impl i)" for d
    using that by (intro nth_equalityI) (auto simp: nth_update_cases)
  then show "blank (put_out i k j v impl) = blank impl" "blank (put_in i k j v impl) = blank impl"
    by (simp_all add: blank_def put_out_def put_in_def blank_dev_def map_blank_update)
  show "blank (put_map a v impl) = blank impl" by (simp add: blank_def put_map_def blank_buf_update)
qed

lemma byte_get_put:
  "byte_get (put_out i k j v impl) a = (if a = Out_Byte i k j then map_option (\<lambda>_. v) (byte_get impl a) else byte_get impl a)"
  "byte_get (put_in i k j v impl) a = (if a = In_Byte i k j then map_option (\<lambda>_. v) (byte_get impl a) else byte_get impl a)"
  "byte_get (put_map p v impl) a = (if a = Map_Byte p then map_option (\<lambda>_. v) (byte_get impl a) else byte_get impl a)"
  by (cases a; simp add: put_out_def put_in_def put_map_def nth_update_cases bufs_byte_update buf_byte_update; auto)+

section \<open>What the copies do to the bytes\<close>

text \<open>A driver between \<open>b\<close> and \<open>t\<close>: the bytes at the places \<open>A ` D\<close> are those of \<open>t\<close>, the others those of \<open>b\<close>.\<close>

definition mixed :: "('p \<Rightarrow> byte_at) \<Rightarrow> 'x EthercatDriver \<Rightarrow> 'x EthercatDriver \<Rightarrow> 'p set \<Rightarrow> 'x EthercatDriver \<Rightarrow> bool" where
  "mixed A b t D d \<longleftrightarrow> blank d = blank b \<and> (\<forall>a. byte_get d a = (if a \<in> A ` D then byte_get t a else byte_get b a))"

lemma mixed_begin: "mixed A b t {} b"
  by (simp add: mixed_def)

lemma byte_none: "blank d = blank t \<Longrightarrow> (byte_get d a = None) = (byte_get t a = None)"
proof -
  assume "blank d = blank t"
  note b = blankD [OF this]
  have buf: "(buf_byte x j = None) = (buf_byte y j = None)" if "blank_buf x = blank_buf y" for x y j
    using that by (cases x; cases y) (auto simp: blank_buf_length buf_byte_def)
  have bufs: "(bufs_byte xs k j = None) = (bufs_byte ys k j = None)" if e: "map blank_buf xs = map blank_buf ys" for xs ys k j
  proof -
    have "length xs = length ys" using arg_cong [OF e, of length] by simp
    moreover have "k < length xs \<Longrightarrow> blank_buf (xs ! k) = blank_buf (ys ! k)"
      using arg_cong [OF e, of "\<lambda>zs. zs ! k"] calculation by simp
    ultimately show ?thesis using buf [of "xs ! k" "ys ! k" j] by (simp add: bufs_byte_def)
  qed
  have dev: "map blank_buf (in_buffers (edev d i)) = map blank_buf (in_buffers (edev t i))"
    "map blank_buf (out_buffers (edev d i)) = map blank_buf (out_buffers (edev t i))" if "i < length (devices d)" for i
  proof -
    note e = b(4) [OF that]
    show "map blank_buf (in_buffers (edev d i)) = map blank_buf (in_buffers (edev t i))"
      "map blank_buf (out_buffers (edev d i)) = map blank_buf (out_buffers (edev t i))"
      using arg_cong [OF e, of in_buffers] arg_cong [OF e, of out_buffers] by (simp_all add: blank_dev_def)
  qed
  show ?thesis
  proof (cases a)
    case (In_Byte i k j)
    then show ?thesis using b(3) bufs [OF dev(1), of i k j] by simp
  next
    case (Out_Byte i k j)
    then show ?thesis using b(3) bufs [OF dev(2), of i k j] by simp
  next
    case (Map_Byte p)
    then show ?thesis using buf [OF b(2), of p] by simp
  qed
qed

lemma mixed_put:
  assumes "mixed A b t D d" "blank t = blank b" "byte_get t (A x) = Some v" "blank d' = blank d"
    and "\<And>a. byte_get d' a = (if a = A x then map_option (\<lambda>_. v) (byte_get d a) else byte_get d a)"
  shows "mixed A b t (insert x D) d'"
proof -
  have m: "blank d = blank b" "\<And>a. byte_get d a = (if a \<in> A ` D then byte_get t a else byte_get b a)"
    using assms(1) by (simp_all add: mixed_def)
  have "byte_get d (A x) \<noteq> None" using byte_none [of d t "A x"] m(1) assms(2,3) by simp
  then have "byte_get d' (A x) = byte_get t (A x)" using assms(3,5) by auto
  then show ?thesis using m assms(4,5) by (auto simp: mixed_def)
qed

lemma mixed_end:
  assumes "mixed A b t D d" "blank t = blank b" "\<And>a. a \<notin> A ` D \<Longrightarrow> byte_get t a = byte_get b a"
  shows "d = t"
proof (rule driver_eqI)
  show "blank d = blank t" using assms(1,2) by (simp add: mixed_def)
  show "byte_get d a = byte_get t a" for a
    using assms(1) assms(3) [of a] by (cases "a \<in> A ` D") (simp_all add: mixed_def)
qed

text \<open>The shape that a copy needs, seen from its start.\<close>

lemma fits_devs:
  assumes "fits b" "dev \<in> set (bound_devices b)"
  shows "dev_ok dev" "dev_mapped (length (the (iomap b))) dev"
proof -
  obtain i where i: "i < device_count b" "dev = edev b i"
    using assms(2) fitsD(1) [OF assms(1)] by (auto simp: bound_devices_def in_set_conv_nth)
  note f = fitsD [OF assms(1)]
  have two: "\<exists>k \<le> 1. x = bs ! k" if "x \<in> set bs" "length bs = 2" for x and bs :: "u8 list option list"
    using that by (auto simp: in_set_conv_nth less_2_cases_iff)
  show "dev_ok dev"
    using two [of "Some x" "in_buffers dev" for x] two [of "Some x" "out_buffers dev" for x] f(3,4,6,8) [OF i(1)] i(2)
    by (auto simp: dev_ok_def inb_def outb_def) (metis option.sel)+
  show "dev_mapped (length (the (iomap b))) dev"
    using f(9,10) [OF i(1)] i(2) by (auto simp: dev_mapped_def in_off_def out_off_def)
qed

lemma fits_apart:
  assumes "fits b"
  shows "regions_apart (bound_devices b)"
proof -
  have pairwise: "regions_apart ds" if "\<And>i j. i < j \<Longrightarrow> j < length ds \<Longrightarrow> out_region (ds ! j) \<inter> out_region (ds ! i) = {}" for ds
    using that
  proof (induction ds)
    case (Cons d ds)
    have "out_region e \<inter> out_region d = {}" if "e \<in> set ds" for e
      using that Cons.prems [of 0 "Suc k" for k] by (auto simp: in_set_conv_nth)
    moreover have "regions_apart ds" using Cons.prems [of "Suc i" "Suc j" for i j] by (intro Cons.IH) simp
    ultimately show ?case by simp
  qed simp
  have len: "device_count b \<le> length (devices b)" by (rule fitsD(1) [OF assms])
  have "out_region (edev b j) \<inter> out_region (edev b i) = {}" if "i < j" "j < device_count b" for i j
  proof -
    have pos: "(i', p - out_off b i') \<in> to_map b" "p = out_off b i' + (p - out_off b i')"
      if "p \<in> out_region (edev b i')" "i' < device_count b" for p i'
      using that by (auto simp: out_region_def to_map_def out_off_def split: option.splits)
    have "i = j" if "p \<in> out_region (edev b j)" "p \<in> out_region (edev b i)" for p
      using fitsD(11) [OF assms pos(1) [OF that(2)] pos(1) [OF that(1)]] pos(2) [OF that(1)] pos(2) [OF that(2)]
        \<open>i < j\<close> \<open>j < device_count b\<close> by simp
    then show ?thesis using \<open>i < j\<close> by auto
  qed
  then show ?thesis using len by (intro pairwise) (simp add: bound_devices_def)
qed

lemma nth_mem_get: "j < n \<Longrightarrow> off + n \<le> length m \<Longrightarrow> mem_get off n m ! j = m ! (off + j)"
  by (simp add: mem_get_def)

lemma put_loop_bytes:
  assumes "fits b" "iomap b = Some m" "\<And>dev. dev \<in> set (bound_devices b) \<Longrightarrow> length (f dev) = unat (out_size dev)"
    and "t = b\<lparr>iomap := Some (put_loop f (bound_devices b) m)\<rparr>"
  shows "blank t = blank b" "(i, j) \<in> to_map b \<Longrightarrow> byte_get t (Map_Byte (out_off b i + j)) = Some (f (edev b i) ! j)"
    "(\<And>i j. (i, j) \<in> to_map b \<Longrightarrow> a \<noteq> Map_Byte (out_off b i + j)) \<Longrightarrow> byte_get t a = byte_get b a"
proof -
  have devs: "\<forall>dev \<in> set (bound_devices b). dev_mapped (length m) dev \<and> length (f dev) = unat (out_size dev)"
    using fits_devs(2) [OF assms(1)] assms(2,3) by simp
  note l = length_put_loop [OF devs] and len = fitsD(1) [OF assms(1)]
  show "blank t = blank b" using l assms(2) by (simp add: assms(4) blank_def blank_buf_def)
  show "byte_get t (Map_Byte (out_off b i + j)) = Some (f (edev b i) ! j)" if pos: "(i, j) \<in> to_map b"
  proof -
    obtain off where i: "i < device_count b" "soem_outputs (edev b i) = Some off" "j < unat (out_size (edev b i))"
      using pos by (auto simp: to_map_def)
    have d: "edev b i \<in> set (bound_devices b)" using i(1) len by (intro bound_nth)
    have "mem_get off (unat (out_size (edev b i))) (put_loop f (bound_devices b) m) = f (edev b i)"
      by (rule mem_get_put_loop [OF devs fits_apart [OF assms(1)] d i(2)])
    moreover have "off + unat (out_size (edev b i)) \<le> length m" using devs d i(2) by (auto simp: dev_mapped_def)
    ultimately have "off + j < length m" "put_loop f (bound_devices b) m ! (off + j) = f (edev b i) ! j"
      using i(3) l nth_mem_get [of j "unat (out_size (edev b i))" off "put_loop f (bound_devices b) m"] by simp_all
    then show ?thesis using i(2) l by (simp add: assms(4) buf_byte_def out_off_def)
  qed
  show "byte_get t a = byte_get b a" if other: "\<And>i j. (i, j) \<in> to_map b \<Longrightarrow> a \<noteq> Map_Byte (out_off b i + j)"
  proof (cases a)
    case (Map_Byte p)
    have "p \<notin> out_region dev" if d: "dev \<in> set (bound_devices b)" for dev
    proof
      assume p: "p \<in> out_region dev"
      obtain i where i: "i < device_count b" "dev = edev b i" using d len by (auto simp: bound_devices_def in_set_conv_nth)
      then have "(i, p - out_off b i) \<in> to_map b" "p = out_off b i + (p - out_off b i)"
        using p by (auto simp: out_region_def to_map_def out_off_def split: option.splits)
      then show False using other Map_Byte by metis
    qed
    then have "p < length m \<Longrightarrow> put_loop f (bound_devices b) m ! p = m ! p" using nth_put_loop_other [OF devs] by blast
    then show ?thesis using Map_Byte l assms(2) by (simp add: assms(4) buf_byte_def)
  qed (simp_all add: assms(4))
qed

lemma map_bound_bytes:
  assumes "device_count b \<le> length (devices b)" "\<And>i. i < device_count b \<Longrightarrow> blank_dev (f (edev b i)) = blank_dev (edev b i)"
  shows "blank (map_bound f b) = blank b"
    "byte_get (map_bound f b) (In_Byte i k j) = (if i < device_count b then bufs_byte (in_buffers (f (edev b i))) k j else byte_get b (In_Byte i k j))"
    "byte_get (map_bound f b) (Out_Byte i k j) = (if i < device_count b then bufs_byte (out_buffers (f (edev b i))) k j else byte_get b (Out_Byte i k j))"
    "byte_get (map_bound f b) (Map_Byte p) = byte_get b (Map_Byte p)"
proof -
  let ?ds = "map f (bound_devices b) @ drop (device_count b) (devices b)"
  have l: "length ?ds = length (devices b)" using assms(1) by (simp add: bound_devices_def)
  have at: "?ds ! i = (if i < device_count b then f (edev b i) else edev b i)" if "i < length (devices b)" for i
    using that assms(1) by (simp add: bound_devices_def nth_append)
  have "map blank_dev ?ds = map blank_dev (devices b)"
    by (rule nth_equalityI) (use l at assms(2) in \<open>auto simp del: map_append\<close>)
  then show "blank (map_bound f b) = blank b" by (simp add: map_bound_eq blank_def del: map_append)
  show "byte_get (map_bound f b) (In_Byte i k j) = (if i < device_count b then bufs_byte (in_buffers (f (edev b i))) k j else byte_get b (In_Byte i k j))"
    "byte_get (map_bound f b) (Out_Byte i k j) = (if i < device_count b then bufs_byte (out_buffers (f (edev b i))) k j else byte_get b (Out_Byte i k j))"
    using l at [of i] assms(1) by (simp_all add: map_bound_eq)
  show "byte_get (map_bound f b) (Map_Byte p) = byte_get b (Map_Byte p)" by (simp add: map_bound_eq)
qed

text \<open>The outputs to the image.\<close>

lemma copy_out_bytes:
  assumes "fits b" "k \<le> 1" "t = ethercat_copy_out_to_iomap b k z"
  shows "blank t = blank b"
    "(i, j) \<in> to_map b \<Longrightarrow> byte_get t (Map_Byte (out_off b i + j)) =
       Some (if z \<or> out_buffers (edev b i) ! k = None then 0 else outb b i k ! j)"
    "(\<And>i j. (i, j) \<in> to_map b \<Longrightarrow> a \<noteq> Map_Byte (out_off b i + j)) \<Longrightarrow> byte_get t a = byte_get b a"
proof -
  obtain m where m: "iomap b = Some m" using fitsD(2) [OF assms(1)] by blast
  have devs: "\<forall>dev \<in> set (bound_devices b). dev_ok dev" using fits_devs(1) [OF assms(1)] by blast
  have t: "t = b\<lparr>iomap := Some (put_loop (device_out_bytes k z) (bound_devices b) m)\<rparr>"
    by (simp add: assms(3) ethercat_copy_out_to_iomap_def m copy_out_loop_put [OF devs assms(2)])
  have l: "length (device_out_bytes k z dev) = unat (out_size dev)" if "dev \<in> set (bound_devices b)" for dev
    using length_device_out_bytes [OF _ assms(2)] devs that by blast
  note p = put_loop_bytes [OF assms(1) m l t]
  show "blank t = blank b" by (rule p(1))
  show "(\<And>i j. (i, j) \<in> to_map b \<Longrightarrow> a \<noteq> Map_Byte (out_off b i + j)) \<Longrightarrow> byte_get t a = byte_get b a" by (rule p(3))
  have "device_out_bytes k z (edev b i) ! j = (if z \<or> out_buffers (edev b i) ! k = None then 0 else outb b i k ! j)"
    if "(i, j) \<in> to_map b"
    using that by (auto simp: device_out_bytes_def to_map_def outb_def split: option.split)
  then show "(i, j) \<in> to_map b \<Longrightarrow> byte_get t (Map_Byte (out_off b i + j)) =
       Some (if z \<or> out_buffers (edev b i) ! k = None then 0 else outb b i k ! j)"
    using p(2) by simp
qed

text \<open>A device whose buffers with a given index are filled.\<close>

lemma bufs_byte_fill:
  "k < length bs \<Longrightarrow> bs ! k = Some x \<Longrightarrow> length y = length x \<Longrightarrow>
     bufs_byte (bs[k := Some (overwrite y x)]) k' j' = (if k' = k then if j' < length x then Some (y ! j') else None else bufs_byte bs k' j')"
  by (auto simp: bufs_byte_def buf_byte_def overwrite_def)

lemma blank_fill:
  "bs ! k = Some x \<Longrightarrow> length y = length x \<Longrightarrow> map blank_buf (bs[k := Some (overwrite y x)]) = map blank_buf bs"
  by (rule nth_equalityI) (auto simp: nth_update_cases blank_buf_def overwrite_def)

text \<open>The inputs from the image.\<close>

lemma copy_in_bytes:
  assumes "fits b" "k \<le> 1" "t = ethercat_copy_iomap_to_in b k"
  shows "blank t = blank b"
    "(i, j) \<in> from_map b k \<Longrightarrow> byte_get t (In_Byte i k j) = Some (the (iomap b) ! (in_off b i + j))"
    "(\<And>i j. (i, j) \<in> from_map b k \<Longrightarrow> a \<noteq> In_Byte i k j) \<Longrightarrow> byte_get t a = byte_get b a"
proof -
  obtain m where m: "iomap b = Some m" using fitsD(2) [OF assms(1)] by blast
  let ?f = "copy_in_device m k"
  have t: "t = map_bound ?f b" by (simp add: assms(3) ethercat_copy_iomap_to_in_def m)
  note len = fitsD(1) [OF assms(1)]
  have dev: "?f (edev b i) = (case soem_inputs (edev b i) of None \<Rightarrow> edev b i
      | Some off \<Rightarrow> (edev b i)\<lparr>in_buffers := (in_buffers (edev b i))[k := Some (overwrite (mem_get off (unat (in_size (edev b i))) m) (inb b i k))]\<rparr>)"
    and x: "in_buffers (edev b i) ! k = Some (inb b i k)" "k < length (in_buffers (edev b i))"
    and y: "soem_inputs (edev b i) = Some off \<Longrightarrow> length (mem_get off (unat (in_size (edev b i))) m) = length (inb b i k)"
    if "i < device_count b" for i off
  proof -
    show x: "in_buffers (edev b i) ! k = Some (inb b i k)" "k < length (in_buffers (edev b i))"
      using fitsD(3,5) [OF assms(1) that] assms(2) by (auto simp: inb_def)
    have l: "length (inb b i k) = unat (in_size (edev b i))" by (rule fitsD(6) [OF assms(1) that assms(2)])
    show "soem_inputs (edev b i) = Some off \<Longrightarrow> length (mem_get off (unat (in_size (edev b i))) m) = length (inb b i k)"
      using fitsD(9) [OF assms(1) that] l m by (simp add: mem_get_def in_off_def)
    have same: "(in_buffers (edev b i))[k := Some (inb b i k)] = in_buffers (edev b i)" using x(1) by (metis list_update_id)
    show "?f (edev b i) = (case soem_inputs (edev b i) of None \<Rightarrow> edev b i
      | Some off \<Rightarrow> (edev b i)\<lparr>in_buffers := (in_buffers (edev b i))[k := Some (overwrite (mem_get off (unat (in_size (edev b i))) m) (inb b i k))]\<rparr>)"
    proof (cases "soem_inputs (edev b i)")
      case (Some off)
      show ?thesis
      proof (cases "in_size (edev b i) = 0")
        case True
        then have "overwrite (mem_get off (unat (in_size (edev b i))) m) (inb b i k) = inb b i k" by (simp add: overwrite_def mem_get_def)
        then show ?thesis using True Some same x(1) by (simp add: copy_in_device_def)
      qed (use Some x(1) in \<open>simp add: copy_in_device_def word_gt_0\<close>)
    qed (simp add: copy_in_device_def)
  qed
  have "blank_dev (?f (edev b i)) = blank_dev (edev b i)" if "i < device_count b" for i
    using blank_fill [OF x(1) [OF that] y [OF that]] by (auto simp: dev [OF that] blank_dev_def split: option.split)
  note p = map_bound_bytes [OF len this, folded t]
  show "blank t = blank b" by (rule p(1))
  have bytes: "bufs_byte (in_buffers (?f (edev b i))) k' j = (if k' = k \<and> (i, j) \<in> from_map b k
      then Some (m ! (in_off b i + j)) else bufs_byte (in_buffers (edev b i)) k' j)" if "i < device_count b" for i k' j
  proof (cases "soem_inputs (edev b i)")
    case None
    then show ?thesis using that by (simp add: dev [OF that] from_map_def)
  next
    case (Some off)
    have l: "length (inb b i k) = unat (in_size (edev b i))" by (rule fitsD(6) [OF assms(1) that assms(2)])
    have o: "off + unat (in_size (edev b i)) \<le> length m" using fitsD(9) [OF assms(1) that] Some m by (simp add: in_off_def)
    show ?thesis
      using bufs_byte_fill [OF x(2,1) [OF that] y [OF that Some], of k' j] Some that x(1) [OF that] l o
      by (auto simp: dev [OF that] from_map_def in_off_def mem_get_def bufs_byte_def buf_byte_def)
  qed
  show "(i, j) \<in> from_map b k \<Longrightarrow> byte_get t (In_Byte i k j) = Some (the (iomap b) ! (in_off b i + j))"
    using bytes [of i k j] p(2) [of i k j] m by (simp add: from_map_def)
  show "byte_get t a = byte_get b a" if other: "\<And>i j. (i, j) \<in> from_map b k \<Longrightarrow> a \<noteq> In_Byte i k j"
  proof (cases a)
    case (In_Byte i k' j)
    then show ?thesis using bytes [of i k' j] other [of i j] p(2) [of i k' j] len by auto
  next
    case (Out_Byte i k' j)
    have "i < device_count b \<Longrightarrow> out_buffers (?f (edev b i)) = out_buffers (edev b i)" by simp
    then show ?thesis using Out_Byte p(3) [of i k' j] len by simp
  next
    case (Map_Byte q)
    then show ?thesis using p(4) by simp
  qed
qed

text \<open>The published outputs to the staging buffer.\<close>

lemma copy_buffers_bytes:
  assumes "fits b" "src \<le> 1" "dst \<le> 1" "src \<noteq> dst" "t = ethercat_copy_out_buffers b src dst"
  shows "blank t = blank b"
    "(i, j) \<in> between b src dst \<Longrightarrow> byte_get t (Out_Byte i dst j) = Some (outb b i src ! j)"
    "(\<And>i j. (i, j) \<in> between b src dst \<Longrightarrow> a \<noteq> Out_Byte i dst j) \<Longrightarrow> byte_get t a = byte_get b a"
proof -
  let ?f = "copy_out_buffer src dst"
  have t: "t = map_bound ?f b" using assms(4,5) by (simp add: ethercat_copy_out_buffers_def)
  note len = fitsD(1) [OF assms(1)]
  have x: "out_buffers (edev b i) ! k = Some (outb b i k)" "k < length (out_buffers (edev b i))" "length (outb b i k) = unat (out_size (edev b i))"
    if "i < device_count b" "k \<le> 1" for i k
    using fitsD(4,7,8) [OF assms(1) that(1)] that(2) by (auto simp: outb_def)
  have dev: "?f (edev b i) = (edev b i)\<lparr>out_buffers := (out_buffers (edev b i))[dst := Some (overwrite (outb b i src) (outb b i dst))]\<rparr>"
    if "i < device_count b" for i
  proof (cases "out_size (edev b i) = 0")
    case True
    then have "overwrite (outb b i src) (outb b i dst) = outb b i dst" using x(3) [OF that assms(2)] by (simp add: overwrite_def)
    moreover have "(out_buffers (edev b i))[dst := Some (outb b i dst)] = out_buffers (edev b i)"
      using x(1) [OF that assms(3)] by (metis list_update_id)
    ultimately show ?thesis using True x(1) [OF that assms(2)] x(1) [OF that assms(3)] by (simp add: copy_out_buffer_def)
  next
    case False
    then show ?thesis using x(1,3) [OF that assms(2)] x(1) [OF that assms(3)] by (simp add: copy_out_buffer_def word_gt_0)
  qed
  have l: "length (outb b i src) = length (outb b i dst)" if "i < device_count b" for i
    using x(3) [OF that] assms(2,3) by simp
  have "blank_dev (?f (edev b i)) = blank_dev (edev b i)" if "i < device_count b" for i
    using blank_fill [OF x(1) [OF that assms(3)] l [OF that]] by (simp add: dev [OF that] blank_dev_def)
  note p = map_bound_bytes [OF len this, folded t]
  show "blank t = blank b" by (rule p(1))
  have bytes: "bufs_byte (out_buffers (?f (edev b i))) k j = (if k = dst \<and> (i, j) \<in> between b src dst
      then Some (outb b i src ! j) else bufs_byte (out_buffers (edev b i)) k j)" if "i < device_count b" for i k j
    using bufs_byte_fill [OF x(2,1) [OF that assms(3)] l [OF that], of k j] that x(1,3) [OF that assms(2)] x [OF that assms(3)]
    by (auto simp: dev [OF that] between_def bufs_byte_def buf_byte_def)
  show "(i, j) \<in> between b src dst \<Longrightarrow> byte_get t (Out_Byte i dst j) = Some (outb b i src ! j)"
    using bytes [of i dst j] p(3) [of i dst j] by (simp add: between_def)
  show "byte_get t a = byte_get b a" if other: "\<And>i j. (i, j) \<in> between b src dst \<Longrightarrow> a \<noteq> Out_Byte i dst j"
  proof (cases a)
    case (In_Byte i k j)
    have "i < device_count b \<Longrightarrow> in_buffers (?f (edev b i)) = in_buffers (edev b i)" by (simp add: dev)
    then show ?thesis using In_Byte p(2) [of i k j] len by simp
  next
    case (Out_Byte i k j)
    then show ?thesis using bytes [of i k j] other [of i j] p(3) [of i k j] len by auto
  next
    case (Map_Byte q)
    then show ?thesis using p(4) by simp
  qed
qed

text \<open>Clearing the outputs.\<close>

definition zero_place :: "'x EthercatDriver \<Rightarrow> nat \<times> nat \<times> nat \<Rightarrow> byte_at" where
  "zero_place b = (\<lambda>(i, k, j). if k < 2 then Out_Byte i k j else Map_Byte (out_off b i + j))"

lemma zero_bytes:
  assumes "fits b" "t = ethercat_zero_output_buffers b"
  shows "blank t = blank b" "x \<in> to_zero b \<Longrightarrow> byte_get t (zero_place b x) = Some 0"
    "a \<notin> zero_place b ` to_zero b \<Longrightarrow> byte_get t a = byte_get b a"
proof -
  obtain m where m: "iomap b = Some m" using fitsD(2) [OF assms(1)] by blast
  note len = fitsD(1) [OF assms(1)]
  let ?z = "\<lambda>dev. replicate (unat (out_size dev)) (0 :: u8)"
  let ?i = "b\<lparr>iomap := Some (put_loop ?z (bound_devices b) m)\<rparr>"
  note q = put_loop_bytes [where f = ?z, OF assms(1) m length_replicate refl]
  have t: "t = map_bound zero_out_device ?i"
    by (simp add: assms(2) ethercat_zero_output_buffers_def m zero_iomap_loop_put map_bound_def set_bound_def bound_devices_def)
  have x: "out_buffers (edev b i) ! k = Some (outb b i k)" "length (out_buffers (edev b i)) = 2" "length (outb b i k) = unat (out_size (edev b i))"
    if "i < device_count b" "k < 2" for i k
    using fitsD(4,7,8) [OF assms(1) that(1)] that(2) by (auto simp: outb_def)
  have bytes: "bufs_byte (out_buffers (zero_out_device (edev b i))) k j = (if k < 2 \<and> j < unat (out_size (edev b i)) then Some 0
      else bufs_byte (out_buffers (edev b i)) k j)" if "i < device_count b" for i k j
  proof (cases "k < 2")
    case True
    then show ?thesis using x [OF that True] by (auto simp: zero_out_device_def bufs_byte_def buf_byte_def overwrite_def)
  next
    case False
    then show ?thesis using x(2) [OF that, of 0] by (simp add: zero_out_device_def bufs_byte_def)
  qed
  have bl: "blank_dev (zero_out_device (edev ?i i)) = blank_dev (edev ?i i)" if "i < device_count ?i" for i
  proof -
    have i: "i < device_count b" using that by simp
    have k: "k < length (out_buffers (edev b i)) \<Longrightarrow> k < 2" for k using x(2) [OF i, of 0] by simp
    have "map blank_buf (out_buffers (zero_out_device (edev b i))) = map blank_buf (out_buffers (edev b i))"
      by (rule nth_equalityI) (auto simp: zero_out_device_def blank_buf_def overwrite_def x(1,3) [OF i k])
    moreover have "(zero_out_device (edev b i))\<lparr>in_buffers := xs, out_buffers := ys\<rparr> = (edev b i)\<lparr>in_buffers := xs, out_buffers := ys\<rparr>" for xs ys
      by (simp add: zero_out_device_def)
    ultimately show ?thesis by (simp add: blank_dev_def)
  qed
  have "device_count ?i \<le> length (devices ?i)" using len by simp
  note p = map_bound_bytes [OF this bl, folded t]
  show "blank t = blank b" using p(1) q(1) by simp
  show "byte_get t (zero_place b x) = Some 0" if "x \<in> to_zero b"
  proof -
    obtain i k j where x: "x = (i, k, j)" by (cases x)
    show ?thesis
    proof (cases "k < 2")
      case True
      then show ?thesis using that x bytes [of i k j] p(3) [of i k j] by (simp add: zero_place_def to_zero_def)
    next
      case False
      then have "(i, j) \<in> to_map b" "j < unat (out_size (edev b i))" using that x by (auto simp: to_zero_def to_map_def)
      then show ?thesis using False x q(2) p(4) by (simp add: zero_place_def)
    qed
  qed
  show "byte_get t a = byte_get b a" if other: "a \<notin> zero_place b ` to_zero b"
  proof (cases a)
    case (In_Byte i k j)
    then show ?thesis using p(2) [of i k j] len by simp
  next
    case (Out_Byte i k j)
    have "\<not> (i < device_count b \<and> k < 2 \<and> j < unat (out_size (edev b i)))"
    proof
      assume c: "i < device_count b \<and> k < 2 \<and> j < unat (out_size (edev b i))"
      then have "(i, k, j) \<in> to_zero b" using x(1) by (simp add: to_zero_def)
      then show False using other Out_Byte c by (auto simp: zero_place_def image_iff)
    qed
    then show ?thesis using Out_Byte bytes [of i k j] p(3) [of i k j] len by auto
  next
    case (Map_Byte a')
    have "Map_Byte a' \<noteq> Map_Byte (out_off b i + j)" if "(i, j) \<in> to_map b" for i j
    proof -
      have "(i, 2, j) \<in> to_zero b" using that by (auto simp: to_zero_def to_map_def)
      then have "zero_place b (i, 2, j) \<in> zero_place b ` to_zero b" by (rule imageI)
      moreover have "zero_place b (i, 2, j) = Map_Byte (out_off b i + j)" by (simp add: zero_place_def)
      ultimately show ?thesis using other Map_Byte by metis
    qed
    then show ?thesis using Map_Byte p(4) q(3) [of "Map_Byte a'"] by simp
  qed
qed

section \<open>What depends on the rest alone\<close>

lemma blank_dev_fields:
  assumes "blank_dev d = blank_dev d'"
  shows "soem_outputs d = soem_outputs d'" "soem_inputs d = soem_inputs d'" "out_size d = out_size d'" "in_size d = in_size d'"
  using arg_cong [OF assms, of soem_outputs] arg_cong [OF assms, of soem_inputs]
    arg_cong [OF assms, of out_size] arg_cong [OF assms, of in_size] by (simp_all add: blank_dev_def)

lemma blank_fields:
  assumes "blank d = blank b"
  shows "device_count d = device_count b" "fault_latched d = fault_latched b" "active_in_buffer_idx d = active_in_buffer_idx b"
    "active_out_buffer_idx d = active_out_buffer_idx b" "rt_out_buffer_idx d = rt_out_buffer_idx b"
    "plc_in_buffer_idx d = plc_in_buffer_idx b" "ec_state d = ec_state b" "dowkccheck d = dowkccheck b"
  using arg_cong [OF assms, of device_count] arg_cong [OF assms, of fault_latched] arg_cong [OF assms, of active_in_buffer_idx]
    arg_cong [OF assms, of active_out_buffer_idx] arg_cong [OF assms, of rt_out_buffer_idx] arg_cong [OF assms, of plc_in_buffer_idx]
    arg_cong [OF assms, of ec_state] arg_cong [OF assms, of dowkccheck] by (simp_all add: blank_def)

lemma blank_same:
  assumes "blank d = blank b" "fits b" "fits d"
  shows "to_map d = to_map b" "k \<le> 1 \<Longrightarrow> from_map d k = from_map b k"
    "src \<le> 1 \<Longrightarrow> dst \<le> 1 \<Longrightarrow> between d src dst = between b src dst" "to_zero d = to_zero b"
    "i < device_count b \<Longrightarrow> out_off d i = out_off b i" "i < device_count b \<Longrightarrow> in_off d i = in_off b i"
proof -
  have n: "device_count d = device_count b" by (rule blank_fields(1) [OF assms(1)])
  have dev: "soem_outputs (edev d i) = soem_outputs (edev b i)" "soem_inputs (edev d i) = soem_inputs (edev b i)"
    "out_size (edev d i) = out_size (edev b i)" "in_size (edev d i) = in_size (edev b i)" if "i < device_count b" for i
    by (rule blank_dev_fields [OF blankD(4) [OF assms(1)]]; use that fitsD(1) [OF assms(3)] n in simp)+
  have some: "in_buffers (edev d i) ! k \<noteq> None" "in_buffers (edev b i) ! k \<noteq> None"
    "out_buffers (edev d i) ! k \<noteq> None" "out_buffers (edev b i) ! k \<noteq> None" if "i < device_count b" "k \<le> 1" for i k
    using fitsD(5,7) [OF assms(2) that] fitsD(5,7) [OF assms(3) _ that(2), of i] that(1) n by auto
  show "to_map d = to_map b" by (auto simp: to_map_def n dev)
  show "k \<le> 1 \<Longrightarrow> from_map d k = from_map b k" using some(1,2) by (auto simp: from_map_def n dev)
  show "src \<le> 1 \<Longrightarrow> dst \<le> 1 \<Longrightarrow> between d src dst = between b src dst" using some(3,4) by (auto simp: between_def n dev)
  show "to_zero d = to_zero b" using some(3,4) by (auto simp: to_zero_def n dev)
  show "i < device_count b \<Longrightarrow> out_off d i = out_off b i" "i < device_count b \<Longrightarrow> in_off d i = in_off b i"
    by (simp_all add: out_off_def in_off_def dev)
qed

text \<open>Bytes read through the accessors of the interleaved model.\<close>

lemma byte_get_accessors:
  assumes "fits d"
  shows "i < device_count d \<Longrightarrow> k \<le> 1 \<Longrightarrow> j < unat (out_size (edev d i)) \<Longrightarrow> byte_get d (Out_Byte i k j) = Some (outb d i k ! j)"
    "(i, j) \<in> from_map d k \<Longrightarrow> byte_get d (Map_Byte (in_off d i + j)) = Some (the (iomap d) ! (in_off d i + j))"
proof -
  show "byte_get d (Out_Byte i k j) = Some (outb d i k ! j)" if i: "i < device_count d" "k \<le> 1" "j < unat (out_size (edev d i))"
  proof -
    obtain x where "out_buffers (edev d i) ! k = Some x" using fitsD(7) [OF assms i(1,2)] by blast
    then show ?thesis using fitsD(1) [OF assms] fitsD(4) [OF assms i(1)] fitsD(8) [OF assms i(1,2)] i
      by (simp add: bufs_byte_def buf_byte_def outb_def)
  qed
  show "byte_get d (Map_Byte (in_off d i + j)) = Some (the (iomap d) ! (in_off d i + j))" if p: "(i, j) \<in> from_map d k"
  proof -
    obtain m where m: "iomap d = Some m" using fitsD(2) [OF assms] by blast
    have i: "i < device_count d" "soem_inputs (edev d i) \<noteq> None" "j < unat (in_size (edev d i))" using p by (auto simp: from_map_def)
    then have "in_off d i + j < length m" using fitsD(9) [OF assms i(1,2)] m by simp
    then show ?thesis using m by (simp add: buf_byte_def)
  qed
qed

text \<open>A mixture of outputs still has the other bytes of its base.\<close>

lemma mixed_other: "mixed A b t D d \<Longrightarrow> a \<notin> range A \<Longrightarrow> byte_get d a = byte_get b a"
  by (auto simp: mixed_def)

section \<open>The real-time thread alone\<close>

lemma copied_frame:
  assumes "fits b" "fits d" "k \<le> 1" "mixed (\<lambda>(i, j). Map_Byte (out_off b i + j)) b (ethercat_copy_out_to_iomap b k z) D d"
    and "(i, j) \<in> to_map d - D" "v = (if z \<or> out_buffers (edev d i) ! k = None then 0 else outb d i k ! j)"
  shows "mixed (\<lambda>(i, j). Map_Byte (out_off b i + j)) b (ethercat_copy_out_to_iomap b k z) (insert (i, j) D) (put_map (out_off d i + j) v d)"
proof -
  let ?A = "\<lambda>(i, j). Map_Byte (out_off b i + j)"
  have bl: "blank d = blank b" using assms(4) by (simp add: mixed_def)
  note same = blank_same [OF bl assms(1,2)]
  have "(i, j) \<in> to_map d" "(i, j) \<in> to_map b" using assms(5) same(1) by simp_all
  then have ij: "(i, j) \<in> to_map b" "i < device_count b" "j < unat (out_size (edev b i))" "j < unat (out_size (edev d i))"
    by (auto simp: to_map_def)
  have "byte_get d (Out_Byte i k j) = byte_get b (Out_Byte i k j)" by (rule mixed_other [OF assms(4)]) auto
  then have "outb d i k ! j = outb b i k ! j"
    using byte_get_accessors(1) [OF assms(1) ij(2) assms(3) ij(3)] byte_get_accessors(1) [OF assms(2) _ assms(3) ij(4)]
      ij(2) blank_fields(1) [OF bl] by simp
  moreover have "out_buffers (edev d i) ! k \<noteq> None" "out_buffers (edev b i) ! k \<noteq> None"
    using fitsD(7) [OF assms(1) ij(2) assms(3)] fitsD(7) [OF assms(2) _ assms(3), of i] ij(2) blank_fields(1) [OF bl] by simp_all
  ultimately have v: "byte_get (ethercat_copy_out_to_iomap b k z) (?A (i, j)) = Some v"
    using copy_out_bytes(2) [OF assms(1,3) refl ij(1), of z] assms(6) by auto
  show ?thesis
    by (rule mixed_put [OF assms(4) copy_out_bytes(1) [OF assms(1,3) refl] v])
      (simp_all add: byte_get_put same(5) [OF ij(2)])
qed

lemma copied_frame_end:
  assumes "fits b" "k \<le> 1" "mixed (\<lambda>(i, j). Map_Byte (out_off b i + j)) b (ethercat_copy_out_to_iomap b k z) (to_map b) d"
  shows "d = ethercat_copy_out_to_iomap b k z"
proof (rule mixed_end [OF assms(3) copy_out_bytes(1) [OF assms(1,2) refl]])
  fix a assume "a \<notin> (\<lambda>(i, j). Map_Byte (out_off b i + j)) ` to_map b"
  then show "byte_get (ethercat_copy_out_to_iomap b k z) a = byte_get b a"
    by (intro copy_out_bytes(3) [OF assms(1,2) refl]) auto
qed

lemma copied_input:
  assumes "fits b" "fits d" "k \<le> 1" "mixed (\<lambda>(i, j). In_Byte i k j) b (ethercat_copy_iomap_to_in b k) D d"
    and "(i, j) \<in> from_map d k - D" "v = the (iomap d) ! (in_off d i + j)"
  shows "mixed (\<lambda>(i, j). In_Byte i k j) b (ethercat_copy_iomap_to_in b k) (insert (i, j) D) (put_in i k j v d)"
proof -
  have bl: "blank d = blank b" using assms(4) by (simp add: mixed_def)
  note same = blank_same [OF bl assms(1,2)]
  have ij: "(i, j) \<in> from_map b k" "(i, j) \<in> from_map d k" using assms(5) same(2) [OF assms(3)] by simp_all
  then have i: "i < device_count b" by (simp add: from_map_def)
  have "byte_get d (Map_Byte (in_off d i + j)) = byte_get b (Map_Byte (in_off d i + j))" by (rule mixed_other [OF assms(4)]) auto
  then have "byte_get (ethercat_copy_iomap_to_in b k) (In_Byte i k j) = Some v"
    using byte_get_accessors(2) [OF assms(1) ij(1)] byte_get_accessors(2) [OF assms(2) ij(2)]
      copy_in_bytes(2) [OF assms(1,3) refl ij(1)] assms(6) same(6) [OF i] by simp
  then show ?thesis
    using mixed_put [OF assms(4) copy_in_bytes(1) [OF assms(1,3) refl], of "(i, j)" v "put_in i k j v d"] by (simp add: byte_get_put)
qed

lemma copied_input_end:
  assumes "fits b" "k \<le> 1" "mixed (\<lambda>(i, j). In_Byte i k j) b (ethercat_copy_iomap_to_in b k) (from_map b k) d"
  shows "d = ethercat_copy_iomap_to_in b k"
proof (rule mixed_end [OF assms(3) copy_in_bytes(1) [OF assms(1,2) refl]])
  fix a assume "a \<notin> (\<lambda>(i, j). In_Byte i k j) ` from_map b k"
  then show "byte_get (ethercat_copy_iomap_to_in b k) a = byte_get b a"
    by (intro copy_in_bytes(3) [OF assms(1,2) refl]) auto
qed

lemma cleared_byte:
  assumes "fits b" "fits d" "mixed (zero_place b) b (ethercat_zero_output_buffers b) D d" "(i, k, j) \<in> to_zero d - D"
  shows "mixed (zero_place b) b (ethercat_zero_output_buffers b) (insert (i, k, j) D) (zero_byte i k j d)"
proof -
  have bl: "blank d = blank b" using assms(3) by (simp add: mixed_def)
  note same = blank_same [OF bl assms(1,2)]
  have x: "(i, k, j) \<in> to_zero b" using assms(4) same(4) by simp
  then have i: "i < device_count b" by (simp add: to_zero_def)
  show ?thesis
    by (rule mixed_put [OF assms(3) zero_bytes(1) [OF assms(1) refl] zero_bytes(2) [OF assms(1) refl x]])
      (simp_all add: byte_get_put zero_byte_def zero_place_def same(5) [OF i] del: byte_get.simps)
qed

lemma cleared_end:
  assumes "fits b" "mixed (zero_place b) b (ethercat_zero_output_buffers b) (to_zero b) d"
  shows "d = ethercat_zero_output_buffers b"
  using mixed_end [OF assms(2) zero_bytes(1) [OF assms(1) refl] zero_bytes(3) [OF assms(1) refl]] .

text \<open>The sequential cycle, cut at the exchange: the state before the inputs, and before the outputs are cleared.\<close>

definition after_exchange :: "'x soem \<Rightarrow> 'x EthercatDriver \<Rightarrow> 'x EthercatDriver" where
  "after_exchange S impl =
     (let (wkc, impl2) = ec_exchange S (rt_outputs impl) in rt_state_check S (impl2\<lparr>last_wkc := wkc\<rparr>))"

abbreviation cycle_wkc :: "'x soem \<Rightarrow> 'x EthercatDriver \<Rightarrow> int" where
  "cycle_wkc S impl \<equiv> fst (ec_exchange S (rt_outputs impl))"

definition before_clear :: "rt_locals \<Rightarrow> int \<Rightarrow> 'x EthercatDriver \<Rightarrow> 'x EthercatDriver" where
  "before_clear loc wkc impl = impl\<lparr>dowkccheck := bad_count loc wkc impl, fault_latched := 1\<rparr>"

lemma rt_cycle_cut:
  "rt_cycle S now (loc, impl) = rt_timing now loc (rt_supervise loc (cycle_wkc S impl) (rt_inputs (after_exchange S impl)))"
  by (simp add: rt_cycle_def after_exchange_def Let_def case_prod_unfold)

definition inputs_idx :: "'x EthercatDriver \<Rightarrow> nat" where
  "inputs_idx impl = nat (1 - active_in_buffer_idx impl)"

text \<open>Where the thread is in the cycle that starts in \<open>st\<close>.\<close>

definition rt_phase :: "'x soem \<Rightarrow> rt_locals \<times> 'x EthercatDriver \<Rightarrow> 'x EcConc \<Rightarrow> bool" where
  "rt_phase S st c = (let loc = fst st; impl = snd st; wkc0 = cycle_wkc S impl; b3 = after_exchange S impl;
       b5 = before_clear loc wkc0 (rt_inputs b3) in
     cc_loc c = loc \<and> (cc_rt c \<noteq> RT_Top \<longrightarrow> rt_should_run impl) \<and> (case cc_rt c of
       RT_Top \<Rightarrow> cc_drv c = impl
     | RT_Fault k n \<Rightarrow> cc_drv c = impl \<and> int k = rt_out_buffer_idx impl
     | RT_Out k n z D \<Rightarrow> fits impl \<and> int k = rt_out_buffer_idx impl \<and> z = (fault_latched impl \<noteq> 0)
         \<and> mixed (\<lambda>(i, j). Map_Byte (out_off impl i + j)) impl (ethercat_copy_out_to_iomap impl k z) D (cc_drv c)
     | RT_Send k n z \<Rightarrow> cc_drv c = rt_outputs impl
     | RT_Load wkc \<Rightarrow> wkc = wkc0 \<and> cc_drv c = b3
     | RT_In wkc k D \<Rightarrow> wkc = wkc0 \<and> fits b3 \<and> active_in_buffer_idx b3 \<in> {0, 1} \<and> k = inputs_idx b3
         \<and> mixed (\<lambda>(i, j). In_Byte i k j) b3 (ethercat_copy_iomap_to_in b3 k) D (cc_drv c)
     | RT_Sup wkc \<Rightarrow> wkc = wkc0 \<and> cc_drv c = rt_inputs b3
     | RT_Zero D \<Rightarrow> fits b5 \<and> rl_fail_threshold loc \<le> bad_count loc wkc0 (rt_inputs b3) \<and> fault_latched (rt_inputs b3) = 0
         \<and> mixed (zero_place b5) b5 (ethercat_zero_output_buffers b5) D (cc_drv c)
     | RT_Time \<Rightarrow> cc_drv c = rt_supervise loc wkc0 (rt_inputs b3)))"

lemma rt_outputs_01:
  "rt_out_buffer_idx impl \<in> {0, 1} \<Longrightarrow>
     rt_outputs impl = ethercat_copy_out_to_iomap impl (nat (rt_out_buffer_idx impl)) (fault_latched impl \<noteq> 0)"
  by (simp add: rt_outputs_def rt_load_out_def)

lemma rt_inputs_01:
  "active_in_buffer_idx impl \<in> {0, 1} \<Longrightarrow>
     rt_inputs impl = (ethercat_copy_iomap_to_in impl (inputs_idx impl))\<lparr>active_in_buffer_idx := int (inputs_idx impl)\<rparr>"
  by (auto simp: rt_inputs_def inputs_idx_def Let_def)

lemma rt_supervise_latched:
  assumes "rl_fail_threshold loc \<le> bad_count loc wkc impl" "fault_latched impl = 0"
  shows "rt_supervise loc wkc impl = (ethercat_zero_output_buffers (before_clear loc wkc impl))\<lparr>in_op :=
    ec_state impl = EC_STATE_OPERATIONAL \<and> bad_count loc wkc impl < rl_warn_threshold loc\<rparr>"
  using assms by (simp add: rt_supervise_cases before_clear_def bad_count_def Let_def)

text \<open>A step of the thread moves on in its cycle, or ends it.\<close>

lemma rt_phase_step:
  assumes "rt_step S c c'" "rt_phase S st c" "conc_ok c" "conc_ok c'"
  shows "rt_phase S st c' \<or> (cc_rt c' = RT_Top \<and> rt_should_run (snd st) \<and> (\<exists>now. rt_phase S (rt_cycle S now st) c'))"
proof -
  obtain loc impl where st: "st = (loc, impl)" by (cases st)
  let ?b3 = "after_exchange S impl"
  let ?b5 = "before_clear loc (cycle_wkc S impl) (rt_inputs ?b3)"
  note ok = conc_okD [OF assms(3)] and ok' = conc_okD [OF assms(4)]
  note ph = assms(2) [unfolded rt_phase_def st Let_def fst_conv snd_conv]
  note goal = rt_phase_def st Let_def fst_conv snd_conv
  show ?thesis
    using assms(1)
  proof cases
    case (r_load_out k)
    then have "cc_drv c = impl" "cc_loc c = loc" using ph by simp_all
    then show ?thesis using r_load_out ok(8) by (auto simp: goal)
  next
    case (r_load_fault k n)
    then have d: "cc_drv c = impl" "cc_loc c = loc" "int k = rt_out_buffer_idx impl" "rt_should_run impl" using ph by simp_all
    then show ?thesis using r_load_fault ok(1) by (simp add: goal mixed_begin)
  next
    case (r_byte k n z D i j v)
    have d: "fits impl" "int k = rt_out_buffer_idx impl" "z = (fault_latched impl \<noteq> 0)" "cc_loc c = loc" "rt_should_run impl"
      and m: "mixed (\<lambda>(i, j). Map_Byte (out_off impl i + j)) impl (ethercat_copy_out_to_iomap impl k z) D (cc_drv c)"
      using ph unfolding r_byte(2) rt_pc.case by blast+
    have "rt_out_buffer_idx (cc_drv c) = rt_out_buffer_idx impl" using m by (intro blank_fields) (simp add: mixed_def)
    then have "k \<le> 1" using ok(8) d(2) by auto
    from copied_frame [OF d(1) ok(1) this m] r_byte d show ?thesis by (simp add: goal)
  next
    case (r_copied k n z D)
    have d: "fits impl" "int k = rt_out_buffer_idx impl" "z = (fault_latched impl \<noteq> 0)" "cc_loc c = loc" "rt_should_run impl"
      and m: "mixed (\<lambda>(i, j). Map_Byte (out_off impl i + j)) impl (ethercat_copy_out_to_iomap impl k z) (to_map (cc_drv c)) (cc_drv c)"
      using ph unfolding r_copied(2) rt_pc.case r_copied(3) [symmetric] by blast+
    have bl: "blank (cc_drv c) = blank impl" using m by (simp add: mixed_def)
    have idx: "rt_out_buffer_idx impl \<in> {0, 1}" using ok(8) blank_fields(5) [OF bl] by simp
    then have "k \<le> 1" using d(2) by auto
    from copied_frame_end [OF d(1) this] m have "cc_drv c = ethercat_copy_out_to_iomap impl k z"
      by (simp add: blank_same(1) [OF bl d(1) ok(1)])
    then show ?thesis using r_copied d idx by (auto simp: goal rt_outputs_01 simp flip: d(2))
  next
    case (r_exchange k n z wkc impl2)
    then show ?thesis using ph by (simp add: goal after_exchange_def)
  next
    case (r_load_in wkc k)
    then have d: "cc_drv c = ?b3" "wkc = cycle_wkc S impl" "cc_loc c = loc" "rt_should_run impl" using ph by simp_all
    have k: "k = active_in_buffer_idx ?b3" using r_load_in(3) ok(7) d(1) by simp
    show ?thesis using r_load_in(1,2) d ok(1,7) by (auto simp: goal mixed_begin inputs_idx_def k)
  next
    case (r_in_byte wkc k D i j)
    have d: "wkc = cycle_wkc S impl" "fits ?b3" "active_in_buffer_idx ?b3 \<in> {0, 1}" "k = inputs_idx ?b3" "cc_loc c = loc" "rt_should_run impl"
      and m: "mixed (\<lambda>(i, j). In_Byte i k j) ?b3 (ethercat_copy_iomap_to_in ?b3 k) D (cc_drv c)"
      using ph unfolding r_in_byte(2) rt_pc.case by blast+
    have "k \<le> 1" using d(3,4) by (auto simp: inputs_idx_def)
    from copied_input [OF d(2) ok(1) this m r_in_byte(3) refl] r_in_byte(1,2) d show ?thesis by (simp add: goal)
  next
    case (r_in_publish wkc k D)
    have d: "wkc = cycle_wkc S impl" "fits ?b3" "active_in_buffer_idx ?b3 \<in> {0, 1}" "k = inputs_idx ?b3" "cc_loc c = loc" "rt_should_run impl"
      and m: "mixed (\<lambda>(i, j). In_Byte i k j) ?b3 (ethercat_copy_iomap_to_in ?b3 k) (from_map (cc_drv c) k) (cc_drv c)"
      using ph unfolding r_in_publish(2) rt_pc.case r_in_publish(3) [symmetric] by blast+
    have bl: "blank (cc_drv c) = blank ?b3" using m by (simp add: mixed_def)
    have k: "k \<le> 1" using d(3,4) by (auto simp: inputs_idx_def)
    from copied_input_end [OF d(2) k] m have "cc_drv c = ethercat_copy_iomap_to_in ?b3 k"
      by (simp add: blank_same(2) [OF bl d(2) ok(1) k])
    then show ?thesis using r_in_publish(1,2) d by (simp add: goal rt_inputs_01)
  next
    case (r_quiet wkc)
    then show ?thesis using ph by (simp add: goal)
  next
    case (r_fault wkc)
    then have d: "cc_drv c = rt_inputs ?b3" "wkc = cycle_wkc S impl" "cc_loc c = loc" "rt_should_run impl" using ph by simp_all
    then have "cc_drv c' = ?b5" using r_fault(1) by (simp add: before_clear_def)
    then show ?thesis using r_fault d ok'(1) by (simp add: goal mixed_begin)
  next
    case (r_zero D i k j)
    then have d: "fits ?b5" "rl_fail_threshold loc \<le> bad_count loc (cycle_wkc S impl) (rt_inputs ?b3)"
      "fault_latched (rt_inputs ?b3) = 0" "cc_loc c = loc" "rt_should_run impl"
      and m: "mixed (zero_place ?b5) ?b5 (ethercat_zero_output_buffers ?b5) D (cc_drv c)" using ph by simp_all
    from cleared_byte [OF d(1) ok(1) m r_zero(3)] r_zero(1,2) d show ?thesis by (simp add: goal)
  next
    case (r_zeroed D)
    then have d: "fits ?b5" "rl_fail_threshold loc \<le> bad_count loc (cycle_wkc S impl) (rt_inputs ?b3)"
      "fault_latched (rt_inputs ?b3) = 0" "cc_loc c = loc" "rt_should_run impl"
      and m: "mixed (zero_place ?b5) ?b5 (ethercat_zero_output_buffers ?b5) (to_zero (cc_drv c)) (cc_drv c)" using ph by simp_all
    have bl: "blank (cc_drv c) = blank ?b5" using m by (simp add: mixed_def)
    have "ec_state (cc_drv c) = ec_state (rt_inputs ?b3)" "dowkccheck (cc_drv c) = bad_count loc (cycle_wkc S impl) (rt_inputs ?b3)"
      using blank_fields(7,8) [OF bl] by (simp_all add: before_clear_def)
    moreover from cleared_end [OF d(1)] m have "cc_drv c = ethercat_zero_output_buffers ?b5"
      by (simp add: blank_same(4) [OF bl d(1) ok(1)])
    ultimately show ?thesis using r_zeroed(1) d by (simp add: goal rt_supervise_latched)
  next
    case (r_time now loc' impl')
    then have "cc_drv c = rt_supervise loc (cycle_wkc S impl) (rt_inputs ?b3)" "cc_loc c = loc" "rt_should_run impl" using ph by simp_all
    then have "rt_phase S (rt_cycle S now st) c'" "rt_should_run impl" using r_time(1,3) by (simp_all add: goal rt_cycle_cut)
    then show ?thesis using st r_time(1) by auto
  qed
qed

lemma rt_cycles_end:
  "rt_should_run (snd (rt_cycles S nows st)) \<Longrightarrow> rt_cycles S (nows @ [now]) st = rt_cycle S now (rt_cycles S nows st)"
  by (induction nows arbitrary: st) (auto split: if_splits)

lemma rt_alone:
  assumes "(rt_step S)\<^sup>*\<^sup>* c c'" "conc_ok c" "soem_image_ok S" "cc_rt c = RT_Top"
  shows "conc_ok c' \<and> (\<exists>nows. rt_phase S (rt_cycles S nows (cc_loc c, cc_drv c)) c')"
  using assms(1)
proof (induction rule: rtranclp_induct)
  case base
  have "rt_phase S (rt_cycles S [] (cc_loc c, cc_drv c)) c" using assms(4) by (simp add: rt_phase_def)
  then show ?case using assms(2) by blast
next
  case (step c1 c2)
  then obtain nows where p: "rt_phase S (rt_cycles S nows (cc_loc c, cc_drv c)) c1" and ok: "conc_ok c1" by blast
  have ok2: "conc_ok c2" by (rule rt_step_ok [OF step.hyps(2) ok assms(3)])
  from rt_phase_step [OF step.hyps(2) p ok ok2] show ?case using ok2 rt_cycles_end by metis
qed

text \<open>
  The thread is never stuck in a cycle: from every place it has steps of its own to the end of
  the cycle. A copy that has bytes left can move any of them.
\<close>

lemma copy_loop:
  assumes "finite U" "Q D c" "D \<subseteq> U"
    and step: "\<And>c D a. Q D c \<Longrightarrow> a \<in> U - D \<Longrightarrow> \<exists>c'. R c c' \<and> Q (insert a D) c'"
  shows "\<exists>c'. R\<^sup>*\<^sup>* c c' \<and> Q U c'"
  using assms(2,3)
proof (induction "card (U - D)" arbitrary: c D)
  case 0
  then have "D = U" using assms(1) by auto
  then show ?case using 0(2) by blast
next
  case (Suc n)
  have "U - D \<noteq> {}" using Suc.hyps(2) by (metis card.empty nat.distinct(1))
  then obtain a where a: "a \<in> U - D" by blast
  from step [OF Suc.prems(1) a] obtain c' where c': "R c c'" "Q (insert a D) c'" by blast
  have "U - insert a D = (U - D) - {a}" by blast
  then have "n = card (U - insert a D)" using card_Diff_singleton [OF a] Suc.hyps(2) by (metis diff_Suc_1)
  from Suc.hyps(1) [OF this c'(2)] a Suc.prems(2) obtain d where "R\<^sup>*\<^sup>* c' d" "Q U d" by blast
  then show ?case using converse_rtranclp_into_rtranclp [of R, OF c'(1)] by blast
qed

lemma finite_bytes:
  "finite (to_map impl)" "finite (from_map impl k)" "finite (to_zero impl)" "finite (between impl src dst)"
proof -
  let ?n = "device_count impl" and ?b = "\<lambda>sz. \<Union>i<device_count impl. {..<unat (sz (edev impl i))}"
  have f: "finite (?b sz)" for sz by simp
  show "finite (to_map impl)" by (rule finite_subset [of _ "{..<?n} \<times> ?b out_size"]) (use f in \<open>auto simp: to_map_def\<close>)
  show "finite (from_map impl k)" by (rule finite_subset [of _ "{..<?n} \<times> ?b in_size"]) (use f in \<open>auto simp: from_map_def\<close>)
  show "finite (to_zero impl)" by (rule finite_subset [of _ "{..<?n} \<times> {..<3} \<times> ?b out_size"]) (use f in \<open>auto simp: to_zero_def\<close>)
  show "finite (between impl src dst)" by (rule finite_subset [of _ "{..<?n} \<times> ?b out_size"]) (use f in \<open>auto simp: between_def\<close>)
qed

lemma sets_byte [simp]:
  "to_zero (zero_byte i b j impl) = to_zero impl" "between (put_out i b j v impl) = between impl"
  by (simp_all add: to_zero_def between_def zero_byte_def fun_eq_iff set_eq_iff del: not_None_eq)

definition rt_inner :: "'x soem \<Rightarrow> 'x EcConc \<Rightarrow> 'x EcConc \<Rightarrow> bool" where
  "rt_inner S c c' \<longleftrightarrow> rt_step S c c' \<and> cc_rt c' \<noteq> RT_Top"

definition to_time :: "'x soem \<Rightarrow> 'x EcConc \<Rightarrow> bool" where
  "to_time S c \<longleftrightarrow> (\<exists>c'. (rt_inner S)\<^sup>*\<^sup>* c c' \<and> cc_rt c' = RT_Time)"

lemma to_time_run: "(rt_inner S)\<^sup>*\<^sup>* c c' \<Longrightarrow> to_time S c' \<Longrightarrow> to_time S c"
  unfolding to_time_def by (meson rtranclp_trans)

lemma to_time_step: "rt_step S c c' \<Longrightarrow> cc_rt c' \<noteq> RT_Top \<Longrightarrow> to_time S c' \<Longrightarrow> to_time S c"
  by (rule to_time_run [OF r_into_rtranclp]) (simp_all add: rt_inner_def)

lemma to_time_Time: "cc_rt c = RT_Time \<Longrightarrow> to_time S c"
  unfolding to_time_def by blast

lemma to_time_Zero: "cc_rt c = RT_Zero {} \<Longrightarrow> to_time S c"
proof -
  assume c: "cc_rt c = RT_Zero {}"
  let ?Q = "\<lambda>D d. cc_rt d = RT_Zero D \<and> to_zero (cc_drv d) = to_zero (cc_drv c)"
  have step: "\<exists>d'. rt_inner S d d' \<and> ?Q (insert a D) d'" if "?Q D d" "a \<in> to_zero (cc_drv c) - D" for D d a
  proof -
    obtain i b j where a: "a = (i, b, j)" by (cases a)
    let ?e = "d\<lparr>cc_rt := RT_Zero (insert a D), cc_drv := zero_byte i b j (cc_drv d)\<rparr>"
    have "rt_step S d ?e" unfolding a by (rule r_zero) (use that a in auto)
    then show ?thesis using that(1) by (intro exI [of _ ?e]) (simp add: rt_inner_def)
  qed
  have "\<exists>d. (rt_inner S)\<^sup>*\<^sup>* c d \<and> ?Q (to_zero (cc_drv c)) d"
    by (rule copy_loop [of "to_zero (cc_drv c)" ?Q "{}" c "rt_inner S", OF finite_bytes(3) _ _ step]) (simp_all add: c)
  then obtain d where d: "(rt_inner S)\<^sup>*\<^sup>* c d" "?Q (to_zero (cc_drv c)) d" by blast
  from d(2) show ?thesis
    by (intro to_time_run [OF d(1)] to_time_step [OF r_zeroed [of _ "to_zero (cc_drv c)"] _ to_time_Time]) simp_all
qed

lemma to_time_Sup:
  assumes "cc_rt c = RT_Sup wkc"
  shows "to_time S c"
proof (cases "rl_fail_threshold (cc_loc c) \<le> bad_count (cc_loc c) wkc (cc_drv c) \<and> fault_latched (cc_drv c) = 0")
  case True
  then show ?thesis by (intro to_time_step [OF r_fault [OF assms]]) (simp_all add: to_time_Zero)
next
  case False
  then show ?thesis by (intro to_time_step [OF r_quiet [OF assms]]) (simp_all add: to_time_Time)
qed

lemma to_time_In: "cc_rt c = RT_In wkc k {} \<Longrightarrow> to_time S c"
proof -
  assume c: "cc_rt c = RT_In wkc k {}"
  let ?Q = "\<lambda>D d. cc_rt d = RT_In wkc k D \<and> from_map (cc_drv d) k = from_map (cc_drv c) k"
  have step: "\<exists>d'. rt_inner S d d' \<and> ?Q (insert a D) d'" if "?Q D d" "a \<in> from_map (cc_drv c) k - D" for D d a
  proof -
    obtain i j where a: "a = (i, j)" by (cases a)
    show ?thesis using r_in_byte [of d wkc k D i j S] that a
      by (intro exI [of _ "d\<lparr>cc_rt := RT_In wkc k (insert a D), cc_stored := length (cc_rcvs d),
          cc_drv := put_in i k j (the (iomap (cc_drv d)) ! (in_off (cc_drv d) i + j)) (cc_drv d)\<rparr>"])
        (simp add: rt_inner_def)
  qed
  have "\<exists>d. (rt_inner S)\<^sup>*\<^sup>* c d \<and> ?Q (from_map (cc_drv c) k) d"
    by (rule copy_loop [of "from_map (cc_drv c) k" ?Q "{}" c "rt_inner S", OF finite_bytes(2) _ _ step]) (simp_all add: c)
  then obtain d where d: "(rt_inner S)\<^sup>*\<^sup>* c d" "?Q (from_map (cc_drv c) k) d" by blast
  from d(2) show ?thesis
    by (intro to_time_run [OF d(1)] to_time_step [OF r_in_publish [of _ wkc k "from_map (cc_drv c) k"] _ to_time_Sup]) simp_all
qed

lemma to_time_Out: "cc_rt c = RT_Out k n z {} \<Longrightarrow> to_time S c"
proof -
  assume c: "cc_rt c = RT_Out k n z {}"
  let ?Q = "\<lambda>D d. cc_rt d = RT_Out k n z D \<and> to_map (cc_drv d) = to_map (cc_drv c)"
  have step: "\<exists>d'. rt_inner S d d' \<and> ?Q (insert a D) d'" if "?Q D d" "a \<in> to_map (cc_drv c) - D" for D d a
  proof -
    obtain i j where a: "a = (i, j)" by (cases a)
    define v where "v = (if z \<or> out_buffers (edev (cc_drv d) i) ! k = None then 0 else outb (cc_drv d) i k ! j)"
    let ?e = "d\<lparr>cc_rt := RT_Out k n z (insert a D), cc_drv := put_map (out_off (cc_drv d) i + j) v (cc_drv d)\<rparr>"
    have "rt_step S d ?e" unfolding a by (rule r_byte [OF _ _ v_def]) (use that a in auto)
    then show ?thesis using that(1) by (intro exI [of _ ?e]) (simp add: rt_inner_def)
  qed
  have "\<exists>d. (rt_inner S)\<^sup>*\<^sup>* c d \<and> ?Q (to_map (cc_drv c)) d"
    by (rule copy_loop [of "to_map (cc_drv c)" ?Q "{}" c "rt_inner S", OF finite_bytes(1) _ _ step]) (simp_all add: c)
  then obtain d where d: "(rt_inner S)\<^sup>*\<^sup>* c d" "?Q (to_map (cc_drv c)) d" by blast
  obtain wkc impl where ex: "ec_exchange S (cc_drv d) = (wkc, impl)" by fastforce
  have "to_time S (d\<lparr>cc_rt := RT_Load wkc, cc_drv := rt_state_check S (impl\<lparr>last_wkc := wkc\<rparr>)\<rparr>)"
    by (rule to_time_step [OF r_load_in [OF _ refl] _ to_time_In]) simp_all
  then have "to_time S (d\<lparr>cc_rt := RT_Send k n z\<rparr>)" by - (rule to_time_step [OF r_exchange [of _ k n z]], simp_all add: ex)
  with d(2) have "to_time S d" by - (rule to_time_step [OF r_copied [of _ k n z "to_map (cc_drv c)"]], simp_all)
  then show ?thesis by (rule to_time_run [OF d(1)])
qed

text \<open>So for every clock value a pass of \<^verbatim>\<open>rt_cycle\<close> is a run of the thread.\<close>

lemma rt_inner_run: "(rt_inner S)\<^sup>*\<^sup>* c c' \<Longrightarrow> (rt_step S)\<^sup>*\<^sup>* c c'"
  by (induction rule: rtranclp_induct) (simp, unfold rt_inner_def, blast intro: rtranclp.rtrancl_into_rtrancl)

lemma rt_cycle_run:
  assumes "conc_ok c" "soem_image_ok S" "cc_rt c = RT_Top" "rt_should_run (cc_drv c)"
  shows "\<exists>c'. (rt_step S)\<^sup>*\<^sup>* c c' \<and> cc_rt c' = RT_Top \<and> (cc_loc c', cc_drv c') = rt_cycle S now (cc_loc c, cc_drv c)"
proof -
  let ?st = "(cc_loc c, cc_drv c)"
  have "to_time S c"
    by (rule to_time_step [OF r_load_out [OF assms(3,4) refl] _ to_time_step [OF r_load_fault _ to_time_Out]]) simp_all
  then obtain d where d: "(rt_inner S)\<^sup>*\<^sup>* c d" "cc_rt d = RT_Time" by (auto simp: to_time_def)
  from d(1) have "conc_ok d \<and> rt_phase S ?st d"
  proof (induction rule: rtranclp_induct)
    case base
    then show ?case using assms(1,3) by (simp add: rt_phase_def)
  next
    case (step c1 c2)
    then show ?case using rt_phase_step [of S c1 c2 ?st] rt_step_ok [of S c1 c2] assms(2) by (auto simp: rt_inner_def)
  qed
  then have p: "cc_loc d = cc_loc c"
    "cc_drv d = rt_supervise (cc_loc c) (cycle_wkc S (cc_drv c)) (rt_inputs (after_exchange S (cc_drv c)))"
    using d(2) by (simp_all add: rt_phase_def Let_def)
  obtain loc impl where t: "rt_timing now (cc_loc d) (cc_drv d) = (loc, impl)" by fastforce
  have "(rt_step S)\<^sup>*\<^sup>* c (d\<lparr>cc_rt := RT_Top, cc_loc := loc, cc_drv := impl\<rparr>)"
    by (rule rtranclp.rtrancl_into_rtrancl [OF rt_inner_run [OF d(1)] r_time [OF d(2) t]])
  then show ?thesis using t by (intro exI conjI) (assumption | simp add: p rt_cycle_cut)+
qed

lemma rt_cycles_run:
  assumes "conc_ok c" "soem_image_ok S" "cc_rt c = RT_Top"
  shows "\<exists>c'. (rt_step S)\<^sup>*\<^sup>* c c' \<and> cc_rt c' = RT_Top \<and> (cc_loc c', cc_drv c') = rt_cycles S nows (cc_loc c, cc_drv c)"
  using assms(1,3)
proof (induction nows arbitrary: c)
  case Nil
  then show ?case by auto
next
  case (Cons now nows)
  show ?case
  proof (cases "rt_should_run (cc_drv c)")
    case True
    from rt_cycle_run [OF Cons.prems(1) assms(2) Cons.prems(2) True] obtain d where
      d: "(rt_step S)\<^sup>*\<^sup>* c d" "cc_rt d = RT_Top" "(cc_loc d, cc_drv d) = rt_cycle S now (cc_loc c, cc_drv c)" by blast
    have "conc_ok d" using rt_alone [OF d(1) Cons.prems(1) assms(2) Cons.prems(2)] by simp
    from Cons.IH [OF this d(2)] obtain c' where "(rt_step S)\<^sup>*\<^sup>* d c'" "cc_rt c' = RT_Top"
      "(cc_loc c', cc_drv c') = rt_cycles S nows (cc_loc d, cc_drv d)" by blast
    then show ?thesis using d True rtranclp_trans [OF d(1)] by auto
  next
    case False
    then show ?thesis using Cons.prems by auto
  qed
qed

section \<open>The PLC's thread alone\<close>

text \<open>
  What the PLC's thread does to a driver through the operations of the driver: the flag is set
  between \<^verbatim>\<open>cycle_begin\<close> and \<^verbatim>\<open>cycle_end\<close>, where it stores through the pointer it
  is given.
\<close>

inductive plc_ops :: "'x EthercatDriver \<Rightarrow> bool \<Rightarrow> 'x EthercatDriver \<Rightarrow> bool" for impl where
  ops_start: "plc_ops impl False impl"
| ops_begin: "plc_ops impl False d \<Longrightarrow> plc_ops impl True (ethercat_cycle_begin d)"
| ops_store: "plc_ops impl True d \<Longrightarrow> ethercat_get_output_data d dev = (Some a, sz, d') \<Longrightarrow> j < unat sz \<Longrightarrow>
    plc_ops impl True (ec_buf_store d' a ((ec_buf_load d' a)[j := v]))"
| ops_end: "plc_ops impl True d \<Longrightarrow> plc_ops impl False (ethercat_cycle_end d)"

definition plc_phase :: "'x EthercatDriver \<Rightarrow> 'x EcConc \<Rightarrow> bool" where
  "plc_phase impl c = (case cc_plc c of
       PL_Idle \<Rightarrow> plc_ops impl False (cc_drv c)
     | PL_Rt \<Rightarrow> (\<exists>d. plc_ops impl False d \<and> cc_drv c = d\<lparr>plc_in_buffer_idx := active_in_buffer_idx d\<rparr>)
     | PL_Plc src \<Rightarrow> (\<exists>d. plc_ops impl False d \<and> cc_drv c = d\<lparr>plc_in_buffer_idx := active_in_buffer_idx d\<rparr>)
     | PL_Copy src dst D \<Rightarrow> (\<exists>d. plc_ops impl False d \<and> (let b = d\<lparr>plc_in_buffer_idx := active_in_buffer_idx d\<rparr> in fits b
           \<and> mixed (\<lambda>(i, j). Out_Byte i dst j) b (ethercat_copy_out_buffers b src dst) D (cc_drv c)))
     | PL_Run \<Rightarrow> plc_ops impl True (cc_drv c)
     | PL_Xchg k \<Rightarrow> plc_ops impl True (cc_drv c)
     | PL_Store prev \<Rightarrow> (\<exists>d. plc_ops impl True d \<and> cc_drv c = d\<lparr>rt_out_buffer_idx := active_out_buffer_idx d\<rparr> \<and> prev = rt_out_buffer_idx d))"

lemma cycle_begin_01:
  assumes "active_in_buffer_idx d \<in> {0, 1}" "rt_out_buffer_idx d \<in> {0, 1}" "active_out_buffer_idx d \<in> {0, 1}"
  shows "ethercat_cycle_begin d = ethercat_copy_out_buffers (d\<lparr>plc_in_buffer_idx := active_in_buffer_idx d\<rparr>)
    (nat (rt_out_buffer_idx d)) (nat (active_out_buffer_idx d))"
  using assms by (simp add: ethercat_cycle_begin_def Let_def)

lemma cycle_end_01:
  assumes "rt_out_buffer_idx d \<in> {0, 1}" "active_out_buffer_idx d \<in> {0, 1}"
  shows "ethercat_cycle_end d = d\<lparr>rt_out_buffer_idx := active_out_buffer_idx d, active_out_buffer_idx := rt_out_buffer_idx d\<rparr>"
  using assms by (auto simp: ethercat_cycle_end_def Let_def)

text \<open>Storing one byte is storing the buffer with that byte changed.\<close>

lemma store_byte:
  assumes "out_buffers (edev d i) ! k \<noteq> None"
  shows "put_out i k j v d = ec_buf_store d (OutBuf i k) ((ec_buf_load d (OutBuf i k))[j := v])"
  using assms by (auto simp: put_out_def ec_buf_store_def ec_buf_load_def)

lemma copied_output:
  assumes "fits b" "fits d" "src \<le> 1" "dst \<le> 1" "src \<noteq> dst"
    and "mixed (\<lambda>(i, j). Out_Byte i dst j) b (ethercat_copy_out_buffers b src dst) D d" "(i, j) \<in> between d src dst - D"
  shows "mixed (\<lambda>(i, j). Out_Byte i dst j) b (ethercat_copy_out_buffers b src dst) (insert (i, j) D)
    (put_out i dst j (outb d i src ! j) d)"
proof -
  have bl: "blank d = blank b" using assms(6) by (simp add: mixed_def)
  note same = blank_same [OF bl assms(1,2)]
  have "(i, j) \<in> between d src dst" "(i, j) \<in> between b src dst" using assms(7) same(3) [OF assms(3,4)] by simp_all
  then have ij: "(i, j) \<in> between b src dst" "i < device_count b" "j < unat (out_size (edev b i))" "j < unat (out_size (edev d i))"
    by (auto simp: between_def)
  have "byte_get d (Out_Byte i src j) = byte_get b (Out_Byte i src j)" by (rule mixed_other [OF assms(6)]) (use assms(5) in auto)
  then have "outb d i src ! j = outb b i src ! j"
    using byte_get_accessors(1) [OF assms(1) ij(2) assms(3) ij(3)] byte_get_accessors(1) [OF assms(2) _ assms(3) ij(4)]
      ij(2) blank_fields(1) [OF bl] by simp
  then have v: "byte_get (ethercat_copy_out_buffers b src dst) ((\<lambda>(i, j). Out_Byte i dst j) (i, j)) = Some (outb d i src ! j)"
    using copy_buffers_bytes(2) [OF assms(1,3-5) refl ij(1)] by simp
  show ?thesis
    by (rule mixed_put [OF assms(6) copy_buffers_bytes(1) [OF assms(1,3-5) refl] v]) (simp_all add: byte_get_put del: byte_get.simps)
qed

lemma copied_output_end:
  assumes "fits b" "src \<le> 1" "dst \<le> 1" "src \<noteq> dst"
    and "mixed (\<lambda>(i, j). Out_Byte i dst j) b (ethercat_copy_out_buffers b src dst) (between b src dst) d"
  shows "d = ethercat_copy_out_buffers b src dst"
proof (rule mixed_end [OF assms(5) copy_buffers_bytes(1) [OF assms(1-4) refl]])
  fix a assume "a \<notin> (\<lambda>(i, j). Out_Byte i dst j) ` between b src dst"
  then show "byte_get (ethercat_copy_out_buffers b src dst) a = byte_get b a"
    by (intro copy_buffers_bytes(3) [OF assms(1-4) refl]) auto
qed

lemma plc_phase_step:
  assumes "plc_step c c'" "plc_phase impl c" "conc_ok c" "conc_ok c'"
  shows "plc_phase impl c'"
proof -
  note ok = conc_okD [OF assms(3)] and ok' = conc_okD [OF assms(4)]
  note ph = assms(2) [unfolded plc_phase_def]
  show ?thesis
    using assms(1)
  proof cases
    case (p_latch k)
    then show ?thesis using ph ok(7) by (auto simp: plc_phase_def)
  next
    case (p_load_rt k)
    then show ?thesis using ph ok(8) by (simp add: plc_phase_def)
  next
    case (p_load_plc src k)
    then obtain d where d: "plc_ops impl False d" "cc_drv c = d\<lparr>plc_in_buffer_idx := active_in_buffer_idx d\<rparr>" using ph by auto
    have k: "k = active_out_buffer_idx (cc_drv c)" using p_load_plc(3) ok(9) by auto
    have "int src = rt_out_buffer_idx (cc_drv c)" "active_out_buffer_idx (cc_drv c) = 1 - rt_out_buffer_idx (cc_drv c)"
      using ok(2) p_load_plc(2) by (simp_all add: idx_inv_def)
    then have "src \<noteq> nat k" using k ok(9) by auto
    then show ?thesis using p_load_plc(1,2) d ok(1,9) k by (auto simp: plc_phase_def mixed_begin Let_def)
  next
    case (p_copy src dst D i j)
    then obtain d b where d: "plc_ops impl False d" and eq: "b = d\<lparr>plc_in_buffer_idx := active_in_buffer_idx d\<rparr>" and b: "fits b"
      and m: "mixed (\<lambda>(i, j). Out_Byte i dst j) b (ethercat_copy_out_buffers b src dst) D (cc_drv c)"
      using ph by (auto simp: Let_def)
    have k: "src \<le> 1" "dst \<le> 1" "src \<noteq> dst" using ok(2,8) p_copy(2) by (auto simp: idx_inv_def)
    from copied_output [OF b ok(1) k m p_copy(3)] p_copy(1,2) d b eq show ?thesis by (auto simp: plc_phase_def Let_def)
  next
    case (p_copied src dst D)
    then obtain d b where d: "plc_ops impl False d" and eq: "b = d\<lparr>plc_in_buffer_idx := active_in_buffer_idx d\<rparr>" and b: "fits b"
      and m: "mixed (\<lambda>(i, j). Out_Byte i dst j) b (ethercat_copy_out_buffers b src dst) (between (cc_drv c) src dst) (cc_drv c)"
      using ph by (auto simp: Let_def)
    have k: "src \<le> 1" "dst \<le> 1" "src \<noteq> dst" using ok(2,8) p_copied(2) by (auto simp: idx_inv_def)
    have bl: "blank (cc_drv c) = blank b" using m by (simp add: mixed_def)
    have idx: "active_in_buffer_idx d \<in> {0, 1}" "rt_out_buffer_idx d \<in> {0, 1}" "active_out_buffer_idx d \<in> {0, 1}"
      "int src = rt_out_buffer_idx d" "int dst = active_out_buffer_idx d"
      using blank_fields(3-5) [OF bl] ok(2,7-9) p_copied(2) by (auto simp: idx_inv_def eq)
    have "mixed (\<lambda>(i, j). Out_Byte i dst j) b (ethercat_copy_out_buffers b src dst) (between b src dst) (cc_drv c)"
      using m by (simp add: blank_same(3) [OF bl b ok(1) k(1,2)])
    then have "cc_drv c = ethercat_copy_out_buffers b src dst" by (rule copied_output_end [OF b k])
    also have "\<dots> = ethercat_cycle_begin d" using cycle_begin_01 [OF idx(1-3)] by (simp add: eq flip: idx(4,5))
    finally show ?thesis using p_copied(1) ops_begin [OF d] by (simp add: plc_phase_def)
  next
    case (p_store dev i k sz impl' j v)
    then have o: "plc_ops impl True (cc_drv c)" using ph by simp
    have "out_buffers (edev impl' i) ! k \<noteq> None"
      using p_store(3) by (auto simp: ethercat_get_output_data_def buffer_addr_def Let_def split: if_splits option.splits)
    then show ?thesis using ops_store [OF o p_store(3,4), of v] p_store(1,2) store_byte [of impl' i k j v] by (simp add: plc_phase_def)
  next
    case (p_load_out k)
    then show ?thesis using ph ok(9) by (simp add: plc_phase_def)
  next
    case (p_publish k)
    then have "plc_ops impl True (cc_drv c)" "k = active_out_buffer_idx (cc_drv c)" using ph ok(2) by (auto simp: idx_inv_def)
    then show ?thesis using p_publish(1) ok(8) by (auto simp: plc_phase_def Let_def)
  next
    case (p_end prev)
    then obtain d where d: "plc_ops impl True d" "cc_drv c = d\<lparr>rt_out_buffer_idx := active_out_buffer_idx d\<rparr>" "prev = rt_out_buffer_idx d"
      using ph by auto
    have idx: "rt_out_buffer_idx d \<in> {0, 1}" "active_out_buffer_idx d \<in> {0, 1}"
      using ok(2,9) p_end(2) d(2,3) by (auto simp: idx_inv_def)
    show ?thesis using p_end(1) d ops_end [OF d(1)] cycle_end_01 [OF idx] by (simp add: plc_phase_def)
  qed
qed

lemma plc_alone:
  assumes "plc_step\<^sup>*\<^sup>* c c'" "conc_ok c" "cc_plc c = PL_Idle"
  shows "conc_ok c' \<and> plc_phase (cc_drv c) c'"
  using assms(1)
proof (induction rule: rtranclp_induct)
  case base
  then show ?case using assms(2,3) ops_start by (simp add: plc_phase_def)
next
  case (step c1 c2)
  then show ?case using plc_step_ok plc_phase_step by blast
qed

text \<open>
  Conversely every such sequence of operations is a run of the thread: \<^verbatim>\<open>cycle_begin\<close> with its
  copy can be run to its end, and so can \<^verbatim>\<open>cycle_end\<close>.
\<close>

lemma plc_copy_run:
  assumes "cc_plc c = PL_Copy src dst {}" "conc_ok c" "src \<le> 1" "dst \<le> 1" "src \<noteq> dst"
  shows "\<exists>c'. plc_step\<^sup>*\<^sup>* c c' \<and> cc_plc c' = PL_Run \<and> cc_drv c' = ethercat_copy_out_buffers (cc_drv c) src dst"
proof -
  let ?b = "cc_drv c" and ?U = "between (cc_drv c) src dst"
  let ?Q = "\<lambda>D d. cc_plc d = PL_Copy src dst D \<and> between (cc_drv d) src dst = ?U \<and> conc_ok d
    \<and> mixed (\<lambda>(i, j). Out_Byte i dst j) ?b (ethercat_copy_out_buffers ?b src dst) D (cc_drv d)"
  note ok = conc_okD(1) [OF assms(2)]
  have step: "\<exists>d'. plc_step d d' \<and> ?Q (insert a D) d'" if "?Q D d" "a \<in> ?U - D" for D d a
  proof -
    obtain i j where a: "a = (i, j)" by (cases a)
    let ?e = "d\<lparr>cc_plc := PL_Copy src dst (insert a D), cc_wrote := length (cc_pubs d),
      cc_drv := put_out i dst j (outb (cc_drv d) i src ! j) (cc_drv d)\<rparr>"
    have q: "cc_plc d = PL_Copy src dst D" "between (cc_drv d) src dst = ?U" "conc_ok d"
      "mixed (\<lambda>(i, j). Out_Byte i dst j) ?b (ethercat_copy_out_buffers ?b src dst) D (cc_drv d)" using that(1) by blast+
    have st: "plc_step d ?e" unfolding a by (rule p_copy [OF q(1)]) (use that(2) q(2) a in blast)
    have "(i, j) \<in> between (cc_drv d) src dst - D" using that(2) q(2) a by blast
    from copied_output [OF ok conc_okD(1) [OF q(3)] assms(3-5) q(4) this] plc_step_ok [OF st q(3)] st show ?thesis
      using q(2) a by (intro exI [of _ ?e] conjI) simp_all
  qed
  have "\<exists>d. plc_step\<^sup>*\<^sup>* c d \<and> ?Q ?U d"
    by (rule copy_loop [of ?U ?Q "{}" c plc_step, OF finite_bytes(4) _ _ step]) (simp_all add: assms(1,2) mixed_begin)
  then obtain d where d: "plc_step\<^sup>*\<^sup>* c d" "cc_plc d = PL_Copy src dst ?U" "between (cc_drv d) src dst = ?U"
    "mixed (\<lambda>(i, j). Out_Byte i dst j) ?b (ethercat_copy_out_buffers ?b src dst) ?U (cc_drv d)" by blast
  have "plc_step\<^sup>*\<^sup>* c (d\<lparr>cc_plc := PL_Run\<rparr>)"
    by (rule rtranclp.rtrancl_into_rtrancl [OF d(1) p_copied [OF d(2)]]) (simp add: d(3))
  then show ?thesis using copied_output_end [OF ok assms(3-5) d(4)] by (intro exI [of _ "d\<lparr>cc_plc := PL_Run\<rparr>"]) simp
qed

lemma plc_begin_run:
  assumes "conc_ok c" "cc_plc c = PL_Idle"
  shows "\<exists>c'. plc_step\<^sup>*\<^sup>* c c' \<and> cc_plc c' = PL_Run \<and> cc_drv c' = ethercat_cycle_begin (cc_drv c)"
proof -
  let ?d = "cc_drv c" and ?src = "nat (rt_out_buffer_idx (cc_drv c))" and ?dst = "nat (active_out_buffer_idx (cc_drv c))"
  let ?b = "?d\<lparr>plc_in_buffer_idx := active_in_buffer_idx ?d\<rparr>"
  let ?c1 = "c\<lparr>cc_plc := PL_Rt, cc_latched := length (cc_rcvs c), cc_drv := ?b\<rparr>"
  let ?c2 = "?c1\<lparr>cc_plc := PL_Plc ?src, cc_drv := ?b\<rparr>" and ?c3 = "?c1\<lparr>cc_plc := PL_Copy ?src ?dst {}, cc_drv := ?b\<rparr>"
  note ok = conc_okD [OF assms(1)]
  have idx: "?src \<le> 1" "?dst \<le> 1" "?src \<noteq> ?dst" using ok(2,8) assms(2) by (auto simp: idx_inv_def)
  have load: "ethercat_load_buffer_index (active_in_buffer_idx ?d) 0 = active_in_buffer_idx ?d"
    "ethercat_load_buffer_index (rt_out_buffer_idx ?d) 0 = rt_out_buffer_idx ?d"
    "ethercat_load_buffer_index (active_out_buffer_idx ?d) 1 = active_out_buffer_idx ?d" using ok(7-9) by auto
  have "plc_step c ?c1" using p_latch [OF assms(2) refl] by (simp add: load)
  moreover have "plc_step ?c1 ?c2" using p_load_rt [of ?c1, OF _ refl] by (simp add: load)
  moreover have "plc_step ?c2 ?c3" using p_load_plc [of ?c2 ?src, OF _ refl] idx(3) load(3) by simp
  ultimately have run: "plc_step\<^sup>*\<^sup>* c ?c3" and "conc_ok ?c3"
    using plc_step_ok assms(1) by (blast intro: converse_rtranclp_into_rtranclp)+
  from plc_copy_run [OF _ this(2) idx] obtain c' where "plc_step\<^sup>*\<^sup>* ?c3 c'" "cc_plc c' = PL_Run"
    "cc_drv c' = ethercat_copy_out_buffers ?b ?src ?dst" by auto
  then show ?thesis using rtranclp_trans [OF run] cycle_begin_01 [OF ok(7-9)] by auto
qed

lemma plc_end_run:
  assumes "conc_ok c" "cc_plc c = PL_Run"
  shows "\<exists>c'. plc_step\<^sup>*\<^sup>* c c' \<and> cc_plc c' = PL_Idle \<and> cc_drv c' = ethercat_cycle_end (cc_drv c)"
proof -
  let ?d = "cc_drv c" and ?r = "rt_out_buffer_idx (cc_drv c)" and ?k = "active_out_buffer_idx (cc_drv c)"
  let ?c1 = "c\<lparr>cc_plc := PL_Xchg ?k, cc_drv := ?d\<rparr>"
  let ?c2 = "?c1\<lparr>cc_plc := PL_Store ?r, cc_pubs := cc_pubs c @ [\<lambda>i. outb ?d i (nat ?k)], cc_drv := ?d\<lparr>rt_out_buffer_idx := ?k\<rparr>\<rparr>"
  let ?c3 = "?c2\<lparr>cc_plc := PL_Idle, cc_drv := ?d\<lparr>rt_out_buffer_idx := ?k, active_out_buffer_idx := ?r\<rparr>\<rparr>"
  note ok = conc_okD [OF assms(1)]
  have load: "ethercat_load_buffer_index ?k 1 = ?k" "\<not> (?r < 0 \<or> ?r > 1)" using ok(8,9) by auto
  have "plc_step c ?c1" using p_load_out [OF assms(2) refl] load(1) by simp
  moreover have "plc_step ?c1 ?c2" using p_publish [of ?c1 ?k] load(2) by (simp add: Let_def)
  moreover have "plc_step ?c2 ?c3" using p_end [of ?c2 ?r] by simp
  ultimately have "plc_step\<^sup>*\<^sup>* c ?c3" by (blast intro: converse_rtranclp_into_rtranclp)
  then show ?thesis using cycle_end_01 [OF ok(8,9)] by (intro exI [of _ ?c3]) simp
qed

lemma plc_ops_run:
  assumes "plc_ops (cc_drv c) b d" "conc_ok c" "cc_plc c = PL_Idle"
  shows "\<exists>c'. plc_step\<^sup>*\<^sup>* c c' \<and> cc_plc c' = (if b then PL_Run else PL_Idle) \<and> cc_drv c' = d"
  using assms(1)
proof induction
  case ops_start
  then show ?case using assms(3) by auto
next
  case (ops_begin d)
  then obtain c1 where c1: "plc_step\<^sup>*\<^sup>* c c1" "cc_plc c1 = PL_Idle" "cc_drv c1 = d" by auto
  have "conc_ok c1" using plc_alone [OF c1(1) assms(2,3)] by simp
  from plc_begin_run [OF this c1(2)] show ?case using rtranclp_trans [OF c1(1)] c1(3) by auto
next
  case (ops_store d dev a sz d' j v)
  then obtain c1 where c1: "plc_step\<^sup>*\<^sup>* c c1" "cc_plc c1 = PL_Run" "cc_drv c1 = d" by auto
  obtain i k where a: "a = OutBuf i k" and n: "out_buffers (edev d' i) ! k \<noteq> None"
    using ops_store.hyps(2) by (auto simp: ethercat_get_output_data_def buffer_addr_def Let_def split: if_splits option.splits)
  from p_store [OF c1(2) ops_store.hyps(2) [unfolded a, folded c1(3)] ops_store.hyps(3), of v]
  have "plc_step c1 (c1\<lparr>cc_wrote := length (cc_pubs c1), cc_drv := put_out i k j v d'\<rparr>)" .
  from rtranclp.rtrancl_into_rtrancl [OF c1(1) this] show ?case using c1(2) store_byte [OF n, of j v] a by auto
next
  case (ops_end d)
  then obtain c1 where c1: "plc_step\<^sup>*\<^sup>* c c1" "cc_plc c1 = PL_Run" "cc_drv c1 = d" by auto
  have "conc_ok c1" using plc_alone [OF c1(1) assms(2,3)] by simp
  from plc_end_run [OF this c1(2)] show ?case using rtranclp_trans [OF c1(1)] c1(3) by auto
qed

section \<open>Properties\<close>

text \<open>
  C19. The interleaved model refines the sequential one, and loses nothing of it: from every state the
  two threads can reach together, whatever order the bytes of a copy are moved in, the pairs of locals
  and driver that the real-time thread, run without interruption, can have at the top of its loop are those that
  passes of \<^verbatim>\<open>rt_cycle\<close> produce, one for each list of clock values; the drivers that the PLC's
  thread can leave between its cycles, and inside one, are those that \<^verbatim>\<open>cycle_begin\<close>, stores
  through the pointers the driver hands out, and \<^verbatim>\<open>cycle_end\<close>, in this order, produce.
\<close>

theorem ec_alone_sequential:
  assumes "ec_run S P impl" "soem_image_ok S" "soem_map_ok S" "regions_apart (bound_devices impl)" "ec_conc S loc impl c"
  shows "(cc_rt c = RT_Top \<longrightarrow> {(cc_loc c', cc_drv c') | c'. (rt_step S)\<^sup>*\<^sup>* c c' \<and> cc_rt c' = RT_Top}
        = range (\<lambda>nows. rt_cycles S nows (cc_loc c, cc_drv c)))
    \<and> (cc_plc c = PL_Idle \<longrightarrow>
        {cc_drv c' | c'. plc_step\<^sup>*\<^sup>* c c' \<and> cc_plc c' = PL_Idle} = {d. plc_ops (cc_drv c) False d}
        \<and> {cc_drv c' | c'. plc_step\<^sup>*\<^sup>* c c' \<and> cc_plc c' = PL_Run} = {d. plc_ops (cc_drv c) True d})"
proof (intro conjI impI)
  have ok: "conc_ok c" by (rule ec_conc_ok [OF assms(5) ec_run_good [OF assms(1-3)] assms(4,2)])
  show "{(cc_loc c', cc_drv c') | c'. (rt_step S)\<^sup>*\<^sup>* c c' \<and> cc_rt c' = RT_Top}
      = range (\<lambda>nows. rt_cycles S nows (cc_loc c, cc_drv c))" (is "?L = ?R") if top: "cc_rt c = RT_Top"
  proof
    show "?L \<subseteq> ?R" using rt_alone [OF _ ok assms(2) top] by (fastforce simp: rt_phase_def)
    show "?R \<subseteq> ?L"
    proof (rule subsetI, elim rangeE)
      fix x nows
      assume "x = rt_cycles S nows (cc_loc c, cc_drv c)"
      then show "x \<in> ?L" using rt_cycles_run [OF ok assms(2) top, of nows] unfolding mem_Collect_eq by metis
    qed
  qed
  assume idle: "cc_plc c = PL_Idle"
  note fwd = plc_alone [OF _ ok idle] and bwd = plc_ops_run [OF _ ok idle]
  show "{cc_drv c' | c'. plc_step\<^sup>*\<^sup>* c c' \<and> cc_plc c' = PL_Idle} = {d. plc_ops (cc_drv c) False d}"
    using fwd bwd [of False] by (fastforce simp: plc_phase_def)
  show "{cc_drv c' | c'. plc_step\<^sup>*\<^sup>* c c' \<and> cc_plc c' = PL_Run} = {d. plc_ops (cc_drv c) True d}"
    using fwd bwd [of True] by (fastforce simp: plc_phase_def)
qed

text \<open>
  On the example driver, from the start: two passes of the loop, and a whole cycle of the PLC, are runs.
\<close>

lemma ec_alone_sequential_witness:
  "(\<exists>c'. (rt_step (demo_soem 3))\<^sup>*\<^sup>* (conc_begin demo_locals demo_started) c' \<and> cc_rt c' = RT_Top
      \<and> (cc_loc c', cc_drv c') = rt_cycles (demo_soem 3) [0, 1000000] (demo_locals, demo_started))
   \<and> (\<exists>c'. plc_step\<^sup>*\<^sup>* (conc_begin demo_locals demo_started) c' \<and> cc_plc c' = PL_Idle
      \<and> cc_drv c' = ethercat_cycle_end (ethercat_cycle_begin demo_started))"
proof -
  let ?c = "conc_begin demo_locals demo_started"
  have c: "cc_rt ?c = RT_Top" "cc_plc ?c = PL_Idle" "cc_loc ?c = demo_locals" "cc_drv ?c = demo_started" by (simp_all add: conc_begin_def)
  note t = ec_alone_sequential [OF demo_started_run demo_soem_ok demo_started_facts(11) ec_conc_begin, of demo_locals, unfolded c]
  note rt = t [THEN conjunct1, rule_format, OF refl, THEN equalityD2, THEN subsetD, OF rangeI, of "[0, 1000000]", unfolded mem_Collect_eq]
  have "plc_ops demo_started False (ethercat_cycle_end (ethercat_cycle_begin demo_started))"
    by (intro ops_end ops_begin ops_start)
  note plc = t [THEN conjunct2, rule_format, OF refl, THEN conjunct1, THEN equalityD2, THEN subsetD, OF CollectI, OF this, unfolded mem_Collect_eq]
  from rt plc show ?thesis by metis
qed

end
