(* ===== verification/Ec_Diag.thy ===== *)
theory Ec_Diag
  imports Ec_Backend Runtime
begin

text \<open>
  The diagnostics that the main thread prints every second while the program runs:
  \<^verbatim>\<open>app/diag/ethercat_diag.c\<close>. The result is the list of the printed lines; nothing is
  changed. The loads are atomic one by one, so the values of a line can be from different
  cycles; here they are those of one state.
\<close>

definition dec_int :: "int \<Rightarrow> string" where
  "dec_int x = (if x < 0 then CHR ''-'' # dec_nat (nat (- x)) else dec_nat (nat x))"

definition ethercat_log_driver :: "'x EthercatDriver BackendDriver option \<Rightarrow> string list" where
  "ethercat_log_driver drv =
     (case drv of
        None \<Rightarrow> []
      | Some d \<Rightarrow>
          if drv_type d \<noteq> BACKEND_TYPE_ETHERCAT then []
          else
            let impl = drv_impl d in
            [''[EC] last_wkc='' @ dec_int (last_wkc impl)
             @ '' in_op='' @ (if in_op impl then ''true'' else ''false'')
             @ '' fault_latched='' @ dec_int (fault_latched impl)
             @ '' rt_overruns='' @ dec_nat (unat (rt_overruns impl))
             @ '' jitter_ns='' @ dec_nat (unat (rt_jitter_current_ns impl))
             @ '' jitter_max_ns='' @ dec_nat (unat (rt_jitter_max_ns impl)) @ [CHR 0x0A]])"

text \<open>The loop from index \<open>i\<close>, with \<open>n\<close> drivers to go.\<close>

primrec diag_loop :: "nat \<Rightarrow> nat \<Rightarrow> 'x EthercatDriver Runtime \<Rightarrow> string list" where
  "diag_loop 0 i rt = []"
| "diag_loop (Suc n) i rt =
     (case backend_array rt ! i of
        None \<Rightarrow> diag_loop n (i + 1) rt
      | Some drv \<Rightarrow>
          (if drv_type drv = BACKEND_TYPE_ETHERCAT then ethercat_log_driver (Some drv) else []) @ diag_loop n (i + 1) rt)"

definition ethercat_diag_print :: "'x EthercatDriver Runtime \<Rightarrow> string list" where
  "ethercat_diag_print rt = (if \<not> backends_set rt then [] else diag_loop (backend_count rt) 0 rt)"

text \<open>One line for every EtherCAT driver among the first \<^verbatim>\<open>backend_count\<close> slots, in order.\<close>

lemma diag_loop_lines:
  "diag_loop n i rt = concat (map (\<lambda>k. ethercat_log_driver (backend_array rt ! k)) [i..<i + n])"
proof (induction n arbitrary: i)
  case (Suc n)
  have "[i..<i + Suc n] = i # [Suc i..<Suc i + n]" by (simp add: upt_rec)
  then show ?case using Suc.IH [of "i + 1"]
    by (simp add: ethercat_log_driver_def split: option.split)
qed simp

theorem diag_one_line_per_driver:
  "length (ethercat_diag_print rt) = (if backends_set rt then
     length (filter (\<lambda>k. \<exists>drv. backend_array rt ! k = Some drv \<and> drv_type drv = BACKEND_TYPE_ETHERCAT) [0..<backend_count rt]) else 0)"
proof -
  have "length (ethercat_log_driver d) = (if \<exists>drv. d = Some drv \<and> drv_type drv = BACKEND_TYPE_ETHERCAT then 1 else 0)"
    for d :: "'a EthercatDriver BackendDriver option"
    by (auto simp: ethercat_log_driver_def Let_def split: option.split)
  then have "length (concat (map (\<lambda>k. ethercat_log_driver (backend_array rt ! k)) ks)) =
      length (filter (\<lambda>k. \<exists>drv. backend_array rt ! k = Some drv \<and> drv_type drv = BACKEND_TYPE_ETHERCAT) ks)" for ks
    by (induction ks) auto
  then show ?thesis by (simp add: ethercat_diag_print_def diag_loop_lines)
qed

end
