(* ===== verification/Plat_Time.thy ===== *)
theory Plat_Time
  imports PLC_Prelude "HOL-Library.Monad_Syntax"
begin

text \<open>
  Time: \<^verbatim>\<open>core/platform/platform_time.c\<close>, in its Linux variant, with the conversion of the Windows
  performance counter. The clock and the sleeping calls of the operating system are the
  record \<open>'e Clock\<close>, over a state \<open>'e\<close> of the outside world; a \<^verbatim>\<open>struct timespec\<close> is a pair of
  seconds and nanoseconds.
\<close>

section \<open>The operating system\<close>

type_synonym timespec = "u64 \<times> u64"

text \<open>
  \<open>clock_gettime\<close> fails or gives the time; \<open>nanosleep\<close> gives the remaining time when a signal
  interrupts it.
\<close>

record 'e Clock =
  clock_gettime :: "'e \<Rightarrow> timespec option \<times> 'e"
  nanosleep :: "timespec \<Rightarrow> 'e \<Rightarrow> timespec option \<times> 'e"
  sched_yield :: "'e \<Rightarrow> 'e"

section \<open>Reading the clock\<close>

definition plat_timespec_ns :: "timespec \<Rightarrow> u64" where
  "plat_timespec_ns ts = fst ts * 1000000000 + snd ts"

definition plat_time_counter_to_ns :: "u64 \<Rightarrow> u64 \<Rightarrow> u64" where
  "plat_time_counter_to_ns counter freq =
     (if freq = 0 then 0
      else
        let seconds = counter div freq; rest = counter mod freq
        in seconds * 1000000000 + (rest * 1000000000) div freq)"

definition plat_time_now_ns :: "'e Clock \<Rightarrow> 'e \<Rightarrow> u64 \<times> 'e" where
  "plat_time_now_ns C e =
     (case clock_gettime C e of (None, e') \<Rightarrow> (0, e') | (Some ts, e') \<Rightarrow> (plat_timespec_ns ts, e'))"

definition plat_time_monotonic_ns :: "'e Clock \<Rightarrow> 'e \<Rightarrow> u64 \<times> 'e" where
  "plat_time_monotonic_ns C e = plat_time_now_ns C e"

definition plat_time_monotonic_us :: "'e Clock \<Rightarrow> 'e \<Rightarrow> u64 \<times> 'e" where
  "plat_time_monotonic_us C e = (let (n, e') = plat_time_monotonic_ns C e in (n div 1000, e'))"

definition plat_time_monotonic_ms :: "'e Clock \<Rightarrow> 'e \<Rightarrow> u64 \<times> 'e" where
  "plat_time_monotonic_ms C e = (let (n, e') = plat_time_monotonic_ns C e in (n div 1000000, e'))"

definition plat_time_perf_counter :: "'e Clock \<Rightarrow> 'e \<Rightarrow> u64 \<times> 'e" where
  "plat_time_perf_counter C e = plat_time_monotonic_ns C e"

definition plat_time_perf_freq :: u64 where
  "plat_time_perf_freq = 1000000000"

section \<open>Sleeping and waiting\<close>

text \<open>The loop around an interrupted \<^verbatim>\<open>nanosleep\<close>.\<close>

partial_function (option) nap :: "'e Clock \<Rightarrow> timespec \<Rightarrow> 'e \<Rightarrow> 'e option" where
  "nap C ts e = (case nanosleep C ts e of (None, e') \<Rightarrow> Some e' | (Some left, e') \<Rightarrow> nap C left e')"

definition plat_thread_sleep_ms :: "'e Clock \<Rightarrow> u32 \<Rightarrow> 'e \<Rightarrow> 'e option" where
  "plat_thread_sleep_ms C ms e = nap C (ucast (ms div 1000), ucast (ms mod 1000) * 1000000) e"

partial_function (option) spin_until :: "'e Clock \<Rightarrow> u64 \<Rightarrow> 'e \<Rightarrow> 'e option" where
  "spin_until C deadline e =
     (let (now, e') = plat_time_now_ns C e in
      if now = 0 \<or> deadline \<le> now then Some e' else spin_until C deadline e')"

text \<open>The \<^verbatim>\<open>timespec\<close> of a sleep: at least one millisecond in its nanoseconds.\<close>

definition sleep_spec :: "u64 \<Rightarrow> timespec" where
  "sleep_spec remaining =
     (let ns = remaining mod 1000000000
      in (remaining div 1000000000, if ns < 1000000 then 1000000 else ns))"

partial_function (option) plat_time_sleep_until_ns :: "'e Clock \<Rightarrow> u64 \<Rightarrow> u32 \<Rightarrow> 'e \<Rightarrow> 'e option" where
  "plat_time_sleep_until_ns C deadline_ns spin_threshold_ns e =
     (let (now, e1) = plat_time_now_ns C e in
      if now = 0 \<or> deadline_ns \<le> now then Some e1
      else
        let remaining = deadline_ns - now in
        if 1000000 < remaining then
          do { e2 \<leftarrow> nap C (sleep_spec remaining) e1;
               plat_time_sleep_until_ns C deadline_ns spin_threshold_ns e2 }
        else if 0 < spin_threshold_ns \<and> remaining \<le> ucast spin_threshold_ns then spin_until C deadline_ns e1
        else plat_time_sleep_until_ns C deadline_ns spin_threshold_ns (sched_yield C e1))"

partial_function (option) busy_loop :: "'e Clock \<Rightarrow> u64 \<Rightarrow> u64 \<Rightarrow> 'e \<Rightarrow> 'e option" where
  "busy_loop C start duration_ns e =
     (let (now, e') = plat_time_now_ns C e in
      if now = 0 \<or> duration_ns \<le> now - start then Some e' else busy_loop C start duration_ns e')"

definition plat_time_busy_wait_ns :: "'e Clock \<Rightarrow> u64 \<Rightarrow> 'e \<Rightarrow> 'e option" where
  "plat_time_busy_wait_ns C duration_ns e =
     (let (start, e') = plat_time_now_ns C e in
      if start = 0 \<or> duration_ns = 0 then Some e' else busy_loop C start duration_ns e')"

definition plat_time_begin_timer_resolution_1ms :: int where
  "plat_time_begin_timer_resolution_1ms = 0"

definition plat_time_end_timer_resolution_1ms :: int where
  "plat_time_end_timer_resolution_1ms = 0"

section \<open>A clock that runs\<close>

definition spec_ns :: "timespec \<Rightarrow> nat" where
  "spec_ns ts = unat (fst ts) * 10 ^ 9 + unat (snd ts)"

text \<open>
  What POSIX documents of the calls, for a world with \<open>t\<close> nanoseconds on its clock, as long as
  these are below \<open>2 ^ 63\<close>: the clock gives the time and goes on while it is read, a
  completed sleep lasts at least as long as asked for, an interrupted one reports what is left,
  and no call takes more than \<open>D\<close> beyond what it was asked for.
\<close>

definition clock_ok :: "'e Clock \<Rightarrow> ('e \<Rightarrow> nat) \<Rightarrow> nat \<Rightarrow> bool" where
  "clock_ok C t D \<longleftrightarrow> (\<forall>e. t e < 2 ^ 63 \<longrightarrow>
     (\<exists>ts e'. clock_gettime C e = (Some ts, e') \<and> spec_ns ts = t e \<and> t e < t e' \<and> t e' \<le> t e + D)
     \<and> t e \<le> t (sched_yield C e) \<and> t (sched_yield C e) \<le> t e + D
     \<and> (\<forall>ts r e'. nanosleep C ts e = (r, e') \<longrightarrow>
          (case r of None \<Rightarrow> t e + spec_ns ts \<le> t e' \<and> t e' \<le> t e + spec_ns ts + D
           | Some left \<Rightarrow> t e < t e' \<and> t e' + spec_ns left = t e + spec_ns ts)))"

lemma timespec_ns: "spec_ns ts < 2 ^ 64 \<Longrightarrow> unat (plat_timespec_ns ts) = spec_ns ts"
  by (simp add: spec_ns_def plat_timespec_ns_def unat_word_ariths unat_mult_lem [symmetric])

lemma now_reads:
  assumes "clock_ok C t D" "t e < 2 ^ 63"
  obtains now e' where "plat_time_now_ns C e = (now, e')" "unat now = t e" "t e < t e'" "t e' \<le> t e + D"
proof -
  obtain ts e' where c: "clock_gettime C e = (Some ts, e')" "spec_ns ts = t e" "t e < t e'" "t e' \<le> t e + D"
    using assms unfolding clock_ok_def by blast
  have "unat (plat_timespec_ns ts) = t e" using timespec_ns [of ts] c(2) assms(2) by simp
  then show thesis using that [of "plat_timespec_ns ts" e'] c by (simp add: plat_time_now_ns_def)
qed

lemma nap_ends:
  assumes "clock_ok C t D"
  shows "t e + spec_ns ts < 2 ^ 63 \<Longrightarrow> \<exists>e'. nap C ts e = Some e' \<and> t e + spec_ns ts \<le> t e' \<and> t e' \<le> t e + spec_ns ts + D"
proof (induction "spec_ns ts" arbitrary: ts e rule: less_induct)
  case less
  obtain r e' where n: "nanosleep C ts e = (r, e')" by fastforce
  have c: "case r of None \<Rightarrow> t e + spec_ns ts \<le> t e' \<and> t e' \<le> t e + spec_ns ts + D
      | Some left \<Rightarrow> t e < t e' \<and> t e' + spec_ns left = t e + spec_ns ts"
    using assms less.prems n unfolding clock_ok_def by (meson add_lessD1)
  show ?case
  proof (cases r)
    case None
    then show ?thesis using c n by (subst nap.simps) simp
  next
    case (Some left)
    then have l: "t e < t e'" "t e' + spec_ns left = t e + spec_ns ts" using c by simp_all
    then have "\<exists>e2. nap C left e' = Some e2 \<and> t e' + spec_ns left \<le> t e2 \<and> t e2 \<le> t e' + spec_ns left + D"
      using less.prems by (intro less.hyps) simp_all
    then show ?thesis using l(2) n Some by (subst nap.simps) simp
  qed
qed

lemma spin_ends:
  assumes "clock_ok C t D"
  shows "0 < t e \<Longrightarrow> t e \<le> unat deadline + B \<Longrightarrow> unat deadline + B + D < 2 ^ 63 \<Longrightarrow> D \<le> B
    \<Longrightarrow> \<exists>e'. spin_until C deadline e = Some e' \<and> unat deadline \<le> t e' \<and> t e' \<le> unat deadline + B + D"
proof (induction "unat deadline - t e" arbitrary: e rule: less_induct)
  case less
  have "t e < 2 ^ 63" using less.prems by simp
  then obtain now e' where n: "plat_time_now_ns C e = (now, e')" "unat now = t e" "t e < t e'" "t e' \<le> t e + D"
    using now_reads [OF assms] by blast
  have nz: "now \<noteq> 0" using n(2) less.prems(1) by auto
  show ?case
  proof (cases "deadline \<le> now")
    case True
    then have "unat deadline \<le> t e" using n(2) by (simp add: word_le_nat_alt)
    then show ?thesis using n less.prems True by (subst spin_until.simps) simp
  next
    case False
    then have lt: "t e < unat deadline" using n(2) by (simp add: word_le_nat_alt)
    then have "\<exists>e2. spin_until C deadline e' = Some e2 \<and> unat deadline \<le> t e2 \<and> t e2 \<le> unat deadline + B + D"
      using n(3,4) less.prems by (intro less.hyps) simp_all
    then show ?thesis using n(1) nz False by (subst spin_until.simps) simp
  qed
qed

lemma sleep_spec_ns:
  "unat r \<le> spec_ns (sleep_spec r)" "spec_ns (sleep_spec r) \<le> unat r + 10 ^ 6"
  "10 ^ 6 \<le> unat r mod 10 ^ 9 \<Longrightarrow> spec_ns (sleep_spec r) = unat r"
proof -
  have d: "unat r = unat r div 10 ^ 9 * 10 ^ 9 + unat r mod 10 ^ 9" by simp
  have s: "spec_ns (sleep_spec r) = unat r div 10 ^ 9 * 10 ^ 9 + max (10 ^ 6) (unat r mod 10 ^ 9)"
    by (simp add: spec_ns_def sleep_spec_def Let_def unat_div unat_mod word_less_nat_alt max_def)
  show "unat r \<le> spec_ns (sleep_spec r)" "spec_ns (sleep_spec r) \<le> unat r + 10 ^ 6"
    "10 ^ 6 \<le> unat r mod 10 ^ 9 \<Longrightarrow> spec_ns (sleep_spec r) = unat r"
    using s d by linarith+
qed

text \<open>How late a sleep can be: nothing extra when less than a second remains.\<close>

definition oversleep :: "nat \<Rightarrow> nat" where
  "oversleep remaining = (if remaining < 10 ^ 9 then 0 else 10 ^ 6)"

lemma sleep_until_ends:
  assumes "clock_ok C t D"
  shows "0 < t e \<Longrightarrow> t e \<le> unat deadline + B + 2 * D \<Longrightarrow> oversleep (unat deadline - t e) \<le> B \<Longrightarrow> unat deadline + B + 3 * D < 2 ^ 63
    \<Longrightarrow> \<exists>e'. plat_time_sleep_until_ns C deadline spin e = Some e' \<and> unat deadline \<le> t e' \<and> t e' \<le> unat deadline + B + 3 * D"
proof (induction "unat deadline - t e" arbitrary: e rule: less_induct)
  case less
  have "t e < 2 ^ 63" using less.prems by simp
  then obtain now e1 where n: "plat_time_now_ns C e = (now, e1)" "unat now = t e" "t e < t e1" "t e1 \<le> t e + D"
    using now_reads [OF assms] by blast
  have nz: "now \<noteq> 0" using n(2) less.prems(1) by auto
  show ?case
  proof (cases "deadline \<le> now")
    case True
    then have "unat deadline \<le> t e" using n(2) by (simp add: word_le_nat_alt)
    then show ?thesis using n less.prems True by (subst plat_time_sleep_until_ns.simps) simp
  next
    case False
    then have lt: "t e < unat deadline" using n(2) by (simp add: word_le_nat_alt)
    let ?r = "deadline - now"
    have r: "unat ?r = unat deadline - t e" using False n(2) by (simp add: unat_sub)
    note step = plat_time_sleep_until_ns.simps [of C deadline spin e]
    consider (sleep) "1000000 < ?r" | (spin) "\<not> 1000000 < ?r" "0 < spin \<and> ?r \<le> ucast spin"
      | (yield) "\<not> 1000000 < ?r" "\<not> (0 < spin \<and> ?r \<le> ucast spin)" by blast
    then show ?thesis
    proof cases
      case sleep
      then have big: "10 ^ 6 < unat ?r" by (simp add: word_less_nat_alt)
      have ub: "spec_ns (sleep_spec ?r) \<le> unat ?r + oversleep (unat ?r)"
        using sleep_spec_ns(2,3) [of ?r] big by (auto simp: oversleep_def)
      have over: "oversleep (unat ?r) \<le> B" using less.prems(3) r by simp
      have "t e1 + spec_ns (sleep_spec ?r) < 2 ^ 63" using ub over n(4) lt r less.prems(4) by linarith
      then obtain e2 where e2: "nap C (sleep_spec ?r) e1 = Some e2" "t e1 + spec_ns (sleep_spec ?r) \<le> t e2"
          "t e2 \<le> t e1 + spec_ns (sleep_spec ?r) + D"
        using nap_ends [OF assms] by blast
      have 2: "unat deadline \<le> t e2" "t e2 \<le> unat deadline + B + 2 * D"
        using e2(2,3) sleep_spec_ns(1) [of ?r] ub over n(3,4) lt r by linarith+
      have "\<exists>e'. plat_time_sleep_until_ns C deadline spin e2 = Some e' \<and> unat deadline \<le> t e' \<and> t e' \<le> unat deadline + B + 3 * D"
        using 2 lt less.prems by (intro less.hyps) (simp_all add: oversleep_def)
      then show ?thesis using n(1) nz False sleep e2(1) by (subst step) simp
    next
      case spin
      have "\<exists>e'. spin_until C deadline e1 = Some e' \<and> unat deadline \<le> t e' \<and> t e' \<le> unat deadline + D + D"
        using spin_ends [OF assms, of e1 deadline D] n(3,4) lt less.prems(1,4) by simp
      then show ?thesis using n(1) nz False spin by (subst step) auto
    next
      case yield
      have "t e1 < 2 ^ 63" using n(4) lt less.prems(4) by simp
      then have y: "t e1 \<le> t (sched_yield C e1)" "t (sched_yield C e1) \<le> t e1 + D"
        using assms unfolding clock_ok_def by blast+
      have "\<exists>e'. plat_time_sleep_until_ns C deadline spin (sched_yield C e1) = Some e' \<and> unat deadline \<le> t e'
          \<and> t e' \<le> unat deadline + B + 3 * D"
        using y n(3,4) lt less.prems by (intro less.hyps) (auto simp: oversleep_def split: if_splits)
      then show ?thesis using n(1) nz False yield by (subst step) auto
    qed
  qed
qed

text \<open>
  C39. Sleeping until a deadline ends, and ends at the right time: on a running clock the call
  returns, never before the deadline, and later than the deadline (or than the time of the
  call, if that is later) by no more than three operating system calls take, plus one
  millisecond when a second or more remained.
\<close>

theorem sleep_until_on_time:
  assumes "clock_ok C t D" "0 < t e" "max (t e) (unat deadline) + 10 ^ 6 + 3 * D < 2 ^ 63"
  shows "\<exists>e'. plat_time_sleep_until_ns C deadline spin e = Some e' \<and> unat deadline \<le> t e'
    \<and> t e' \<le> max (t e) (unat deadline) + oversleep (unat deadline - t e) + 3 * D"
proof (cases "unat deadline \<le> t e")
  case True
  have "t e < 2 ^ 63" using assms(3) by simp
  then obtain now e1 where n: "plat_time_now_ns C e = (now, e1)" "unat now = t e" "t e < t e1" "t e1 \<le> t e + D"
    using now_reads [OF assms(1)] by blast
  then have "deadline \<le> now" using True by (simp add: word_le_nat_alt)
  then show ?thesis using n True by (subst plat_time_sleep_until_ns.simps) simp
next
  case False
  then show ?thesis
    using sleep_until_ends [OF assms(1,2), of deadline "oversleep (unat deadline - t e)" spin] assms(3)
    by (simp add: oversleep_def split: if_splits)
qed

text \<open>A clock on which only reading takes time, one nanosecond.\<close>

definition ideal_clock :: "nat Clock" where
  "ideal_clock = \<lparr>clock_gettime = (\<lambda>e. (Some (of_nat (e div 10 ^ 9), of_nat (e mod 10 ^ 9)), e + 1)),
     nanosleep = (\<lambda>ts e. (None, e + spec_ns ts)), sched_yield = (\<lambda>e. e)\<rparr>"

lemma ideal_clock_ok: "clock_ok ideal_clock id 1"
proof -
  have "spec_ns (of_nat (e div 10 ^ 9), of_nat (e mod 10 ^ 9)) = e" if "e < 2 ^ 63" for e
  proof -
    have "e div 10 ^ 9 < 2 ^ 64" "e mod 10 ^ 9 < 2 ^ 64" using that by (auto intro: le_less_trans [OF div_le_dividend] less_trans [OF mod_less_divisor])
    then show ?thesis by (simp add: spec_ns_def unat_of_nat_small)
  qed
  then show ?thesis by (simp add: clock_ok_def ideal_clock_def)
qed

lemma sleep_until_on_time_witness:
  "\<exists>e'. plat_time_sleep_until_ns ideal_clock 5000000 50000 1 = Some e' \<and> 5000000 \<le> e' \<and> e' \<le> 5000003"
  using sleep_until_on_time [OF ideal_clock_ok, of 1 5000000 50000] by (simp add: oversleep_def)

text \<open>The extra millisecond is real: sleeping for one second and five nanoseconds.\<close>

lemma sleep_until_oversleeps:
  "plat_time_sleep_until_ns ideal_clock 1000000007 50000 2 = Some 1001000004"
  by (simp add: plat_time_sleep_until_ns.simps nap.simps plat_time_now_ns_def ideal_clock_def plat_timespec_ns_def
      sleep_spec_def spec_ns_def Let_def)

text \<open>A busy wait lasts at least as long as asked for.\<close>

lemma busy_loop_ends:
  assumes "clock_ok C t D"
  shows "0 < t e \<Longrightarrow> unat start \<le> t e \<Longrightarrow> t e \<le> unat start + unat d + D \<Longrightarrow> unat start + unat d + 2 * D < 2 ^ 63
    \<Longrightarrow> \<exists>e'. busy_loop C start d e = Some e' \<and> unat start + unat d \<le> t e' \<and> t e' \<le> unat start + unat d + 2 * D"
proof (induction "unat start + unat d - t e" arbitrary: e rule: less_induct)
  case less
  have "t e < 2 ^ 63" using less.prems by simp
  then obtain now e1 where n: "plat_time_now_ns C e = (now, e1)" "unat now = t e" "t e < t e1" "t e1 \<le> t e + D"
    using now_reads [OF assms] by blast
  have nz: "now \<noteq> 0" using n(2) less.prems(1) by auto
  have sub: "unat (now - start) = t e - unat start" using n(2) less.prems(2) by (simp add: unat_sub word_le_nat_alt)
  show ?case
  proof (cases "d \<le> now - start")
    case True
    then have "unat start + unat d \<le> t e" using sub less.prems(2) by (simp add: word_le_nat_alt)
    then show ?thesis using n less.prems True by (subst busy_loop.simps) simp
  next
    case False
    then have "t e < unat start + unat d" using sub less.prems(2) by (simp add: word_le_nat_alt)
    then have "\<exists>e'. busy_loop C start d e1 = Some e' \<and> unat start + unat d \<le> t e' \<and> t e' \<le> unat start + unat d + 2 * D"
      using n(3,4) less.prems by (intro less.hyps) simp_all
    then show ?thesis using n(1) nz False by (subst busy_loop.simps) simp
  qed
qed

section \<open>The performance counter\<close>

text \<open>
  The conversion of a counter is exact: splitting off the full seconds avoids the overflow
  of \<open>counter * 1000000000\<close>, and the result is the number of nanoseconds, rounded down, modulo
  \<open>2 ^ 64\<close>, for every counter and every frequency up to 18.4 GHz.
\<close>

theorem counter_to_ns_exact:
  assumes "freq \<noteq> 0" "unat freq * 10 ^ 9 < 2 ^ 64"
  shows "unat (plat_time_counter_to_ns counter freq) = (unat counter * 10 ^ 9 div unat freq) mod 2 ^ 64"
proof -
  let ?c = "unat counter" and ?f = "unat freq"
  have f: "0 < ?f" using assms(1) by (simp add: unat_gt_0)
  have "?c mod ?f * 10 ^ 9 < ?f * 10 ^ 9" using f by simp
  then have small: "?c mod ?f * 10 ^ 9 < 2 ^ 64" using assms(2) by linarith
  have "unat ((counter mod freq) * 1000000000) = ?c mod ?f * 10 ^ 9"
    using small by (simp add: unat_word_ariths unat_mod)
  then have r: "unat ((counter mod freq) * 1000000000 div freq) = ?c mod ?f * 10 ^ 9 div ?f" by (simp add: unat_div)
  have "?c * 10 ^ 9 = ?c div ?f * 10 ^ 9 * ?f + ?c mod ?f * 10 ^ 9"
  proof -
    have "(q * f + r) * 10 ^ 9 = q * 10 ^ 9 * f + r * 10 ^ 9" for q f r :: nat by (simp add: algebra_simps)
    from this [of "?c div ?f" ?f "?c mod ?f"] show ?thesis by (simp only: div_mult_mod_eq)
  qed
  then have "?c * 10 ^ 9 div ?f = ?c div ?f * 10 ^ 9 + ?c mod ?f * 10 ^ 9 div ?f" using f by simp
  moreover have "unat (q * 1000000000 + x) = (unat q * 10 ^ 9 + unat x) mod 2 ^ 64" for q x :: u64
    unfolding unat_word_ariths by (simp add: mod_add_left_eq)
  ultimately show ?thesis using assms(1) r by (simp add: plat_time_counter_to_ns_def Let_def unat_div)
qed

lemma counter_to_ns_exact_witness: "unat (plat_time_counter_to_ns 30000000000 10000000) = 3000000000000"
  using counter_to_ns_exact [of 10000000 30000000000] by simp

end
