(* ===== verification/Plat_Thread.thy ===== *)
theory Plat_Thread
  imports Ec_Backend Plat_Time
begin

text \<open>
  Creating threads: \<^verbatim>\<open>core/platform/platform_thread.c\<close>, in its Linux variant. What the POSIX calls
  answer is a record; the result of a creation is its status, the attributes given to
  \<^verbatim>\<open>pthread_create\<close> and the processor the thread is bound to. The parameters are the record
  \<open>RtParams\<close>, with the class as a flag and the priority as a number.
\<close>

section \<open>The operating system\<close>

record thread_attr =
  ta_fifo :: bool
  ta_priority :: int
  ta_explicit :: bool
  ta_stack_size :: nat

record posix_threads =
  px_priority_max :: int
  px_priority_min :: int
  px_attr_init :: int
  px_setschedpolicy :: int
  px_setschedparam :: int
  px_setinheritsched :: int
  px_setstacksize :: int
  px_create :: "thread_attr option \<Rightarrow> int"
  px_join :: int

definition default_attr :: thread_attr where
  "default_attr = \<lparr>ta_fifo = False, ta_priority = 0, ta_explicit = False, ta_stack_size = 0\<rparr>"

section \<open>Scheduling attributes\<close>

text \<open>The priorities of \<^verbatim>\<open>PlatThreadPriority_t\<close>: -1 low, 0 normal, 1 high, 2 critical.\<close>

definition desired_prio :: "int \<Rightarrow> int \<Rightarrow> int \<Rightarrow> int" where
  "desired_prio min_prio max_prio priority =
     (if priority = -1 then min_prio
      else if priority = 0 then min_prio + (max_prio - min_prio) div 2
      else if priority = 1 \<and> min_prio < max_prio then max_prio - 1
      else max_prio)"

definition plat_thread_setup_sched :: "posix_threads \<Rightarrow> RtParams \<Rightarrow> thread_attr \<Rightarrow> int \<times> thread_attr" where
  "plat_thread_setup_sched X params attr =
     (if \<not> rp_realtime params then (0, attr)
      else if px_priority_max X = -1 \<or> px_priority_min X = -1 then (-1, attr)
      else if px_setschedpolicy X \<noteq> 0 then (-1, attr)
      else
        let attr1 = attr\<lparr>ta_fifo := True\<rparr> in
        if px_setschedparam X \<noteq> 0 then (-1, attr1)
        else
          let attr2 = attr1\<lparr>ta_priority := desired_prio (px_priority_min X) (px_priority_max X) (rp_priority params)\<rparr> in
          if px_setinheritsched X \<noteq> 0 then (-1, attr2) else (0, attr2\<lparr>ta_explicit := True\<rparr>))"

definition plat_thread_ex_defaults :: RtParams where
  "plat_thread_ex_defaults = \<lparr>rp_realtime = False, rp_priority = 0, rp_affinity_cpu = -1, rp_timer_resolution_ms = 0,
     rp_stack_size = 0\<rparr>"

section \<open>Creation\<close>

text \<open>A failing scheduling setup is ignored, and so is the status of the stack size and of the affinity.\<close>

definition plat_thread_create_ex :: "posix_threads \<Rightarrow> RtParams option \<Rightarrow> int \<times> thread_attr option \<times> int option" where
  "plat_thread_create_ex X params =
     (let local = (case params of Some p \<Rightarrow> p | None \<Rightarrow> plat_thread_ex_defaults);
          attr = (if px_attr_init X = 0
                  then Some (snd (plat_thread_setup_sched X local
                         (if 0 < rp_stack_size local \<and> px_setstacksize X = 0
                          then default_attr\<lparr>ta_stack_size := rp_stack_size local\<rparr> else default_attr)))
                  else None);
          rc = px_create X attr
      in if rc \<noteq> 0 then (rc, attr, None)
         else (0, attr, if 0 \<le> rp_affinity_cpu local then Some (rp_affinity_cpu local) else None))"

text \<open>\<^verbatim>\<open>PlatThreadRtParams_t\<close>, and the creation that takes it.\<close>

record PlatThreadRtParams =
  priority_level :: int
  affinity_cpu :: int
  timer_res_ms :: int
  stack_size :: nat

definition plat_thread_create :: "posix_threads \<Rightarrow> bool \<Rightarrow> PlatThreadRtParams option \<Rightarrow> int \<times> thread_attr option \<times> int option" where
  "plat_thread_create X realtime rt =
     (let params = plat_thread_ex_defaults\<lparr>rp_realtime := realtime\<rparr> in
      plat_thread_create_ex X (Some (case rt of
          None \<Rightarrow> params
        | Some r \<Rightarrow> params\<lparr>rp_affinity_cpu := affinity_cpu r,
            rp_timer_resolution_ms := (if 0 < timer_res_ms r then of_int (timer_res_ms r) else 0),
            rp_stack_size := stack_size r,
            rp_priority := (if priority_level r = 1 then 1 else if 2 \<le> priority_level r then 2 else 0)\<rparr>)))"

definition plat_thread_join :: "posix_threads \<Rightarrow> int" where
  "plat_thread_join X = px_join X"

section \<open>The priority of a real-time thread\<close>

definition sched_calls_ok :: "posix_threads \<Rightarrow> bool" where
  "sched_calls_ok X \<longleftrightarrow> px_attr_init X = 0 \<and> px_priority_max X \<noteq> -1 \<and> px_priority_min X \<noteq> -1
     \<and> px_setschedpolicy X = 0 \<and> px_setschedparam X = 0 \<and> px_setinheritsched X = 0"

lemma desired_prio_range:
  assumes "min_prio \<le> max_prio"
  shows "min_prio \<le> desired_prio min_prio max_prio p \<and> desired_prio min_prio max_prio p \<le> max_prio"
  using assms by (auto simp: desired_prio_def)

lemma desired_prio_mono:
  assumes "min_prio \<le> max_prio" "p \<in> {-1, 0, 1, 2}" "q \<in> {-1, 0, 1, 2}" "p \<le> q"
  shows "desired_prio min_prio max_prio p \<le> desired_prio min_prio max_prio q"
  using assms by (auto simp: desired_prio_def)

text \<open>
  The scheduling of a created thread. A thread that asks for the real-time class is created
  with FIFO scheduling, set explicitly, at a priority within the system's range which grows
  with the requested level and reaches the maximum at the critical level, provided every
  scheduling call of the system succeeds; if one of them fails, the thread is created all the
  same, with the scheduling it inherits. A thread of the normal class always inherits. The
  status is that of \<^verbatim>\<open>pthread_create\<close> alone.
\<close>

theorem thread_scheduling:
  assumes "px_priority_min X \<le> px_priority_max X" "plat_thread_create_ex X (Some params) = (rc, attr, cpu)"
  shows "rc = px_create X attr
    \<and> (case attr of
         None \<Rightarrow> px_attr_init X \<noteq> 0
       | Some a \<Rightarrow> ta_explicit a = (rp_realtime params \<and> sched_calls_ok X)
           \<and> (ta_explicit a \<longrightarrow> ta_fifo a \<and> px_priority_min X \<le> ta_priority a \<and> ta_priority a \<le> px_priority_max X
                \<and> (rp_priority params = 2 \<longrightarrow> ta_priority a = px_priority_max X)))
    \<and> (\<forall>params' a a'. plat_thread_create_ex X (Some params') = (0, Some a', cpu) \<longrightarrow> attr = Some a
         \<longrightarrow> ta_explicit a \<longrightarrow> ta_explicit a' \<longrightarrow> rp_priority params \<in> {-1, 0, 1, 2} \<longrightarrow> rp_priority params' \<in> {-1, 0, 1, 2}
         \<longrightarrow> rp_priority params \<le> rp_priority params' \<longrightarrow> ta_priority a \<le> ta_priority a')"
proof -
  have prio: "ta_explicit a \<longrightarrow> ta_fifo a \<and> ta_priority a = desired_prio (px_priority_min X) (px_priority_max X) (rp_priority p)"
    and expl: "ta_explicit a = (rp_realtime p \<and> sched_calls_ok X)"
    if "plat_thread_create_ex X (Some p) = (r, Some a, c)" for p r a c
    using that by (auto simp: plat_thread_create_ex_def plat_thread_setup_sched_def default_attr_def sched_calls_ok_def Let_def
        split: if_splits)
  have rc: "rc = px_create X attr" "attr = None \<longrightarrow> px_attr_init X \<noteq> 0"
    using assms(2) by (auto simp: plat_thread_create_ex_def Let_def split: if_splits)
  show ?thesis
  proof (cases attr)
    case (Some a)
    have m: "rp_priority params \<in> {-1, 0, 1, 2} \<longrightarrow> rp_priority p \<in> {-1, 0, 1, 2} \<longrightarrow> rp_priority params \<le> rp_priority p
        \<longrightarrow> ta_priority a \<le> ta_priority a'"
      if "plat_thread_create_ex X (Some p) = (0, Some a', cpu)" "ta_explicit a" "ta_explicit a'" for p a'
      using prio [OF that(1)] prio [OF assms(2) [unfolded Some]] that(2,3) desired_prio_mono [OF assms(1)] by simp
    show ?thesis
      using rc prio [OF assms(2) [unfolded Some]] expl [OF assms(2) [unfolded Some]] desired_prio_range [OF assms(1)] m Some
      by (simp add: desired_prio_def)
  qed (use rc in simp)
qed

definition demo_posix :: posix_threads where
  "demo_posix = \<lparr>px_priority_max = 99, px_priority_min = 1, px_attr_init = 0, px_setschedpolicy = 0, px_setschedparam = 0,
     px_setinheritsched = 0, px_setstacksize = 0, px_create = (\<lambda>a. 0), px_join = 0\<rparr>"

lemma thread_scheduling_witness:
  "\<exists>a. plat_thread_create_ex demo_posix (Some (plat_thread_ex_defaults\<lparr>rp_realtime := True, rp_priority := 2\<rparr>)) = (0, Some a, None)
     \<and> ta_explicit a \<and> ta_priority a = 99"
proof -
  let ?p = "plat_thread_ex_defaults\<lparr>rp_realtime := True, rp_priority := 2\<rparr>"
  obtain a where a: "plat_thread_create_ex demo_posix (Some ?p) = (0, Some a, None)"
    by (simp add: plat_thread_create_ex_def demo_posix_def plat_thread_ex_defaults_def)
  have "px_priority_min demo_posix \<le> px_priority_max demo_posix" by (simp add: demo_posix_def)
  from thread_scheduling [OF this a] show ?thesis
    using a by (simp add: sched_calls_ok_def demo_posix_def)
qed

end
