(* ===== verification/Plat_Windows.thy ===== *)
theory Plat_Windows
  imports Plat_Thread "HOL-Library.Multiset"
begin

text \<open>
  The Windows variants of \<^verbatim>\<open>core/platform/platform_time.c\<close> and
  \<^verbatim>\<open>core/platform/platform_thread.c\<close>, where they differ from the Linux ones: the clock from the
  performance counter, the sleeping loop over \<^verbatim>\<open>Sleep\<close>, the reference count of the timer
  resolution, and the entry of a thread, which sets its own priority and returns the timer
  resolution. The calls of the system are the record \<open>'e WinOS\<close> over the outside world \<open>'e\<close>.
\<close>

section \<open>The operating system and the static variables\<close>

text \<open>
  \<^verbatim>\<open>QueryPerformanceFrequency\<close> fails or gives the frequency; \<^verbatim>\<open>Sleep\<close> may block for ever (it
  does for \<^verbatim>\<open>INFINITE\<close>); \<^verbatim>\<open>timeBeginPeriod\<close> says whether it succeeded.
\<close>

record 'e WinOS =
  QueryPerformanceFrequency :: "'e \<Rightarrow> u64 option \<times> 'e"
  QueryPerformanceCounter :: "'e \<Rightarrow> u64 \<times> 'e"
  win_Sleep :: "u32 \<Rightarrow> 'e \<Rightarrow> 'e option"
  SwitchToThread :: "'e \<Rightarrow> 'e"
  timeBeginPeriod :: "u32 \<Rightarrow> 'e \<Rightarrow> bool \<times> 'e"
  timeEndPeriod :: "u32 \<Rightarrow> 'e \<Rightarrow> 'e"
  SetThreadAffinityMask :: "u64 \<Rightarrow> 'e \<Rightarrow> 'e"
  SetThreadPriority :: "int \<Rightarrow> 'e \<Rightarrow> bool \<times> 'e"

record 'e WinTime =
  wt_os :: 'e
  cached_freq :: u64
  g_timer_res_refcount :: int

section \<open>The clock\<close>

definition plat_query_freq :: "'e WinOS \<Rightarrow> 'e WinTime \<Rightarrow> u64 \<times> 'e WinTime" where
  "plat_query_freq W w =
     (if cached_freq w = 0 then
        case QueryPerformanceFrequency W (wt_os w) of
          (None, e) \<Rightarrow> (cached_freq w, w\<lparr>wt_os := e\<rparr>)
        | (Some f, e) \<Rightarrow> (f, w\<lparr>wt_os := e, cached_freq := f\<rparr>)
      else (cached_freq w, w))"

definition plat_query_counter :: "'e WinOS \<Rightarrow> 'e WinTime \<Rightarrow> u64 \<times> 'e WinTime" where
  "plat_query_counter W w = (let (c, e) = QueryPerformanceCounter W (wt_os w) in (c, w\<lparr>wt_os := e\<rparr>))"

text \<open>C leaves the order of the two arguments open; here the counter is read first.\<close>

definition win_now_ns :: "'e WinOS \<Rightarrow> 'e WinTime \<Rightarrow> u64 \<times> 'e WinTime" where
  "win_now_ns W w =
     (let (c, w1) = plat_query_counter W w; (f, w2) = plat_query_freq W w1 in (plat_time_counter_to_ns c f, w2))"

section \<open>Sleeping\<close>

partial_function (option) win_spin_until :: "'e WinOS \<Rightarrow> u64 \<Rightarrow> 'e WinTime \<Rightarrow> 'e WinTime option" where
  "win_spin_until W deadline w =
     (let (now, w') = win_now_ns W w in
      if now = 0 \<or> deadline \<le> now then Some w' else win_spin_until W deadline w')"

text \<open>The whole milliseconds that leave a millisecond to the deadline, in a \<^verbatim>\<open>DWORD\<close>, but at least one.\<close>

definition win_sleep_ms :: "u64 \<Rightarrow> u32" where
  "win_sleep_ms remaining =
     (let ms = ucast ((remaining - 1000000) div 1000000) in if ms = 0 then 1 else ms)"

definition win_sleep :: "'e WinOS \<Rightarrow> u32 \<Rightarrow> 'e WinTime \<Rightarrow> 'e WinTime option" where
  "win_sleep W ms w = map_option (\<lambda>e. w\<lparr>wt_os := e\<rparr>) (win_Sleep W ms (wt_os w))"

partial_function (option) win_sleep_until_ns :: "'e WinOS \<Rightarrow> u64 \<Rightarrow> u32 \<Rightarrow> 'e WinTime \<Rightarrow> 'e WinTime option" where
  "win_sleep_until_ns W deadline_ns spin_ns w =
     (let (now, w1) = win_now_ns W w in
      if now = 0 \<or> deadline_ns \<le> now then Some w1
      else
        let remaining = deadline_ns - now in
        if 1000000 < remaining then
          do { w2 \<leftarrow> win_sleep W (win_sleep_ms remaining) w1;
               win_sleep_until_ns W deadline_ns spin_ns w2 }
        else if 0 < spin_ns \<and> remaining \<le> ucast spin_ns then win_spin_until W deadline_ns w1
        else win_sleep_until_ns W deadline_ns spin_ns (w1\<lparr>wt_os := SwitchToThread W (wt_os w1)\<rparr>))"

partial_function (option) win_busy_loop :: "'e WinOS \<Rightarrow> u64 \<Rightarrow> u64 \<Rightarrow> 'e WinTime \<Rightarrow> 'e WinTime option" where
  "win_busy_loop W start duration_ns w =
     (let (now, w') = win_now_ns W w in
      if now = 0 \<or> duration_ns \<le> now - start then Some w' else win_busy_loop W start duration_ns w')"

definition win_busy_wait_ns :: "'e WinOS \<Rightarrow> u64 \<Rightarrow> 'e WinTime \<Rightarrow> 'e WinTime option" where
  "win_busy_wait_ns W duration_ns w =
     (let (start, w') = win_now_ns W w in
      if start = 0 \<or> duration_ns = 0 then Some w' else win_busy_loop W start duration_ns w')"

section \<open>The timer resolution\<close>

text \<open>\<^verbatim>\<open>InterlockedIncrement\<close> and \<^verbatim>\<open>InterlockedDecrement\<close> return the new value of the \<^verbatim>\<open>LONG\<close>.\<close>

definition win_long :: "int \<Rightarrow> int" where
  "win_long x = (x + 2 ^ 31) mod 2 ^ 32 - 2 ^ 31"

definition win_begin_timer_resolution_1ms :: "'e WinOS \<Rightarrow> 'e WinTime \<Rightarrow> int \<times> 'e WinTime" where
  "win_begin_timer_resolution_1ms W w =
     (let prev = win_long (g_timer_res_refcount w + 1); w1 = w\<lparr>g_timer_res_refcount := prev\<rparr> in
      if prev = 1 then
        let (ok, e) = timeBeginPeriod W 1 (wt_os w1); w2 = w1\<lparr>wt_os := e\<rparr> in
        if \<not> ok then (-1, w2\<lparr>g_timer_res_refcount := win_long (g_timer_res_refcount w2 - 1)\<rparr>) else (0, w2)
      else (0, w1))"

definition win_end_timer_resolution_1ms :: "'e WinOS \<Rightarrow> 'e WinTime \<Rightarrow> int \<times> 'e WinTime" where
  "win_end_timer_resolution_1ms W w =
     (let prev = win_long (g_timer_res_refcount w - 1); w1 = w\<lparr>g_timer_res_refcount := prev\<rparr> in
      (0, if prev = 0 then w1\<lparr>wt_os := timeEndPeriod W 1 (wt_os w1)\<rparr> else w1))"

section \<open>Threads\<close>

text \<open>The four values of \<^verbatim>\<open>PlatThreadPriority_t\<close> as the system's: below normal, normal, highest, time critical.\<close>

definition native_priority :: "int \<Rightarrow> int" where
  "native_priority priority = (if priority = -1 then -1 else if priority = 1 then 2 else if priority = 2 then 15 else 0)"

definition plat_thread_apply_priority_windows :: "'e WinOS \<Rightarrow> int \<Rightarrow> 'e WinTime \<Rightarrow> int \<times> 'e WinTime" where
  "plat_thread_apply_priority_windows W priority w =
     (let (ok, e) = SetThreadPriority W (native_priority priority) (wt_os w) in (if ok then 0 else -1, w\<lparr>wt_os := e\<rparr>))"

text \<open>
  The entry of every thread; \<open>fn\<close> is the thread's function with its argument, or \<open>None\<close> for
  \<^verbatim>\<open>NULL\<close>, and \<open>fn w = None\<close> when it does not return. The status of the affinity and of the
  priority is ignored.
\<close>

definition acquire_timer :: "'e WinOS \<Rightarrow> u32 \<Rightarrow> 'e WinTime \<Rightarrow> bool \<times> 'e WinTime" where
  "acquire_timer W period w =
     (if 0 < period then
        if period = 1 then (let (rc, w1) = win_begin_timer_resolution_1ms W w in (rc = 0, w1))
        else (let (ok, e) = timeBeginPeriod W period (wt_os w) in (ok, w\<lparr>wt_os := e\<rparr>))
      else (False, w))"

definition release_timer :: "'e WinOS \<Rightarrow> u32 \<Rightarrow> 'e WinTime \<Rightarrow> 'e WinTime" where
  "release_timer W period w =
     (if period = 1 then snd (win_end_timer_resolution_1ms W w) else w\<lparr>wt_os := timeEndPeriod W period (wt_os w)\<rparr>)"

definition settle_thread :: "'e WinOS \<Rightarrow> RtParams \<Rightarrow> 'e WinTime \<Rightarrow> 'e WinTime" where
  "settle_thread W params w =
     (let w1 = (if 0 \<le> rp_affinity_cpu params
                then w\<lparr>wt_os := SetThreadAffinityMask W (push_bit (nat (rp_affinity_cpu params)) 1) (wt_os w)\<rparr> else w)
      in snd (plat_thread_apply_priority_windows W (rp_priority params) w1))"

definition plat_thread_entry ::
  "'e WinOS \<Rightarrow> RtParams \<Rightarrow> ('e WinTime \<Rightarrow> 'e WinTime option) option \<Rightarrow> 'e WinTime \<Rightarrow> 'e WinTime option"
where
  "plat_thread_entry W params fn w =
     (let timer_period = rp_timer_resolution_ms params;
          (acquired, w1) = acquire_timer W timer_period w;
          w2 = settle_thread W params w1
      in do { w3 \<leftarrow> (case fn of None \<Rightarrow> Some w2 | Some f \<Rightarrow> f w2);
              Some (if acquired then release_timer W timer_period w3 else w3) })"

text \<open>
  Creation: the flags are the outcomes of \<^verbatim>\<open>malloc\<close> and \<^verbatim>\<open>_beginthreadex\<close>. The result is the
  status and the parameters with which a new thread runs \<open>plat_thread_entry\<close>. The class of
  the thread plays no part.
\<close>

definition win_thread_create_ex :: "bool \<Rightarrow> bool \<Rightarrow> RtParams option \<Rightarrow> int \<times> RtParams option" where
  "win_thread_create_ex malloc_ok begin_ok params =
     (let local = (case params of Some p \<Rightarrow> p | None \<Rightarrow> plat_thread_ex_defaults) in
      if \<not> malloc_ok then (-1, None)
      else if \<not> begin_ok then (-1, None)
      else (0, Some local))"

definition win_thread_join :: "bool \<Rightarrow> int" where
  "win_thread_join signalled = (if signalled then 0 else -1)"

section \<open>A clock that runs\<close>

text \<open>
  What the documentation says of the calls, for a world with \<open>t\<close> nanoseconds on its clock, below
  \<open>2 ^ 63\<close>: the counter has the fixed frequency \<open>f\<close> and lags behind by less than \<open>G\<close>
  nanoseconds, no call goes back in time or takes more than \<open>D\<close> beyond what it was asked for; a
  \<^verbatim>\<open>Sleep\<close> can end early, and only \<^verbatim>\<open>INFINITE\<close> never ends.
\<close>

definition win_clock_ok :: "'e WinOS \<Rightarrow> ('e \<Rightarrow> nat) \<Rightarrow> u64 \<Rightarrow> nat \<Rightarrow> nat \<Rightarrow> bool" where
  "win_clock_ok W t f G D \<longleftrightarrow> f \<noteq> 0 \<and> unat f * 10 ^ 9 < 2 ^ 64 \<and> (\<forall>e. t e < 2 ^ 63 \<longrightarrow>
     (\<exists>c e'. QueryPerformanceCounter W e = (c, e') \<and> unat c * 10 ^ 9 div unat f \<le> t e \<and> t e < unat c * 10 ^ 9 div unat f + G
        \<and> t e < t e' \<and> t e' \<le> t e + D)
     \<and> (\<exists>e'. QueryPerformanceFrequency W e = (Some f, e') \<and> t e \<le> t e' \<and> t e' \<le> t e + D)
     \<and> t e \<le> t (SwitchToThread W e) \<and> t (SwitchToThread W e) \<le> t e + D
     \<and> (\<forall>ms. ms \<noteq> -1 \<longrightarrow> (\<exists>e'. win_Sleep W ms e = Some e' \<and> t e \<le> t e' \<and> t e' \<le> t e + unat ms * 10 ^ 6 + D)))"

abbreviation freq_ok :: "u64 \<Rightarrow> 'e WinTime \<Rightarrow> bool" where
  "freq_ok f w \<equiv> cached_freq w \<in> {0, f}"

lemma win_now_reads:
  assumes "win_clock_ok W t f G D" "t (wt_os w) + D < 2 ^ 63" "freq_ok f w"
  obtains now w' where "win_now_ns W w = (now, w')" "unat now \<le> t (wt_os w)" "t (wt_os w) < unat now + G"
    "t (wt_os w) < t (wt_os w')" "t (wt_os w') \<le> t (wt_os w) + 2 * D" "freq_ok f w'"
proof -
  let ?e = "wt_os w"
  have f: "f \<noteq> 0" "unat f * 10 ^ 9 < 2 ^ 64" using assms(1) by (simp_all add: win_clock_ok_def)
  obtain c e1 where c: "QueryPerformanceCounter W ?e = (c, e1)" "unat c * 10 ^ 9 div unat f \<le> t ?e"
      "t ?e < unat c * 10 ^ 9 div unat f + G" "t ?e < t e1" "t e1 \<le> t ?e + D"
    using assms(1,2) unfolding win_clock_ok_def by (meson add_lessD1)
  obtain e2 where q: "QueryPerformanceFrequency W e1 = (Some f, e2)" "t e1 \<le> t e2" "t e2 \<le> t e1 + D"
    using assms(1) c(5) assms(2) unfolding win_clock_ok_def by (meson le_less_trans)
  let ?now = "plat_time_counter_to_ns c f"
  have "unat c * 10 ^ 9 div unat f < 2 ^ 64" using c(2) assms(2) by simp
  then have n: "unat ?now = unat c * 10 ^ 9 div unat f" using counter_to_ns_exact [OF f, of c] by simp
  show thesis
  proof (cases "cached_freq w = 0")
    case True
    then show thesis using that [of ?now "w\<lparr>wt_os := e2, cached_freq := f\<rparr>"] c q n
      by (simp add: win_now_ns_def plat_query_counter_def plat_query_freq_def)
  next
    case False
    then show thesis using that [of ?now "w\<lparr>wt_os := e1\<rparr>"] c n assms(3)
      by (simp add: win_now_ns_def plat_query_counter_def plat_query_freq_def)
  qed
qed

lemma win_spin_ends:
  assumes "win_clock_ok W t f G D"
  shows "G \<le> t (wt_os w) \<Longrightarrow> freq_ok f w \<Longrightarrow> t (wt_os w) \<le> U + 3 * D \<Longrightarrow> unat deadline + G \<le> U \<Longrightarrow> U + 5 * D < 2 ^ 63
    \<Longrightarrow> \<exists>w'. win_spin_until W deadline w = Some w' \<and> unat deadline \<le> t (wt_os w') \<and> t (wt_os w') \<le> U + 5 * D"
proof (induction "unat deadline + G - t (wt_os w)" arbitrary: w rule: less_induct)
  case less
  have "t (wt_os w) + D < 2 ^ 63" using less.prems by simp
  then obtain now w1 where n: "win_now_ns W w = (now, w1)" "unat now \<le> t (wt_os w)" "t (wt_os w) < unat now + G"
      "t (wt_os w) < t (wt_os w1)" "t (wt_os w1) \<le> t (wt_os w) + 2 * D" "freq_ok f w1"
    using win_now_reads [OF assms _ less.prems(2)] by blast
  have nz: "now \<noteq> 0" using n(3) less.prems(1) by auto
  show ?case
  proof (cases "deadline \<le> now")
    case True
    then have "unat deadline \<le> unat now" by (simp add: word_le_nat_alt)
    then show ?thesis using n less.prems True by (subst win_spin_until.simps) simp
  next
    case False
    then have "t (wt_os w) < unat deadline + G" using n(3) by (simp add: word_le_nat_alt)
    then have "\<exists>w'. win_spin_until W deadline w1 = Some w' \<and> unat deadline \<le> t (wt_os w') \<and> t (wt_os w') \<le> U + 5 * D"
      using n(4-6) less.prems by (intro less.hyps) simp_all
    then show ?thesis using n(1) nz False by (subst win_spin_until.simps) simp
  qed
qed

lemma win_sleep_ms_bounds:
  assumes "1000000 < r" "unat r < (2 ^ 32 - 1) * 10 ^ 6 + 10 ^ 6"
  shows "win_sleep_ms r \<noteq> -1" "unat (win_sleep_ms r) * 10 ^ 6 \<le> unat r"
proof -
  have r: "10 ^ 6 < unat r" using assms(1) by (simp add: word_less_nat_alt)
  have "unat ((r - 1000000) div 1000000) = (unat r - 10 ^ 6) div 10 ^ 6"
    using assms(1) by (simp add: unat_div unat_sub)
  moreover have q: "(unat r - 10 ^ 6) div 10 ^ 6 < 2 ^ 32 - 1"
    using assms(2) r by (simp add: div_less_iff_less_mult)
  ultimately have u: "unat (ucast ((r - 1000000) div 1000000) :: u32) = (unat r - 10 ^ 6) div 10 ^ 6"
    by (simp add: unsigned_ucast_eq take_bit_nat_eq_self)
  have "(-1 :: u32) = 0xFFFFFFFF" by simp
  then have "unat (-1 :: u32) = 2 ^ 32 - 1" by (simp only:) simp
  then show "win_sleep_ms r \<noteq> -1" using u q by (auto simp: win_sleep_ms_def Let_def)
  have "(unat r - 10 ^ 6) div 10 ^ 6 * 10 ^ 6 \<le> unat r" by (rule le_trans [OF div_times_less_eq_dividend]) simp
  then show "unat (win_sleep_ms r) * 10 ^ 6 \<le> unat r" using u r by (simp add: win_sleep_ms_def Let_def)
qed

lemma win_sleep_until_ends:
  assumes "win_clock_ok W t f G D"
  shows "G \<le> t (wt_os w) \<Longrightarrow> freq_ok f w \<Longrightarrow> t (wt_os w) \<le> U + 3 * D \<Longrightarrow> unat deadline + G \<le> U \<Longrightarrow> U + 5 * D < 2 ^ 63
    \<Longrightarrow> unat deadline + G < t (wt_os w) + (2 ^ 32 - 1) * 10 ^ 6
    \<Longrightarrow> \<exists>w'. win_sleep_until_ns W deadline spin w = Some w' \<and> unat deadline \<le> t (wt_os w') \<and> t (wt_os w') \<le> U + 5 * D"
proof (induction "unat deadline + G - t (wt_os w)" arbitrary: w rule: less_induct)
  case less
  have "t (wt_os w) + D < 2 ^ 63" using less.prems by simp
  then obtain now w1 where n: "win_now_ns W w = (now, w1)" "unat now \<le> t (wt_os w)" "t (wt_os w) < unat now + G"
      "t (wt_os w) < t (wt_os w1)" "t (wt_os w1) \<le> t (wt_os w) + 2 * D" "freq_ok f w1"
    using win_now_reads [OF assms _ less.prems(2)] by blast
  have nz: "now \<noteq> 0" using n(3) less.prems(1) by auto
  note step = win_sleep_until_ns.simps [of W deadline spin w]
  show ?case
  proof (cases "deadline \<le> now")
    case True
    then have "unat deadline \<le> unat now" by (simp add: word_le_nat_alt)
    then show ?thesis using n less.prems True by (subst step) simp
  next
    case False
    let ?r = "deadline - now"
    have lt: "unat now < unat deadline" using False by (simp add: word_le_nat_alt)
    have r: "unat ?r = unat deadline - unat now" using False by (simp add: unat_sub)
    have again: "\<exists>w'. win_sleep_until_ns W deadline spin w2 = Some w' \<and> unat deadline \<le> t (wt_os w') \<and> t (wt_os w') \<le> U + 5 * D"
      if "freq_ok f w2" "t (wt_os w1) \<le> t (wt_os w2)" "t (wt_os w2) \<le> U + 3 * D" for w2
      using that n(3,4) lt less.prems by (intro less.hyps) simp_all
    have top: "t (wt_os w1) < 2 ^ 63" using n(3,5) lt less.prems(4,5) by linarith
    consider (sleep) "1000000 < ?r" | (spin) "\<not> 1000000 < ?r" "0 < spin \<and> ?r \<le> ucast spin"
      | (yield) "\<not> 1000000 < ?r" "\<not> (0 < spin \<and> ?r \<le> ucast spin)" by blast
    then show ?thesis
    proof cases
      case sleep
      have "unat ?r < (2 ^ 32 - 1) * 10 ^ 6 + 10 ^ 6" using r less.prems(6) n(3) lt by linarith
      note ms = win_sleep_ms_bounds [OF sleep this]
      obtain e2 where e2: "win_Sleep W (win_sleep_ms ?r) (wt_os w1) = Some e2" "t (wt_os w1) \<le> t e2"
          "t e2 \<le> t (wt_os w1) + unat (win_sleep_ms ?r) * 10 ^ 6 + D"
        using assms top ms(1) unfolding win_clock_ok_def by meson
      have "t e2 \<le> U + 3 * D" using e2(3) ms(2) r lt n(3,5) less.prems(4) by linarith
      then show ?thesis
        using again [of "w1\<lparr>wt_os := e2\<rparr>"] e2 n(1,6) nz False sleep by (subst step) (simp add: win_sleep_def)
    next
      case spin
      have "\<exists>w'. win_spin_until W deadline w1 = Some w' \<and> unat deadline \<le> t (wt_os w') \<and> t (wt_os w') \<le> U + 5 * D"
        using n(3-6) lt less.prems by (intro win_spin_ends [OF assms]) linarith+
      then show ?thesis using n(1) nz False spin by (subst step) auto
    next
      case yield
      have y: "t (wt_os w1) \<le> t (SwitchToThread W (wt_os w1))" "t (SwitchToThread W (wt_os w1)) \<le> t (wt_os w1) + D"
        using assms top unfolding win_clock_ok_def by blast+
      have "t (SwitchToThread W (wt_os w1)) \<le> U + 3 * D" using y(2) n(3,5) lt less.prems(4) by linarith
      then show ?thesis
        using again [of "w1\<lparr>wt_os := SwitchToThread W (wt_os w1)\<rparr>"] y(1) n(1,6) nz False yield by (subst step) auto
    qed
  qed
qed

text \<open>
  The sleep on Windows returns, not before the deadline, and later than the deadline (or than the
  time of the call) by no more than the resolution of the counter and five calls of the system: the
  milliseconds are rounded down, so there is no millisecond in excess as in the Linux variant. The bound on the
  deadline excludes the 32-bit count of milliseconds from being \<^verbatim>\<open>INFINITE\<close>.
\<close>

theorem win_sleep_until_on_time:
  assumes "win_clock_ok W t f G D" "G \<le> t (wt_os w)" "freq_ok f w"
    and "unat deadline + G < t (wt_os w) + (2 ^ 32 - 1) * 10 ^ 6" "max (t (wt_os w)) (unat deadline + G) + 5 * D < 2 ^ 63"
  shows "\<exists>w'. win_sleep_until_ns W deadline spin w = Some w' \<and> unat deadline \<le> t (wt_os w')
    \<and> t (wt_os w') \<le> max (t (wt_os w)) (unat deadline + G) + 5 * D"
  using win_sleep_until_ends [OF assms(1-3), of "max (t (wt_os w)) (unat deadline + G)" deadline spin] assms(4,5) by simp

section \<open>The timer resolution is returned\<close>

text \<open>\<open>per\<close> is what the system documents of the requests: the multiset of the periods begun and not ended.\<close>

definition win_timers_ok :: "'e WinOS \<Rightarrow> ('e \<Rightarrow> u32 multiset) \<Rightarrow> bool" where
  "win_timers_ok W per \<longleftrightarrow> (\<forall>e p.
     (\<forall>ok e'. timeBeginPeriod W p e = (ok, e') \<longrightarrow> per e' = (if ok then add_mset p (per e) else per e))
     \<and> per (timeEndPeriod W p e) = per e - {#p#}
     \<and> (\<forall>m. per (SetThreadAffinityMask W m e) = per e) \<and> (\<forall>n. per (snd (SetThreadPriority W n e)) = per e))"

text \<open>The count agrees with the requests: while it is positive, one millisecond is requested.\<close>

definition timer_counted :: "('e \<Rightarrow> u32 multiset) \<Rightarrow> 'e WinTime \<Rightarrow> bool" where
  "timer_counted per w \<longleftrightarrow> 0 \<le> g_timer_res_refcount w \<and> g_timer_res_refcount w < 2 ^ 31 - 1
     \<and> (0 < g_timer_res_refcount w \<longrightarrow> 1 \<in># per (wt_os w))"

lemma win_long_id: "- (2 ^ 31) \<le> x \<Longrightarrow> x < 2 ^ 31 \<Longrightarrow> win_long x = x"
  by (simp add: win_long_def)

text \<open>What a thread has acquired, as the difference in count and requests.\<close>

definition timer_delta :: "u32 \<Rightarrow> ('e \<Rightarrow> u32 multiset) \<Rightarrow> 'e WinTime \<Rightarrow> int \<times> u32 multiset" where
  "timer_delta p per w = (if p = 1 then (1, if g_timer_res_refcount w = 0 then {#1#} else {#}) else (0, {#p#}))"

lemma acquire_timer_spec:
  assumes "win_timers_ok W per" "timer_counted per w" "acquire_timer W p w = (acquired, w1)"
  shows "if acquired then 0 < p \<and> p \<in># per (wt_os w1) \<and> g_timer_res_refcount w1 = g_timer_res_refcount w + fst (timer_delta p per w)
       \<and> per (wt_os w1) = per (wt_os w) + snd (timer_delta p per w)
     else g_timer_res_refcount w1 = g_timer_res_refcount w \<and> per (wt_os w1) = per (wt_os w)"
proof -
  have c: "0 \<le> g_timer_res_refcount w" "g_timer_res_refcount w < 2 ^ 31 - 1" "0 < g_timer_res_refcount w \<Longrightarrow> 1 \<in># per (wt_os w)"
    using assms(2) by (simp_all add: timer_counted_def)
  have l: "win_long (g_timer_res_refcount w + 1) = g_timer_res_refcount w + 1" "win_long 0 = 0"
    using c(1,2) by (simp_all add: win_long_id)
  have b: "per e' = (if ok then add_mset q (per e) else per e)" if "timeBeginPeriod W q e = (ok, e')" for q e ok e'
    using assms(1) that unfolding win_timers_ok_def by blast
  consider "p = 0" | "p = 1" "g_timer_res_refcount w = 0" | "p = 1" "0 < g_timer_res_refcount w" | "0 < p" "p \<noteq> 1"
    using c(1) by (fastforce simp: word_gt_0)
  then show ?thesis
  proof cases
    case 1
    then show ?thesis using assms(3) by (simp add: acquire_timer_def)
  next
    case 2
    obtain ok e where "timeBeginPeriod W 1 (wt_os w) = (ok, e)" by fastforce
    then show ?thesis using 2 assms(3) b [of 1 "wt_os w" ok e] l
      by (cases ok) (auto simp: acquire_timer_def win_begin_timer_resolution_1ms_def timer_delta_def Let_def)
  next
    case 3
    then show ?thesis using assms(3) c(3) l(1)
      by (auto simp: acquire_timer_def win_begin_timer_resolution_1ms_def timer_delta_def Let_def)
  next
    case 4
    obtain ok e where "timeBeginPeriod W p (wt_os w) = (ok, e)" by fastforce
    then show ?thesis using 4 assms(3) b [of p "wt_os w" ok e]
      by (cases ok) (auto simp: acquire_timer_def timer_delta_def)
  qed
qed

lemma release_timer_spec:
  assumes "win_timers_ok W per" "0 \<le> r" "r < 2 ^ 31 - 1"
    and "g_timer_res_refcount w = r + (if p = 1 then 1 else 0)" "per (wt_os w) = P + (if p = 1 \<and> r \<noteq> 0 then {#} else {#p#})"
  shows "g_timer_res_refcount (release_timer W p w) = r \<and> per (wt_os (release_timer W p w)) = P"
  using assms win_long_id [of r]
  by (auto simp: release_timer_def win_end_timer_resolution_1ms_def win_timers_ok_def Let_def)

lemma settle_thread_spec:
  assumes "win_timers_ok W per"
  shows "per (wt_os (settle_thread W params w)) = per (wt_os w)
    \<and> g_timer_res_refcount (settle_thread W params w) = g_timer_res_refcount w"
  using assms
  by (simp add: settle_thread_def plat_thread_apply_priority_windows_def case_prod_unfold win_timers_ok_def Let_def)

text \<open>
  A thread returns the timer resolution it asked for. Its function runs with the requested
  resolution if the system granted it; when the function returns, having left the count and the
  requests as it found them, the thread ends with the same count and the same requests as
  before it started, whether the system had granted, refused or shared the resolution.
\<close>

theorem win_thread_returns_timer:
  assumes "win_timers_ok W per" "timer_counted per w"
    and "\<forall>w w'. f w = Some w' \<longrightarrow> per (wt_os w') = per (wt_os w) \<and> g_timer_res_refcount w' = g_timer_res_refcount w"
    and "plat_thread_entry W params (Some f) w = Some w'"
  shows "per (wt_os w') = per (wt_os w) \<and> g_timer_res_refcount w' = g_timer_res_refcount w
    \<and> (\<exists>w3 w4. f w3 = Some w4 \<and> (fst (acquire_timer W (rp_timer_resolution_ms params) w) \<longrightarrow>
           rp_timer_resolution_ms params \<in># per (wt_os w3)))"
proof -
  let ?p = "rp_timer_resolution_ms params"
  obtain acq w1 where a: "acquire_timer W ?p w = (acq, w1)" by fastforce
  note acquired = acquire_timer_spec [OF assms(1,2) a]
  let ?w3 = "settle_thread W params w1"
  obtain w4 where w4: "f ?w3 = Some w4" "w' = (if acq then release_timer W ?p w4 else w4)"
    using assms(4) a by (auto simp: plat_thread_entry_def Let_def split: bind_splits)
  note settled = settle_thread_spec [OF assms(1), of params w1]
  have same: "per (wt_os w4) = per (wt_os w1)" "g_timer_res_refcount w4 = g_timer_res_refcount w1"
    using assms(3) w4(1) settled by auto
  have "per (wt_os w') = per (wt_os w) \<and> g_timer_res_refcount w' = g_timer_res_refcount w"
  proof (cases acq)
    case True
    then have "g_timer_res_refcount (release_timer W ?p w4) = g_timer_res_refcount w \<and> per (wt_os (release_timer W ?p w4)) = per (wt_os w)"
      using acquired same assms(2)
      by (intro release_timer_spec [OF assms(1)]) (auto simp: timer_counted_def timer_delta_def)
    then show ?thesis using w4(2) True by simp
  qed (use acquired w4(2) same in simp)
  moreover have "fst (acquire_timer W ?p w) \<longrightarrow> ?p \<in># per (wt_os ?w3)"
    unfolding a fst_conv using acquired settled [THEN conjunct1, symmetric] by (cases acq) metis+
  ultimately show ?thesis using w4(1) by blast
qed

section \<open>A system for the examples\<close>

text \<open>A clock of ten megahertz on which only reading takes time, and a list of the requested periods.\<close>

definition ideal_windows :: "(nat \<times> u32 multiset) WinOS" where
  "ideal_windows = \<lparr>QueryPerformanceFrequency = (\<lambda>e. (Some 10000000, e)),
     QueryPerformanceCounter = (\<lambda>(t, p). (of_nat (t div 100), (t + 1, p))),
     win_Sleep = (\<lambda>ms (t, p). if ms = -1 then None else Some (t + unat ms * 10 ^ 6, p)), SwitchToThread = (\<lambda>e. e),
     timeBeginPeriod = (\<lambda>n (t, p). (True, (t, add_mset n p))), timeEndPeriod = (\<lambda>n (t, p). (t, p - {#n#})),
     SetThreadAffinityMask = (\<lambda>m e. e), SetThreadPriority = (\<lambda>n e. (True, e))\<rparr>"

lemma ideal_windows_ok: "win_clock_ok ideal_windows fst 10000000 100 1" "win_timers_ok ideal_windows snd"
proof -
  have "unat (of_nat (t div 100) :: u64) * 10 ^ 9 div 10000000 = t div 100 * 100" if "t < 2 ^ 63" for t
  proof -
    have "t div 100 < 2 ^ 64" using that by (auto intro: le_less_trans [OF div_le_dividend])
    then show ?thesis by (simp add: unat_of_nat_small)
  qed
  moreover have "t < 100 * (t div 100) + 100" for t :: nat by (metis add.commute dividend_less_times_div zero_less_numeral)
  ultimately show "win_clock_ok ideal_windows fst 10000000 100 1" by (simp add: win_clock_ok_def ideal_windows_def)
  show "win_timers_ok ideal_windows snd" by (auto simp: win_timers_ok_def ideal_windows_def)
qed

lemma win_sleep_until_on_time_witness:
  "\<exists>w'. win_sleep_until_ns ideal_windows 5000000 50000 \<lparr>wt_os = (1000, {#}), cached_freq = 0, g_timer_res_refcount = 0\<rparr> = Some w'
     \<and> 5000000 \<le> fst (wt_os w') \<and> fst (wt_os w') \<le> 5000105"
  using win_sleep_until_on_time [OF ideal_windows_ok(1),
      of "\<lparr>wt_os = (1000, {#}), cached_freq = 0, g_timer_res_refcount = 0\<rparr>" 5000000 50000] by simp

lemma win_thread_returns_timer_witness:
  "\<exists>w'. plat_thread_entry ideal_windows (plat_thread_ex_defaults\<lparr>rp_timer_resolution_ms := 1\<rparr>) (Some Some)
      \<lparr>wt_os = (0, {#5#}), cached_freq = 0, g_timer_res_refcount = 0\<rparr> = Some w' \<and> snd (wt_os w') = {#5#}"
proof -
  let ?p = "plat_thread_ex_defaults\<lparr>rp_timer_resolution_ms := 1\<rparr>" and ?w = "\<lparr>wt_os = (0, {#5#}), cached_freq = 0, g_timer_res_refcount = 0\<rparr>"
  have c: "timer_counted snd ?w" by (simp add: timer_counted_def)
  obtain w' where r: "plat_thread_entry ideal_windows ?p (Some Some) ?w = Some w'"
    by (cases "acquire_timer ideal_windows 1 ?w") (simp add: plat_thread_entry_def plat_thread_ex_defaults_def Let_def)
  show ?thesis using win_thread_returns_timer [OF ideal_windows_ok(2) c _ r] r by auto
qed

end
