(* ===== verification/Plat_Atomic.thy ===== *)
theory Plat_Atomic
  imports PLC_Prelude
begin

text \<open>
  Atomic cells: \<^verbatim>\<open>core/platform/platform_atomic.h\<close>, in both variants. On Windows a cell is a
  \<^verbatim>\<open>LONG\<close> or \<^verbatim>\<open>LONGLONG\<close>, a signed number whatever the type of the value, and the operations are
  the interlocked functions with casts around them; on Linux they are the generic functions of
  \<^verbatim>\<open>stdatomic.h\<close>. The contract of a cell is the locale \<open>atomic_cell\<close>; both variants of every type meet it.
  The models with several threads take an access of a cell as one step, which is what
  the contract says of it.
\<close>

section \<open>The interlocked functions and the C11 functions\<close>

text \<open>A signed number of \<open>n\<close> bits; the interlocked addition wraps around.\<close>

definition wrap_signed :: "nat \<Rightarrow> int \<Rightarrow> int" where
  "wrap_signed n x = (x + 2 ^ (n - 1)) mod 2 ^ n - 2 ^ (n - 1)"

definition InterlockedExchange :: "int \<Rightarrow> int \<Rightarrow> int \<times> int" where
  "InterlockedExchange c x = (c, x)"

definition InterlockedCompareExchange :: "int \<Rightarrow> int \<Rightarrow> int \<Rightarrow> int \<times> int" where
  "InterlockedCompareExchange c exchange comparand = (c, if c = comparand then exchange else c)"

definition InterlockedExchangeAdd :: "nat \<Rightarrow> int \<Rightarrow> int \<Rightarrow> int \<times> int" where
  "InterlockedExchangeAdd n c x = (c, wrap_signed n (c + x))"

definition atomic_exchange :: "'v \<Rightarrow> 'v \<Rightarrow> 'v \<times> 'v" where
  "atomic_exchange c x = (c, x)"

definition atomic_compare_exchange_strong :: "'v \<Rightarrow> 'v \<Rightarrow> 'v \<Rightarrow> bool \<times> 'v" where
  "atomic_compare_exchange_strong c expected desired = (c = expected, if c = expected then desired else c)"

definition atomic_fetch_add :: "('v \<Rightarrow> 'v \<Rightarrow> 'v) \<Rightarrow> 'v \<Rightarrow> 'v \<Rightarrow> 'v \<times> 'v" where
  "atomic_fetch_add add c x = (c, add c x)"

section \<open>The operations\<close>

text \<open>
  The five functions of a type: \<open>'c\<close> is the cell, \<open>'v\<close> the value. An addition is missing where the
  language does not define it.
\<close>

record ('c, 'v) atomic_ops =
  at_store :: "'c \<Rightarrow> 'v \<Rightarrow> 'c"
  at_load :: "'c \<Rightarrow> 'v \<times> 'c"
  at_exchange :: "'c \<Rightarrow> 'v \<Rightarrow> 'v \<times> 'c"
  at_cas :: "'c \<Rightarrow> 'v \<Rightarrow> 'v \<Rightarrow> bool \<times> 'c"
  at_fetch_add :: "('c \<Rightarrow> 'v \<Rightarrow> 'v \<times> 'c) option"

text \<open>\<^verbatim>\<open>int32_t\<close> and \<^verbatim>\<open>int64_t\<close> are the types of the cells themselves.\<close>

definition win_signed :: "nat \<Rightarrow> (int, int) atomic_ops" where
  "win_signed n = \<lparr>at_store = (\<lambda>c x. snd (InterlockedExchange c x)),
     at_load = (\<lambda>c. InterlockedCompareExchange c 0 0),
     at_exchange = InterlockedExchange,
     at_cas = (\<lambda>c expected desired. let (old, c') = InterlockedCompareExchange c desired expected in (old = expected, c')),
     at_fetch_add = Some (InterlockedExchangeAdd n)\<rparr>"

definition win_i32 :: "(int, int) atomic_ops" where "win_i32 = win_signed 32"
definition win_i64 :: "(int, int) atomic_ops" where "win_i64 = win_signed 64"

text \<open>The unsigned types are cast to the cell's type and back.\<close>

definition win_unsigned :: "nat \<Rightarrow> (int, 'a::len word) atomic_ops" where
  "win_unsigned n = \<lparr>at_store = (\<lambda>c x. snd (InterlockedExchange c (sint x))),
     at_load = (\<lambda>c. let (old, c') = InterlockedCompareExchange c 0 0 in (word_of_int old, c')),
     at_exchange = (\<lambda>c x. let (old, c') = InterlockedExchange c (sint x) in (word_of_int old, c')),
     at_cas = (\<lambda>c expected desired.
       let (old, c') = InterlockedCompareExchange c (sint desired) (sint expected) in (old = sint expected, c')),
     at_fetch_add = Some (\<lambda>c x. let (old, c') = InterlockedExchangeAdd n c (sint x) in (word_of_int old, c'))\<rparr>"

definition win_u32 :: "(int, u32) atomic_ops" where "win_u32 = win_unsigned 32"
definition win_u64 :: "(int, u64) atomic_ops" where "win_u64 = win_unsigned 64"

definition win_bool :: "(int, bool) atomic_ops" where
  "win_bool = \<lparr>at_store = (\<lambda>c x. snd (InterlockedExchange c (if x then 1 else 0))),
     at_load = (\<lambda>c. let (old, c') = InterlockedCompareExchange c 0 0 in (old \<noteq> 0, c')),
     at_exchange = (\<lambda>c x. let (old, c') = InterlockedExchange c (if x then 1 else 0) in (old \<noteq> 0, c')),
     at_cas = (\<lambda>c expected desired.
       let exp_val = (if expected then 1 else 0); desired_val = (if desired then 1 else 0);
           (old, c') = InterlockedCompareExchange c desired_val exp_val in (old = exp_val, c')),
     at_fetch_add = Some (\<lambda>c x. let (old, c') = InterlockedExchangeAdd 32 c (if x then 1 else 0) in (old \<noteq> 0, c'))\<rparr>"

text \<open>The C11 addition is not defined for \<^verbatim>\<open>atomic_bool\<close>.\<close>

definition c11_ops :: "('v \<Rightarrow> 'v \<Rightarrow> 'v) option \<Rightarrow> ('v, 'v) atomic_ops" where
  "c11_ops add = \<lparr>at_store = (\<lambda>c x. x), at_load = (\<lambda>c. (c, c)), at_exchange = atomic_exchange,
     at_cas = atomic_compare_exchange_strong, at_fetch_add = map_option atomic_fetch_add add\<rparr>"

definition c11_i32 :: "(int, int) atomic_ops" where "c11_i32 = c11_ops (Some (\<lambda>c x. wrap_signed 32 (c + x)))"
definition c11_u32 :: "(u32, u32) atomic_ops" where "c11_u32 = c11_ops (Some (+))"
definition c11_i64 :: "(int, int) atomic_ops" where "c11_i64 = c11_ops (Some (\<lambda>c x. wrap_signed 64 (c + x)))"
definition c11_u64 :: "(u64, u64) atomic_ops" where "c11_u64 = c11_ops (Some (+))"
definition c11_bool :: "(bool, bool) atomic_ops" where "c11_bool = c11_ops None"

section \<open>The contract of a cell\<close>

text \<open>A program on one cell, what it observes, and what it should observe of a value.\<close>

datatype 'v at_op = A_Store 'v | A_Load | A_Exchange 'v | A_Cas 'v 'v | A_Add 'v

datatype 'v at_result = R_None | R_Val 'v | R_Bool bool

fun at_do :: "('c, 'v) atomic_ops \<Rightarrow> 'v at_op \<Rightarrow> 'c \<Rightarrow> 'v at_result \<times> 'c" where
  "at_do A (A_Store x) c = (R_None, at_store A c x)"
| "at_do A A_Load c = (let (v, c') = at_load A c in (R_Val v, c'))"
| "at_do A (A_Exchange x) c = (let (v, c') = at_exchange A c x in (R_Val v, c'))"
| "at_do A (A_Cas e d) c = (let (b, c') = at_cas A c e d in (R_Bool b, c'))"
| "at_do A (A_Add x) c =
     (case at_fetch_add A of None \<Rightarrow> (R_None, c) | Some f \<Rightarrow> (let (v, c') = f c x in (R_Val v, c')))"

fun at_run :: "('c, 'v) atomic_ops \<Rightarrow> 'v at_op list \<Rightarrow> 'c \<Rightarrow> 'v at_result list \<times> 'c" where
  "at_run A [] c = ([], c)"
| "at_run A (p # ps) c = (let (r, c') = at_do A p c; (rs, c'') = at_run A ps c' in (r # rs, c''))"

fun values_of :: "'v at_op \<Rightarrow> 'v set" where
  "values_of (A_Store x) = {x}"
| "values_of A_Load = {}"
| "values_of (A_Exchange x) = {x}"
| "values_of (A_Cas e d) = {e, d}"
| "values_of (A_Add x) = {x}"

fun is_add :: "'v at_op \<Rightarrow> bool" where
  "is_add (A_Add x) = True"
| "is_add p = False"

fun value_do :: "('v \<Rightarrow> 'v \<Rightarrow> 'v) \<Rightarrow> 'v at_op \<Rightarrow> 'v \<Rightarrow> 'v at_result \<times> 'v" where
  "value_do add (A_Store x) v = (R_None, x)"
| "value_do add A_Load v = (R_Val v, v)"
| "value_do add (A_Exchange x) v = (R_Val v, x)"
| "value_do add (A_Cas e d) v = (R_Bool (v = e), if v = e then d else v)"
| "value_do add (A_Add x) v = (R_Val v, add v x)"

fun value_run :: "('v \<Rightarrow> 'v \<Rightarrow> 'v) \<Rightarrow> 'v at_op list \<Rightarrow> 'v \<Rightarrow> 'v at_result list \<times> 'v" where
  "value_run add [] v = ([], v)"
| "value_run add (p # ps) v = (let (r, v') = value_do add p v; (rs, v'') = value_run add ps v' in (r # rs, v''))"

text \<open>
  \<open>inv\<close> are the states a cell can be in and \<open>val\<close> the value in it; \<open>dom\<close> are the values of the
  type, and \<open>adds\<close> says whether the type has an addition.
\<close>

locale atomic_cell =
  fixes A :: "('c, 'v) atomic_ops"
    and inv :: "'c \<Rightarrow> bool"
    and val :: "'c \<Rightarrow> 'v"
    and dom :: "'v \<Rightarrow> bool"
    and add :: "'v \<Rightarrow> 'v \<Rightarrow> 'v"
    and adds :: bool
  assumes store: "inv c \<Longrightarrow> dom x \<Longrightarrow> inv (at_store A c x) \<and> val (at_store A c x) = x"
    and load: "inv c \<Longrightarrow> at_load A c = (val c, c)"
    and exchange: "inv c \<Longrightarrow> dom x \<Longrightarrow> \<exists>c'. at_exchange A c x = (val c, c') \<and> inv c' \<and> val c' = x"
    and cas: "inv c \<Longrightarrow> dom e \<Longrightarrow> dom d \<Longrightarrow>
      \<exists>c'. at_cas A c e d = (val c = e, c') \<and> inv c' \<and> val c' = (if val c = e then d else val c)"
    and fetch_add: "adds \<Longrightarrow> inv c \<Longrightarrow> dom x \<Longrightarrow>
      \<exists>f c'. at_fetch_add A = Some f \<and> f c x = (val c, c') \<and> inv c' \<and> val c' = add (val c) x"
begin

lemma do_value:
  assumes "inv c" "\<forall>x \<in> values_of p. dom x" "\<not> is_add p \<or> adds"
  shows "\<exists>c'. at_do A p c = (fst (value_do add p (val c)), c') \<and> inv c' \<and> val c' = snd (value_do add p (val c))"
proof (cases p)
  case (A_Store x)
  then show ?thesis using store [OF assms(1), of x] assms(2) by simp
next
  case A_Load
  then show ?thesis using load [OF assms(1)] assms(1) by simp
next
  case (A_Exchange x)
  then obtain c' where "at_exchange A c x = (val c, c')" "inv c'" "val c' = x"
    using exchange [OF assms(1), of x] assms(2) by auto
  then show ?thesis using A_Exchange by simp
next
  case (A_Cas e d)
  then obtain c' where "at_cas A c e d = (val c = e, c')" "inv c'" "val c' = (if val c = e then d else val c)"
    using cas [OF assms(1), of e d] assms(2) by auto
  then show ?thesis using A_Cas by simp
next
  case (A_Add x)
  then obtain f c' where "at_fetch_add A = Some f" "f c x = (val c, c')" "inv c'" "val c' = add (val c) x"
    using fetch_add [OF _ assms(1), of x] assms(2,3) by auto
  then show ?thesis using A_Add by simp
qed

text \<open>A program observes what it would observe of the value.\<close>

lemma run_value:
  "inv c \<Longrightarrow> \<forall>p \<in> set ps. (\<forall>x \<in> values_of p. dom x) \<and> (\<not> is_add p \<or> adds) \<Longrightarrow>
     \<exists>c'. at_run A ps c = (fst (value_run add ps (val c)), c') \<and> inv c' \<and> val c' = snd (value_run add ps (val c))"
proof (induction ps arbitrary: c)
  case (Cons p ps)
  obtain c1 where 1: "at_do A p c = (fst (value_do add p (val c)), c1)" "inv c1" "val c1 = snd (value_do add p (val c))"
    using do_value [OF Cons.prems(1), of p] Cons.prems(2) by auto
  obtain c2 where "at_run A ps c1 = (fst (value_run add ps (val c1)), c2)" "inv c2" "val c2 = snd (value_run add ps (val c1))"
    using Cons.IH [OF 1(2)] Cons.prems(2) by auto
  then show ?case using 1 by (auto simp: case_prod_unfold Let_def)
qed simp

end

section \<open>Every variant meets the contract\<close>

definition in_signed :: "nat \<Rightarrow> int \<Rightarrow> bool" where
  "in_signed n x \<longleftrightarrow> - (2 ^ (n - 1)) \<le> x \<and> x < 2 ^ (n - 1)"

lemma wrap_signed_range: "0 < n \<Longrightarrow> in_signed n (wrap_signed n x)"
  by (cases n) (simp_all add: in_signed_def wrap_signed_def)

interpretation win_i32: atomic_cell win_i32 "in_signed 32" id "in_signed 32" "\<lambda>c x. wrap_signed 32 (c + x)" True
  using wrap_signed_range [of 32]
  by unfold_locales
    (auto simp: win_i32_def win_signed_def InterlockedExchange_def InterlockedCompareExchange_def InterlockedExchangeAdd_def)

interpretation win_i64: atomic_cell win_i64 "in_signed 64" id "in_signed 64" "\<lambda>c x. wrap_signed 64 (c + x)" True
  using wrap_signed_range [of 64]
  by unfold_locales
    (auto simp: win_i64_def win_signed_def InterlockedExchange_def InterlockedCompareExchange_def InterlockedExchangeAdd_def)

interpretation c11: atomic_cell "c11_ops (Some add)" "\<lambda>_. True" id "\<lambda>_. True" add True for add
  by unfold_locales (auto simp: c11_ops_def atomic_exchange_def atomic_compare_exchange_strong_def atomic_fetch_add_def)

interpretation c11_bool: atomic_cell c11_bool "\<lambda>_. True" id "\<lambda>_. True" add False for add
  by unfold_locales (auto simp: c11_bool_def c11_ops_def atomic_exchange_def atomic_compare_exchange_strong_def)

text \<open>A word and the signed number in the cell determine each other.\<close>

lemma sint_word_of_int_in: "in_signed LENGTH('a) c \<Longrightarrow> sint (word_of_int c :: 'a::len word) = c"
  by transfer (simp add: in_signed_def signed_take_bit_int_eq_self)

lemma in_signed_sint: "in_signed LENGTH('a) (sint (x :: 'a::len word))"
  using sint_range_size [of x] by (simp add: in_signed_def word_size)

lemma word_of_wrap_signed: "word_of_int (wrap_signed LENGTH('a) (c + sint x)) = (word_of_int c + x :: 'a::len word)"
proof -
  have "word_of_int (wrap_signed LENGTH('a) y) = (word_of_int y :: 'a word)" for y
    unfolding word_of_int_eq_iff wrap_signed_def by (simp add: take_bit_eq_mod mod_diff_left_eq)
  then show ?thesis by simp
qed

lemma win_unsigned_cell:
  "atomic_cell (win_unsigned LENGTH('a)) (in_signed LENGTH('a)) (word_of_int :: int \<Rightarrow> 'a::len word) (\<lambda>_. True) (+) True"
proof
  have eq: "(word_of_int c = e) = (c = sint e)" if "in_signed LENGTH('a) c" for c and e :: "'a word"
    using sint_word_of_int_in [OF that] by auto
  show "\<exists>c'. at_cas (win_unsigned LENGTH('a)) c e d = ((word_of_int c :: 'a word) = e, c') \<and> in_signed LENGTH('a) c'
      \<and> word_of_int c' = (if word_of_int c = e then d else (word_of_int c :: 'a word))"
    if "in_signed LENGTH('a) c" for c and e d :: "'a word"
    using eq [OF that, of e] that
    by (auto simp: win_unsigned_def InterlockedCompareExchange_def in_signed_sint)
  show "\<exists>f c'. at_fetch_add (win_unsigned LENGTH('a)) = Some f \<and> f c x = (word_of_int c :: 'a word, c') \<and> in_signed LENGTH('a) c'
      \<and> word_of_int c' = word_of_int c + x" if "in_signed LENGTH('a) c" for c and x :: "'a word"
    using wrap_signed_range [of "LENGTH('a)"]
    by (auto simp: win_unsigned_def InterlockedExchangeAdd_def word_of_wrap_signed)
qed (auto simp: win_unsigned_def InterlockedExchange_def InterlockedCompareExchange_def in_signed_sint)

interpretation win_u32: atomic_cell win_u32 "in_signed 32" word_of_int "\<lambda>_. True" "(+)" True
  using win_unsigned_cell [where 'a = 32] by (simp add: win_u32_def)

interpretation win_u64: atomic_cell win_u64 "in_signed 64" word_of_int "\<lambda>_. True" "(+)" True
  using win_unsigned_cell [where 'a = 64] by (simp add: win_u64_def)

text \<open>A flag is 0 or 1 as long as nothing is added to it.\<close>

interpretation win_bool: atomic_cell win_bool "\<lambda>c. c \<in> {0, 1}" "\<lambda>c. c \<noteq> 0" "\<lambda>_. True" add False for add
  by unfold_locales (auto simp: win_bool_def InterlockedExchange_def InterlockedCompareExchange_def)

section \<open>Properties\<close>

text \<open>
  C40. The two variants of the atomic cells cannot be told apart: a program of stores, loads,
  exchanges, compare-and-swaps and additions observes the same on a Windows cell, a signed number, as on
  a C11 cell of the type with the value it stands for; for the signed types as long as the
  program's values are in the range of the type, for flags as long as it does not add. An addition to a flag, which C11 does not
  define, leaves the value 2 in the Windows cell: it then loads as true but a compare-and-swap
  that expects true fails.
\<close>

theorem atomic_variants_agree:
  "(in_signed 32 c \<longrightarrow> fst (at_run win_u32 ps c) = fst (at_run c11_u32 ps (word_of_int c)))
   \<and> (in_signed 64 c \<longrightarrow> fst (at_run win_u64 qs c) = fst (at_run c11_u64 qs (word_of_int c)))
   \<and> (in_signed 32 c \<and> (\<forall>p \<in> set rs. \<forall>x \<in> values_of p. in_signed 32 x) \<longrightarrow> fst (at_run win_i32 rs c) = fst (at_run c11_i32 rs c))
   \<and> (in_signed 64 c \<and> (\<forall>p \<in> set rs. \<forall>x \<in> values_of p. in_signed 64 x) \<longrightarrow> fst (at_run win_i64 rs c) = fst (at_run c11_i64 rs c))
   \<and> (c \<in> {0, 1} \<and> (\<forall>p \<in> set bs. \<not> is_add p) \<longrightarrow> fst (at_run win_bool bs c) = fst (at_run c11_bool bs (c \<noteq> 0)))
   \<and> at_fetch_add c11_bool = None
   \<and> fst (at_run win_bool [A_Add True, A_Load, A_Cas True False] 1) = [R_Val True, R_Val True, R_Bool False]"
proof (intro conjI impI)
  show "fst (at_run win_u32 ps c) = fst (at_run c11_u32 ps (word_of_int c))" if "in_signed 32 c"
    using win_u32.run_value [OF that, of ps] c11.run_value [where ps = ps and c = "word_of_int c" and add = "(+)"] by (auto simp: c11_u32_def)
  show "fst (at_run win_u64 qs c) = fst (at_run c11_u64 qs (word_of_int c))" if "in_signed 64 c"
    using win_u64.run_value [OF that, of qs] c11.run_value [where ps = qs and c = "word_of_int c" and add = "(+)"] by (auto simp: c11_u64_def)
  show "fst (at_run win_i32 rs c) = fst (at_run c11_i32 rs c)"
    if "in_signed 32 c \<and> (\<forall>p \<in> set rs. \<forall>x \<in> values_of p. in_signed 32 x)"
    using win_i32.run_value [of c rs] c11.run_value [where ps = rs and c = c and add = "\<lambda>c x. wrap_signed 32 (c + x)"] that by (auto simp: c11_i32_def)
  show "fst (at_run win_i64 rs c) = fst (at_run c11_i64 rs c)"
    if "in_signed 64 c \<and> (\<forall>p \<in> set rs. \<forall>x \<in> values_of p. in_signed 64 x)"
    using win_i64.run_value [of c rs] c11.run_value [where ps = rs and c = c and add = "\<lambda>c x. wrap_signed 64 (c + x)"] that by (auto simp: c11_i64_def)
  show "fst (at_run win_bool bs c) = fst (at_run c11_bool bs (c \<noteq> 0))" if "c \<in> {0, 1} \<and> (\<forall>p \<in> set bs. \<not> is_add p)"
    using win_bool.run_value [where ps = bs and c = c and add = undefined]
      c11_bool.run_value [where ps = bs and c = "c \<noteq> 0" and add = undefined] that by auto
qed (simp_all add: c11_bool_def c11_ops_def win_bool_def InterlockedExchangeAdd_def InterlockedCompareExchange_def wrap_signed_def)

lemma atomic_variants_agree_witness:
  "fst (at_run win_u32 [A_Add 0xFFFFFFFF, A_Cas 4 9, A_Load] 5) = [R_Val 5, R_Bool True, R_Val 9]"
proof -
  have "in_signed 32 5" by (simp add: in_signed_def)
  then have "fst (at_run win_u32 [A_Add 0xFFFFFFFF, A_Cas 4 9, A_Load] 5)
      = fst (at_run c11_u32 [A_Add 0xFFFFFFFF, A_Cas 4 9, A_Load] (word_of_int 5))"
    using atomic_variants_agree [of 5 "[A_Add 0xFFFFFFFF, A_Cas 4 9, A_Load]"] by blast
  then show ?thesis
    by (simp add: c11_u32_def c11_ops_def atomic_fetch_add_def atomic_compare_exchange_strong_def)
qed

end
