(* ===== verification/Spec2Isabelle.thy ===== *)
theory Spec2Isabelle
  imports Tag_Tcp_Stop Tag_Typed Spsc_Concurrent Plat_Socket Sched_Queue Plant_Props Ec_Race Ec_Alone Ec_Diag Plat_Windows Plat_Atomic
begin

text \<open>
  A verification development for PLCMaster, a soft PLC in C: an application task reads and
  writes named \<^emph>\<open>tags\<close>, an EtherCAT driver exchanges their process image with the field
  devices, and a text service on a TCP socket gives remote access to the same tags. The model
  covers the code under \<^verbatim>\<open>src/PLCMaster/src\<close>; the paths below are relative to it.

  \<^bold>\<open>The program.\<close>
  \<^verbatim>\<open>main.c\<close> builds a runtime from a configuration (\<^verbatim>\<open>system/builder\<close>, \<^verbatim>\<open>app/config\<close>): one driver
  per configured backend, created by a factory, initialised, bound to its devices and mapped,
  then one tag per row of every device descriptor, per process variable, per HMI variable
  and per alias. It binds the application's views (structs of tag ids, \<^verbatim>\<open>app/io\<close>) by name,
  sets the stores to their initial values, registers the tasks and starts the backends. Three
  kinds of thread then run. The PLC thread (\<^verbatim>\<open>core/plc/plc_scheduler.c\<close>) calls in every cycle the
  \<open>cycle_begin\<close> hook (inputs are published to the PLC, remote requests are served), the
  periodic tasks that are due, and the \<open>cycle_end\<close> hook (outputs are published to the drivers). Each driver's
  real-time thread (\<^verbatim>\<open>backends/ethercat/ec_backend.c\<close>) sends the published outputs and receives inputs
  in a cycle of its own, through double buffers it shares with the PLC thread. The TCP thread turns lines into
  requests on a pair of lock-free rings (\<^verbatim>\<open>core/ipc\<close>), which the PLC thread drains.

  \<^bold>\<open>The theories.\<close>
  \<^item> Foundations. \<open>PLC_Prelude\<close>: C integer types, errno values, string functions, lemmas
    the components share. \<open>C_Stdlib\<close>: \<open>isspace\<close>, \<open>strtoul\<close>, \<open>strtof\<close> and the printf formats the text
    interfaces use.
  \<^item> Tags. \<open>Tag_Table\<close> (\<^verbatim>\<open>core/tag/tag_table.c\<close>): the table of 256 entries, with the locale
    \<open>tag_directory\<close> the builder, the binders and the RPC handler rely on. \<open>Runtime\<close>
    (\<^verbatim>\<open>core/runtime/runtime.c\<close>): table, value stores, drivers, and the loops over the drivers. \<open>Tag_Api\<close>
    (\<^verbatim>\<open>core/tag/tag_api.c\<close>): typed reads and writes by tag id. \<open>Tag_Access\<close>, \<open>Tag_Props\<close>, \<open>Tag_Typed\<close>: their laws.
  \<^item> Devices and drivers. \<open>Device_Desc\<close>, \<open>Device_L230\<close>, \<open>Device_L400\<close> (\<^verbatim>\<open>core/device\<close>, \<^verbatim>\<open>devices\<close>): the
    descriptors, PDO layouts computed from the packed structs. \<open>Backend_Iface\<close>
    (\<^verbatim>\<open>core/backend\<close>): the operation table of a driver as a record of optional functions, the registry,
    and the locale \<open>process_image\<close>, the contract of the data pointers. \<open>Ec_Soem\<close>
    (\<^verbatim>\<open>backends/ethercat/ec_soem_lifecycle.c\<close>), \<open>Ec_Backend\<close> (\<^verbatim>\<open>ec_backend.c\<close>): the EtherCAT driver. \<open>Ec_Image\<close>: the
    invariant of its buffers and the interpretation of \<open>process_image\<close> on it. \<open>Ec_Cycle\<close>, \<open>Ec_Reach\<close>,
    \<open>Ec_Fixed\<close>, \<open>Ec_Props\<close>: its cycle, its reachable states (\<open>ec_built\<close>, \<open>ec_run\<close>), what no operation changes, its guarantees. \<open>Ec_Concurrent\<close>: the
    PLC's thread and the real-time thread interleaved byte by byte (\<open>ec_conc\<close>); \<open>Ec_Race\<close>: a run of it with a
    torn frame; \<open>Ec_Alone\<close>: one thread of it alone does what the sequential model says. \<open>Ec_Diag\<close> (\<^verbatim>\<open>app/diag\<close>): the printed diagnostics.
  \<^item> Remote access. \<open>Spsc_Ring\<close> (\<^verbatim>\<open>core/ipc/spsc_ring.c\<close>): the ring as a bounded queue, locale
    \<open>bounded_queue\<close>; \<open>Spsc_Concurrent\<close>: the same code with producer and consumer interleaved. \<open>Tag_Rpc\<close>
    (\<^verbatim>\<open>tag_rpc.c\<close>, \<^verbatim>\<open>tag_rpc_plc.c\<close>): channel and request handler; \<open>Tag_Rpc_Props\<close>. \<open>Plat_Socket\<close>
    (\<^verbatim>\<open>core/platform/platform_socket.c\<close>). \<open>Tag_Tcp\<close> (\<^verbatim>\<open>services/tcp/tag_tcp_server.c\<close>), \<open>Tag_Tcp_Props\<close>,
    \<open>Tag_Tcp_Stop\<close> (its start and stop).
  \<^item> Scheduling and platform. \<open>Plc_Scheduler\<close>, \<open>Plc_Sched_Props\<close> (\<^verbatim>\<open>core/plc/plc_scheduler.c\<close>),
    \<open>Sched_Queue\<close> (its queue of added tasks with any number of threads); \<open>Plat_Time\<close>, \<open>Plat_Thread\<close>,
    \<open>Plat_Windows\<close>, \<open>Plat_Atomic\<close> (\<^verbatim>\<open>core/platform\<close>): clock, sleep and threads on Linux, the same on Windows,
    and the atomics of both as interpretations of the locale \<open>atomic_cell\<close>.
  \<^item> Building and running. \<open>System_Builder\<close> (\<^verbatim>\<open>system/builder/system_builder.c\<close>), \<open>Builder_Drivers\<close> (its driver
    phase, locale \<open>backend_builder\<close>), \<open>System_Static\<close> (the linked factory and descriptor tables, and the
    interpretation of \<open>backend_builder\<close>), \<open>Builder_Props\<close>. \<open>Config_Static\<close>
    (\<^verbatim>\<open>app/config/config_static.c\<close>), \<open>Store_Init\<close>, \<open>Plc_App\<close> (\<^verbatim>\<open>app\<close>), \<open>Plc_Main\<close> (\<^verbatim>\<open>main.c\<close>). \<open>Boot_Props\<close>,
    \<open>Static_Boot\<close>, \<open>Static_Props\<close>: the start-up. \<open>Plant\<close>: the whole program as a transition
    system; \<open>Plc_Task_Props\<close>, \<open>Plant_Props\<close>: what the tasks do, and what holds end to end.

  \<^bold>\<open>Conventions.\<close>
  Definitions carry the names of the C functions. State is passed explicitly; a function that returns a
  status returns the pair of the int and the new state. A pointer argument is the value it
  points to, an \<open>option\<close> where the code tests for NULL; a pointer into a buffer is a \<open>buf_addr\<close>, loaded and
  stored through the driver that owns the buffer, and SOEM's pointers into the process image are
  offsets. Fixed-width integers are words, status codes \<open>int\<close>, \<open>size_t\<close> is \<open>nat\<close>. An
  enum has an extra constructor \<open>..._OTHER\<close> for the values outside its list that a C enum can hold. C strings
  are \<open>string\<close>s without the terminator. The union \<open>TagRef\<close> is a datatype and \<open>TagValue\<close> the four bytes of its
  memory, so that reading a member other than the one written is what it is on the little-endian
  target; a float is its 32-bit pattern. \<open>rt_uninit\<close> stands for the unspecified contents of a local
  variable of the tag API. A C function pointer to a task or hook is an identifier interpreted
  by a record of functions. \<^verbatim>\<open>#ifdef\<close> variants are taken for Linux; those for Windows
  are in \<open>Plat_Windows\<close> and \<open>Plat_Atomic\<close>. Messages printed are left
  out.

  Third-party code is a parameter. The SOEM master is a record \<open>'x soem\<close> of functions over
  a context of which only the members the code touches are spelled out. What the proofs
  use of it are two hypotheses: \<open>soem_image_ok\<close> (receiving does not resize the process
  image, mapping keeps its length) and \<open>soem_map_ok\<close> (after a successful mapping the slaves' input and
  output areas lie inside the image); witnesses instantiate them with a concrete master. Answers of the
  operating system are arguments too: \<open>platform\<close> (allocation, thread creation), \<open>Clock\<close>, \<open>WinOS\<close>,
  \<open>posix_threads\<close>, \<open>Kernel\<close> and \<open>TcpEnv\<close>.

  \<^bold>\<open>What is shown.\<close>
  \<^item> Tag table: adding succeeds exactly under the conditions the code tests, ids are stable
    and lookup by name and access by id agree.
  \<^item> Tag API: a read returns the last write, a write changes no other tag, down to the bits of a shared
    byte, a failed call changes nothing, an alias behaves as its target, typed accesses round-trip,
    and what a typed access does to a tag of another width.
  \<^item> Start-up: every tag the builder registers can be read, the linked configuration comes up when its
    drivers do, initial values and factory reset, the heartbeat task, and a failed build leaves
    no driver behind.
  \<^item> The running program: in every reachable state all tags are served and the task succeeds, an
    output written by its tag is in the frame that is sent, or zero while a fault is latched, and the end of a run leaves zero outputs.
  \<^item> Drivers: what a failed start rolls back and what it leaves; between two operations the buffer the PLC writes is never the one
    marked for sending, and all buffers have the sizes of the device descriptors,
    inputs are delivered, for how long a snapshot is stable, also when the threads interleave inside a copy,
    and that a frame can be torn when the PLC overtakes the real-time thread; when a fault is latched, all-or-nothing mapping, a safe
    stop.
  \<^item> Remote access: the ring is a bounded queue also under every interleaving of its two threads; requests are served in order, failed ones have no effect, values round-trip through text; bytes are sent
    exactly once, a request over TCP is answered by its response, which lines are commands, the server's thread
    ends when it is told to.
  \<^item> Scheduler and platform: when a task runs, that the thread returns while the clock fits 32 bits
    and hangs beyond, the order of the hooks, the queue of added tasks, with several threads adding at once;
    a sleep ends in time on both systems, the counter conversion is exact, thread priorities are clamped, a thread
    returns the timer resolution it asked for, the two variants of the atomics agree.

  \<^bold>\<open>Bounds and termination.\<close>
  The constants are the code's: 256 tags of 127 characters, alias depth 4, 4 backends, 32 tasks and
  32 pending ones, rings of 64 messages, 16 requests served per cycle, 10 and 20 attempts for the state
  changes of the EtherCAT network. Loops over arrays are structural recursion; no definition uses fuel beyond a
  bound of the code. Loops that may run for ever are \<^theory_text>\<open>partial_function (option)\<close>: the wait for a response and
  the server's loop, the catch-up loop of the scheduler, the sleep and spin loops. That they end is proved
  where it is claimed, from hypotheses on what the environment does (the answer to a TCP request, the
  scheduler thread, the sleep); for the catch-up loop beyond 32 bits it is proved that it does not. The scheduler
  thread runs on the list of times its clock shows and returns when the list is used up.

  \<^bold>\<open>Interleaving.\<close>
  \<open>ec_run\<close> and \<open>plant\<close> interleave the operations of the PLC thread with whole cycles of the real-time
  threads, in any order; a cycle or a hook is one step there. Inside, the shared data of two threads are the driver's
  buffers, the rings and the scheduler's queue. In \<open>Ec_Concurrent\<close>, \<open>Spsc_Concurrent\<close> and \<open>Sched_Queue\<close> a step
  is one atomic access or one copied byte or structure member, in any order, and the ghost fields of the states
  (published images, sent elements, claimed slots) record what has happened. \<open>Ec_Alone\<close> ties the small
  steps to the whole cycles: without interruption the two have the same behaviours. The atomics are sequentially
  consistent, which is what \<^verbatim>\<open>core/platform/platform_atomic.h\<close> asks for; weaker orders of the plain accesses
  between them are not modelled.

  \<^bold>\<open>Not modelled.\<close>
  \<^verbatim>\<open>platform_mem.c\<close>, \<^verbatim>\<open>backends/modbus\<close>, \<^verbatim>\<open>core/status\<close> and \<^verbatim>\<open>core/rt\<close> (stubs without callers), the adapter
  list of SOEM (it only prints), \<^verbatim>\<open>app/plc/libs/temp_converter.c\<close> and \<open>process_analog_inputs\<close> (floating-point
  code nothing calls). Start and stop of a driver do not interleave with the inside of a cycle: \<open>ec_conc\<close> is the
  time between them. Closing a socket from the stopping thread appears as results of \<open>TcpEnv\<close>, so a call
  that blocks for ever on a closed descriptor does not.
\<close>

end
